(* ===== verification/Dip_Prelude.thy ===== *)
theory Dip_Prelude
  imports Main "HOL-Library.Char_ord" "HOL-Library.List_Lexorder"
begin

text \<open>
  Shared vocabulary of the development: the operations of Rust's \<open>str\<close>, the numbers it
  prints and parses, the JSON values of \<open>serde_json\<close> and its ordered object maps.

  A Rust \<open>str\<close> is its sequence of UTF-8 bytes, one \<open>char\<close> each, so lengths, slices and
  searches for ASCII patterns are exact. Case conversion and whitespace are those of the
  ASCII range: for text outside it \<open>to_lowercase\<close> and \<open>trim\<close> of Rust also know the
  Unicode tables, which are not modelled.
\<close>

named_theorems str_simps \<open>unfolding rules for the string operations\<close>

section \<open>Panics\<close>

text \<open>The outcome of code that may panic, as slicing and indexing do out of range.\<close>

datatype 'a exec = Panics | Returns 'a

text \<open>\<open>Result::and_then\<close>, and a map that stops at the first error (\<open>collect::<Result<_>>\<close>).\<close>

definition and_then :: "'e + 'a \<Rightarrow> ('a \<Rightarrow> 'e + 'b) \<Rightarrow> 'e + 'b" where
  "and_then r f = (case r of Inl e \<Rightarrow> Inl e | Inr a \<Rightarrow> f a)"

fun traverse :: "('a \<Rightarrow> 'e + 'b) \<Rightarrow> 'a list \<Rightarrow> 'e + 'b list" where
  "traverse f [] = Inr []"
| "traverse f (x # xs) = and_then (f x) (\<lambda>y. and_then (traverse f xs) (\<lambda>ys. Inr (y # ys)))"

lemma and_then_simps [simp]: "and_then (Inl e) f = Inl e" "and_then (Inr a) g = g a"
  by (simp_all add: and_then_def)

lemma and_then_Inr: "and_then r f = Inr b \<longleftrightarrow> (\<exists>a. r = Inr a \<and> f a = Inr b)"
  by (cases r) auto

lemma traverse_Inr: "traverse f xs = Inr ys \<longleftrightarrow> length ys = length xs \<and> (\<forall>i<length xs. f (xs ! i) = Inr (ys ! i))"
proof (induction xs arbitrary: ys)
  case (Cons x xs)
  show ?case by (cases ys) (auto simp: and_then_Inr Cons.IH nth_Cons less_Suc_eq_0_disj split: nat.split)
qed auto

definition bind_exec :: "'a exec \<Rightarrow> ('a \<Rightarrow> 'b exec) \<Rightarrow> 'b exec" where
  "bind_exec m f = (case m of Panics \<Rightarrow> Panics | Returns a \<Rightarrow> f a)"

lemma bind_exec_simps [simp]:
  "bind_exec Panics f = Panics"
  "bind_exec (Returns a) f = f a"
  by (simp_all add: bind_exec_def)

section \<open>Characters\<close>

abbreviation nl :: char where "nl \<equiv> CHR 0x0A"
abbreviation cr :: char where "cr \<equiv> CHR 0x0D"
abbreviation tab :: char where "tab \<equiv> CHR 0x09"
abbreviation spc :: char where "spc \<equiv> CHR 0x20"
abbreviation dquote :: char where "dquote \<equiv> CHR 0x22"
abbreviation squote :: char where "squote \<equiv> CHR 0x27"
abbreviation btick :: char where "btick \<equiv> CHR 0x60"
abbreviation bslash :: char where "bslash \<equiv> CHR 0x5C"

definition is_ws :: "char \<Rightarrow> bool" where
  "is_ws c \<longleftrightarrow> c = spc \<or> c = tab \<or> c = nl \<or> c = CHR 0x0B \<or> c = CHR 0x0C \<or> c = cr"

definition is_digit :: "char \<Rightarrow> bool" where
  "is_digit c \<longleftrightarrow> 48 \<le> (of_char c :: nat) \<and> (of_char c :: nat) \<le> 57"

definition is_upper :: "char \<Rightarrow> bool" where
  "is_upper c \<longleftrightarrow> 65 \<le> (of_char c :: nat) \<and> (of_char c :: nat) \<le> 90"

definition is_lower :: "char \<Rightarrow> bool" where
  "is_lower c \<longleftrightarrow> 97 \<le> (of_char c :: nat) \<and> (of_char c :: nat) \<le> 122"

definition is_alnum :: "char \<Rightarrow> bool" where
  "is_alnum c \<longleftrightarrow> is_digit c \<or> is_upper c \<or> is_lower c"

definition lower_char :: "char \<Rightarrow> char" where
  "lower_char c = (if is_upper c then char_of ((of_char c :: nat) + 32) else c)"

definition to_lower :: "string \<Rightarrow> string" where
  "to_lower = map lower_char"

definition eq_ignore_case :: "string \<Rightarrow> string \<Rightarrow> bool" where
  "eq_ignore_case a b \<longleftrightarrow> to_lower a = to_lower b"

section \<open>Trimming, searching and splitting\<close>

definition trim_start :: "string \<Rightarrow> string" where
  "trim_start = dropWhile is_ws"

definition drop_end_while :: "('a \<Rightarrow> bool) \<Rightarrow> 'a list \<Rightarrow> 'a list" where
  "drop_end_while P s = rev (dropWhile P (rev s))"

definition trim_end :: "string \<Rightarrow> string" where
  "trim_end = drop_end_while is_ws"

definition trim :: "string \<Rightarrow> string" where
  "trim s = trim_end (trim_start s)"

definition trim_matches :: "char \<Rightarrow> string \<Rightarrow> string" where
  "trim_matches c s = drop_end_while (\<lambda>x. x = c) (dropWhile (\<lambda>x. x = c) s)"

fun strip_prefix :: "string \<Rightarrow> string \<Rightarrow> string option" where
  "strip_prefix [] s = Some s"
| "strip_prefix (p # ps) [] = None"
| "strip_prefix (p # ps) (c # s) = (if p = c then strip_prefix ps s else None)"

definition starts_with :: "string \<Rightarrow> string \<Rightarrow> bool" where
  "starts_with p s \<longleftrightarrow> strip_prefix p s \<noteq> None"

definition strip_suffix :: "string \<Rightarrow> string \<Rightarrow> string option" where
  "strip_suffix p s = map_option rev (strip_prefix (rev p) (rev s))"

definition ends_with :: "string \<Rightarrow> string \<Rightarrow> bool" where
  "ends_with p s \<longleftrightarrow> strip_suffix p s \<noteq> None"

fun split_once :: "char \<Rightarrow> string \<Rightarrow> (string \<times> string) option" where
  "split_once d [] = None"
| "split_once d (c # s) =
     (if c = d then Some ([], s) else map_option (\<lambda>(a, b). (c # a, b)) (split_once d s))"

definition rsplit_once :: "char \<Rightarrow> string \<Rightarrow> (string \<times> string) option" where
  "rsplit_once d s = map_option (\<lambda>(a, b). (rev b, rev a)) (split_once d (rev s))"

fun split_on :: "char \<Rightarrow> string \<Rightarrow> string list" where
  "split_on d [] = [[]]"
| "split_on d (c # s) =
     (if c = d then [] # split_on d s
      else (case split_on d s of [] \<Rightarrow> [[c]] | w # ws \<Rightarrow> (c # w) # ws))"

text \<open>The text before and after the first occurrence of a non-empty pattern.\<close>

fun split_sub :: "string \<Rightarrow> string \<Rightarrow> (string \<times> string) option" where
  "split_sub p [] = (if p = [] then Some ([], []) else None)"
| "split_sub p (c # s) =
     (case strip_prefix p (c # s) of
        Some r \<Rightarrow> Some ([], r)
      | None \<Rightarrow> map_option (\<lambda>(a, b). (c # a, b)) (split_sub p s))"

definition contains_sub :: "string \<Rightarrow> string \<Rightarrow> bool" where
  "contains_sub p s \<longleftrightarrow> split_sub p s \<noteq> None"

definition replace_char :: "char \<Rightarrow> string \<Rightarrow> string \<Rightarrow> string" where
  "replace_char d r s = concat (map (\<lambda>c. if c = d then r else [c]) s)"

fun join :: "string \<Rightarrow> string list \<Rightarrow> string" where
  "join d [] = []"
| "join d [w] = w"
| "join d (w # v # ws) = w @ d @ join d (v # ws)"

fun split_ws_acc :: "string \<Rightarrow> string \<Rightarrow> string list" where
  "split_ws_acc w [] = (if w = [] then [] else [w])"
| "split_ws_acc w (c # s) =
     (if is_ws c then (if w = [] then split_ws_acc [] s else w # split_ws_acc [] s)
      else split_ws_acc (w @ [c]) s)"

definition split_ws :: "string \<Rightarrow> string list" where
  "split_ws s = split_ws_acc [] s"

text \<open>
  \<open>str::lines\<close>: pieces between newlines, each without one trailing carriage return; a final
  newline opens no further line.
\<close>

definition strip_cr :: "string \<Rightarrow> string" where
  "strip_cr l = (case strip_suffix [cr] l of Some l' \<Rightarrow> l' | None \<Rightarrow> l)"

fun raw_lines :: "string \<Rightarrow> string list" where
  "raw_lines [] = []"
| "raw_lines (c # s) =
     (if c = nl then [] # raw_lines s
      else (case raw_lines s of [] \<Rightarrow> [[c]] | w # ws \<Rightarrow> (c # w) # ws))"

definition str_lines :: "string \<Rightarrow> string list" where
  "str_lines s = map strip_cr (raw_lines s)"

section \<open>Numbers as text\<close>

definition digit_char :: "nat \<Rightarrow> char" where
  "digit_char d = char_of (48 + d)"

definition digit_val :: "char \<Rightarrow> nat" where
  "digit_val c = of_char c - 48"

fun show_nat :: "nat \<Rightarrow> string" where
  "show_nat n = (if n < 10 then [digit_char n] else show_nat (n div 10) @ [digit_char (n mod 10)])"

declare show_nat.simps [simp del]

definition show_int :: "int \<Rightarrow> string" where
  "show_int i = (if i < 0 then CHR ''-'' # show_nat (nat (- i)) else show_nat (nat i))"

definition digits_val :: "string \<Rightarrow> nat" where
  "digits_val s = foldl (\<lambda>n c. 10 * n + digit_val c) 0 s"

definition all_digits :: "string \<Rightarrow> bool" where
  "all_digits s \<longleftrightarrow> s \<noteq> [] \<and> list_all is_digit s"

text \<open>\<open>str::parse\<close> for an unsigned type with maximal value \<open>m\<close>: an optional plus sign, digits, no overflow.\<close>

definition parse_uint :: "nat \<Rightarrow> string \<Rightarrow> nat option" where
  "parse_uint m s =
     (let ds = (case s of c # r \<Rightarrow> (if c = CHR ''+'' then r else s) | [] \<Rightarrow> s)
      in if all_digits ds then (if digits_val ds \<le> m then Some (digits_val ds) else None) else None)"

definition parse_u16 :: "string \<Rightarrow> nat option" where
  "parse_u16 = parse_uint 65535"

definition parse_i64 :: "string \<Rightarrow> int option" where
  "parse_i64 s =
     (let neg = (case s of c # r \<Rightarrow> c = CHR ''-'' | [] \<Rightarrow> False);
          ds = (case s of c # r \<Rightarrow> (if c = CHR ''+'' \<or> c = CHR ''-'' then r else s) | [] \<Rightarrow> s)
      in if all_digits ds
         then (let i = (if neg then - int (digits_val ds) else int (digits_val ds))
               in if - (2 ^ 63) \<le> i \<and> i < 2 ^ 63 then Some i else None)
         else None)"

definition show_bool :: "bool \<Rightarrow> string" where
  "show_bool b = (if b then ''true'' else ''false'')"

section \<open>Ordered maps and JSON values\<close>

text \<open>
  \<open>BTreeMap<String, V>\<close>, and \<open>serde_json::Map\<close> (the \<open>preserve_order\<close> feature is off, so
  it is one too): an association list in strictly increasing key order. The order of
  strings is the lexicographic order of their bytes.
\<close>

fun kinsert :: "string \<Rightarrow> 'v \<Rightarrow> (string \<times> 'v) list \<Rightarrow> (string \<times> 'v) list" where
  "kinsert k v [] = [(k, v)]"
| "kinsert k v ((k', v') # m) =
     (if k = k' then (k, v) # m
      else if k < k' then (k, v) # (k', v') # m
      else (k', v') # kinsert k v m)"

definition ksorted :: "(string \<times> 'v) list \<Rightarrow> bool" where
  "ksorted m \<longleftrightarrow> sorted_wrt (<) (map fst m)"

definition kextend :: "(string \<times> 'v) list \<Rightarrow> (string \<times> 'v) list \<Rightarrow> (string \<times> 'v) list" where
  "kextend m kvs = fold (\<lambda>(k, v) m. kinsert k v m) kvs m"

text \<open>\<open>BTreeSet<String>\<close>: a strictly increasing list.\<close>

definition sinsert :: "string \<Rightarrow> string list \<Rightarrow> string list" where
  "sinsert k xs = map fst (kinsert k () (map (\<lambda>x. (x, ())) xs))"

definition sextend :: "string list \<Rightarrow> string list \<Rightarrow> string list" where
  "sextend xs ks = fold sinsert ks xs"

text \<open>
  \<open>serde_json::Value\<close>. A number is an integer or a finite float; a float is kept as the
  decimal it was written as, \<open>(-1)^neg * m * 10^e\<close>, whose nearest double the code stores.
\<close>

datatype jnum = JInt int | JDec bool nat int

datatype json = JNull | JBool bool | JNum jnum | JStr string
  | JArr "json list" | JObj "(string \<times> json) list"

text \<open>
  The text of a number. A float prints as \<open>serde_json\<close> prints doubles, from the digits of the
  decimal without its trailing zeros; these are the shortest digits of the double whenever
  the decimal has at most fifteen of them.
\<close>

fun strip_zeros :: "nat \<Rightarrow> nat \<Rightarrow> int \<Rightarrow> nat \<times> int" where
  "strip_zeros 0 m e = (m, e)"
| "strip_zeros (Suc n) m e = (if m \<noteq> 0 \<and> m mod 10 = 0 then strip_zeros n (m div 10) (e + 1) else (m, e))"

definition show_decimal :: "nat \<Rightarrow> int \<Rightarrow> string" where
  "show_decimal m0 e0 =
     (if m0 = 0 then ''0.0''
      else case strip_zeros (length (show_nat m0)) m0 e0 of (m, e) \<Rightarrow>
        (let ds = show_nat m; n = int (length ds); k = n + e in
         if 0 \<le> e \<and> k \<le> 16 then ds @ replicate (nat e) (CHR ''0'') @ ''.0''
         else if 0 < k \<and> k \<le> 16 then take (nat k) ds @ ''.'' @ drop (nat k) ds
         else if - 5 < k \<and> k \<le> 0 then ''0.'' @ replicate (nat (- k)) (CHR ''0'') @ ds
         else take 1 ds @ (if n = 1 then [] else ''.'' @ drop 1 ds) @ ''e'' @ show_int (k - 1)))"

definition show_jnum :: "jnum \<Rightarrow> string" where
  "show_jnum n =
     (case n of
        JInt i \<Rightarrow> show_int i
      | JDec neg m e \<Rightarrow> (if neg then ''-'' else []) @ show_decimal m e)"

fun as_str :: "json \<Rightarrow> string option" where
  "as_str (JStr s) = Some s"
| "as_str _ = None"

fun as_object :: "json \<Rightarrow> (string \<times> json) list option" where
  "as_object (JObj m) = Some m"
| "as_object _ = None"

fun as_array :: "json \<Rightarrow> json list option" where
  "as_array (JArr xs) = Some xs"
| "as_array _ = None"

fun as_bool :: "json \<Rightarrow> bool option" where
  "as_bool (JBool b) = Some b"
| "as_bool _ = None"

fun jget :: "string \<Rightarrow> json \<Rightarrow> json option" where
  "jget k (JObj m) = map_of m k"
| "jget k _ = None"

text \<open>\<open>value[key]\<close> yields \<open>Null\<close> for a missing key or a value that is no object.\<close>

definition jindex :: "json \<Rightarrow> string \<Rightarrow> json" where
  "jindex v k = (case jget k v of Some x \<Rightarrow> x | None \<Rightarrow> JNull)"

fun collect_opts :: "'a option list \<Rightarrow> 'a list" where
  "collect_opts [] = []"
| "collect_opts (None # xs) = collect_opts xs"
| "collect_opts (Some x # xs) = x # collect_opts xs"

definition filter_map :: "('a \<Rightarrow> 'b option) \<Rightarrow> 'a list \<Rightarrow> 'b list" where
  "filter_map f xs = collect_opts (map f xs)"

text \<open>\<open>Value::pointer\<close> for object keys.\<close>

fun jpointer :: "string list \<Rightarrow> json \<Rightarrow> json option" where
  "jpointer [] v = Some v"
| "jpointer (k # ks) v = Option.bind (jget k v) (jpointer ks)"

text \<open>\<open>trim_start_matches\<close> for a text pattern: every leading copy goes.\<close>

function trim_start_text :: "string \<Rightarrow> string \<Rightarrow> string" where
  "trim_start_text p s =
     (if p = [] then s else case strip_prefix p s of Some r \<Rightarrow> trim_start_text p r | None \<Rightarrow> s)"
  by pat_completeness auto

lemma strip_prefix_shorter: "strip_prefix p s = Some r \<Longrightarrow> p \<noteq> [] \<Longrightarrow> length r < length s"
  by (induction p s arbitrary: r rule: strip_prefix.induct) (fastforce split: if_splits)+

termination trim_start_text
  by (relation "measure (\<lambda>(_, s). length s)") (auto dest: strip_prefix_shorter)

declare trim_start_text.simps [simp del]

section \<open>Facts about the string operations\<close>

lemma strip_prefix_Some [simp]: "strip_prefix p s = Some r \<longleftrightarrow> s = p @ r"
  by (induction p s rule: strip_prefix.induct) auto

lemma strip_prefix_append [simp]: "strip_prefix p (p @ r) = Some r"
  by simp

lemma strip_prefix_None: "strip_prefix p s = None \<longleftrightarrow> (\<forall>r. s \<noteq> p @ r)"
  by (metis not_None_eq strip_prefix_Some)

lemma starts_with_iff: "starts_with p s \<longleftrightarrow> (\<exists>r. s = p @ r)"
  by (auto simp: starts_with_def)

lemma starts_with_simps [simp]:
  "starts_with [] s"
  "\<not> starts_with (p # ps) []"
  "starts_with (p # ps) (c # s) \<longleftrightarrow> p = c \<and> starts_with ps s"
  by (auto simp: starts_with_def)

lemma starts_with_append [simp]: "starts_with p (p @ r)"
  by (auto simp: starts_with_iff)

lemma strip_suffix_Some [simp]: "strip_suffix p s = Some r \<longleftrightarrow> s = r @ p"
  by (auto simp: strip_suffix_def rev_eq_append_conv intro: rev_rev_ident[symmetric])

lemma strip_suffix_append [simp]: "strip_suffix p (r @ p) = Some r"
  by simp

lemma ends_with_iff: "ends_with p s \<longleftrightarrow> (\<exists>r. s = r @ p)"
  by (auto simp: ends_with_def)

lemma ends_with_single: "ends_with [c] s \<longleftrightarrow> s \<noteq> [] \<and> last s = c"
  by (auto simp: ends_with_iff intro: append_butlast_last_id[symmetric])

lemma split_once_None [simp]: "split_once d s = None \<longleftrightarrow> d \<notin> set s"
  by (induction d s rule: split_once.induct) auto

lemma split_once_Some [simp]: "split_once d s = Some (a, b) \<longleftrightarrow> s = a @ d # b \<and> d \<notin> set a"
proof (induction d s arbitrary: a rule: split_once.induct)
  case (2 d c s)
  then show ?case by (cases a) auto
qed auto

lemma rsplit_once_None [simp]: "rsplit_once d s = None \<longleftrightarrow> d \<notin> set s"
  by (simp add: rsplit_once_def)

lemma rsplit_once_Some [simp]: "rsplit_once d s = Some (a, b) \<longleftrightarrow> s = a @ d # b \<and> d \<notin> set b"
proof -
  have "rsplit_once d s = Some (a, b) \<longleftrightarrow> split_once d (rev s) = Some (rev b, rev a)"
    by (auto simp: rsplit_once_def simp del: split_once_Some)
  also have "\<dots> \<longleftrightarrow> s = a @ d # b \<and> d \<notin> set b"
    by (auto simp: rev_eq_append_conv)
  finally show ?thesis .
qed

lemma split_on_nonempty [simp]: "split_on d s \<noteq> []"
  by (induction d s rule: split_on.induct) (auto split: list.splits)

lemma join_split_on: "join [d] (split_on d s) = s"
proof (induction d s rule: split_on.induct)
  case (2 d c s)
  show ?case
  proof (cases "split_on d s")
    case (Cons w ws)
    with 2 show ?thesis by (cases ws) auto
  qed simp
qed simp

lemma split_on_parts: "w \<in> set (split_on d s) \<Longrightarrow> d \<notin> set w"
  by (induction d s arbitrary: w rule: split_on.induct) (auto split: list.splits if_splits)

lemma split_on_no_sep: "d \<notin> set s \<Longrightarrow> split_on d s = [s]"
  by (induction d s rule: split_on.induct) auto

lemma split_on_append:
  "d \<notin> set a \<Longrightarrow> split_on d (a @ d # b) = a # split_on d b"
  by (induction a) auto

lemma split_on_join:
  "ws \<noteq> [] \<Longrightarrow> (\<And>w. w \<in> set ws \<Longrightarrow> d \<notin> set w) \<Longrightarrow> split_on d (join [d] ws) = ws"
  by (induction "[d]" ws rule: join.induct) (auto simp: split_on_no_sep split_on_append)

lemma hd_split_on: "hd (split_on d s) = takeWhile (\<lambda>c. c \<noteq> d) s"
  by (induction d s rule: split_on.induct) (auto split: list.splits)

lemma split_sub_Some: "split_sub p s = Some (a, b) \<Longrightarrow> s = a @ p @ b"
  by (induction p s arbitrary: a b rule: split_sub.induct) (auto split: if_splits option.splits)

lemma split_sub_None: "split_sub p s = None \<Longrightarrow> s \<noteq> a @ p @ b"
proof (induction p s arbitrary: a rule: split_sub.induct)
  case (2 p c s)
  from "2.prems" have n: "strip_prefix p (c # s) = None" and r: "split_sub p s = None"
    by (auto split: option.splits)
  show ?case
  proof (cases a)
    case Nil
    with n show ?thesis by (auto simp: strip_prefix_None)
  next
    case (Cons x a')
    with "2.IH"[OF n r, of a'] show ?thesis by auto
  qed
qed (auto split: if_splits)

lemma contains_sub_iff: "contains_sub p s \<longleftrightarrow> (\<exists>a b. s = a @ p @ b)"
  unfolding contains_sub_def by (metis not_None_eq split_sub_None split_sub_Some surj_pair)

lemma replace_char_simps [simp]:
  "replace_char d r [] = []"
  "replace_char d r (c # s) = (if c = d then r else [c]) @ replace_char d r s"
  "replace_char d r (s @ t) = replace_char d r s @ replace_char d r t"
  by (auto simp: replace_char_def)

lemma drop_end_while_prefix: "\<exists>r. s = drop_end_while P s @ r \<and> (\<forall>c\<in>set r. P c)"
proof -
  have "s = rev (dropWhile P (rev s)) @ rev (takeWhile P (rev s))"
    by (metis rev_append rev_rev_ident takeWhile_dropWhile_id)
  then show ?thesis
    unfolding drop_end_while_def by (metis set_rev set_takeWhileD)
qed

lemma drop_end_while_id: "s = [] \<or> \<not> P (last s) \<Longrightarrow> drop_end_while P s = s"
  by (cases s rule: rev_cases) (auto simp: drop_end_while_def)

lemma drop_end_while_last: "drop_end_while P s \<noteq> [] \<Longrightarrow> \<not> P (last (drop_end_while P s))"
  unfolding drop_end_while_def by (metis hd_dropWhile last_rev rev_is_Nil_conv)

lemma set_drop_end_while: "set (drop_end_while P s) \<subseteq> set s"
  unfolding drop_end_while_def by (auto dest: set_dropWhileD)

lemma length_drop_end_while [simp]: "length (drop_end_while P s) \<le> length s"
  unfolding drop_end_while_def by (metis length_dropWhile_le length_rev)

lemma length_trim_start [simp]: "length (trim_start s) \<le> length s"
  by (simp add: trim_start_def length_dropWhile_le)

lemma length_trim_end [simp]: "length (trim_end s) \<le> length s"
  by (simp add: trim_end_def)

lemma length_trim [simp]: "length (trim s) \<le> length s"
  unfolding trim_def using le_trans length_trim_end length_trim_start by blast

lemma set_trim_start: "set (trim_start s) \<subseteq> set s"
  unfolding trim_start_def by (auto dest: set_dropWhileD)

lemma set_trim_end: "set (trim_end s) \<subseteq> set s"
  by (simp add: trim_end_def set_drop_end_while)

lemma set_trim: "set (trim s) \<subseteq> set s"
  unfolding trim_def using set_trim_end set_trim_start by blast

lemma set_trim_matches: "set (trim_matches c s) \<subseteq> set s"
  unfolding trim_matches_def
  by (meson set_drop_end_while set_dropWhileD subset_eq)

text \<open>A text is \<open>tidy\<close> when trimming it changes nothing.\<close>

definition tidy :: "string \<Rightarrow> bool" where
  "tidy s \<longleftrightarrow> s = [] \<or> (\<not> is_ws (hd s) \<and> \<not> is_ws (last s))"

lemma trim_start_id: "s = [] \<or> \<not> is_ws (hd s) \<Longrightarrow> trim_start s = s"
  by (cases s) (auto simp: trim_start_def)

lemma trim_end_id: "s = [] \<or> \<not> is_ws (last s) \<Longrightarrow> trim_end s = s"
  by (simp add: trim_end_def drop_end_while_id)

lemma trim_tidy: "tidy s \<Longrightarrow> trim s = s"
  by (auto simp: tidy_def trim_def trim_start_id trim_end_id)

lemma tidy_trim: "tidy (trim s)"
proof (cases "trim s = []")
  case False
  let ?t = "trim_start s"
  from False have t: "?t \<noteq> []"
    by (auto simp: trim_def trim_end_def drop_end_while_def)
  then have h: "\<not> is_ws (hd ?t)"
    unfolding trim_start_def by (metis hd_dropWhile)
  obtain r where r: "?t = trim_end ?t @ r"
    using drop_end_while_prefix[of ?t is_ws] by (auto simp: trim_end_def)
  from False have ne: "trim_end ?t \<noteq> []" by (simp add: trim_def)
  from r ne h have "\<not> is_ws (hd (trim_end ?t))"
    by (metis hd_append2)
  moreover from ne have "\<not> is_ws (last (trim_end ?t))"
    unfolding trim_end_def by (rule drop_end_while_last)
  ultimately show ?thesis by (simp add: tidy_def trim_def)
qed (simp add: tidy_def)

lemma trim_trim [simp]: "trim (trim s) = trim s"
  by (simp add: tidy_trim trim_tidy)

lemma raw_lines_Nil [simp]: "raw_lines s = [] \<longleftrightarrow> s = []"
  by (cases s) (auto split: list.splits)

lemma raw_lines_no_nl: "l \<in> set (raw_lines s) \<Longrightarrow> nl \<notin> set l"
  by (induction s arbitrary: l rule: raw_lines.induct) (auto split: list.splits if_splits)

lemma set_raw_lines: "l \<in> set (raw_lines s) \<Longrightarrow> set l \<subseteq> set s"
proof (induction s arbitrary: l rule: raw_lines.induct)
  case (2 c s)
  then show ?case by (cases "raw_lines s") (fastforce split: if_splits)+
qed simp

lemma join_raw_lines:
  "join [nl] (raw_lines s) @ (if ends_with [nl] s then [nl] else []) = s"
proof (induction s rule: raw_lines.induct)
  case (2 c s)
  show ?case
  proof (cases "s = []")
    case False
    then obtain w ws where w: "raw_lines s = w # ws" by (cases "raw_lines s") auto
    with 2 False show ?thesis by (cases "c = nl"; cases ws) (auto simp: ends_with_single)
  qed (auto simp: ends_with_single)
qed (simp add: ends_with_single)

lemma strip_cr_id: "cr \<notin> set l \<Longrightarrow> strip_cr l = l"
  by (auto simp: strip_cr_def split: option.splits)

lemma str_lines_no_cr: "cr \<notin> set s \<Longrightarrow> str_lines s = raw_lines s"
  unfolding str_lines_def
  by (rule map_idI) (meson set_raw_lines strip_cr_id subset_eq)

section \<open>Facts about numbers, maps and lists\<close>

lemma of_char_digit [simp]: "d < 10 \<Longrightarrow> (of_char (digit_char d) :: nat) = 48 + d"
  by (simp add: digit_char_def)

lemma is_digit_digit_char [simp]: "d < 10 \<Longrightarrow> is_digit (digit_char d)"
  by (simp add: is_digit_def)

lemma digit_val_digit_char [simp]: "d < 10 \<Longrightarrow> digit_val (digit_char d) = d"
  by (simp add: digit_val_def)

lemma digits_val_snoc: "digits_val (s @ [c]) = 10 * digits_val s + digit_val c"
  by (simp add: digits_val_def)

lemma all_digits_show_nat: "all_digits (show_nat n)"
proof (induction n rule: show_nat.induct)
  case (1 n)
  then show ?case
    by (cases "n < 10") (auto simp: all_digits_def show_nat.simps[of n])
qed

lemma digits_val_show_nat [simp]: "digits_val (show_nat n) = n"
proof (induction n rule: show_nat.induct)
  case (1 n)
  show ?case
  proof (cases "n < 10")
    case True
    then show ?thesis by (simp add: show_nat.simps[of n] digits_val_def)
  next
    case False
    with 1 show ?thesis by (simp add: show_nat.simps[of n] digits_val_snoc)
  qed
qed

lemma show_nat_nonempty [simp]: "show_nat n \<noteq> []"
  using all_digits_show_nat[of n] by (simp add: all_digits_def)

lemma show_nat_digit: "c \<in> set (show_nat n) \<Longrightarrow> is_digit c"
  using all_digits_show_nat[of n] by (auto simp: all_digits_def list_all_iff)

lemma is_digit_neq:
  "is_digit c \<Longrightarrow> c \<noteq> CHR ''+''" "is_digit c \<Longrightarrow> c \<noteq> CHR ''-''"
  "is_digit c \<Longrightarrow> c \<noteq> CHR '':''" "is_digit c \<Longrightarrow> c \<noteq> squote" "is_digit c \<Longrightarrow> c \<noteq> dquote"
  "is_digit c \<Longrightarrow> \<not> is_ws c"
  by (auto simp: is_digit_def is_ws_def)

lemma parse_uint_show_nat:
  assumes "n \<le> m"
  shows "parse_uint m (show_nat n) = Some n"
proof (cases "show_nat n")
  case (Cons c r)
  then have "is_digit c" using show_nat_digit[of c n] by simp
  then have "c \<noteq> CHR ''+''" by (rule is_digit_neq(1))
  with Cons assms all_digits_show_nat[of n] digits_val_show_nat[of n] show ?thesis
    by (simp add: parse_uint_def Let_def)
qed simp

lemma parse_uint_bound: "parse_uint m s = Some n \<Longrightarrow> n \<le> m"
  by (auto simp: parse_uint_def Let_def split: if_splits)

lemma parse_i64_bound: "parse_i64 s = Some i \<Longrightarrow> - (2 ^ 63) \<le> i \<and> i < 2 ^ 63"
  by (auto simp: parse_i64_def Let_def split: if_splits)

lemma map_of_kinsert [simp]: "map_of (kinsert k v m) = (map_of m)(k \<mapsto> v)"
  by (induction k v m rule: kinsert.induct) (auto simp: fun_eq_iff)

lemma dom_map_of_set: "dom (map_of m) = fst ` set m"
  by (rule dom_map_of_conv_image_fst)

lemma keys_kinsert: "fst ` set (kinsert k v m) = insert k (fst ` set m)"
  by (induction k v m rule: kinsert.induct) auto

lemma ksorted_kinsert: "ksorted m \<Longrightarrow> ksorted (kinsert k v m)"
proof (induction k v m rule: kinsert.induct)
  case (2 k v k' v' m)
  have "set (map fst (kinsert k v m)) = insert k (set (map fst m))"
    using keys_kinsert[of k v m] by simp
  with 2 show ?case by (auto simp: ksorted_def dest: order_less_trans)
qed (simp add: ksorted_def)

lemma ksorted_Nil [simp]: "ksorted []"
  by (simp add: ksorted_def)

lemma ksorted_distinct: "ksorted m \<Longrightarrow> distinct (map fst m)"
  by (simp add: ksorted_def strict_sorted_iff)

lemma map_of_rev_ksorted: "ksorted m \<Longrightarrow> map_of (rev m) = map_of m"
  by (rule map_of_inject_set[THEN iffD2]) (auto simp: ksorted_distinct rev_map[symmetric])

lemma map_of_kextend: "map_of (kextend m kvs) = map_of m ++ map_of (rev kvs)"
proof (induction kvs arbitrary: m)
  case (Cons kv kvs)
  obtain k v where "kv = (k, v)" by force
  with Cons[of "kinsert k v m"] show ?case
    by (auto simp: kextend_def fun_eq_iff map_add_def split: option.splits)
qed (simp add: kextend_def)

lemma ksorted_kextend: "ksorted m \<Longrightarrow> ksorted (kextend m kvs)"
  unfolding kextend_def by (induction kvs arbitrary: m) (auto simp: ksorted_kinsert)

lemma set_sinsert [simp]: "set (sinsert k xs) = insert k (set xs)"
proof -
  have "set (sinsert k xs) = fst ` set (kinsert k () (map (\<lambda>x. (x, ())) xs))"
    by (simp add: sinsert_def)
  then show ?thesis by (simp add: keys_kinsert image_image)
qed

lemma sorted_sinsert: "sorted_wrt (<) xs \<Longrightarrow> sorted_wrt (<) (sinsert k xs)"
  using ksorted_kinsert[of "map (\<lambda>x. (x, ())) xs" k "()"]
  by (simp add: sinsert_def ksorted_def comp_def)

lemma set_sextend [simp]: "set (sextend xs ks) = set xs \<union> set ks"
  unfolding sextend_def by (induction ks arbitrary: xs) auto

lemma sorted_sextend: "sorted_wrt (<) xs \<Longrightarrow> sorted_wrt (<) (sextend xs ks)"
  unfolding sextend_def by (induction ks arbitrary: xs) (auto simp: sorted_sinsert)

lemma sorted_sets_eq:
  "sorted_wrt (<) xs \<Longrightarrow> sorted_wrt (<) ys \<Longrightarrow> set xs = set ys \<Longrightarrow> xs = (ys :: string list)"
  by (simp add: strict_sorted_equal)

lemma set_collect_opts: "set (collect_opts os) = {y. Some y \<in> set os}"
  by (induction os rule: collect_opts.induct) auto

lemma set_filter_map: "y \<in> set (filter_map f xs) \<longleftrightarrow> (\<exists>x\<in>set xs. f x = Some y)"
  unfolding filter_map_def set_collect_opts by force

lemma filter_map_simps [simp]:
  "filter_map f [] = []"
  "filter_map f (x # xs) = (case f x of None \<Rightarrow> filter_map f xs | Some y \<Rightarrow> y # filter_map f xs)"
  by (auto simp: filter_map_def split: option.splits)

lemma filter_map_append: "filter_map f (xs @ ys) = filter_map f xs @ filter_map f ys"
  by (induction xs) (auto split: option.splits)

lemma join_Cons: "join d (w # ws) = (if ws = [] then w else w @ d @ join d ws)"
  by (cases ws) auto

lemma strip_cr_tidy: "tidy l \<Longrightarrow> l \<noteq> [] \<Longrightarrow> strip_cr l = l"
  by (auto simp: strip_cr_def tidy_def is_ws_def ends_with_single split: option.split)

lemma raw_lines_cons: "nl \<notin> set w \<Longrightarrow> raw_lines (w @ nl # s) = w # raw_lines s"
  by (induction w) auto

lemma raw_lines_single: "nl \<notin> set w \<Longrightarrow> raw_lines w = (if w = [] then [] else [w])"
  by (induction w) auto

lemma raw_lines_join:
  assumes "list_all (\<lambda>l. nl \<notin> set l) ls" "ls \<noteq> []" "e = [nl] \<or> e = [] \<and> last ls \<noteq> []"
  shows "raw_lines (join [nl] ls @ e) = ls"
  using assms
proof (induction ls)
  case (Cons l ls)
  show ?case
  proof (cases "ls = []")
    case True
    then show ?thesis using Cons.prems raw_lines_cons[of l "[]"] by (auto simp: raw_lines_single)
  next
    case False
    have "raw_lines (join [nl] (l # ls) @ e) = l # raw_lines (join [nl] ls @ e)"
      using Cons.prems raw_lines_cons[of l "join [nl] ls @ e"] False by (simp add: join_Cons)
    then show ?thesis using Cons False by simp
  qed
qed simp

lemma split_ws_acc_append_ws:
  "is_ws c \<Longrightarrow> split_ws_acc w (s @ c # t) = split_ws_acc w s @ split_ws_acc [] t"
  by (induction w s rule: split_ws_acc.induct) auto

lemma split_ws_acc_word:
  "(\<And>c. c \<in> set s \<Longrightarrow> \<not> is_ws c) \<Longrightarrow> split_ws_acc w s = (if w @ s = [] then [] else [w @ s])"
  by (induction w s rule: split_ws_acc.induct) auto

lemma split_ws_append: "is_ws c \<Longrightarrow> split_ws (s @ c # t) = split_ws s @ split_ws t"
  by (simp add: split_ws_def split_ws_acc_append_ws)

lemma split_ws_word: "s \<noteq> [] \<Longrightarrow> (\<And>c. c \<in> set s \<Longrightarrow> \<not> is_ws c) \<Longrightarrow> split_ws s = [s]"
  by (simp add: split_ws_def split_ws_acc_word)

end
