(* ===== verification/Dip_Router.thy ===== *)
theory Dip_Router
  imports Dip_Prelude "HOL-Library.Word"
begin

text \<open>
  The proxy's routing core: the configuration of \<open>proxy/config.rs\<close>, the route lookup of
  \<open>proxy/router.rs\<close>, and the route table as every writer of it (the watcher, \<open>dip proxy
  add\<close>, the project sync) changes it: \<open>retain\<close> the other domains, then \<open>push\<close>.
  The locale \<open>route_table\<close> is the contract of such a table.
\<close>

section \<open>Configuration\<close>

record route =
  domain :: string
  upstream :: string

record proxy_config =
  http_port :: "16 word"
  https_port :: "16 word"
  dns_port :: "16 word"
  tlds :: "string list"
  upstream_dns :: "string list"
  routes :: "route list"

definition default_tlds :: "string list" where
  "default_tlds = [''test'']"

definition default_upstream_dns :: "string list" where
  "default_upstream_dns = [''1.1.1.1'', ''8.8.8.8'']"

definition default_config :: proxy_config where
  "default_config = \<lparr>http_port = 80, https_port = 443, dns_port = 5354, tlds = default_tlds,
     upstream_dns = default_upstream_dns, routes = []\<rparr>"

text \<open>
  \<open>config::load\<close>: the file's content (\<open>None\<close> when there is no file), read by the JSON
  decoder \<open>decode\<close> of \<open>serde_json\<close>.
\<close>

definition load_config :: "(string \<Rightarrow> string + proxy_config) \<Rightarrow> string option \<Rightarrow> string + proxy_config" where
  "load_config decode file =
     (case file of
        None \<Rightarrow> Inr default_config
      | Some content \<Rightarrow>
          (case decode content of
             Inl e \<Rightarrow> Inl (''Invalid proxy config: '' @ e)
           | Inr cfg \<Rightarrow> Inr cfg))"

text \<open>The resolver \<open>server::run\<close> hands to the DNS server: the first configured one, port 53.\<close>

definition dns_upstream :: "proxy_config \<Rightarrow> string" where
  "dns_upstream cfg = (case upstream_dns cfg of [] \<Rightarrow> ''8.8.8.8:53'' | s # _ \<Rightarrow> s @ '':53'')"

section \<open>Route lookup\<close>

text \<open>\<open>Iterator::max_by_key\<close>: the last of the elements with a maximal key.\<close>

fun max_by_key :: "('a \<Rightarrow> nat) \<Rightarrow> 'a list \<Rightarrow> 'a option" where
  "max_by_key f [] = None"
| "max_by_key f (x # xs) =
     (case max_by_key f xs of
        None \<Rightarrow> Some x
      | Some y \<Rightarrow> (if f y < f x then Some x else Some y))"

definition match_route :: "string \<Rightarrow> route list \<Rightarrow> route option" where
  "match_route host rs =
     (case find (\<lambda>r. CHR ''*'' \<notin> set (domain r) \<and> domain r = host) rs of
        Some r \<Rightarrow> Some r
      | None \<Rightarrow>
          max_by_key (\<lambda>r. length (domain r))
            (filter (\<lambda>r. ends_with (tl (domain r)) host)
              (filter (\<lambda>r. starts_with ''*.'' (domain r)) rs)))"

text \<open>What the documentation of \<open>match_route\<close> promises, without the search.\<close>

definition exact_for :: "string \<Rightarrow> route \<Rightarrow> bool" where
  "exact_for host r \<longleftrightarrow> CHR ''*'' \<notin> set (domain r) \<and> domain r = host"

definition wild_for :: "string \<Rightarrow> route \<Rightarrow> bool" where
  "wild_for host r \<longleftrightarrow> (\<exists>sub base. domain r = ''*.'' @ base \<and> host = sub @ ''.'' @ base)"

lemma max_by_key_None [simp]: "max_by_key f xs = None \<longleftrightarrow> xs = []"
  by (cases xs) (auto split: option.splits)

lemma max_by_key_Some:
  "max_by_key f xs = Some m \<Longrightarrow> m \<in> set xs \<and> (\<forall>x\<in>set xs. f x \<le> f m)"
  by (induction xs arbitrary: m) (fastforce split: option.splits if_splits)+

lemma wild_for_code:
  "wild_for host r \<longleftrightarrow> starts_with ''*.'' (domain r) \<and> ends_with (tl (domain r)) host"
  by (auto simp: wild_for_def starts_with_iff ends_with_iff)

text \<open>
  C7. Route lookup. A route that is found is one of the table; it is an exact match, or
  there is no exact match and no matching wildcard is longer. Nothing is found only when
  no route of the table matches.
\<close>

theorem match_route_correct:
  "case match_route host rs of
     None \<Rightarrow> \<forall>r\<in>set rs. \<not> exact_for host r \<and> \<not> wild_for host r
   | Some r \<Rightarrow> r \<in> set rs \<and>
       (exact_for host r \<or>
        (wild_for host r \<and> (\<forall>q\<in>set rs. \<not> exact_for host q \<and>
           (wild_for host q \<longrightarrow> length (domain q) \<le> length (domain r)))))"
proof (cases "find (\<lambda>r. CHR ''*'' \<notin> set (domain r) \<and> domain r = host) rs")
  case (Some r)
  then have "r \<in> set rs \<and> exact_for host r"
    by (auto simp: find_Some_iff exact_for_def)
  with Some show ?thesis by (simp add: match_route_def)
next
  case None
  then have no: "\<forall>r\<in>set rs. \<not> exact_for host r"
    by (auto simp: find_None_iff exact_for_def)
  let ?ws = "filter (wild_for host) rs"
  have m: "match_route host rs = max_by_key (\<lambda>r. length (domain r)) ?ws"
    using None by (simp add: match_route_def wild_for_code[abs_def] conj_commute)
  show ?thesis
  proof (cases "match_route host rs")
    case None
    with m have "?ws = []" by (metis max_by_key_None)
    with None no show ?thesis by (simp add: filter_empty_conv)
  next
    case (Some r)
    with m have "r \<in> set ?ws \<and> (\<forall>x\<in>set ?ws. length (domain x) \<le> length (domain r))"
      by (metis max_by_key_Some)
    with Some no show ?thesis by auto
  qed
qed

theorem match_route_correct_witness:
  "match_route ''a.b.test'' [\<lparr>domain = ''*.test'', upstream = ''g:1''\<rparr>, \<lparr>domain = ''*.b.test'', upstream = ''n:2''\<rparr>]
     = Some \<lparr>domain = ''*.b.test'', upstream = ''n:2''\<rparr>
   \<and> \<not> exact_for ''a.b.test'' \<lparr>domain = ''*.test'', upstream = ''g:1''\<rparr>"
proof -
  let ?rs = "[\<lparr>domain = ''*.test'', upstream = ''g:1''\<rparr>, \<lparr>domain = ''*.b.test'', upstream = ''n:2''\<rparr>]"
  have e: "match_route ''a.b.test'' ?rs = Some \<lparr>domain = ''*.b.test'', upstream = ''n:2''\<rparr>"
    by code_simp
  show ?thesis
    using match_route_correct[where host = "''a.b.test''" and rs = ?rs] e by (simp add: exact_for_def)
qed

section \<open>The route table\<close>

definition put_route :: "string \<Rightarrow> string \<Rightarrow> route list \<Rightarrow> route list" where
  "put_route d u rs = filter (\<lambda>r. domain r \<noteq> d) rs @ [\<lparr>domain = d, upstream = u\<rparr>]"

definition drop_routes :: "string list \<Rightarrow> route list \<Rightarrow> route list" where
  "drop_routes ds rs = filter (\<lambda>r. domain r \<notin> set ds) rs"

definition route_to :: "route list \<Rightarrow> string \<Rightarrow> string option" where
  "route_to rs d = map_option upstream (find (\<lambda>r. domain r = d) rs)"

definition distinct_domains :: "route list \<Rightarrow> bool" where
  "distinct_domains rs \<longleftrightarrow> distinct (map domain rs)"

text \<open>
  The contract of a route table: \<open>put\<close> replaces the route of one domain, \<open>drop\<close> removes
  the routes of several, and both keep the invariant. Its clients are the watcher's event
  handlers and the commands that edit the configuration.
\<close>

locale route_table =
  fixes put :: "string \<Rightarrow> string \<Rightarrow> 't \<Rightarrow> 't"
    and drop :: "string list \<Rightarrow> 't \<Rightarrow> 't"
    and look :: "'t \<Rightarrow> string \<Rightarrow> string option"
    and inv :: "'t \<Rightarrow> bool"
  assumes look_put: "look (put d u t) = (look t)(d \<mapsto> u)"
    and look_drop: "look (drop ds t) e = (if e \<in> set ds then None else look t e)"
    and inv_put: "inv t \<Longrightarrow> inv (put d u t)"
    and inv_drop: "inv t \<Longrightarrow> inv (drop ds t)"
begin

lemma look_put_all:
  "look (fold (\<lambda>(d, u). put d u) kvs t) = look t ++ map_of (rev kvs)"
proof (induction kvs arbitrary: t)
  case (Cons kv kvs)
  then show ?case
    by (cases kv) (auto simp: look_put fun_eq_iff map_add_def split: option.splits)
qed simp

lemma inv_put_all: "inv t \<Longrightarrow> inv (fold (\<lambda>(d, u). put d u) kvs t)"
  by (induction kvs arbitrary: t) (auto simp: inv_put)

lemma put_all_frame:
  assumes "d \<notin> fst ` set kvs"
  shows "look (fold (\<lambda>(d, u). put d u) kvs t) d = look t d"
proof -
  from assms have "map_of (rev kvs) d = None" by (simp add: map_of_eq_None_iff)
  then show ?thesis by (simp add: look_put_all map_add_def)
qed

lemma drop_after_put_all:
  assumes "fst ` set kvs \<subseteq> set ds"
  shows "look (drop ds (fold (\<lambda>(d, u). put d u) kvs t)) = look (drop ds t)"
proof
  fix e
  show "look (drop ds (fold (\<lambda>(d, u). put d u) kvs t)) e = look (drop ds t) e"
    using assms put_all_frame[of e kvs t] by (auto simp: look_drop)
qed

end

lemma find_append: "find P (xs @ ys) = (case find P xs of None \<Rightarrow> find P ys | r \<Rightarrow> r)"
  by (induction xs) auto

lemma route_to_put: "route_to (put_route d u rs) = (route_to rs)(d \<mapsto> u)"
proof
  fix e
  have "find (\<lambda>r. domain r = e) (filter (\<lambda>r. domain r \<noteq> d) rs)
      = (if e = d then None else find (\<lambda>r. domain r = e) rs)"
    by (induction rs) auto
  then show "route_to (put_route d u rs) e = ((route_to rs)(d \<mapsto> u)) e"
    by (auto simp: route_to_def put_route_def find_append split: option.splits)
qed

lemma route_to_drop: "route_to (drop_routes ds rs) e = (if e \<in> set ds then None else route_to rs e)"
  unfolding route_to_def drop_routes_def by (induction rs) auto

lemma distinct_put: "distinct_domains rs \<Longrightarrow> distinct_domains (put_route d u rs)"
  by (auto simp: distinct_domains_def put_route_def distinct_map_filter)

lemma distinct_drop: "distinct_domains rs \<Longrightarrow> distinct_domains (drop_routes ds rs)"
  by (simp add: distinct_domains_def drop_routes_def distinct_map_filter)

interpretation rt: route_table put_route drop_routes route_to distinct_domains
  by unfold_locales (auto simp: route_to_put route_to_drop distinct_put distinct_drop)

text \<open>An exact route of a table without duplicate domains is what \<open>match_route\<close> serves.\<close>

lemma route_to_match:
  assumes "route_to rs d = Some u" "CHR ''*'' \<notin> set d"
  shows "\<exists>r. match_route d rs = Some r \<and> upstream r = u"
proof -
  have "find (\<lambda>r. CHR ''*'' \<notin> set (domain r) \<and> domain r = d) rs = find (\<lambda>r. domain r = d) rs"
    using assms(2) by (intro find_cong) auto
  with assms(1) show ?thesis
    by (auto simp: match_route_def route_to_def)
qed

end
