(* ===== verification/Dip_Watcher.thy ===== *)
theory Dip_Watcher
  imports Dip_Router
begin

text \<open>
  The Docker event watcher of \<open>proxy/watcher.rs\<close> and the route reload of
  \<open>proxy/server.rs\<close>, which share one table of routes. \<open>docker inspect\<close> is a parameter
  \<open>inspect\<close>: the output it prints for a container, \<open>None\<close> when it cannot be run.
  A container's attributes are a list of pairs in the iteration order of the hash map.
\<close>

section \<open>Events and labels\<close>

record docker_event =
  action :: string
  ev_id :: string
  attributes :: "(string \<times> string) list"

definition parse_host_value :: "string \<Rightarrow> string \<times> string" where
  "parse_host_value value =
     (let v = trim_matches squote (trim_matches dquote (trim value))
      in case split_once CHR '':'' v of
           Some (d, p) \<Rightarrow> (trim d, trim p)
         | None \<Rightarrow> (v, ''80''))"

definition is_host_label :: "string \<Rightarrow> bool" where
  "is_host_label k \<longleftrightarrow> k = ''dip.host'' \<or> starts_with ''dip.host.'' k"

definition dip_host_entries :: "(string \<times> string) list \<Rightarrow> (string \<times> string) list" where
  "dip_host_entries attrs = map (\<lambda>(_, v). parse_host_value v) (filter (\<lambda>(k, _). is_host_label k) attrs)"

definition container_ip :: "(string \<Rightarrow> string option) \<Rightarrow> string \<Rightarrow> string option" where
  "container_ip inspect i =
     (case inspect i of
        None \<Rightarrow> None
      | Some out \<Rightarrow> (let ip = trim out in if ip = [] then None else Some ip))"

section \<open>Event handlers\<close>

definition handle_start :: "(string \<Rightarrow> string option) \<Rightarrow> docker_event \<Rightarrow> route list \<Rightarrow> route list" where
  "handle_start inspect ev rs =
     (let es = dip_host_entries (attributes ev)
      in if es = [] then rs
         else (case container_ip inspect (ev_id ev) of
                 None \<Rightarrow> rs
               | Some ip \<Rightarrow> fold (\<lambda>(d, p) t. put_route d (ip @ '':'' @ p) t) es rs))"

definition handle_stop :: "docker_event \<Rightarrow> route list \<Rightarrow> route list" where
  "handle_stop ev rs =
     (let ds = map fst (dip_host_entries (attributes ev))
      in if ds = [] then rs else drop_routes ds rs)"

text \<open>
  The event loop of one \<open>docker events\<close> stream: a \<open>start\<close> event is handled by a task of
  its own after a pause, the stop events at once; a line that does not decode is skipped.
\<close>

record watch_state =
  table :: "route list"
  pending :: "docker_event list"

definition stop_actions :: "string list" where
  "stop_actions = [''stop'', ''die'', ''kill'', ''destroy'']"

definition on_line :: "docker_event option \<Rightarrow> watch_state \<Rightarrow> watch_state" where
  "on_line line s =
     (case line of
        None \<Rightarrow> s
      | Some ev \<Rightarrow>
          (if action ev = ''start'' then s\<lparr>pending := pending s @ [ev]\<rparr>
           else if action ev \<in> set stop_actions then s\<lparr>table := handle_stop ev (table s)\<rparr>
           else s))"

definition on_reload :: "string + proxy_config \<Rightarrow> route list \<Rightarrow> route list" where
  "on_reload loaded rs = (case loaded of Inr cfg \<Rightarrow> routes cfg | Inl _ \<Rightarrow> rs)"

text \<open>
  Everything that can happen to the table: a line of the event stream, a pending start task
  that runs (its \<open>inspect\<close> answers with what holds at that moment), a SIGHUP.
\<close>

inductive watch_step :: "watch_state \<Rightarrow> watch_state \<Rightarrow> bool" where
  line: "watch_step s (on_line l s)"
| start_task: "pending s = xs @ ev # ys \<Longrightarrow>
     watch_step s (s\<lparr>pending := xs @ ys, table := handle_start inspect ev (table s)\<rparr>)"
| reload: "(\<And>cfg. loaded = Inr cfg \<Longrightarrow> distinct_domains (routes cfg)) \<Longrightarrow>
     watch_step s (s\<lparr>table := on_reload loaded (table s)\<rparr>)"

inductive watch_reachable :: "route list \<Rightarrow> watch_state \<Rightarrow> bool" for rs0 where
  init: "watch_reachable rs0 \<lparr>table = rs0, pending = []\<rparr>"
| step: "watch_reachable rs0 s \<Longrightarrow> watch_step s t \<Longrightarrow> watch_reachable rs0 t"

inductive_cases watch_stepE: "watch_step s t"

section \<open>The restart loop\<close>

text \<open>
  \<open>watch_loop\<close> returns only through an error: the spawn fails, reading a line fails, or the
  stream ends, which it reports as an error too. \<open>run\<close> then sleeps and doubles the pause.
\<close>

datatype stream_end = Spawn_failed string | No_stdout | Read_failed string | Stream_closed

definition watch_loop :: "stream_end \<Rightarrow> string + unit" where
  "watch_loop e =
     (case e of
        Spawn_failed m \<Rightarrow> Inl (''cannot spawn `docker events`: '' @ m)
      | No_stdout \<Rightarrow> Inl ''no stdout from docker events''
      | Read_failed m \<Rightarrow> Inl m
      | Stream_closed \<Rightarrow> Inl ''docker events stream ended unexpectedly'')"

definition run_step :: "string + unit \<Rightarrow> nat \<Rightarrow> nat" where
  "run_step r backoff = (case r of Inr _ \<Rightarrow> 2 | Inl _ \<Rightarrow> min (backoff * 2) 30)"

fun run_backoffs :: "nat \<Rightarrow> stream_end list \<Rightarrow> nat list" where
  "run_backoffs b [] = []"
| "run_backoffs b (e # es) = b # run_backoffs (run_step (watch_loop e) b) es"

section \<open>Facts\<close>

lemma handle_start_fold:
  "handle_start inspect ev rs =
     (case container_ip inspect (ev_id ev) of
        None \<Rightarrow> rs
      | Some ip \<Rightarrow> fold (\<lambda>(d, u). put_route d u)
          (map (\<lambda>(d, p). (d, ip @ '':'' @ p)) (dip_host_entries (attributes ev))) rs)"
proof -
  have "fold (\<lambda>(d, p) t. put_route d (ip @ '':'' @ p) t) es rs
      = fold (\<lambda>(d, u). put_route d u) (map (\<lambda>(d, p). (d, ip @ '':'' @ p)) es) rs" for ip es
    by (simp add: fold_map comp_def case_prod_beta')
  then show ?thesis by (auto simp: handle_start_def Let_def split: option.splits)
qed

lemma handle_start_distinct: "distinct_domains rs \<Longrightarrow> distinct_domains (handle_start inspect ev rs)"
  by (auto simp: handle_start_fold rt.inv_put_all split: option.splits)

lemma handle_stop_drop: "handle_stop ev rs = drop_routes (map fst (dip_host_entries (attributes ev))) rs"
  by (auto simp: handle_stop_def drop_routes_def Let_def)

lemma handle_stop_distinct: "distinct_domains rs \<Longrightarrow> distinct_domains (handle_stop ev rs)"
  by (simp add: handle_stop_drop distinct_drop)

lemma on_line_table:
  "table (on_line l s) = table s \<or> (\<exists>ev. table (on_line l s) = handle_stop ev (table s))"
  by (auto simp: on_line_def split: option.splits)

lemma watch_step_distinct:
  assumes "watch_step s t" "distinct_domains (table s)"
  shows "distinct_domains (table t)"
  using assms(1)
proof cases
  case (line l)
  with assms(2) on_line_table[of l s] show ?thesis by (auto simp: handle_stop_distinct)
next
  case (start_task xs ev ys inspect)
  with assms(2) show ?thesis by (simp add: handle_start_distinct)
next
  case (reload loaded)
  with assms(2) show ?thesis by (auto simp: on_reload_def split: sum.splits)
qed

lemma run_step_error: "run_step (watch_loop e) b = min (b * 2) 30"
  by (simp add: run_step_def watch_loop_def split: stream_end.splits)

lemma run_backoffs_30: "run_backoffs 30 es = replicate (length es) 30"
  by (induction es) (auto simp: run_step_error)

section \<open>Properties\<close>


definition demo_event :: docker_event where
  "demo_event = \<lparr>action = ''start'', ev_id = ''c1'', attributes = [(''dip.host'', ''a.test:3000'')]\<rparr>"

lemma demo_reachable:
  "watch_reachable [] \<lparr>table = handle_start (\<lambda>_. Some ''10.0.0.2'') demo_event [], pending = []\<rparr>"
proof -
  have "watch_reachable [] (on_line (Some demo_event) \<lparr>table = [], pending = []\<rparr>)"
    by (rule watch_reachable.step[OF watch_reachable.init watch_step.line])
  then have "watch_reachable [] \<lparr>table = [], pending = [demo_event]\<rparr>"
    by (simp add: on_line_def demo_event_def)
  then show ?thesis
    using watch_reachable.step[OF _ watch_step.start_task[of _ "[]" demo_event "[]"]] by fastforce
qed


text \<open>
  C35. A start event of a container with an address routes every domain of its \<open>dip.host\<close>
  labels to that address at the label's port (the last label wins for a repeated domain)
  and leaves the routes of all other domains as they were.
\<close>

theorem handle_start_routes:
  assumes "container_ip inspect (ev_id ev) = Some ip"
  shows "route_to (handle_start inspect ev rs) d =
    (case map_of (rev (dip_host_entries (attributes ev))) d of
       Some p \<Rightarrow> Some (ip @ '':'' @ p)
     | None \<Rightarrow> route_to rs d)"
proof -
  let ?es = "dip_host_entries (attributes ev)"
  have "map_of (rev (map (\<lambda>(d, p). (d, ip @ '':'' @ p)) ?es)) = map_option (\<lambda>p. ip @ '':'' @ p) \<circ> map_of (rev ?es)"
    unfolding rev_map by (rule map_of_map)
  with assms show ?thesis
    by (simp add: handle_start_fold rt.look_put_all map_add_def split: option.splits)
qed

theorem handle_start_routes_witness:
  "container_ip (\<lambda>_. Some ''10.0.0.2'') (ev_id demo_event) = Some ''10.0.0.2''
   \<and> route_to (handle_start (\<lambda>_. Some ''10.0.0.2'') demo_event []) ''a.test'' = Some ''10.0.0.2:3000''"
proof -
  have h: "container_ip (\<lambda>_. Some ''10.0.0.2'') (ev_id demo_event) = Some ''10.0.0.2''"
    by code_simp
  have m: "map_of (rev (dip_host_entries (attributes demo_event))) ''a.test'' = Some ''3000''"
    by code_simp
  show ?thesis using h handle_start_routes[OF h, of "[]" "''a.test''"] m by simp
qed

text \<open>
  A stop event after a start event of the same container, with any handler run of other
  containers' domains before, leaves exactly the routes of the domains that the container
  does not claim: none of its own survives, every other is as before the start.
\<close>

theorem handle_stop_undoes_start:
  assumes "attributes ev' = attributes ev"
  shows "route_to (handle_stop ev' (handle_start inspect ev rs)) d =
    (if d \<in> fst ` set (dip_host_entries (attributes ev)) then None else route_to rs d)"
proof -
  let ?es = "dip_host_entries (attributes ev)"
  have k: "fst ` set (map (\<lambda>(d, p). (d, ip @ '':'' @ p)) ?es) \<subseteq> set (map fst ?es)" for ip
    by force
  have "route_to (drop_routes (map fst ?es) (handle_start inspect ev rs)) d
      = route_to (drop_routes (map fst ?es) rs) d"
  proof (cases "container_ip inspect (ev_id ev)")
    case (Some ip)
    then show ?thesis
      unfolding handle_start_fold option.case using fun_cong[OF rt.drop_after_put_all[OF k[of ip]]]
      by simp
  qed (simp add: handle_start_fold)
  with assms show ?thesis by (simp add: handle_stop_drop route_to_drop)
qed

theorem handle_stop_undoes_start_witness:
  "attributes (demo_event\<lparr>action := ''die''\<rparr>) = attributes demo_event
   \<and> route_to (handle_stop (demo_event\<lparr>action := ''die''\<rparr>) (handle_start (\<lambda>_. Some ''10.0.0.2'') demo_event [])) ''a.test'' = None"
proof -
  have h: "attributes (demo_event\<lparr>action := ''die''\<rparr>) = attributes demo_event" by simp
  have m: "''a.test'' \<in> fst ` set (dip_host_entries (attributes demo_event))"
    by code_simp
  show ?thesis
    using h handle_stop_undoes_start[OF h, of "\<lambda>_. Some ''10.0.0.2''" "[]" "''a.test''"] m by simp
qed

text \<open>
  The pauses between restarts of the watcher are 2, 4, 8, 16 seconds and then 30 each:
  the loop never returns without an error, so the pause is never reset, whatever the runs
  of the stream were.
\<close>

theorem watcher_backoffs:
  "run_backoffs 2 es = take (length es) ([2, 4, 8, 16] @ replicate (length es - 4) 30)"
proof (cases "length es \<le> 4")
  case True
  then consider "length es = 0" | "length es = 1" | "length es = 2" | "length es = 3" | "length es = 4"
    by linarith
  then show ?thesis
    by cases (auto simp: length_Suc_conv numeral_eq_Suc run_step_error)
next
  case False
  then obtain a b c d es' where "es = a # b # c # d # es'"
    by (cases es; cases "tl es"; cases "tl (tl es)"; cases "tl (tl (tl es))") auto
  then show ?thesis by (simp add: run_step_error run_backoffs_30)
qed

end
