(* ===== verification/Dip_Dns.thy ===== *)
theory Dip_Dns
  imports Dip_Prelude "HOL-Library.Word"
begin

text \<open>
  The built-in DNS server of \<open>dns/server.rs\<close>. A packet is a list of bytes; indexing and
  slicing out of range panics in Rust, so every read goes through \<open>byte_at\<close> and
  \<open>slice\<close>, whose result \<open>Panics\<close> the callers pass on. The resolver that other queries
  are forwarded to is a parameter: the datagrams that arrive before the deadline.
\<close>

type_synonym bytes = "8 word list"

definition byte_at :: "bytes \<Rightarrow> nat \<Rightarrow> 8 word exec" where
  "byte_at d i = (if i < length d then Returns (d ! i) else Panics)"

definition slice :: "bytes \<Rightarrow> nat \<Rightarrow> nat \<Rightarrow> bytes exec" where
  "slice d a b = (if a \<le> b \<and> b \<le> length d then Returns (take (b - a) (drop a d)) else Panics)"

section \<open>Bytes and text\<close>

definition be16 :: "8 word \<Rightarrow> 8 word \<Rightarrow> nat" where
  "be16 hi lo = unat hi * 256 + unat lo"

definition to_be16 :: "nat \<Rightarrow> bytes" where
  "to_be16 n = [word_of_nat (n div 256), word_of_nat (n mod 256)]"

definition byte_of :: "char \<Rightarrow> 8 word" where
  "byte_of c = word_of_nat (of_char c)"

definition char_of_byte :: "8 word \<Rightarrow> char" where
  "char_of_byte b = char_of (unat b)"

text \<open>The well-formed sequences of \<open>std::str::from_utf8\<close>.\<close>

definition is_cont :: "8 word \<Rightarrow> bool" where
  "is_cont b \<longleftrightarrow> 0x80 \<le> b \<and> b \<le> 0xBF"

fun utf8_ok :: "bytes \<Rightarrow> bool" where
  "utf8_ok [] = True"
| "utf8_ok (a # r) =
     (if a < 0x80 then utf8_ok r
      else if 0xC2 \<le> a \<and> a \<le> 0xDF then
        (case r of b # r' \<Rightarrow> is_cont b \<and> utf8_ok r' | _ \<Rightarrow> False)
      else if 0xE0 \<le> a \<and> a \<le> 0xEF then
        (case r of b # c # r' \<Rightarrow>
           is_cont b \<and> is_cont c \<and> (a = 0xE0 \<longrightarrow> 0xA0 \<le> b) \<and> (a = 0xED \<longrightarrow> b \<le> 0x9F) \<and> utf8_ok r'
         | _ \<Rightarrow> False)
      else if 0xF0 \<le> a \<and> a \<le> 0xF4 then
        (case r of b # c # d # r' \<Rightarrow>
           is_cont b \<and> is_cont c \<and> is_cont d \<and> (a = 0xF0 \<longrightarrow> 0x90 \<le> b) \<and> (a = 0xF4 \<longrightarrow> b \<le> 0x8F) \<and> utf8_ok r'
         | _ \<Rightarrow> False)
      else False)"

definition from_utf8 :: "bytes \<Rightarrow> string option" where
  "from_utf8 d = (if utf8_ok d then Some (map char_of_byte d) else None)"

section \<open>Packet parsing\<close>

function read_labels :: "bytes \<Rightarrow> nat \<Rightarrow> string list \<Rightarrow> (string list \<times> nat) option exec" where
  "read_labels d pos labels =
     (if length d \<le> pos then Returns None
      else case byte_at d pos of
        Panics \<Rightarrow> Panics
      | Returns b \<Rightarrow>
          (let len = unat b in
           if len = 0 then Returns (Some (labels, pos + 1))
           else if 0xC0 \<le> len then Returns (Some (labels, pos + 2))
           else if length d < pos + 1 + len then Returns None
           else case slice d (pos + 1) (pos + 1 + len) of
             Panics \<Rightarrow> Panics
           | Returns raw \<Rightarrow>
               (case from_utf8 raw of
                  None \<Rightarrow> Returns None
                | Some label \<Rightarrow> read_labels d (pos + 1 + len) (labels @ [label]))))"
  by pat_completeness auto
termination
  by (relation "measure (\<lambda>(d, pos, _). length d - pos)") auto

declare read_labels.simps [simp del]

definition read_name :: "bytes \<Rightarrow> nat \<Rightarrow> (string \<times> nat) option exec" where
  "read_name d pos =
     bind_exec (read_labels d pos []) (\<lambda>r. Returns (map_option (\<lambda>(ls, p). (join ''.'' ls, p)) r))"

function skip_name :: "bytes \<Rightarrow> nat \<Rightarrow> nat option exec" where
  "skip_name d pos =
     (if length d \<le> pos then Returns None
      else case byte_at d pos of
        Panics \<Rightarrow> Panics
      | Returns b \<Rightarrow>
          (let len = unat b in
           if len = 0 then Returns (Some (pos + 1))
           else if 0xC0 \<le> len then Returns (Some (pos + 2))
           else skip_name d (pos + (len + 1))))"
  by pat_completeness auto
termination
  by (relation "measure (\<lambda>(d, pos). length d - pos)") auto

declare skip_name.simps [simp del]

definition parse_first_question :: "bytes \<Rightarrow> (string \<times> nat) option exec" where
  "parse_first_question d =
     (if length d < 12 then Returns None
      else bind_exec (read_name d 12) (\<lambda>r.
        (case r of
           None \<Rightarrow> Returns None
         | Some (name, pos) \<Rightarrow>
             (if length d < pos + 2 then Returns None
              else bind_exec (byte_at d pos) (\<lambda>hi.
                   bind_exec (byte_at d (pos + 1)) (\<lambda>lo.
                   Returns (Some (name, be16 hi lo))))))))"

fun skip_questions :: "bytes \<Rightarrow> nat \<Rightarrow> nat \<Rightarrow> nat option exec" where
  "skip_questions d 0 pos = Returns (Some pos)"
| "skip_questions d (Suc n) pos =
     bind_exec (skip_name d pos) (\<lambda>r.
       (case r of
          None \<Rightarrow> Returns None
        | Some p \<Rightarrow> (if length d < p + 4 then Returns None else skip_questions d n (p + 4))))"

definition question_section_end :: "bytes \<Rightarrow> nat option exec" where
  "question_section_end d =
     (if length d < 12 then Returns None
      else bind_exec (byte_at d 4) (\<lambda>hi. bind_exec (byte_at d 5) (\<lambda>lo.
           skip_questions d (be16 hi lo) 12)))"

section \<open>Answers\<close>

definition matches_tld :: "bytes \<Rightarrow> string list \<Rightarrow> bool exec" where
  "matches_tld d tlds =
     bind_exec (parse_first_question d) (\<lambda>r.
       (case r of
          None \<Rightarrow> Returns False
        | Some (name, _) \<Rightarrow>
            (let n = to_lower name
             in Returns (\<exists>tld\<in>set tlds. n = tld \<or> ends_with (''.'' @ tld) n))))"

definition ttl_bytes :: bytes where
  "ttl_bytes = [0, 0, 0, 60]"

definition a_record :: bytes where
  "a_record = [0xC0, 0x0C] @ [0x00, 0x01] @ [0x00, 0x01] @ ttl_bytes @ [0x00, 0x04] @ [127, 0, 0, 1]"

definition make_response :: "bytes \<Rightarrow> bytes option exec" where
  "make_response q =
     (if length q < 12 then Returns None
      else bind_exec (parse_first_question q) (\<lambda>pq.
        (case pq of
           None \<Rightarrow> Returns None
         | Some (_, qtype) \<Rightarrow>
             bind_exec (question_section_end q) (\<lambda>qe.
               (case qe of
                  None \<Rightarrow> Returns None
                | Some q_end \<Rightarrow>
                    bind_exec (byte_at q 4) (\<lambda>hi.
                    bind_exec (byte_at q 5) (\<lambda>lo.
                    bind_exec (slice q 0 2) (\<lambda>tid.
                    bind_exec (slice q 12 q_end) (\<lambda>question.
                      Returns (Some
                        (tid @ [0x81, 0x80] @ to_be16 (be16 hi lo)
                         @ to_be16 (if qtype = 1 then 1 else 0) @ [0, 0] @ [0, 0]
                         @ question
                         @ (if qtype = 1 then a_record else []))))))))))))"

text \<open>
  \<open>forward\<close>, after the address of the resolver has been parsed and the socket connected:
  \<open>datagrams\<close> are the payloads it receives before the three second deadline, cut by the
  receive buffer; when they run out the deadline fires.
\<close>

definition max_packet :: nat where
  "max_packet = 4096"

fun await_reply :: "bytes \<Rightarrow> bytes list \<Rightarrow> string + bytes" where
  "await_reply d [] = Inl ''deadline has elapsed''"
| "await_reply d (g # gs) =
     (let r = take max_packet g
      in if 2 \<le> length r \<and> take 2 r = take 2 d then Inr r else await_reply d gs)"

definition forward :: "bytes \<Rightarrow> bytes list \<Rightarrow> string + bytes" where
  "forward d datagrams =
     (if length d < 12 then Inl (''not a DNS packet ('' @ show_nat (length d) @ '' bytes)'')
      else await_reply d datagrams)"

text \<open>One received packet, cut by the receive buffer: the datagram sent back, if any.\<close>

definition serve_packet :: "string list \<Rightarrow> bytes list \<Rightarrow> bytes \<Rightarrow> bytes option exec" where
  "serve_packet tlds datagrams packet =
     (let d = take max_packet packet in
      bind_exec (matches_tld d tlds) (\<lambda>m.
        if m then make_response d
        else Returns (case forward d datagrams of Inr r \<Rightarrow> Some r | Inl _ \<Rightarrow> None)))"

section \<open>A client's query\<close>

text \<open>The A query that the tests of \<open>dns/server.rs\<close> build for a name.\<close>

definition encode_label :: "string \<Rightarrow> bytes" where
  "encode_label l = word_of_nat (length l) # map byte_of l"

definition make_a_query :: "string \<Rightarrow> bytes" where
  "make_a_query name =
     [0xAB, 0xCD, 0x01, 0x00, 0x00, 0x01, 0x00, 0x00, 0x00, 0x00, 0x00, 0x00]
     @ concat (map encode_label (split_on CHR ''.'' name)) @ [0x00] @ [0x00, 0x01] @ [0x00, 0x01]"

section \<open>Facts about the parsers\<close>

lemma byte_at_in [simp]: "i < length d \<Longrightarrow> byte_at d i = Returns (d ! i)"
  by (simp add: byte_at_def)

lemma slice_in [simp]: "a \<le> b \<Longrightarrow> b \<le> length d \<Longrightarrow> slice d a b = Returns (take (b - a) (drop a d))"
  by (simp add: slice_def)

lemma read_labels_total: "\<exists>r. read_labels d pos ls = Returns r"
proof (induction d pos ls rule: read_labels.induct)
  case (1 d pos ls)
  then show ?case
    by (subst read_labels.simps) (auto simp: Let_def not_le split: option.splits)
qed

lemma skip_name_total: "\<exists>r. skip_name d pos = Returns r"
proof (induction d pos rule: skip_name.induct)
  case (1 d pos)
  then show ?case
    by (subst skip_name.simps) (auto simp: Let_def not_le)
qed

lemma read_labels_skip:
  "read_labels d pos ls = Returns (Some (ls', p)) \<Longrightarrow> skip_name d pos = Returns (Some p) \<and> pos < p"
proof (induction d pos ls rule: read_labels.induct)
  case (1 d pos ls)
  from "1.prems" have lt: "pos < length d"
    by (subst (asm) read_labels.simps) (auto split: if_splits)
  show ?case
  proof (cases "unat (d ! pos) = 0 \<or> 0xC0 \<le> unat (d ! pos)")
    case True
    with "1.prems" lt show ?thesis
      by (subst (asm) read_labels.simps, subst skip_name.simps) (auto simp: Let_def split: if_splits)
  next
    case False
    with "1.prems" lt obtain l where l:
      "pos + 1 + unat (d ! pos) \<le> length d"
      "from_utf8 (take (unat (d ! pos)) (drop (pos + 1) d)) = Some l"
      "read_labels d (pos + 1 + unat (d ! pos)) (ls @ [l]) = Returns (Some (ls', p))"
      by (subst (asm) read_labels.simps) (auto simp: Let_def split: if_splits option.splits)
    have "skip_name d (pos + 1 + unat (d ! pos)) = Returns (Some p) \<and> pos + 1 + unat (d ! pos) < p"
      by (rule "1.IH"[OF _ byte_at_in[OF lt] refl _ _ _ slice_in _ l(3)]) (use False lt l in auto)
    with False lt show ?thesis
      by (subst skip_name.simps) (auto simp: Let_def add.assoc)
  qed
qed

lemma read_labels_local:
  "read_labels d pos ls = Returns (Some (ls', p)) \<Longrightarrow> p \<le> k \<Longrightarrow> k \<le> length d \<Longrightarrow> k \<le> length e
   \<Longrightarrow> (\<forall>i. pos \<le> i \<and> i < k \<longrightarrow> e ! i = d ! i) \<Longrightarrow> read_labels e pos ls = Returns (Some (ls', p))"
proof (induction d pos ls rule: read_labels.induct)
  case (1 d pos ls)
  have "pos < p" using read_labels_skip[OF "1.prems"(1)] by simp
  with "1.prems" have lt: "pos < length d" "pos < length e" "e ! pos = d ! pos" by auto
  show ?case
  proof (cases "unat (d ! pos) = 0 \<or> 0xC0 \<le> unat (d ! pos)")
    case True
    with "1.prems"(1) lt show ?thesis
      by (subst (asm) read_labels.simps, subst read_labels.simps) (auto simp: Let_def split: if_splits)
  next
    case False
    let ?q = "pos + 1 + unat (d ! pos)"
    from False "1.prems"(1) lt obtain l where l:
      "?q \<le> length d"
      "from_utf8 (take (unat (d ! pos)) (drop (pos + 1) d)) = Some l"
      "read_labels d ?q (ls @ [l]) = Returns (Some (ls', p))"
      by (subst (asm) read_labels.simps) (auto simp: Let_def split: if_splits option.splits)
    have q: "?q < p" using read_labels_skip[OF l(3)] by simp
    have r: "read_labels e ?q (ls @ [l]) = Returns (Some (ls', p))"
      by (rule "1.IH"[OF _ byte_at_in[OF lt(1)] refl _ _ _ slice_in _ l(3)])
        (use False lt l "1.prems" in auto)
    have "take (unat (d ! pos)) (drop (pos + 1) e) = take (unat (d ! pos)) (drop (pos + 1) d)"
      using q "1.prems" by (intro nth_equalityI) auto
    with False lt l r q "1.prems" show ?thesis
      by (subst read_labels.simps) (auto simp: Let_def)
  qed
qed

lemma skip_questions_total: "\<exists>r. skip_questions d n pos = Returns r"
proof (induction d n pos rule: skip_questions.induct)
  case (2 d n pos)
  obtain r where "skip_name d pos = Returns r" using skip_name_total by blast
  with 2 show ?case by (cases r) auto
qed simp

lemma skip_name_mono: "skip_name d pos = Returns (Some p) \<Longrightarrow> pos < p"
proof (induction d pos rule: skip_name.induct)
  case (1 d pos)
  from "1.prems" have lt: "pos < length d"
    by (subst (asm) skip_name.simps) (auto split: if_splits)
  from "1.IH"[OF _ byte_at_in[OF lt] refl] "1.prems" lt show ?case
    by (subst (asm) skip_name.simps) (auto simp: Let_def split: if_splits)
qed

lemma skip_questions_range:
  "skip_questions d n pos = Returns (Some p) \<Longrightarrow> pos \<le> length d \<Longrightarrow> pos \<le> p \<and> p \<le> length d"
proof (induction d n pos rule: skip_questions.induct)
  case (2 d n pos)
  obtain r where r: "skip_name d pos = Returns r" using skip_name_total by blast
  with 2 skip_name_mono[of d pos] show ?case
    by (fastforce split: option.splits if_splits)
qed simp

lemma parse_first_question_total: "\<exists>r. parse_first_question d = Returns r"
proof -
  obtain r where "read_labels d 12 [] = Returns r" using read_labels_total by blast
  then show ?thesis
    by (auto simp: parse_first_question_def read_name_def split: option.splits)
qed

lemma question_section_end_total: "\<exists>r. question_section_end d = Returns r"
  using skip_questions_total by (auto simp: question_section_end_def)

lemma question_section_end_range:
  "question_section_end d = Returns (Some p) \<Longrightarrow> 12 \<le> p \<and> p \<le> length d"
  using skip_questions_range[of d _ 12 p]
  by (auto simp: question_section_end_def split: if_splits)

lemma matches_tld_total: "\<exists>b. matches_tld d tlds = Returns b"
  using parse_first_question_total[of d] by (auto simp: matches_tld_def Let_def split: option.splits)

lemma make_response_total: "\<exists>r. make_response q = Returns r"
proof (cases "length q < 12")
  case False
  obtain a where a: "parse_first_question q = Returns a" using parse_first_question_total by blast
  obtain b where b: "question_section_end q = Returns b" using question_section_end_total by blast
  from False a b question_section_end_range[of q] show ?thesis
    by (cases a; cases b) (auto simp: make_response_def)
qed (simp add: make_response_def)

lemma be16_to_be16: "n < 65536 \<Longrightarrow> be16 (to_be16 n ! 0) (to_be16 n ! 1) = n"
  by (simp add: be16_def to_be16_def unat_of_nat take_bit_eq_mod)

lemma unat_byte: "unat (a :: 8 word) < 256"
  using unsigned_less[where 'a = nat, of a] by simp

lemma be16_bound: "be16 a b < 65536"
  using unat_byte[of a] unat_byte[of b] by (simp add: be16_def)

lemma to_be16_be16: "to_be16 (be16 a b) = [a, b]"
  using unat_byte[of a] unat_byte[of b] by (simp add: be16_def to_be16_def)

lemma make_response_shape:
  assumes "make_response q = Returns (Some r)"
  obtains name qtype q_end where
    "parse_first_question q = Returns (Some (name, qtype))"
    "question_section_end q = Returns (Some q_end)"
    "12 \<le> q_end" "q_end \<le> length q"
    "r = take 2 q @ [0x81, 0x80, q ! 4, q ! 5] @ to_be16 (if qtype = 1 then 1 else 0) @ [0, 0, 0, 0]
       @ take (q_end - 12) (drop 12 q) @ (if qtype = 1 then a_record else [])"
proof -
  from assms have len: "12 \<le> length q" by (auto simp: make_response_def split: if_splits)
  obtain a where a: "parse_first_question q = Returns a" using parse_first_question_total by blast
  obtain b where b: "question_section_end q = Returns b" using question_section_end_total by blast
  from assms len a b obtain name qtype q_end where
    "a = Some (name, qtype)" "b = Some q_end"
    by (cases a; cases b) (auto simp: make_response_def)
  with assms len a b question_section_end_range[of q q_end] show ?thesis
    by (intro that[of name qtype q_end]) (auto simp: make_response_def to_be16_be16)
qed

lemma parse_first_question_local:
  assumes "parse_first_question q = Returns (Some (name, qtype))"
    and "question_section_end q = Returns (Some k)" "1 \<le> be16 (q ! 4) (q ! 5)"
    and "k \<le> length r" "\<forall>i. 12 \<le> i \<and> i < k \<longrightarrow> r ! i = q ! i"
  shows "parse_first_question r = Returns (Some (name, qtype))"
proof -
  from assms(1) have len: "12 \<le> length q" by (auto simp: parse_first_question_def split: if_splits)
  obtain x where "read_labels q 12 [] = Returns x" using read_labels_total by blast
  with assms(1) len obtain ls p where p: "read_labels q 12 [] = Returns (Some (ls, p))"
    "name = join ''.'' ls" "p + 2 \<le> length q" "qtype = be16 (q ! p) (q ! (p + 1))"
    by (auto simp: parse_first_question_def read_name_def split: option.splits if_splits)
  obtain n where n: "be16 (q ! 4) (q ! 5) = Suc n" using assms(3) by (cases "be16 (q ! 4) (q ! 5)") auto
  have k: "p + 4 \<le> k" "k \<le> length q" "12 < p"
    using assms(2) len n read_labels_skip[OF p(1)] skip_questions_range[of q n "p + 4" k]
    by (auto simp: question_section_end_def split: if_splits)
  have "read_labels r 12 [] = Returns (Some (ls, p))"
    by (rule read_labels_local[OF p(1), of k]) (use k assms in auto)
  with k assms p show ?thesis
    by (simp add: parse_first_question_def read_name_def)
qed

lemma make_response_answer_parts:
  assumes "make_response q = Returns (Some r)" "1 \<le> be16 (q ! 4) (q ! 5)"
  shows "\<exists>name qtype k. parse_first_question q = Returns (Some (name, qtype))
    \<and> question_section_end q = Returns (Some k)
    \<and> parse_first_question r = Returns (Some (name, qtype))
    \<and> take 2 r = take 2 q \<and> r ! 2 = 0x81 \<and> r ! 3 = 0x80
    \<and> be16 (r ! 4) (r ! 5) = be16 (q ! 4) (q ! 5)
    \<and> be16 (r ! 6) (r ! 7) = (if qtype = 1 then 1 else 0)
    \<and> drop k r = (if qtype = 1 then a_record else [])"
proof -
  obtain name qtype k where m:
    "parse_first_question q = Returns (Some (name, qtype))"
    "question_section_end q = Returns (Some k)" "12 \<le> k" "k \<le> length q"
    and r0: "r = take 2 q @ [0x81, 0x80, q ! 4, q ! 5] @ to_be16 (if qtype = 1 then 1 else 0) @ [0, 0, 0, 0]
       @ take (k - 12) (drop 12 q) @ (if qtype = 1 then a_record else [])"
    using make_response_shape[OF assms(1)] by blast
  have "take 2 q = [q ! 0, q ! 1]"
    using m(3,4) by (cases q; cases "tl q") auto
  with r0 have r: "r = [q ! 0, q ! 1, 0x81, 0x80, q ! 4, q ! 5, 0, (if qtype = 1 then 1 else 0), 0, 0, 0, 0]
       @ take (k - 12) (drop 12 q) @ (if qtype = 1 then a_record else [])"
    by (simp add: to_be16_def)
  have len: "length r = k + (if qtype = 1 then 16 else 0)"
    using m(3,4) by (auto simp: r a_record_def ttl_bytes_def)
  have body: "r ! i = q ! i" if "12 \<le> i" "i < k" for i
  proof -
    let ?h = "[q ! 0, q ! 1, 0x81, 0x80, q ! 4, q ! 5, 0, (if qtype = 1 then 1 else 0), 0, 0, 0, 0]"
    have "length ?h = 12" by simp
    moreover have "(h @ take (k - 12) (drop 12 q) @ t) ! i = q ! i" if "length h = 12" for h t
      using that \<open>12 \<le> i\<close> \<open>i < k\<close> m(4) diff_less_mono[of i k 12]
      by (simp add: nth_append)
    ultimately show ?thesis unfolding r by blast
  qed
  have "parse_first_question r = Returns (Some (name, qtype))"
    by (rule parse_first_question_local[OF m(1,2) assms(2)]) (use len body in auto)
  moreover have "drop k r = (if qtype = 1 then a_record else [])"
  proof -
    have x: "drop k (h @ take (k - 12) (drop 12 q) @ t) = t" if "length h = 12" for h t
      using that m(3,4) by simp
    show ?thesis unfolding r by (rule x) simp
  qed
  moreover have "take 2 r = take 2 q" using \<open>take 2 q = _\<close> by (simp add: r numeral_eq_Suc)
  moreover have "r ! 2 = 0x81 \<and> r ! 3 = 0x80 \<and> r ! 4 = q ! 4 \<and> r ! 5 = q ! 5"
    by (simp add: r)
  moreover have "be16 (r ! 6) (r ! 7) = (if qtype = 1 then 1 else 0)"
    by (simp add: r be16_def)
  ultimately show ?thesis using m(1,2) by auto
qed

section \<open>Properties\<close>

text \<open>
  C2. Whatever bytes arrive on the DNS port, serving the packet reads no byte and takes no
  slice outside it: the server never panics on a packet.
\<close>

theorem serve_packet_never_panics: "serve_packet tlds gs packet \<noteq> Panics"
proof -
  let ?d = "take max_packet packet"
  obtain b where "matches_tld ?d tlds = Returns b" using matches_tld_total by blast
  moreover obtain r where "make_response ?d = Returns r" using make_response_total by blast
  ultimately show ?thesis by (simp add: serve_packet_def Let_def)
qed

text \<open>
  A response the server builds to a packet with at least one question carries the
  packet's transaction id and question count, repeats its question (a client that parses
  the response reads the same name and type), has the response flags, and has one answer,
  the address 127.0.0.1, exactly for a question of type A.
\<close>

theorem make_response_answers:
  assumes "make_response q = Returns (Some r)" "1 \<le> be16 (q ! 4) (q ! 5)"
  shows "\<exists>name qtype k. parse_first_question q = Returns (Some (name, qtype))
    \<and> question_section_end q = Returns (Some k)
    \<and> parse_first_question r = Returns (Some (name, qtype))
    \<and> take 2 r = take 2 q \<and> r ! 2 = 0x81 \<and> r ! 3 = 0x80
    \<and> be16 (r ! 4) (r ! 5) = be16 (q ! 4) (q ! 5)
    \<and> be16 (r ! 6) (r ! 7) = (if qtype = 1 then 1 else 0)
    \<and> drop k r = (if qtype = 1 then a_record else [])"
  by (rule make_response_answer_parts[OF assms])

theorem make_response_answers_witness:
  "make_response (make_a_query ''a.test'') \<noteq> Panics
   \<and> (\<exists>r. make_response (make_a_query ''a.test'') = Returns (Some r)
       \<and> parse_first_question r = Returns (Some (''a.test'', 1)))"
proof -
  let ?q = "make_a_query ''a.test''"
  let ?r = "[0xAB, 0xCD, 0x81, 0x80, 0, 1, 0, 1, 0, 0, 0, 0, 1, 97, 4, 116, 101, 115, 116, 0, 0, 1, 0, 1,
     0xC0, 0x0C, 0, 1, 0, 1, 0, 0, 0, 60, 0, 4, 127, 0, 0, 1] :: bytes"
  have r: "make_response ?q = Returns (Some ?r)" by code_simp
  have n: "1 \<le> be16 (?q ! 4) (?q ! 5)" by code_simp
  have p: "parse_first_question ?q = Returns (Some (''a.test'', 1))" by code_simp
  show ?thesis using make_response_answers[OF r n] p r by auto
qed

section \<open>Queries of a client\<close>

lemma char_of_byte_of [simp]: "char_of_byte (byte_of c) = c"
  by (simp add: char_of_byte_def byte_of_def unat_of_nat take_bit_eq_mod)

lemma ascii_utf8: "(\<And>c. c \<in> set l \<Longrightarrow> (of_char c :: nat) < 128) \<Longrightarrow> from_utf8 (map byte_of l) = Some l"
proof -
  assume a: "\<And>c. c \<in> set l \<Longrightarrow> (of_char c :: nat) < 128"
  then have "utf8_ok (map byte_of l)"
    by (induction l) (auto simp: byte_of_def word_less_nat_alt unat_of_nat take_bit_eq_mod)
  then show ?thesis by (simp add: from_utf8_def comp_def)
qed

text \<open>The labels a name is written with: not empty, shorter than a pointer byte, ASCII.\<close>

definition plain_label :: "string \<Rightarrow> bool" where
  "plain_label l \<longleftrightarrow> l \<noteq> [] \<and> length l < 192 \<and> (\<forall>c\<in>set l. (of_char c :: nat) < 128)"

lemma read_labels_encoded:
  assumes "\<forall>l\<in>set ls. plain_label l"
  shows "read_labels (pre @ concat (map encode_label ls) @ 0 # post) (length pre) acc
    = Returns (Some (acc @ ls, length pre + length (concat (map encode_label ls)) + 1))"
  using assms
proof (induction ls arbitrary: pre acc)
  case Nil
  then show ?case by (subst read_labels.simps) (simp add: nth_append)
next
  case (Cons l ls)
  let ?d = "pre @ concat (map encode_label (l # ls)) @ 0 # post"
  from Cons.prems have l: "l \<noteq> []" "length l < 192" "from_utf8 (map byte_of l) = Some l"
    by (auto simp: plain_label_def ascii_utf8)
  have u: "unat (word_of_nat (length l) :: 8 word) = length l"
    using l(2) by (simp add: unat_of_nat take_bit_eq_mod)
  have b: "?d ! length pre = word_of_nat (length l)" by (simp add: encode_label_def nth_append)
  have "read_labels ?d (length pre) acc = read_labels ?d (length (pre @ encode_label l)) (acc @ [l])"
    by (subst read_labels.simps) (use l u b in \<open>simp add: Let_def encode_label_def\<close>)
  with Cons.IH[of "pre @ encode_label l" "acc @ [l]"] Cons.prems show ?case
    by (simp add: add.assoc)
qed

lemma a_query_labels:
  assumes "\<forall>l\<in>set (split_on CHR ''.'' name). plain_label l"
  shows "read_labels (make_a_query name) 12 []
    = Returns (Some (split_on CHR ''.'' name, length (make_a_query name) - 4))"
  using read_labels_encoded[OF assms, of "[0xAB, 0xCD, 1, 0, 0, 1, 0, 0, 0, 0, 0, 0]" "[0, 1, 0, 1]" "[]"]
  by (simp add: make_a_query_def numeral_eq_Suc)

lemma a_query_bytes:
  "length (make_a_query name) \<ge> 17"
  "make_a_query name ! 4 = 0" "make_a_query name ! 5 = 1" "take 2 (make_a_query name) = [0xAB, 0xCD]"
  "drop (length (make_a_query name) - 4) (make_a_query name) = [0, 1, 0, 1]"
  by (simp_all add: make_a_query_def)

lemma parse_a_query:
  assumes "\<forall>l\<in>set (split_on CHR ''.'' name). plain_label l"
  shows "parse_first_question (make_a_query name) = Returns (Some (name, 1))"
proof -
  let ?q = "make_a_query name"
  have "drop (length ?q - 4) ?q ! 0 = 0" "drop (length ?q - 4) ?q ! 1 = 1"
    unfolding a_query_bytes by simp_all
  then have "?q ! (length ?q - 4) = 0" "?q ! (length ?q - 4 + 1) = 1"
    using a_query_bytes(1)[of name] by simp_all
  then show ?thesis
    using a_query_bytes(1)[of name]
    by (simp add: parse_first_question_def read_name_def a_query_labels[OF assms] join_split_on be16_def)
qed

lemma a_query_end:
  assumes "\<forall>l\<in>set (split_on CHR ''.'' name). plain_label l"
  shows "question_section_end (make_a_query name) = Returns (Some (length (make_a_query name)))"
proof -
  have "skip_name (make_a_query name) 12 = Returns (Some (length (make_a_query name) - 4))"
    using read_labels_skip[OF a_query_labels[OF assms]] by simp
  then show ?thesis
    using a_query_bytes[of name]
    by (simp add: question_section_end_def be16_def)
qed

lemma local_name_answered:
  assumes plain: "\<forall>l\<in>set (split_on CHR ''.'' name). plain_label l" and "length (make_a_query name) \<le> max_packet"
    and tld: "\<exists>tld\<in>set tlds. to_lower name = tld \<or> ends_with (''.'' @ tld) (to_lower name)"
  shows "\<exists>r. serve_packet tlds gs (make_a_query name) = Returns (Some r)
      \<and> parse_first_question r = Returns (Some (name, 1)) \<and> drop (length r - 16) r = a_record"
proof -
  let ?q = "make_a_query name"
  have t: "take max_packet ?q = ?q" using assms(2) by simp
  have p: "parse_first_question ?q = Returns (Some (name, 1))" by (rule parse_a_query[OF plain])
  have m: "matches_tld ?q tlds = Returns True"
    using tld by (simp add: matches_tld_def p Let_def)
  have hd: "12 \<le> length ?q" "?q ! 4 = 0" "?q ! 5 = 1"
    using a_query_bytes[of name] by simp_all
  have e: "question_section_end ?q = Returns (Some (length ?q))" by (rule a_query_end[OF plain])
  obtain r where r: "make_response ?q = Returns (Some r)"
    using hd by (simp add: make_response_def p e)
  have "1 \<le> be16 (?q ! 4) (?q ! 5)" using hd by (simp add: be16_def)
  from make_response_answer_parts[OF r this] p e
  have pr: "parse_first_question r = Returns (Some (name, 1))" and d: "drop (length ?q) r = a_record"
    by auto
  from arg_cong[OF d, of length] have "length r - 16 = length ?q"
    by (simp add: a_record_def ttl_bytes_def)
  with r pr d m t show ?thesis by (simp add: serve_packet_def)
qed

text \<open>
  C33. A client that asks for the address of a name gets, when the lower-case name is one of
  the configured TLDs or lies below one, an answer that names 127.0.0.1 for the name it
  asked; for any other name it gets the first datagram of the upstream resolver that
  carries its transaction id, and nothing when none arrives.
\<close>

theorem serve_query_resolves:
  assumes "\<forall>l\<in>set (split_on CHR ''.'' name). plain_label l" "length (make_a_query name) \<le> max_packet"
  shows "if \<exists>tld\<in>set tlds. to_lower name = tld \<or> ends_with (''.'' @ tld) (to_lower name)
    then \<exists>r. serve_packet tlds gs (make_a_query name) = Returns (Some r)
      \<and> parse_first_question r = Returns (Some (name, 1)) \<and> drop (length r - 16) r = a_record
    else serve_packet tlds gs (make_a_query name)
      = Returns (find (\<lambda>r. 2 \<le> length r \<and> take 2 r = [0xAB, 0xCD]) (map (take max_packet) gs))"
proof -
  let ?q = "make_a_query name"
  have t: "take max_packet ?q = ?q" using assms(2) by simp
  have p: "parse_first_question ?q = Returns (Some (name, 1))" by (rule parse_a_query[OF assms(1)])
  have m: "matches_tld ?q tlds
      = Returns (\<exists>tld\<in>set tlds. to_lower name = tld \<or> ends_with (''.'' @ tld) (to_lower name))"
    by (simp add: matches_tld_def p Let_def)
  have hd: "12 \<le> length ?q" "?q ! 4 = 0" "?q ! 5 = 1" "take 2 ?q = [0xAB, 0xCD]"
    using a_query_bytes[of name] by simp_all
  show ?thesis
  proof (cases "\<exists>tld\<in>set tlds. to_lower name = tld \<or> ends_with (''.'' @ tld) (to_lower name)")
    case True
    then show ?thesis using local_name_answered[OF assms] by simp
  next
    case False
    have "(case await_reply ?q gs of Inl _ \<Rightarrow> None | Inr r \<Rightarrow> Some r)
        = find (\<lambda>r. 2 \<le> length r \<and> take 2 r = [0xAB, 0xCD]) (map (take max_packet) gs)"
      using hd by (induction gs) (auto simp: Let_def)
    with False hd show ?thesis by (simp add: serve_packet_def t m forward_def Let_def)
  qed
qed

theorem serve_query_resolves_witness:
  "\<exists>r. serve_packet [''test''] [] (make_a_query ''Api.test'') = Returns (Some r)
      \<and> parse_first_question r = Returns (Some (''Api.test'', 1)) \<and> drop (length r - 16) r = a_record"
proof -
  have a: "\<forall>l\<in>set (split_on CHR ''.'' ''Api.test''). plain_label l" by code_simp
  have b: "length (make_a_query ''Api.test'') \<le> max_packet" by code_simp
  have c: "\<exists>tld\<in>set [''test'']. to_lower ''Api.test'' = tld \<or> ends_with (''.'' @ tld) (to_lower ''Api.test'')"
    by code_simp
  show ?thesis using serve_query_resolves[OF a b, of "[''test'']" "[]"] unfolding if_P[OF c] .
qed

text \<open>
  A packet whose header announces no question but that carries a name is still matched and
  answered; the answer has no question section and its name is a pointer to itself.
\<close>

lemma zero_questions_answered:
  "\<exists>r. serve_packet [''test''] [] ([1, 2, 1, 0, 0, 0, 0, 0, 0, 0, 0, 0, 4, 116, 101, 115, 116, 0, 0, 1, 0, 1])
      = Returns (Some r)
    \<and> r ! 4 = 0 \<and> r ! 5 = 0 \<and> r ! 7 = 1 \<and> r ! 12 = 0xC0 \<and> r ! 13 = 12"
proof -
  have "serve_packet [''test''] [] ([1, 2, 1, 0, 0, 0, 0, 0, 0, 0, 0, 0, 4, 116, 101, 115, 116, 0, 0, 1, 0, 1])
      = Returns (Some ([1, 2, 0x81, 0x80, 0, 0, 0, 1, 0, 0, 0, 0,
          0xC0, 0x0C, 0, 1, 0, 1, 0, 0, 0, 60, 0, 4, 127, 0, 0, 1]))"
    by code_simp
  then show ?thesis by simp
qed

end
