(* ===== verification/Dip_Resolver.thy ===== *)
theory Dip_Resolver
  imports Dip_Prelude
begin

text \<open>
  The resolver files of \<open>dns/mod.rs\<close>: one file per TLD under \<open>/etc/resolver\<close> (macOS) or
  \<open>/etc/systemd/resolved.conf.d\<close> (Linux). A directory is a map from file names to
  contents. Whether a write, a move or a removal succeeds is a parameter, and so is the
  order in which the directory lists its entries. The locale \<open>tld_files\<close> is the contract
  the two platforms share.
\<close>

type_synonym dir = "string \<Rightarrow> string option"

section \<open>Shared checks\<close>

definition resolver_needs_update :: "string option \<Rightarrow> string \<Rightarrow> bool" where
  "resolver_needs_update cur expected =
     (case cur of Some c \<Rightarrow> trim c \<noteq> trim expected | None \<Rightarrow> True)"

section \<open>macOS\<close>

definition resolver_content :: "nat \<Rightarrow> string" where
  "resolver_content dns_port = ''nameserver 127.0.0.1'' @ [nl] @ ''port '' @ show_nat dns_port @ [nl]"

definition write_resolver :: "nat \<Rightarrow> (string \<Rightarrow> bool) \<Rightarrow> string \<Rightarrow> dir \<Rightarrow> dir" where
  "write_resolver dns_port writable tld fs =
     (let content = resolver_content dns_port
      in if resolver_needs_update (fs tld) content
         then (if writable tld then fs(tld \<mapsto> content) else fs)
         else fs)"

definition remove_stale_resolver :: "string list \<Rightarrow> (string \<Rightarrow> bool) \<Rightarrow> string \<Rightarrow> dir \<Rightarrow> dir" where
  "remove_stale_resolver active_tlds removable name fs =
     (let content = (case fs name of Some c \<Rightarrow> c | None \<Rightarrow> [])
      in if \<not> contains_sub ''nameserver 127.0.0.1'' content then fs
         else if name \<in> set active_tlds then fs
         else if removable name then fs(name := None)
         else fs)"

definition remove_stale_resolvers :: "string list \<Rightarrow> (string \<Rightarrow> bool) \<Rightarrow> string list \<Rightarrow> dir \<Rightarrow> dir" where
  "remove_stale_resolvers active_tlds removable entries fs =
     fold (remove_stale_resolver active_tlds removable) entries fs"

text \<open>\<open>entries\<close> is the listing of the directory after the files have been written.\<close>

definition sync_resolver_files_macos ::
    "string list \<Rightarrow> nat \<Rightarrow> (string \<Rightarrow> bool) \<Rightarrow> (string \<Rightarrow> bool) \<Rightarrow> string list \<Rightarrow> dir \<Rightarrow> dir" where
  "sync_resolver_files_macos tlds dns_port writable removable entries fs =
     (let fs1 = fold (write_resolver dns_port writable) tlds fs
      in remove_stale_resolvers tlds removable entries fs1)"

section \<open>Linux\<close>

definition resolved_content :: "string \<Rightarrow> string" where
  "resolved_content tld =
     ''[Resolve]'' @ [nl] @ ''DNS=127.0.0.1'' @ [nl] @ ''FallbackDNS=8.8.8.8 1.1.1.1'' @ [nl]
       @ ''Domains=~'' @ tld @ [nl]"

definition resolved_file :: "string \<Rightarrow> string" where
  "resolved_file tld = ''dip-'' @ tld @ ''.conf''"

text \<open>The flag says whether the file was created or updated.\<close>

definition setup_systemd_resolved ::
    "(string \<Rightarrow> bool) \<Rightarrow> (string \<Rightarrow> bool) \<Rightarrow> string \<Rightarrow> dir \<Rightarrow> bool \<times> dir" where
  "setup_systemd_resolved tmp_ok mv_ok tld fs =
     (if (case fs (resolved_file tld) of Some c \<Rightarrow> trim c = trim (resolved_content tld) | None \<Rightarrow> False)
      then (False, fs)
      else if \<not> tmp_ok tld then (False, fs)
      else if mv_ok tld then (True, fs(resolved_file tld \<mapsto> resolved_content tld))
      else (False, fs))"

definition setup_each ::
    "(string \<Rightarrow> bool) \<Rightarrow> (string \<Rightarrow> bool) \<Rightarrow> string list \<Rightarrow> bool \<times> dir \<Rightarrow> bool \<times> dir" where
  "setup_each tmp_ok mv_ok tlds st =
     fold (\<lambda>tld (changed, fs).
       case setup_systemd_resolved tmp_ok mv_ok tld fs of (c, fs') \<Rightarrow> (changed \<or> c, fs')) tlds st"

definition remove_stale_conf :: "string list \<Rightarrow> (string \<Rightarrow> bool) \<Rightarrow> string \<Rightarrow> bool \<times> dir \<Rightarrow> bool \<times> dir" where
  "remove_stale_conf active_tlds removable name st =
     (case Option.bind (strip_prefix ''dip-'' name) (strip_suffix ''.conf'') of
        None \<Rightarrow> st
      | Some tld \<Rightarrow>
          (if tld \<in> set active_tlds then st
           else if removable name then (True, (snd st)(name := None))
           else st))"

text \<open>The flag of the result is whether \<open>systemd-resolved\<close> is restarted.\<close>

definition sync_resolver_files_linux ::
    "string list \<Rightarrow> (string \<Rightarrow> bool) \<Rightarrow> (string \<Rightarrow> bool) \<Rightarrow> (string \<Rightarrow> bool) \<Rightarrow> string list
      \<Rightarrow> dir \<Rightarrow> bool \<times> dir" where
  "sync_resolver_files_linux tlds tmp_ok mv_ok removable entries fs =
     fold (remove_stale_conf tlds removable) entries (setup_each tmp_ok mv_ok tlds (False, fs))"

section \<open>The contract of the two directories\<close>

locale tld_files =
  fixes file_of :: "string \<Rightarrow> string"
    and good :: "string \<Rightarrow> string option \<Rightarrow> bool"
    and put_file :: "string \<Rightarrow> dir \<Rightarrow> dir"
  assumes file_inj: "file_of a = file_of b \<Longrightarrow> a = b"
    and write_good: "good t (put_file t fs (file_of t))"
    and write_frame: "n \<noteq> file_of t \<Longrightarrow> put_file t fs n = fs n"
    and write_noop: "good t (fs (file_of t)) \<Longrightarrow> put_file t fs = fs"
begin

lemma write_all_frame: "n \<notin> file_of ` set ts \<Longrightarrow> fold put_file ts fs n = fs n"
  by (induction ts arbitrary: fs) (auto simp: write_frame)

lemma write_keeps_good: "good t (fs (file_of t)) \<Longrightarrow> good t (put_file u fs (file_of t))"
  by (metis file_inj write_frame write_good)

lemma write_all_keeps_good: "good t (fs (file_of t)) \<Longrightarrow> good t (fold put_file ts fs (file_of t))"
  by (induction ts arbitrary: fs) (auto simp: write_keeps_good)

lemma write_all_good: "t \<in> set ts \<Longrightarrow> good t (fold put_file ts fs (file_of t))"
  by (induction ts arbitrary: fs) (auto simp: write_good write_all_keeps_good)

lemma write_all_noop: "(\<And>t. t \<in> set ts \<Longrightarrow> good t (fs (file_of t))) \<Longrightarrow> fold put_file ts fs = fs"
  by (induction ts) (auto simp: write_noop)

end

definition up_to_date :: "string \<Rightarrow> string option \<Rightarrow> bool" where
  "up_to_date expected cur \<longleftrightarrow> (\<exists>c. cur = Some c \<and> trim c = trim expected)"

lemma needs_update_iff: "resolver_needs_update cur e \<longleftrightarrow> \<not> up_to_date e cur"
  by (auto simp: resolver_needs_update_def up_to_date_def split: option.splits)

interpretation mac: tld_files "\<lambda>t. t" "\<lambda>t. up_to_date (resolver_content port)"
    "write_resolver port (\<lambda>_. True)" for port
  by unfold_locales (auto simp: write_resolver_def needs_update_iff Let_def up_to_date_def)

lemma setup_snd:
  "snd (setup_systemd_resolved tmp_ok mv_ok t fs) =
     (if \<not> up_to_date (resolved_content t) (fs (resolved_file t)) \<and> tmp_ok t \<and> mv_ok t
      then fs(resolved_file t \<mapsto> resolved_content t) else fs)"
  by (auto simp: setup_systemd_resolved_def up_to_date_def split: option.splits)

interpretation linux: tld_files resolved_file "\<lambda>t. up_to_date (resolved_content t)"
    "\<lambda>t fs. snd (setup_systemd_resolved (\<lambda>_. True) (\<lambda>_. True) t fs)"
  by unfold_locales (auto simp: setup_snd resolved_file_def up_to_date_def)

section \<open>Facts\<close>

lemma marker_resolver: "contains_sub ''nameserver 127.0.0.1'' (resolver_content port)"
  unfolding contains_sub_iff resolver_content_def by (rule exI[of _ "[]"]) auto

lemma no_marker [simp]: "\<not> contains_sub ''nameserver 127.0.0.1'' []"
  by (simp add: contains_sub_iff)

definition dip_owned :: "string option \<Rightarrow> bool" where
  "dip_owned cur = (case cur of Some c \<Rightarrow> contains_sub ''nameserver 127.0.0.1'' c | None \<Rightarrow> False)"

lemma dip_owned_None [simp]: "\<not> dip_owned None"
  by (simp add: dip_owned_def)

lemma remove_stale_frame:
  "n \<in> set active \<or> n \<notin> set entries \<Longrightarrow> remove_stale_resolvers active removable entries fs n = fs n"
proof -
  have one: "n \<in> set active \<or> n \<noteq> e \<Longrightarrow> remove_stale_resolver active removable e fs n = fs n" for e fs
    by (auto simp: remove_stale_resolver_def Let_def)
  show "n \<in> set active \<or> n \<notin> set entries \<Longrightarrow> ?thesis"
    unfolding remove_stale_resolvers_def by (induction entries arbitrary: fs) (auto simp: one)
qed

lemma remove_stale_result:
  assumes "n \<notin> set active" "n \<in> set entries"
  shows "remove_stale_resolvers active (\<lambda>_. True) entries fs n =
    (if dip_owned (fs n) then None else fs n)"
proof -
  have one: "remove_stale_resolver active (\<lambda>_. True) e fs n =
      (if e = n \<and> dip_owned (fs n) then None else fs n)" for e fs
    using assms(1) by (cases "fs e") (auto simp: remove_stale_resolver_def dip_owned_def)
  have "fold (remove_stale_resolver active (\<lambda>_. True)) es fs n =
      (if n \<in> set es \<and> dip_owned (fs n) then None else fs n)" for es
  proof (induction es arbitrary: fs)
    case (Cons e es)
    show ?case by (auto simp: Cons.IH one)
  qed simp
  with assms(2) show ?thesis by (simp add: remove_stale_resolvers_def)
qed

lemma setup_each_snd:
  "snd (setup_each t m tlds st) = fold (\<lambda>t' fs. snd (setup_systemd_resolved t m t' fs)) tlds (snd st)"
  unfolding setup_each_def by (induction tlds arbitrary: st) (auto split: prod.splits)

lemma setup_each_noop:
  assumes "\<And>t. t \<in> set tlds \<Longrightarrow> up_to_date (resolved_content t) (fs (resolved_file t))"
  shows "setup_each tmp_ok mv_ok tlds (c, fs) = (c, fs)"
  using assms
proof (induction tlds)
  case (Cons t ts)
  then obtain c where "fs (resolved_file t) = Some c" "trim c = trim (resolved_content t)"
    by (auto simp: up_to_date_def)
  then have "setup_systemd_resolved tmp_ok mv_ok t fs = (False, fs)"
    by (simp add: setup_systemd_resolved_def)
  with Cons show ?case by (simp add: setup_each_def)
qed (simp add: setup_each_def)

lemma stale_tld: "Option.bind (strip_prefix ''dip-'' n) (strip_suffix ''.conf'') = Some t \<longleftrightarrow> n = resolved_file t"
  by (auto simp: Option.bind_eq_Some_conv resolved_file_def simp del: strip_prefix.simps)

lemma remove_confs_result:
  "snd (fold (remove_stale_conf active (\<lambda>_. True)) es st) n =
     (if n \<in> set es \<and> n \<in> range resolved_file - resolved_file ` set active then None else snd st n)"
proof (induction es arbitrary: st)
  case (Cons e es)
  have "snd (remove_stale_conf active (\<lambda>_. True) e st) n =
     (if n = e \<and> n \<in> range resolved_file - resolved_file ` set active then None else snd st n)"
  proof (cases "Option.bind (strip_prefix ''dip-'' e) (strip_suffix ''.conf'')")
    case None
    then have "\<forall>t. e \<noteq> resolved_file t" by (metis option.distinct(1) stale_tld)
    with None show ?thesis by (auto simp: remove_stale_conf_def)
  next
    case (Some t)
    then have "e = resolved_file t" by (simp only: stale_tld)
    with Some show ?thesis by (auto simp: remove_stale_conf_def dest: linux.file_inj)
  qed
  with Cons show ?case by auto
qed simp

lemma write_resolver_all:
  "fold (write_resolver port (\<lambda>_. True)) ts fs n =
    (if n \<in> set ts \<and> \<not> up_to_date (resolver_content port) (fs n) then Some (resolver_content port) else fs n)"
proof (induction ts arbitrary: fs)
  case (Cons t ts)
  have "write_resolver port (\<lambda>_. True) t fs n =
      (if n = t \<and> \<not> up_to_date (resolver_content port) (fs n) then Some (resolver_content port) else fs n)"
    by (auto simp: write_resolver_def needs_update_iff Let_def)
  moreover have "up_to_date (resolver_content port) (Some (resolver_content port))"
    by (simp add: up_to_date_def)
  ultimately show ?case by (auto simp: Cons.IH)
qed simp

section \<open>Properties\<close>

text \<open>
  On macOS, when every write and removal succeeds, the sync leaves a file with the
  resolver's content for every configured TLD, removes every other file that names the
  local resolver, and leaves every foreign file of the directory as it was.
\<close>

theorem sync_macos_converges:
  assumes "set entries = dom fs \<union> set tlds"
  shows "sync_resolver_files_macos tlds port (\<lambda>_. True) (\<lambda>_. True) entries fs n =
    (if n \<in> set tlds then
       (if up_to_date (resolver_content port) (fs n) then fs n else Some (resolver_content port))
     else if dip_owned (fs n) then None
     else fs n)"
proof (cases "n \<in> set tlds \<or> n \<notin> dom fs")
  case True
  with assms show ?thesis
    by (auto simp: sync_resolver_files_macos_def remove_stale_frame Let_def write_resolver_all)
next
  case False
  with assms show ?thesis
    by (auto simp: sync_resolver_files_macos_def remove_stale_result Let_def write_resolver_all)
qed

theorem sync_macos_converges_witness:
  "sync_resolver_files_macos [''test''] 5354 (\<lambda>_. True) (\<lambda>_. True) [''old'', ''test'']
      [''old'' \<mapsto> ''nameserver 127.0.0.1''] ''old'' = None"
proof -
  have e: "set [''old'', ''test''] = dom [''old'' \<mapsto> ''nameserver 127.0.0.1''] \<union> set [''test'']"
    by auto
  have o: "dip_owned (Some ''nameserver 127.0.0.1'')" by code_simp
  show ?thesis using sync_macos_converges[OF e, of 5354 "''old''"] o by simp
qed

text \<open>
  On Linux, when every command succeeds, the sync leaves an up-to-date drop-in for every
  configured TLD, removes the drop-ins of all other TLDs and touches no further file, and a
  second sync with the same configuration changes nothing and restarts nothing.
\<close>

theorem sync_linux_converges:
  assumes "set entries = dom fs \<union> resolved_file ` set tlds"
    and "sync_resolver_files_linux tlds (\<lambda>_. True) (\<lambda>_. True) (\<lambda>_. True) entries fs = (changed, fs')"
    and "set entries' = dom fs'"
  shows "(\<forall>t\<in>set tlds. up_to_date (resolved_content t) (fs' (resolved_file t)))
    \<and> (\<forall>t. t \<notin> set tlds \<longrightarrow> fs' (resolved_file t) = None)
    \<and> (\<forall>n. n \<notin> range resolved_file \<longrightarrow> fs' n = fs n)
    \<and> sync_resolver_files_linux tlds (\<lambda>_. True) (\<lambda>_. True) (\<lambda>_. True) entries' fs' = (False, fs')"
proof -
  let ?f = "fold (\<lambda>t' fs. snd (setup_systemd_resolved (\<lambda>_. True) (\<lambda>_. True) t' fs)) tlds fs"
  have r: "fs' n = (if n \<in> set entries \<and> n \<in> range resolved_file - resolved_file ` set tlds then None else ?f n)" for n
    using arg_cong[OF assms(2), of snd]
    by (auto simp: sync_resolver_files_linux_def remove_confs_result setup_each_snd)
  have good: "up_to_date (resolved_content t) (fs' (resolved_file t))" if "t \<in> set tlds" for t
    using that linux.write_all_good[OF that, of fs] by (simp add: r)
  have stale: "fs' (resolved_file t) = None" if "t \<notin> set tlds" for t
  proof -
    have n: "resolved_file t \<notin> resolved_file ` set tlds" using that linux.file_inj by blast
    then have "?f (resolved_file t) = fs (resolved_file t)" by (rule linux.write_all_frame)
    with n assms(1) show ?thesis by (auto simp: r)
  qed
  have frame: "fs' n = fs n" if "n \<notin> range resolved_file" for n
    using that linux.write_all_frame[of n tlds fs] by (auto simp: r)
  have noop: "fold (remove_stale_conf tlds (\<lambda>_. True)) es (c, fs') = (c, fs')"
    if "set es \<subseteq> dom fs'" for es c
    using that
  proof (induction es)
    case (Cons e es)
    have "remove_stale_conf tlds (\<lambda>_. True) e (c, fs') = (c, fs')"
    proof (cases "Option.bind (strip_prefix ''dip-'' e) (strip_suffix ''.conf'')")
      case (Some t)
      then have "e = resolved_file t" by (simp only: stale_tld)
      with Cons.prems stale[of t] have "t \<in> set tlds" by fastforce
      with Some show ?thesis by (simp add: remove_stale_conf_def)
    qed (simp add: remove_stale_conf_def)
    with Cons show ?case by simp
  qed simp
  show ?thesis
    using good stale frame noop[of entries'] assms(3)
    by (simp add: sync_resolver_files_linux_def setup_each_noop)
qed

theorem sync_linux_converges_witness:
  "sync_resolver_files_linux [''test''] (\<lambda>_. True) (\<lambda>_. True) (\<lambda>_. True) [''dip-test.conf'']
      [''dip-test.conf'' \<mapsto> resolved_content ''test''] = (False, [''dip-test.conf'' \<mapsto> resolved_content ''test''])"
proof -
  let ?f = "Map.empty :: dir"
  let ?g = "[''dip-test.conf'' \<mapsto> resolved_content ''test''] :: dir"
  let ?s = "sync_resolver_files_linux [''test''] (\<lambda>_. True) (\<lambda>_. True) (\<lambda>_. True)"
  have a: "set [''dip-test.conf''] = dom ?f \<union> resolved_file ` set [''test'']"
    by (simp add: resolved_file_def)
  have b: "?s [''dip-test.conf''] ?f = (True, ?g)"
    by (simp add: sync_resolver_files_linux_def setup_each_def setup_systemd_resolved_def
        remove_stale_conf_def resolved_file_def strip_suffix_def)
  have c: "set [''dip-test.conf''] = dom ?g" by simp
  show ?thesis using sync_linux_converges[OF a b c] by blast
qed

end
