(* ===== verification/Dip_Yaml.thy ===== *)
theory Dip_Yaml
  imports Dip_Prelude
begin

text \<open>
  The YAML parser of \<open>utils/yaml.rs\<close>. The parser's cursor \<open>lines[pos..]\<close> is the list of
  the remaining lines; \<open>HashMap\<close> of anchors is a map. The mutually recursive parsers take
  fuel, and running out of it is an error of its own, \<open>Out_of_fuel\<close>, which
  \<open>from_str\<close> never returns. A float keeps the decimal it was written as; whether its
  nearest double is finite is decided exactly.
\<close>

datatype yerror = Out_of_fuel | Yaml_error nat string

definition yerr :: "nat \<Rightarrow> string \<Rightarrow> yerror + 'a" where
  "yerr line msg = Inl (Yaml_error line msg)"

definition ebind :: "'e + 'a \<Rightarrow> ('a \<Rightarrow> 'e + 'b) \<Rightarrow> 'e + 'b" where
  "ebind m f = (case m of Inl e \<Rightarrow> Inl e | Inr a \<Rightarrow> f a)"

record yline =
  lno :: nat
  indent :: nat
  ltext :: string
  lraw :: string

record ystate =
  ylines :: "yline list"
  anchors :: "string \<Rightarrow> json option"

section \<open>Line-level helpers\<close>

definition trim_spaces :: "string \<Rightarrow> string" where
  "trim_spaces s = dropWhile (\<lambda>c. c = spc) s"

text \<open>\<open>sp\<close>: the previous byte, if any, is a blank.\<close>

fun strip_comment_from :: "bool \<Rightarrow> bool \<Rightarrow> bool \<Rightarrow> string \<Rightarrow> string" where
  "strip_comment_from in_single in_double sp [] = []"
| "strip_comment_from in_single in_double sp (c # cs) =
     (let sp' = (c = spc \<or> c = tab) in
      if c = squote \<and> \<not> in_double then c # strip_comment_from (\<not> in_single) in_double sp' cs
      else if c = dquote \<and> \<not> in_single then c # strip_comment_from in_single (\<not> in_double) sp' cs
      else if c = bslash \<and> in_double then
        (case cs of
           [] \<Rightarrow> [c]
         | x # cs' \<Rightarrow> c # x # strip_comment_from in_single in_double (x = spc \<or> x = tab) cs')
      else if c = CHR ''#'' \<and> \<not> in_single \<and> \<not> in_double \<and> sp then []
      else c # strip_comment_from in_single in_double sp' cs)"

definition strip_comment :: "string \<Rightarrow> string" where
  "strip_comment t = strip_comment_from False False True t"

fun take_single :: "string \<Rightarrow> string \<Rightarrow> (string \<times> string) option" where
  "take_single out [] = None"
| "take_single out (c # cs) =
     (if c = squote then
        (case cs of
           [] \<Rightarrow> Some (out, [])
         | x # cs' \<Rightarrow> (if x = squote then take_single (out @ [squote]) cs' else Some (out, cs)))
      else take_single (out @ [c]) cs)"

definition unescape :: "char \<Rightarrow> char option" where
  "unescape c =
     (if c = CHR ''n'' then Some nl
      else if c = CHR ''t'' then Some tab
      else if c = CHR ''r'' then Some cr
      else if c = CHR ''0'' then Some (CHR 0x00)
      else if c = bslash then Some bslash
      else if c = dquote then Some dquote
      else None)"

fun take_double :: "nat \<Rightarrow> string \<Rightarrow> string \<Rightarrow> yerror + (string \<times> string)" where
  "take_double line_no out [] = yerr line_no ''unterminated quoted string''"
| "take_double line_no out (c # cs) =
     (if c = dquote then Inr (out, cs)
      else if c = bslash then
        (case cs of
           [] \<Rightarrow> yerr line_no ''unterminated quoted string''
         | x # cs' \<Rightarrow>
             (case unescape x of
                Some y \<Rightarrow> take_double line_no (out @ [y]) cs'
              | None \<Rightarrow> yerr line_no (''unsupported escape '' @ [squote, bslash, x, squote])))
      else take_double line_no (out @ [c]) cs)"

definition take_quoted :: "string \<Rightarrow> nat \<Rightarrow> yerror + (string \<times> string)" where
  "take_quoted t line_no =
     (case t of
        [] \<Rightarrow> yerr line_no ''unterminated quoted string''
      | q # cs \<Rightarrow>
          (if q = squote then
             (case take_single [] cs of
                Some r \<Rightarrow> Inr r
              | None \<Rightarrow> yerr line_no ''unterminated quoted string'')
           else take_double line_no [] cs))"

text \<open>The text before and after the first colon at the end or before a space.\<close>

fun find_key :: "string \<Rightarrow> (string \<times> string) option" where
  "find_key [] = None"
| "find_key (c # cs) =
     (if c = CHR '':'' \<and> (cs = [] \<or> hd cs = spc) then Some ([], cs)
      else map_option (\<lambda>(a, b). (c # a, b)) (find_key cs))"

definition quoted_start :: "string \<Rightarrow> bool" where
  "quoted_start t \<longleftrightarrow> starts_with [dquote] t \<or> starts_with [squote] t"

definition split_key :: "string \<Rightarrow> nat \<Rightarrow> yerror + (string \<times> string) option" where
  "split_key t line_no =
     (if starts_with ''['' t \<or> starts_with ''{'' t \<or> starts_with ''#'' t then Inr None
      else if quoted_start t then
        ebind (take_quoted t line_no) (\<lambda>(key, after).
          (case strip_prefix '':'' (trim_start after) of
             Some rest \<Rightarrow>
               (if rest = [] \<or> starts_with '' '' rest then Inr (Some (key, trim_start rest)) else Inr None)
           | None \<Rightarrow> Inr None))
      else
        (case find_key t of
           None \<Rightarrow> Inr None
         | Some (kpart, after) \<Rightarrow>
             (let key = trim_end kpart
              in if key = [] then Inr None else Inr (Some (key, trim_start after)))))"

definition split_word :: "string \<Rightarrow> string \<times> string" where
  "split_word t =
     (case split_once spc t of
        Some (a, b) \<Rightarrow> (a, trim_start b)
      | None \<Rightarrow> (t, []))"

text \<open>Net bracket depth; \<open>depth\<close> is an \<open>i32\<close> that no line can make overflow.\<close>

fun flow_scan :: "nat \<Rightarrow> bool \<Rightarrow> bool \<Rightarrow> int \<Rightarrow> string \<Rightarrow> yerror + int" where
  "flow_scan line_no in_single in_double depth [] = Inr depth"
| "flow_scan line_no in_single in_double depth (c # cs) =
     (if c = squote \<and> \<not> in_double then flow_scan line_no (\<not> in_single) in_double depth cs
      else if c = dquote \<and> \<not> in_single then flow_scan line_no in_single (\<not> in_double) depth cs
      else if c = bslash \<and> in_double then
        (case cs of [] \<Rightarrow> Inr depth | _ # cs' \<Rightarrow> flow_scan line_no in_single in_double depth cs')
      else if (c = CHR ''['' \<or> c = CHR ''{'') \<and> \<not> in_single \<and> \<not> in_double then
        flow_scan line_no in_single in_double (depth + 1) cs
      else if (c = CHR '']'' \<or> c = CHR ''}'') \<and> \<not> in_single \<and> \<not> in_double then
        (if depth - 1 < 0 then yerr line_no ''unbalanced brackets in flow collection''
         else flow_scan line_no in_single in_double (depth - 1) cs)
      else flow_scan line_no in_single in_double depth cs)"

definition flow_depth :: "string \<Rightarrow> nat \<Rightarrow> yerror + int" where
  "flow_depth t line_no = flow_scan line_no False False 0 t"

section \<open>Scalars\<close>

text \<open>
  The decimal grammar of \<open>str::parse::<f64>\<close> (its words \<open>inf\<close> and \<open>nan\<close> have no digit
  and are never asked for), as sign, mantissa and exponent.
\<close>

definition parse_exponent :: "string \<Rightarrow> int option" where
  "parse_exponent s =
     (let neg = (case s of c # r \<Rightarrow> c = CHR ''-'' | [] \<Rightarrow> False);
          ds = (case s of c # r \<Rightarrow> (if c = CHR ''+'' \<or> c = CHR ''-'' then r else s) | [] \<Rightarrow> s)
      in if all_digits ds then Some (if neg then - int (digits_val ds) else int (digits_val ds)) else None)"

definition parse_decimal :: "string \<Rightarrow> jnum option" where
  "parse_decimal s =
     (let neg = (case s of c # r \<Rightarrow> c = CHR ''-'' | [] \<Rightarrow> False);
          body = (case s of c # r \<Rightarrow> (if c = CHR ''+'' \<or> c = CHR ''-'' then r else s) | [] \<Rightarrow> s);
          ip = takeWhile is_digit body;
          r1 = dropWhile is_digit body;
          fp = (case r1 of c # r \<Rightarrow> (if c = CHR ''.'' then takeWhile is_digit r else []) | [] \<Rightarrow> []);
          r2 = (case r1 of c # r \<Rightarrow> (if c = CHR ''.'' then dropWhile is_digit r else r1) | [] \<Rightarrow> [])
      in if ip = [] \<and> fp = [] then None
         else
           (case r2 of
              [] \<Rightarrow> Some (JDec neg (digits_val (ip @ fp)) (- int (length fp)))
            | c # r \<Rightarrow>
                (if c = CHR ''e'' \<or> c = CHR ''E'' then
                   map_option (\<lambda>e. JDec neg (digits_val (ip @ fp)) (e - int (length fp))) (parse_exponent r)
                 else None)))"

text \<open>The nearest double of the decimal is finite: it lies below the midpoint of the largest double and \<open>2^1024\<close>.\<close>

definition finite_f64 :: "nat \<Rightarrow> int \<Rightarrow> bool" where
  "finite_f64 m e \<longleftrightarrow> m = 0 \<or>
     (if 0 \<le> e then m * 10 ^ nat e < 2 ^ 1024 - 2 ^ 970 else m < (2 ^ 1024 - 2 ^ 970) * 10 ^ nat (- e))"

definition plain_scalar :: "string \<Rightarrow> json" where
  "plain_scalar t =
     (if t \<in> set [[], ''~'', ''null'', ''Null'', ''NULL''] then JNull
      else if t \<in> set [''true'', ''True'', ''TRUE''] then JBool True
      else if t \<in> set [''false'', ''False'', ''FALSE''] then JBool False
      else if is_digit (hd t) \<or> hd t = CHR ''-'' \<or> hd t = CHR ''+'' \<or> hd t = CHR ''.'' then
        (case parse_i64 t of
           Some i \<Rightarrow> JNum (JInt i)
         | None \<Rightarrow>
             (if list_ex is_digit t then
                (case parse_decimal t of
                   Some (JDec s m e) \<Rightarrow> (if finite_f64 m e then JNum (JDec s m e) else JStr t)
                 | _ \<Rightarrow> JStr t)
              else JStr t))
      else JStr t)"

definition parse_scalar_token :: "string \<Rightarrow> nat \<Rightarrow> yerror + json" where
  "parse_scalar_token t line_no =
     (if quoted_start t then
        ebind (take_quoted t line_no) (\<lambda>(s, after).
          if trim after \<noteq> [] then
            yerr line_no (''unexpected content after quoted string: '' @ [squote] @ trim after @ [squote])
          else Inr (JStr s))
      else Inr (plain_scalar t))"

section \<open>Flow collections\<close>

fun plain_token :: "string \<Rightarrow> string \<times> string" where
  "plain_token [] = ([], [])"
| "plain_token (c # cs) =
     (if c = CHR '','' \<or> c = CHR '']'' \<or> c = CHR ''}''
        \<or> (c = CHR '':'' \<and> (cs = [] \<or> hd cs \<in> {spc, CHR '','', CHR '']'', CHR ''}''}))
      then ([], c # cs)
      else (case plain_token cs of (a, b) \<Rightarrow> (c # a, b)))"

definition got_char :: "string \<Rightarrow> string" where
  "got_char cs = (case cs of [] \<Rightarrow> ''None'' | c # _ \<Rightarrow> ''Some('' @ [squote, c, squote] @ '')'')"

definition flow_key :: "nat \<Rightarrow> string \<Rightarrow> yerror + (string \<times> string)" where
  "flow_key line cs =
     (if quoted_start cs then take_quoted cs line
      else (case plain_token cs of (tok, r) \<Rightarrow> Inr (trim tok, r)))"

text \<open>As for the block parser below, each method is a definition over the methods it calls.\<close>

type_synonym fresult = "yerror + (json \<times> string)"

datatype ftask = Flow_value | Flow_seq "json list" | Flow_map "(string \<times> json) list"

definition flow_value :: "(ftask \<Rightarrow> string \<Rightarrow> fresult) \<Rightarrow> (string \<Rightarrow> json option) \<Rightarrow> nat \<Rightarrow> string \<Rightarrow> fresult" where
  "flow_value rec anch line cs0 =
     (case trim_spaces cs0 of
        [] \<Rightarrow> yerr line ''unexpected end of flow collection''
      | c # cs \<Rightarrow>
          (if c = CHR ''['' then rec (Flow_seq []) cs
           else if c = CHR ''{'' then rec (Flow_map []) cs
           else if c = dquote \<or> c = squote then
             ebind (take_quoted (c # cs) line) (\<lambda>(s, after). Inr (JStr s, after))
           else if c = CHR ''*'' then
             (case plain_token cs of (name, r) \<Rightarrow>
               (case anch (trim name) of
                  Some v \<Rightarrow> Inr (v, r)
                | None \<Rightarrow> yerr line (''unknown anchor '' @ [squote] @ trim name @ [squote])))
           else (case plain_token (c # cs) of (tok, r) \<Rightarrow> Inr (plain_scalar (trim tok), r))))"

text \<open>After an element: a comma is consumed, the closing bracket is left to the loop.\<close>

definition flow_next :: "nat \<Rightarrow> char \<Rightarrow> string \<Rightarrow> string \<Rightarrow> yerror + string" where
  "flow_next line close expected r0 =
     (case trim_spaces r0 of
        [] \<Rightarrow> yerr line (expected @ got_char [])
      | x # r \<Rightarrow>
          (if x = CHR '','' then Inr r
           else if x = close then Inr (x # r)
           else yerr line (expected @ got_char (x # r))))"

definition flow_seq :: "(ftask \<Rightarrow> string \<Rightarrow> fresult) \<Rightarrow> nat \<Rightarrow> json list \<Rightarrow> string \<Rightarrow> fresult" where
  "flow_seq rec line items cs0 =
     (case trim_spaces cs0 of
        [] \<Rightarrow> yerr line ''unterminated flow sequence''
      | c # cs \<Rightarrow>
          (if c = CHR '']'' then Inr (JArr items, cs)
           else ebind (rec Flow_value (c # cs)) (\<lambda>(v, r0).
                ebind (flow_next line CHR '']'' ''expected , or ], got '' r0) (\<lambda>r.
                  rec (Flow_seq (items @ [v])) r))))"

definition flow_map :: "(ftask \<Rightarrow> string \<Rightarrow> fresult) \<Rightarrow> nat \<Rightarrow> (string \<times> json) list \<Rightarrow> string \<Rightarrow> fresult" where
  "flow_map rec line m cs0 =
     (case trim_spaces cs0 of
        [] \<Rightarrow> yerr line ''unterminated flow mapping''
      | c # cs \<Rightarrow>
          (if c = CHR ''}'' then Inr (JObj m, cs)
           else ebind (flow_key line (c # cs)) (\<lambda>(key, r0).
             (case strip_prefix '':'' (trim_spaces r0) of
                None \<Rightarrow> yerr line (''expected : after flow mapping key '' @ [squote] @ key @ [squote])
              | Some r1 \<Rightarrow>
                  ebind (rec Flow_value r1) (\<lambda>(v, r2).
                  ebind (flow_next line CHR ''}'' ''expected , or }, got '' r2) (\<lambda>r.
                    rec (Flow_map (kinsert key v m)) r))))))"

primrec run_flow :: "nat \<Rightarrow> (string \<Rightarrow> json option) \<Rightarrow> nat \<Rightarrow> ftask \<Rightarrow> string \<Rightarrow> fresult" where
  "run_flow 0 anch line t cs = Inl Out_of_fuel"
| "run_flow (Suc n) anch line t cs =
     (case t of
        Flow_value \<Rightarrow> flow_value (run_flow n anch line) anch line cs
      | Flow_seq items \<Rightarrow> flow_seq (run_flow n anch line) line items cs
      | Flow_map m \<Rightarrow> flow_map (run_flow n anch line) line m cs)"

definition flow_fuel :: "string \<Rightarrow> nat" where
  "flow_fuel cs = 2 * length cs + 2"

section \<open>The block parser\<close>

text \<open>\<open>peek\<close> and \<open>advance_to_peeked\<close>: the lines from the next one with content.\<close>

definition skip_blank :: "yline list \<Rightarrow> yline list" where
  "skip_blank ls = dropWhile (\<lambda>l. ltext l = []) ls"

lemma length_skip_blank: "skip_blank ls = l # ls' \<Longrightarrow> length ls' < length ls"
  unfolding skip_blank_def by (metis length_Cons length_dropWhile_le less_eq_Suc_le)

fun parse_lines :: "nat \<Rightarrow> string list \<Rightarrow> yerror + yline list" where
  "parse_lines no [] = Inr []"
| "parse_lines no (raw_line # rest) =
     (let line = strip_cr raw_line;
          trimmed = trim_spaces line;
          ind = length line - length trimmed
      in if starts_with [tab] trimmed then yerr no ''tabs are not allowed in indentation''
         else ebind (parse_lines (no + 1) rest) (\<lambda>ls.
           Inr (\<lparr>lno = no, indent = ind, ltext = trim_end (strip_comment trimmed), lraw = trimmed\<rparr> # ls)))"

function collect_flow :: "string \<Rightarrow> nat \<Rightarrow> yline list \<Rightarrow> yerror + (string \<times> yline list)" where
  "collect_flow buf line_no ls =
     (case flow_depth buf line_no of
        Inl e \<Rightarrow> Inl e
      | Inr d \<Rightarrow>
          (if d > 0 then
             (case skip_blank ls of
                [] \<Rightarrow> yerr line_no ''unclosed flow collection''
              | l # ls' \<Rightarrow> collect_flow (buf @ '' '' @ ltext l) line_no ls')
           else Inr (buf, ls)))"
  by pat_completeness auto
termination
  by (relation "measure (\<lambda>(_, _, ls). length ls)") (auto dest: length_skip_blank)

declare collect_flow.simps [simp del]

text \<open>The raw lines of a block scalar; \<open>bi\<close> is the base indentation once a line set it.\<close>

fun collect_block :: "nat \<Rightarrow> nat option \<Rightarrow> yline list \<Rightarrow> yerror + (string list \<times> yline list)" where
  "collect_block key_indent bi [] = Inr ([], [])"
| "collect_block key_indent bi (l # ls) =
     (if lraw l = [] then
        ebind (collect_block key_indent bi ls) (\<lambda>(c, r). Inr ([] # c, r))
      else if indent l \<le> key_indent then Inr ([], l # ls)
      else
        (let b = (case bi of Some b \<Rightarrow> b | None \<Rightarrow> indent l)
         in if indent l < b then yerr (lno l) ''bad indentation inside block scalar''
            else ebind (collect_block key_indent (Some b) ls) (\<lambda>(c, r).
              Inr ((replicate (indent l - b) spc @ lraw l) # c, r))))"

datatype chomp = Clip | Strip | Keep

fun fold_lines :: "bool \<Rightarrow> string list \<Rightarrow> string" where
  "fold_lines prev_blank [] = []"
| "fold_lines prev_blank (l # ls) =
     (if l = [] then nl # fold_lines True ls
      else (if prev_blank then [] else '' '') @ l @ fold_lines False ls)"

definition block_body :: "bool \<Rightarrow> chomp \<Rightarrow> string list \<Rightarrow> string" where
  "block_body folded chomp collected =
     (let content = drop_end_while (\<lambda>l. l = []) collected;
          trailing_blanks = length collected - length content;
          body = (if folded then fold_lines True content else join [nl] content)
      in case chomp of
           Strip \<Rightarrow> body
         | Clip \<Rightarrow> (if body = [] then [] else body @ [nl])
         | Keep \<Rightarrow> body @ [nl] @ replicate trailing_blanks nl)"

definition block_header :: "string \<Rightarrow> chomp \<times> string" where
  "block_header rest =
     (case rest of
        [] \<Rightarrow> (Clip, rest)
      | c # r \<Rightarrow> (if c = CHR ''-'' then (Strip, r) else if c = CHR ''+'' then (Keep, r) else (Clip, rest)))"

definition parse_block_scalar :: "string \<Rightarrow> nat \<Rightarrow> nat \<Rightarrow> ystate \<Rightarrow> yerror + (json \<times> ystate)" where
  "parse_block_scalar header key_indent line_no s =
     (case block_header (tl header) of (chomp, rest) \<Rightarrow>
        (if (case rest of c # _ \<Rightarrow> is_digit c | [] \<Rightarrow> False) then
           yerr line_no ''explicit block scalar indentation is not supported''
         else if trim rest \<noteq> [] then yerr line_no (''unexpected content after '' @ [squote] @ header @ [squote])
         else ebind (collect_block key_indent None (ylines s)) (\<lambda>(collected, ls).
           Inr (JStr (block_body (starts_with ''>'' header) chomp collected), s\<lparr>ylines := ls\<rparr>))))"

definition is_item :: "string \<Rightarrow> bool" where
  "is_item t \<longleftrightarrow> t = ''-'' \<or> starts_with ''- '' t"

text \<open>The merge key: among the sources, earlier ones win.\<close>

definition or_insert_all :: "(string \<times> json) list \<Rightarrow> (string \<times> json) list \<Rightarrow> (string \<times> json) list" where
  "or_insert_all merged m = fold (\<lambda>(k, v) acc. if map_of acc k = None then kinsert k v acc else acc) m merged"

fun merge_all :: "nat \<Rightarrow> (string \<times> json) list \<Rightarrow> json list \<Rightarrow> yerror + (string \<times> json) list" where
  "merge_all line_no merged [] = Inr merged"
| "merge_all line_no merged (JObj m # srcs) = merge_all line_no (or_insert_all merged m) srcs"
| "merge_all line_no merged (_ # srcs) = yerr line_no ''<< merge source is not a mapping''"

text \<open>The message of the code also quotes the value that is no mapping.\<close>

definition merge_value :: "nat \<Rightarrow> (string \<times> json) list \<Rightarrow> json \<Rightarrow> yerror + (string \<times> json) list" where
  "merge_value line_no merged v =
     (case v of
        JObj m \<Rightarrow> merge_all line_no merged [JObj m]
      | JArr items \<Rightarrow> merge_all line_no merged items
      | _ \<Rightarrow> yerr line_no ''<< expects a mapping or list of mappings'')"

definition finish_mapping :: "(string \<times> json) list \<Rightarrow> (string \<times> json) list \<Rightarrow> json" where
  "finish_mapping own merged = (if merged = [] then JObj own else JObj (kextend merged own))"

fun parse_inline_value :: "nat \<Rightarrow> string \<Rightarrow> nat \<Rightarrow> ystate \<Rightarrow> yerror + (json \<times> ystate)" where
  "parse_inline_value 0 t line_no s = Inl Out_of_fuel"
| "parse_inline_value (Suc n) t line_no s =
     (case strip_prefix ''*'' t of
        Some alias \<Rightarrow>
          (case split_word alias of (name, remainder) \<Rightarrow>
             (if remainder \<noteq> [] then yerr line_no (''unexpected content after alias *'' @ name)
              else (case anchors s name of
                      Some v \<Rightarrow> Inr (v, s)
                    | None \<Rightarrow> yerr line_no (''unknown anchor '' @ [squote] @ name @ [squote]))))
      | None \<Rightarrow>
     (case strip_prefix ''&'' t of
        Some anchor_rest \<Rightarrow>
          (case split_word anchor_rest of (name, remainder) \<Rightarrow>
             (if name = [] \<or> remainder = [] then yerr line_no ''anchor must be followed by a value''
              else ebind (parse_inline_value n remainder line_no s) (\<lambda>(v, s').
                Inr (v, s'\<lparr>anchors := (anchors s')(name \<mapsto> v)\<rparr>))))
      | None \<Rightarrow>
          (if starts_with ''['' t \<or> starts_with ''{'' t then
             ebind (collect_flow t line_no (ylines s)) (\<lambda>(buf, ls).
             ebind (run_flow (flow_fuel buf) (anchors s) line_no Flow_value buf) (\<lambda>(v, r).
               if trim_spaces r \<noteq> [] then yerr line_no ''unexpected content after flow collection''
               else Inr (v, s\<lparr>ylines := ls\<rparr>)))
           else if starts_with ''!'' t then yerr line_no ''YAML tags are not supported''
           else ebind (parse_scalar_token t line_no) (\<lambda>v. Inr (v, s)))))"

text \<open>
  The four mutually recursive methods of the parser. Each is a definition over \<open>rec\<close>, the
  methods it calls; \<open>run_parser\<close> ties the knot.
\<close>

type_synonym yresult = "yerror + (json \<times> ystate)"

datatype ytask =
    Node nat
  | Mapping_loop nat "(string \<times> json) list" "(string \<times> json) list"
  | Sequence_loop nat "json list"
  | After_key string nat nat

definition parse_node :: "(ytask \<Rightarrow> ystate \<Rightarrow> yresult) \<Rightarrow> nat \<Rightarrow> ystate \<Rightarrow> yresult" where
  "parse_node rec min_indent s =
     (case skip_blank (ylines s) of
        [] \<Rightarrow> Inr (JNull, s)
      | l # ls \<Rightarrow>
          (if indent l < min_indent then Inr (JNull, s)
           else if is_item (ltext l) then rec (Sequence_loop (indent l) []) s
           else ebind (split_key (ltext l) (lno l)) (\<lambda>k.
             (case k of
                Some _ \<Rightarrow> rec (Mapping_loop (indent l) [] []) s
              | None \<Rightarrow> parse_inline_value (Suc (length (ltext l))) (ltext l) (lno l) (s\<lparr>ylines := ls\<rparr>)))))"

definition parse_mapping ::
    "(ytask \<Rightarrow> ystate \<Rightarrow> yresult) \<Rightarrow> nat \<Rightarrow> (string \<times> json) list \<Rightarrow> (string \<times> json) list \<Rightarrow> ystate \<Rightarrow> yresult" where
  "parse_mapping rec ind own merged s =
     (case skip_blank (ylines s) of
        [] \<Rightarrow> Inr (finish_mapping own merged, s)
      | l # ls \<Rightarrow>
          (if ltext l = ''---'' \<or> ltext l = ''...'' then Inr (finish_mapping own merged, s)
           else if indent l \<noteq> ind then
             (if indent l > ind then yerr (lno l) ''inconsistent indentation''
              else Inr (finish_mapping own merged, s))
           else ebind (split_key (ltext l) (lno l)) (\<lambda>k.
             (case k of
                None \<Rightarrow> yerr (lno l) (''expected key:, got '' @ [squote] @ ltext l @ [squote])
              | Some (key, rest) \<Rightarrow>
                  ebind (rec (After_key rest ind (lno l)) (s\<lparr>ylines := ls\<rparr>)) (\<lambda>(v, s').
                    if key = ''<<'' then
                      ebind (merge_value (lno l) merged v) (\<lambda>m. rec (Mapping_loop ind own m) s')
                    else rec (Mapping_loop ind (kinsert key v own) merged) s')))))"

definition open_item :: "nat \<Rightarrow> yline \<Rightarrow> yline" where
  "open_item ind l =
     (let rest = drop 2 (ltext l);
          extra = length rest - length (trim_spaces rest)
      in \<lparr>lno = lno l, indent = ind + 2 + extra, ltext = trim_spaces rest, lraw = drop (2 + extra) (lraw l)\<rparr>)"

definition parse_sequence ::
    "(ytask \<Rightarrow> ystate \<Rightarrow> yresult) \<Rightarrow> nat \<Rightarrow> json list \<Rightarrow> ystate \<Rightarrow> yresult" where
  "parse_sequence rec ind items s =
     (case skip_blank (ylines s) of
        [] \<Rightarrow> Inr (JArr items, s)
      | l # ls \<Rightarrow>
          (if indent l \<noteq> ind \<or> \<not> is_item (ltext l) then Inr (JArr items, s)
           else
             (let ls' = (if ltext l = ''-'' then ls else open_item ind l # ls)
              in ebind (rec (Node (ind + 1)) (s\<lparr>ylines := ls'\<rparr>)) (\<lambda>(v, s').
                   rec (Sequence_loop ind (items @ [v])) s'))))"

definition parse_value_after_key ::
    "(ytask \<Rightarrow> ystate \<Rightarrow> yresult) \<Rightarrow> string \<Rightarrow> nat \<Rightarrow> nat \<Rightarrow> ystate \<Rightarrow> yresult" where
  "parse_value_after_key rec rest key_indent line_no s =
     (if rest = [] then rec (Node (key_indent + 1)) s
      else
        (case strip_prefix ''&'' rest of
           Some anchor_rest \<Rightarrow>
             (case split_word anchor_rest of (name, remainder) \<Rightarrow>
                (if name = [] then yerr line_no (''anchor name missing after '' @ [squote, CHR ''&'', squote])
                 else ebind (if remainder = [] then rec (Node (key_indent + 1)) s
                             else rec (After_key remainder key_indent line_no) s) (\<lambda>(v, s').
                   Inr (v, s'\<lparr>anchors := (anchors s')(name \<mapsto> v)\<rparr>))))
         | None \<Rightarrow>
             (if starts_with ''|'' rest \<or> starts_with ''>'' rest then
                parse_block_scalar rest key_indent line_no s
              else parse_inline_value (Suc (length rest)) rest line_no s)))"

primrec run_parser :: "nat \<Rightarrow> ytask \<Rightarrow> ystate \<Rightarrow> yresult" where
  "run_parser 0 t s = Inl Out_of_fuel"
| "run_parser (Suc n) t s =
     (case t of
        Node m \<Rightarrow> parse_node (run_parser n) m s
      | Mapping_loop i own merged \<Rightarrow> parse_mapping (run_parser n) i own merged s
      | Sequence_loop i items \<Rightarrow> parse_sequence (run_parser n) i items s
      | After_key r i no \<Rightarrow> parse_value_after_key (run_parser n) r i no s)"

text \<open>The weight of the remaining lines bounds the depth of the recursion.\<close>

definition weight :: "yline list \<Rightarrow> nat" where
  "weight ls = (\<Sum>l\<leftarrow>ls. length (ltext l) + 2)"

definition skip_marker :: "string \<Rightarrow> yline list \<Rightarrow> yline list" where
  "skip_marker m ls = (case skip_blank ls of l # r \<Rightarrow> (if ltext l = m then r else ls) | [] \<Rightarrow> ls)"

definition end_of_document :: "json \<Rightarrow> yline list \<Rightarrow> yerror + json" where
  "end_of_document v ls =
     (case skip_blank ls of
        [] \<Rightarrow> Inr v
      | l # _ \<Rightarrow> yerr (lno l)
          (if ltext l = ''---'' then ''multi-document YAML is not supported''
           else ''unexpected content '' @ [squote] @ ltext l @ [squote]))"

definition parse_body :: "yline list \<Rightarrow> yerror + json" where
  "parse_body ls =
     ebind (run_parser (3 * weight ls + 3) (Node 0) \<lparr>ylines = ls, anchors = Map.empty\<rparr>)
       (\<lambda>(v, s). end_of_document v (skip_marker ''...'' (ylines s)))"

definition parse_document :: "yline list \<Rightarrow> yerror + json" where
  "parse_document ls =
     (case skip_blank ls of
        l # _ \<Rightarrow>
          (if starts_with ''%'' (ltext l) then yerr (lno l) ''YAML directives are not supported''
           else parse_body (skip_marker ''---'' ls))
      | [] \<Rightarrow> parse_body ls)"

definition from_str :: "string \<Rightarrow> yerror + json" where
  "from_str input = ebind (parse_lines 1 (str_lines input)) parse_document"

section \<open>Specifications of results\<close>

text \<open>
  \<open>yspec L Q r\<close>: an error of \<open>r\<close> is a parse error at one of the lines \<open>L\<close>, and a value
  satisfies \<open>Q\<close>. Such specifications compose along \<open>ebind\<close>.
\<close>

definition yspec :: "nat set \<Rightarrow> ('a \<Rightarrow> bool) \<Rightarrow> yerror + 'a \<Rightarrow> bool" where
  "yspec L Q r = (case r of Inl e \<Rightarrow> (\<exists>n m. e = Yaml_error n m \<and> n \<in> L) | Inr a \<Rightarrow> Q a)"

lemma yspec_simps [simp]:
  "yspec L Q (Inr a) = Q a"
  "yspec L Q (yerr n m) \<longleftrightarrow> n \<in> L"
  by (simp_all add: yspec_def yerr_def)

lemma yspec_bind:
  "yspec L Q m \<Longrightarrow> (\<And>a. Q a \<Longrightarrow> yspec L R (f a)) \<Longrightarrow> yspec L R (ebind m f)"
  by (cases m) (simp_all add: yspec_def ebind_def)

lemma yspec_weaken: "yspec L Q m \<Longrightarrow> (\<And>a. Q a \<Longrightarrow> R a) \<Longrightarrow> yspec L R m"
  by (auto simp: yspec_def split: sum.splits)

lemma ebind_simps [simp]:
  "ebind (Inr a) f = f a"
  "ebind (Inl e) f = Inl e"
  "ebind (yerr n m) f = yerr n m"
  by (simp_all add: ebind_def yerr_def)

lemma take_single_length: "take_single out cs = Some (s, r) \<Longrightarrow> length r \<le> length cs"
proof (induction out cs arbitrary: s r rule: take_single.induct)
  case (2 out c cs)
  then show ?case by (fastforce split: if_splits list.splits dest: le_SucI)
qed simp

lemma take_double_spec: "line \<in> L \<Longrightarrow> yspec L (\<lambda>(s, r). length r \<le> length cs) (take_double line out cs)"
proof (induction line out cs rule: take_double.induct)
  case (2 line out c cs)
  show ?case
  proof (cases "c = dquote")
    case False
    show ?thesis
    proof (cases "c = bslash")
      case True
      show ?thesis
      proof (cases cs)
        case (Cons x r)
        show ?thesis
        proof (cases "unescape x")
          case (Some y)
          from "2.IH"(1)[OF False True Cons Some "2.prems"] show ?thesis
            using True Some Cons by (auto elim: yspec_weaken)
        qed (use True Cons "2.prems" in simp)
      qed (use True "2.prems" in simp)
    next
      case bs: False
      from "2.IH"(2)[OF False bs "2.prems"] False bs show ?thesis
        by (auto elim: yspec_weaken)
    qed
  qed simp
qed simp

lemma take_quoted_spec: "line \<in> L \<Longrightarrow> yspec L (\<lambda>(s, r). length r \<le> length t) (take_quoted t line)"
  unfolding take_quoted_def
  by (auto split: list.splits option.splits dest: take_single_length
      intro!: yspec_weaken[OF take_double_spec])

lemma find_key_length: "find_key t = Some (a, b) \<Longrightarrow> length b < length t"
  by (induction t arbitrary: a b) (auto split: if_splits)

lemma split_key_spec:
  assumes "line \<in> L"
  shows "yspec L (\<lambda>k. \<forall>key rest. k = Some (key, rest) \<longrightarrow> length rest < length t) (split_key t line)"
proof -
  have q: "yspec L (\<lambda>k. \<forall>key rest. k = Some (key, rest) \<longrightarrow> length rest < length t)
      (ebind (take_quoted t line) (\<lambda>(key, after).
          (case strip_prefix '':'' (trim_start after) of
             Some rest \<Rightarrow>
               (if rest = [] \<or> starts_with '' '' rest then Inr (Some (key, trim_start rest)) else Inr None)
           | None \<Rightarrow> Inr None)))"
  proof (rule yspec_bind[OF take_quoted_spec[OF assms]], clarify)
    fix key after :: string
    assume l: "length after \<le> length t"
    have "length (trim_start rest) < length t" if "trim_start after = CHR '':'' # rest" for rest
      using l length_trim_start[of rest] arg_cong[OF that, of length, simplified] length_trim_start[of after]
      by linarith
    then show "yspec L (\<lambda>k. \<forall>key rest. k = Some (key, rest) \<longrightarrow> length rest < length t)
        (case strip_prefix '':'' (trim_start after) of
           Some rest \<Rightarrow> (if rest = [] \<or> starts_with '' '' rest then Inr (Some (key, trim_start rest)) else Inr None)
         | None \<Rightarrow> Inr None)"
      by (auto split: option.splits)
  qed
  have "length (trim_start b) < length t" if "find_key t = Some (a, b)" for a b
    using find_key_length[OF that] length_trim_start[of b] by linarith
  with q show ?thesis
    by (auto simp: split_key_def Let_def split: option.splits)
qed

lemma split_word_length:
  assumes "split_word t = (a, b)"
  shows "length b \<le> length t"
proof (cases "split_once spc t")
  case (Some p)
  obtain x y where p: "p = (x, y)" by force
  have "length t = length x + Suc (length y)" using Some p by simp
  moreover have "length b = length (trim_start y)"
    using assms Some p by (simp add: split_word_def del: split_once_Some)
  moreover have "length (trim_start y) \<le> length y" by (rule length_trim_start)
  ultimately show ?thesis by linarith
next
  case None
  with assms show ?thesis by (simp add: split_word_def del: split_once_None)
qed

lemma flow_scan_spec: "line \<in> L \<Longrightarrow> yspec L (\<lambda>_. True) (flow_scan line a b d cs)"
proof (induction cs arbitrary: a b d rule: length_induct)
  case (1 cs)
  show ?case
  proof (cases cs)
    case (Cons c r)
    with 1 have i: "yspec L (\<lambda>_. True) (flow_scan line a b d r)" for a b d by simp
    have j: "yspec L (\<lambda>_. True) (flow_scan line a b d r')" if "r = x # r'" for a b d x r'
      using 1 Cons that by simp
    show ?thesis
      unfolding Cons flow_scan.simps using 1(2) by (simp add: i j split: list.split)
  qed simp
qed

lemma parse_scalar_token_spec: "line \<in> L \<Longrightarrow> yspec L (\<lambda>_. True) (parse_scalar_token t line)"
  unfolding parse_scalar_token_def by (auto intro!: yspec_bind[OF take_quoted_spec])

section \<open>Flow collections: the fuel is enough\<close>

lemma plain_token_length: "plain_token cs = (a, r) \<Longrightarrow> length r \<le> length cs"
  by (induction cs arbitrary: a r rule: plain_token.induct)
     (fastforce split: if_splits prod.splits dest: le_SucI)+

lemma trim_spaces_length: "length (trim_spaces cs) \<le> length cs"
  unfolding trim_spaces_def by (rule length_dropWhile_le)

lemma trim_spaces_Cons [simp]: "c \<noteq> spc \<Longrightarrow> trim_spaces (c # r) = c # r"
  by (simp add: trim_spaces_def)

lemma trim_spaces_head: "trim_spaces cs = c # r \<Longrightarrow> c \<noteq> spc"
  unfolding trim_spaces_def by (metis (mono_tags, lifting) hd_dropWhile list.distinct(1) list.sel(1))

fun flow_need :: "ftask \<Rightarrow> string \<Rightarrow> nat" where
  "flow_need Flow_value cs = 2 * length cs + 1"
| "flow_need (Flow_seq _) cs = (if starts_with '']'' (trim_spaces cs) then 1 else 2 * length cs + 2)"
| "flow_need (Flow_map _) cs = (if starts_with ''}'' (trim_spaces cs) then 1 else 2 * length cs + 2)"

lemma flow_next_spec:
  "line \<in> L \<Longrightarrow> yspec L (\<lambda>r. length r < length r0 \<or> (length r \<le> length r0 \<and> starts_with [close] (trim_spaces r)))
     (flow_next line close msg r0)"
proof (cases "trim_spaces r0")
  case (Cons x r)
  assume "line \<in> L"
  moreover have "x \<noteq> spc" using Cons by (rule trim_spaces_head)
  moreover have "Suc (length r) \<le> length r0" using trim_spaces_length[of r0] Cons by simp
  ultimately show ?thesis by (simp add: flow_next_def Cons)
qed (simp add: flow_next_def)

lemma flow_key_spec: "line \<in> L \<Longrightarrow> yspec L (\<lambda>(k, r). length r \<le> length cs) (flow_key line cs)"
  by (auto simp: flow_key_def take_quoted_spec split: prod.splits dest: plain_token_length)

lemma run_flow_spec:
  assumes "line \<in> L"
  shows "flow_need t cs \<le> n \<Longrightarrow> yspec L (\<lambda>(v, r). length r \<le> length cs) (run_flow n anch line t cs)"
proof (induction n arbitrary: t cs)
  case 0
  then show ?case by (cases t) (auto split: if_splits)
next
  case (Suc n)
  have ts: "length (trim_spaces cs) \<le> length cs" by (rule trim_spaces_length)
  show ?case
  proof (cases t)
    case Flow_value
    with Suc.prems have n: "2 * length cs \<le> n" by simp
    show ?thesis
    proof (cases "trim_spaces cs")
      case (Cons c r)
      with ts have r: "Suc (length r) \<le> length cs" by simp
      have "yspec L (\<lambda>(v, r'). length r' \<le> length r) (run_flow n anch line (Flow_seq []) r)"
        "yspec L (\<lambda>(v, r'). length r' \<le> length r) (run_flow n anch line (Flow_map []) r)"
        by (rule Suc.IH; use n r in simp)+
      then have c: "yspec L (\<lambda>(v, r'). length r' \<le> length cs) (run_flow n anch line (Flow_seq []) r)"
        "yspec L (\<lambda>(v, r'). length r' \<le> length cs) (run_flow n anch line (Flow_map []) r)"
        using r by (auto elim!: yspec_weaken)
      have q: "yspec L (\<lambda>(v, r'). length r' \<le> length cs) (ebind (take_quoted (c # r) line) (\<lambda>(s, after). Inr (JStr s, after)))"
        by (rule yspec_bind[OF take_quoted_spec[OF assms]]) (use r in auto)
      have p: "length b \<le> length cs" if "plain_token r = (a, b) \<or> plain_token (c # r) = (a, b)" for a b
        using that r plain_token_length[of r a b] plain_token_length[of "c # r" a b] by auto
      show ?thesis
        unfolding run_flow.simps Flow_value ftask.case flow_value_def Cons list.case
        using c q assms p by (auto simp del: plain_token.simps split: prod.split option.split)
    qed (simp add: Flow_value flow_value_def assms)
  next
    case (Flow_seq items)
    show ?thesis
    proof (cases "trim_spaces cs")
      case (Cons c r)
      with ts have r: "Suc (length r) \<le> length cs" by simp
      show ?thesis
      proof (cases "c = CHR '']''")
        case False
        with Suc.prems Flow_seq Cons have n: "2 * length cs + 1 \<le> n" by simp
        show ?thesis
          using False Cons Flow_seq
          apply (simp add: flow_seq_def)
          apply (rule yspec_bind[OF Suc.IH])
          using r n apply simp
          apply clarify
          apply (rule yspec_bind[OF flow_next_spec[OF assms]])
          apply (rule yspec_weaken[OF Suc.IH])
          using r n by auto
      qed (use Cons Flow_seq r in \<open>simp add: flow_seq_def\<close>)
    qed (simp add: Flow_seq flow_seq_def assms)
  next
    case (Flow_map m)
    show ?thesis
    proof (cases "trim_spaces cs")
      case (Cons c r)
      with ts have r: "Suc (length r) \<le> length cs" by simp
      show ?thesis
      proof (cases "c = CHR ''}''")
        case False
        with Suc.prems Flow_map Cons have n: "2 * length cs + 1 \<le> n" by simp
        have step: "yspec L (\<lambda>(v, r). length r \<le> length cs)
          (ebind (run_flow n anch line Flow_value r1) (\<lambda>(v, r2).
             ebind (flow_next line CHR ''}'' ''expected , or }, got '' r2) (\<lambda>r.
               run_flow n anch line (Flow_map (kinsert key v m)) r)))"
          if "length r1 < length cs" for r1 key
          apply (rule yspec_bind[OF Suc.IH])
          using that n apply simp
          apply clarify
          apply (rule yspec_bind[OF flow_next_spec[OF assms]])
          apply (rule yspec_weaken[OF Suc.IH])
          using that n by auto
        have k: "yspec L (\<lambda>(k, r'). length r' \<le> Suc (length r)) (flow_key line (c # r))"
          using flow_key_spec[OF assms, of "c # r"] by simp
        show ?thesis
          using False Cons Flow_map
          apply (simp add: flow_map_def)
          apply (rule yspec_bind[OF k])
          apply (clarsimp simp: assms split: option.splits)
          apply (rule step)
          subgoal for key r0 r1
            using trim_spaces_length[of r0] r by simp
          done
      qed (use Cons Flow_map r in \<open>simp add: flow_map_def\<close>)
    qed (simp add: Flow_map flow_map_def assms)
  qed
qed

lemma run_flow_enough:
  "line \<in> L \<Longrightarrow> yspec L (\<lambda>_. True) (run_flow (flow_fuel cs) anch line Flow_value cs)"
  by (rule yspec_weaken[OF run_flow_spec]) (auto simp: flow_fuel_def)

section \<open>Blocks: the fuel is enough\<close>

text \<open>What the remaining lines of a later state may be: lighter, and at known line numbers.\<close>

definition later :: "nat set \<Rightarrow> nat \<Rightarrow> yline list \<Rightarrow> bool" where
  "later L w ls \<longleftrightarrow> weight ls \<le> w \<and> lno ` set ls \<subseteq> L"

lemma weight_simps [simp]:
  "weight [] = 0"
  "weight (l # ls) = length (ltext l) + 2 + weight ls"
  by (simp_all add: weight_def)

lemma later_mono: "later L w ls \<Longrightarrow> w \<le> v \<Longrightarrow> later L v ls"
  by (simp add: later_def)

lemma later_tl: "later L w (l # ls) \<Longrightarrow> later L (w - (length (ltext l) + 2)) ls \<and> lno l \<in> L"
  by (auto simp: later_def)

lemma later_skip: "later L w ls \<Longrightarrow> later L w (skip_blank ls)"
  unfolding skip_blank_def by (induction ls arbitrary: w) (auto simp: later_def)

lemma skip_blank_text: "skip_blank ls = l # ls' \<Longrightarrow> ltext l \<noteq> []"
  unfolding skip_blank_def by (metis (mono_tags, lifting) hd_dropWhile list.distinct(1) list.sel(1))

lemma skip_blank_step:
  assumes "later L w ls" "skip_blank ls = l # ls'"
  shows "lno l \<in> L" "ltext l \<noteq> []" "length (ltext l) + 2 \<le> w" "later L (w - (length (ltext l) + 2)) ls'"
  using later_skip[OF assms(1)] skip_blank_text[OF assms(2)] assms(2)
  by (auto simp: later_def)

lemma collect_flow_spec:
  "line \<in> L \<Longrightarrow> later L w ls \<Longrightarrow> yspec L (\<lambda>(buf', ls'). later L w ls') (collect_flow buf line ls)"
proof (induction buf line ls arbitrary: w rule: collect_flow.induct)
  case (1 buf line ls)
  have d: "yspec L (\<lambda>_. True) (flow_depth buf line)"
    unfolding flow_depth_def by (rule flow_scan_spec[OF "1.prems"(1)])
  show ?case
  proof (cases "flow_depth buf line")
    case (Inl e)
    with d show ?thesis by (subst collect_flow.simps) (simp add: yspec_def)
  next
    case (Inr k)
    show ?thesis
    proof (cases "0 < k \<and> skip_blank ls \<noteq> []")
      case True
      then obtain l ls' where l: "skip_blank ls = l # ls'" by (cases "skip_blank ls") auto
      have "later L w ls'"
        using skip_blank_step(4)[OF "1.prems"(2) l] by (rule later_mono) simp
      from "1.IH"[OF Inr _ l "1.prems"(1) this] True Inr l show ?thesis
        by (subst collect_flow.simps) simp
    next
      case False
      with Inr "1.prems" show ?thesis by (subst collect_flow.simps) auto
    qed
  qed
qed

lemma collect_block_spec:
  "later L w ls \<Longrightarrow> yspec L (\<lambda>(c, ls'). later L w ls') (collect_block ki bi ls)"
proof (induction ki bi ls arbitrary: w rule: collect_block.induct)
  case (2 ki bi l ls)
  from later_tl[OF "2.prems"] have l: "later L w ls" "lno l \<in> L"
    by (auto elim: later_mono)
  show ?case
  proof (cases "lraw l = []")
    case True
    then show ?thesis
      by (auto intro!: yspec_bind[OF "2.IH"(1)[OF True l(1)]])
  next
    case False
    let ?b = "case bi of Some b \<Rightarrow> b | None \<Rightarrow> indent l"
    show ?thesis
    proof (cases "indent l \<le> ki \<or> indent l < ?b")
      case True
      with False l "2.prems" show ?thesis by (auto simp: Let_def split: if_splits)
    next
      case deep: False
      then have i: "\<not> indent l \<le> ki" "\<not> indent l < ?b" by auto
      with False show ?thesis
        by (auto simp: Let_def intro!: yspec_bind[OF "2.IH"(2)[OF False i(1) refl i(2) l(1)]])
    qed
  qed
qed simp

lemma parse_block_scalar_spec:
  "line \<in> L \<Longrightarrow> later L w (ylines s)
   \<Longrightarrow> yspec L (\<lambda>(v, s'). later L w (ylines s')) (parse_block_scalar h ki line s)"
  unfolding parse_block_scalar_def
  by (auto split: prod.split list.split intro!: yspec_bind[OF collect_block_spec])

lemma parse_inline_value_spec:
  "line \<in> L \<Longrightarrow> later L w (ylines s) \<Longrightarrow> length t < n
   \<Longrightarrow> yspec L (\<lambda>(v, s'). later L w (ylines s')) (parse_inline_value n t line s)"
proof (induction n arbitrary: t)
  case (Suc n)
  have flow: "yspec L (\<lambda>(v, s'). later L w (ylines s'))
     (ebind (collect_flow t line (ylines s)) (\<lambda>(buf, ls).
      ebind (run_flow (flow_fuel buf) (anchors s) line Flow_value buf) (\<lambda>(v, r).
        if trim_spaces r \<noteq> [] then yerr line m else Inr (v, s\<lparr>ylines := ls\<rparr>))))" for m
    by (auto intro!: yspec_bind[OF collect_flow_spec[OF Suc.prems(1,2)]]
        yspec_bind[OF run_flow_enough[OF Suc.prems(1)]] simp: Suc.prems(1))
  have scalar: "yspec L (\<lambda>(v, s'). later L w (ylines s')) (ebind (parse_scalar_token t line) (\<lambda>v. Inr (v, s)))"
    by (rule yspec_bind[OF parse_scalar_token_spec[OF Suc.prems(1)]]) (use Suc.prems in simp)
  have anchor: "yspec L (\<lambda>(v, s'). later L w (ylines s'))
      (ebind (parse_inline_value n remainder line s) (\<lambda>(v, s'). Inr (v, s'\<lparr>anchors := (anchors s')(name \<mapsto> v)\<rparr>)))"
    if "t = CHR ''&'' # ar" "split_word ar = (name, remainder)" for ar name remainder
    by (rule yspec_bind[OF Suc.IH]) (use Suc.prems that split_word_length[OF that(2)] in auto)
  show ?case
    using Suc.prems flow scalar anchor
    by (auto split: option.split prod.split)
qed simp

declare parse_inline_value.simps [simp del]

fun yneed :: "ytask \<Rightarrow> nat \<Rightarrow> nat" where
  "yneed (Node m) w = 3 * w + 2"
| "yneed (Mapping_loop i own merged) w = 3 * w + 1"
| "yneed (Sequence_loop i items) w = 3 * w + 1"
| "yneed (After_key r i no) w = 3 * w + 3 + length r"

fun task_lines :: "ytask \<Rightarrow> nat set" where
  "task_lines (After_key r i no) = {no}"
| "task_lines _ = {}"

lemma merge_all_spec: "line \<in> L \<Longrightarrow> yspec L (\<lambda>_. True) (merge_all line merged js)"
  by (induction line merged js rule: merge_all.induct) auto

lemma merge_value_spec: "line \<in> L \<Longrightarrow> yspec L (\<lambda>_. True) (merge_value line merged v)"
  by (cases v) (simp_all add: merge_value_def merge_all_spec)

definition task_spec :: "nat set \<Rightarrow> (ytask \<Rightarrow> ystate \<Rightarrow> yresult) \<Rightarrow> nat \<Rightarrow> bool" where
  "task_spec L rec n \<longleftrightarrow>
     (\<forall>t s w. task_lines t \<subseteq> L \<longrightarrow> later L w (ylines s) \<longrightarrow> yneed t w \<le> n \<longrightarrow>
        yspec L (\<lambda>(v, s'). later L w (ylines s')) (rec t s))"

lemma task_specD:
  "task_spec L rec n \<Longrightarrow> task_lines t \<subseteq> L \<Longrightarrow> later L w (ylines s) \<Longrightarrow> yneed t w \<le> n
   \<Longrightarrow> yspec L (\<lambda>(v, s'). later L w (ylines s')) (rec t s)"
  by (simp add: task_spec_def)

lemma parse_node_spec:
  assumes "task_spec L rec n" "later L w (ylines s)" "3 * w + 1 \<le> n"
  shows "yspec L (\<lambda>(v, s'). later L w (ylines s')) (parse_node rec m s)"
proof (cases "skip_blank (ylines s)")
  case (Cons l ls)
  note l = skip_blank_step[OF assms(2) Cons]
  have r: "yspec L (\<lambda>(v, s'). later L w (ylines s')) (rec (Sequence_loop (indent l) []) s)"
    "yspec L (\<lambda>(v, s'). later L w (ylines s')) (rec (Mapping_loop (indent l) [] []) s)"
    by (rule task_specD[OF assms(1) _ assms(2)]; use assms(3) in simp)+
  have i: "yspec L (\<lambda>(v, s'). later L w (ylines s'))
      (parse_inline_value (Suc (length (ltext l))) (ltext l) (lno l) (s\<lparr>ylines := ls\<rparr>))"
    by (rule parse_inline_value_spec[OF l(1)]) (use later_mono[OF l(4)] in auto)
  have "yspec L (\<lambda>(v, s'). later L w (ylines s')) (ebind (split_key (ltext l) (lno l)) (\<lambda>k.
      case k of Some _ \<Rightarrow> rec (Mapping_loop (indent l) [] []) s
      | None \<Rightarrow> parse_inline_value (Suc (length (ltext l))) (ltext l) (lno l) (s\<lparr>ylines := ls\<rparr>)))"
    by (rule yspec_bind[OF split_key_spec[OF l(1)]]) (use r i in \<open>auto split: option.split\<close>)
  with r assms(2) Cons show ?thesis by (simp add: parse_node_def)
qed (simp add: parse_node_def assms)

lemma parse_mapping_spec:
  assumes "task_spec L rec n" "later L w (ylines s)" "3 * w \<le> n"
  shows "yspec L (\<lambda>(v, s'). later L w (ylines s')) (parse_mapping rec ind own merged s)"
proof (cases "skip_blank (ylines s)")
  case (Cons l ls)
  note l = skip_blank_step[OF assms(2) Cons]
  let ?w = "w - (length (ltext l) + 2)"
  have loop: "yspec L (\<lambda>(v, s'). later L w (ylines s')) (rec (Mapping_loop ind o' m') s')"
    if "later L ?w (ylines s')" for o' m' s'
    by (rule yspec_weaken[OF task_specD[OF assms(1) _ that]])
       (use assms(3) l(3) in \<open>auto elim: later_mono\<close>)
  have val: "yspec L (\<lambda>(v, s'). later L ?w (ylines s')) (rec (After_key rest ind (lno l)) (s\<lparr>ylines := ls\<rparr>))"
    if "length rest < length (ltext l)" for rest
    by (rule task_specD[OF assms(1)]) (use l that assms(3) in auto)
  have step: "yspec L (\<lambda>(v, s'). later L w (ylines s'))
      (ebind (rec (After_key rest ind (lno l)) (s\<lparr>ylines := ls\<rparr>)) (\<lambda>(v, s').
         if key = ''<<'' then ebind (merge_value (lno l) merged v) (\<lambda>m. rec (Mapping_loop ind own m) s')
         else rec (Mapping_loop ind (kinsert key v own) merged) s'))"
    if "length rest < length (ltext l)" for key rest
    by (rule yspec_bind[OF val[OF that]])
       (auto intro!: loop yspec_bind[OF merge_value_spec[OF l(1)]])
  have "yspec L (\<lambda>(v, s'). later L w (ylines s')) (ebind (split_key (ltext l) (lno l)) (\<lambda>k.
      case k of None \<Rightarrow> yerr (lno l) msg
      | Some (key, rest) \<Rightarrow>
          ebind (rec (After_key rest ind (lno l)) (s\<lparr>ylines := ls\<rparr>)) (\<lambda>(v, s').
            if key = ''<<'' then ebind (merge_value (lno l) merged v) (\<lambda>m. rec (Mapping_loop ind own m) s')
            else rec (Mapping_loop ind (kinsert key v own) merged) s')))" for msg
    by (rule yspec_bind[OF split_key_spec[OF l(1)]]) (use step l(1) in \<open>auto split: option.split\<close>)
  with assms(2) l(1) Cons show ?thesis by (simp add: parse_mapping_def)
qed (simp add: parse_mapping_def assms)

lemma parse_sequence_spec:
  assumes "task_spec L rec n" "later L w (ylines s)" "3 * w \<le> n"
  shows "yspec L (\<lambda>(v, s'). later L w (ylines s')) (parse_sequence rec ind items s)"
proof (cases "skip_blank (ylines s)")
  case (Cons l ls)
  note l = skip_blank_step[OF assms(2) Cons]
  let ?ls = "if ltext l = ''-'' then ls else open_item ind l # ls"
  show ?thesis
  proof (cases "indent l = ind \<and> is_item (ltext l)")
    case True
    have "later L (w - 2) ?ls"
    proof (cases "ltext l = ''-''")
      case False
      with True obtain r where r: "ltext l = CHR ''-'' # spc # r"
        by (auto simp: is_item_def starts_with_iff)
      have "length (trim_spaces r) \<le> length r" by (rule trim_spaces_length)
      with r l False show ?thesis
        by (auto simp: later_def open_item_def Let_def)
    qed (use l later_mono[OF l(4)] in auto)
    then have "yspec L (\<lambda>(v, s'). later L (w - 2) (ylines s')) (rec (Node (ind + 1)) (s\<lparr>ylines := ?ls\<rparr>))"
      by (intro task_specD[OF assms(1)]) (use l(2,3) assms(3) in auto)
    moreover have "yspec L (\<lambda>(v, s'). later L w (ylines s')) (rec (Sequence_loop ind its) s')"
      if "later L (w - 2) (ylines s')" for its s'
      by (rule yspec_weaken[OF task_specD[OF assms(1) _ that]])
         (use assms(3) l(2,3) in \<open>auto elim: later_mono\<close>)
    ultimately have "yspec L (\<lambda>(v, s'). later L w (ylines s'))
        (ebind (rec (Node (ind + 1)) (s\<lparr>ylines := ?ls\<rparr>)) (\<lambda>(v, s'). rec (Sequence_loop ind (items @ [v])) s'))"
      by (elim yspec_bind) auto
    with Cons True show ?thesis by (simp add: parse_sequence_def Let_def)
  qed (use Cons assms(2) in \<open>auto simp: parse_sequence_def\<close>)
qed (simp add: parse_sequence_def assms)

lemma parse_value_after_key_spec:
  assumes "task_spec L rec n" "later L w (ylines s)" "3 * w + 2 + length rest \<le> n" "no \<in> L"
  shows "yspec L (\<lambda>(v, s'). later L w (ylines s')) (parse_value_after_key rec rest ki no s)"
proof -
  have node: "yspec L (\<lambda>(v, s'). later L w (ylines s')) (rec (Node (ki + 1)) s)"
    by (rule task_specD[OF assms(1) _ assms(2)]) (use assms(3) in auto)
  have after: "yspec L (\<lambda>(v, s'). later L w (ylines s')) (rec (After_key r ki no) s)"
    if "length r < length rest" for r
    by (rule task_specD[OF assms(1) _ assms(2)]) (use assms that in auto)
  have anchor: "yspec L (\<lambda>(v, s'). later L w (ylines s'))
      (ebind (if b = [] then rec (Node (ki + 1)) s else rec (After_key b ki no) s)
         (\<lambda>(v, s'). Inr (v, s'\<lparr>anchors := (anchors s')(a \<mapsto> v)\<rparr>)))"
    if "split_word x = (a, b)" "rest = CHR ''&'' # x" for a b x
  proof (rule yspec_bind)
    show "yspec L (\<lambda>(v, s'). later L w (ylines s')) (if b = [] then rec (Node (ki + 1)) s else rec (After_key b ki no) s)"
      using node after[of b] split_word_length[OF that(1)] that(2) by auto
  qed auto
  have inl: "yspec L (\<lambda>(v, s'). later L w (ylines s')) (parse_inline_value (Suc (length rest)) rest no s)"
    by (rule parse_inline_value_spec) (use assms in auto)
  note blk = parse_block_scalar_spec[OF assms(4,2), of rest ki]
  show ?thesis
    unfolding parse_value_after_key_def using node inl blk anchor assms(4)
    by (auto split: option.split prod.split)
qed

lemma run_parser_spec: "task_spec L (run_parser n) n"
proof (induction n)
  case 0
  have "yneed t w \<noteq> 0" for t w by (cases t) auto
  then show ?case unfolding task_spec_def by (metis le_zero_eq)
next
  case (Suc n)
  show ?case
    unfolding task_spec_def
  proof (intro allI impI)
    fix t w and s :: ystate
    assume a: "task_lines t \<subseteq> L" "later L w (ylines s)" "yneed t w \<le> Suc n"
    show "yspec L (\<lambda>(v, s'). later L w (ylines s')) (run_parser (Suc n) t s)"
      using a Suc.IH
      by (cases t) (auto intro: parse_node_spec parse_mapping_spec parse_sequence_spec parse_value_after_key_spec)
  qed
qed

lemma parse_lines_spec:
  "yspec {no..<no + length ls} (\<lambda>r. lno ` set r \<subseteq> {no..<no + length ls}) (parse_lines no ls)"
proof (induction no ls rule: parse_lines.induct)
  case (2 no raw ls)
  show ?case
  proof (cases "starts_with [tab] (trim_spaces (strip_cr raw))")
    case False
    let ?L = "{no..<no + length (raw # ls)}"
    have "yspec {no + 1..<no + 1 + length ls} (\<lambda>r. lno ` set r \<subseteq> {no + 1..<no + 1 + length ls}) (parse_lines (no + 1) ls)"
      by (rule "2.IH"[OF refl refl refl False])
    then have "yspec ?L (\<lambda>r. lno ` set r \<subseteq> {no + 1..<no + 1 + length ls}) (parse_lines (no + 1) ls)"
      by (auto simp: yspec_def split: sum.splits)
    then have "yspec ?L (\<lambda>r. lno ` set r \<subseteq> ?L) (ebind (parse_lines (no + 1) ls) (\<lambda>ls. Inr (\<lparr>lno = no, indent = i, ltext = t, lraw = w\<rparr> # ls)))" for i t w
      by (rule yspec_bind) auto
    with False show ?thesis by (simp add: Let_def)
  qed simp
qed simp

lemma skip_marker_later: "later L w ls \<Longrightarrow> later L w (skip_marker m ls)"
  using later_skip[of L w ls] by (auto simp: skip_marker_def later_def split: list.splits)

lemma end_of_document_spec: "later L w ls \<Longrightarrow> yspec L (\<lambda>_. True) (end_of_document v ls)"
  using skip_blank_step(1)[of L w ls] by (auto simp: end_of_document_def split: list.split)

lemma parse_body_spec:
  assumes "later L w ls"
  shows "yspec L (\<lambda>_. True) (parse_body ls)"
proof -
  have l: "later L (weight ls) ls" using assms by (simp add: later_def)
  have "yspec L (\<lambda>(v, s). later L (weight ls) (ylines s))
      (run_parser (3 * weight ls + 3) (Node 0) \<lparr>ylines = ls, anchors = Map.empty\<rparr>)"
    by (rule task_specD[OF run_parser_spec]) (use l in auto)
  then show ?thesis
    unfolding parse_body_def
    by (rule yspec_bind) (auto intro: end_of_document_spec skip_marker_later)
qed

lemma parse_document_spec:
  assumes "lno ` set ls \<subseteq> L"
  shows "yspec L (\<lambda>_. True) (parse_document ls)"
proof -
  have l: "later L (weight ls) ls" using assms by (simp add: later_def)
  note b = parse_body_spec[OF l] parse_body_spec[OF skip_marker_later[OF l]]
  show ?thesis
    using b skip_blank_step(1)[OF l] by (auto simp: parse_document_def split: list.split)
qed

section \<open>Properties\<close>

text \<open>
  C1. The parser returns on every input: the fuel of \<open>from_str\<close> never runs out, so the
  result is a value or a parse error, and the line an error names is a line of the input.
\<close>

theorem from_str_total:
  "case from_str input of
     Inr _ \<Rightarrow> True
   | Inl Out_of_fuel \<Rightarrow> False
   | Inl (Yaml_error line msg) \<Rightarrow> 1 \<le> line \<and> line \<le> length (str_lines input)"
proof -
  have "yspec {1..<1 + length (str_lines input)} (\<lambda>_. True) (from_str input)"
    unfolding from_str_def by (rule yspec_bind[OF parse_lines_spec parse_document_spec])
  then show ?thesis by (auto simp: yspec_def split: sum.splits)
qed

section \<open>Printing a flat mapping\<close>

definition escape_char :: "char \<Rightarrow> string" where
  "escape_char c =
     (if c = nl then [bslash, CHR ''n'']
      else if c = tab then [bslash, CHR ''t'']
      else if c = cr then [bslash, CHR ''r'']
      else if c = CHR 0x00 then [bslash, CHR ''0'']
      else if c = bslash \<or> c = dquote then [bslash, c]
      else [c])"

definition quote :: "string \<Rightarrow> string" where
  "quote v = [dquote] @ concat (map escape_char v) @ [dquote]"

definition print_entry :: "string \<times> string \<Rightarrow> string" where
  "print_entry kv = fst kv @ '': '' @ quote (snd kv)"

definition print_mapping :: "(string \<times> string) list \<Rightarrow> string" where
  "print_mapping kvs = concat (map (\<lambda>kv. print_entry kv @ [nl]) kvs)"

definition plain_key :: "string \<Rightarrow> bool" where
  "plain_key k \<longleftrightarrow> k \<noteq> [] \<and> (\<forall>c\<in>set k. is_alnum c \<or> c = CHR ''_'')"

lemma take_double_quote: "take_double line out (concat (map escape_char v) @ dquote # r) = Inr (out @ v, r)"
proof (induction v arbitrary: out)
  case (Cons c v)
  then show ?case by (auto simp: escape_char_def unescape_def)
qed simp

lemma strip_comment_quoted:
  "strip_comment_from False True sp (concat (map escape_char v) @ [dquote]) = concat (map escape_char v) @ [dquote]"
proof (induction v arbitrary: sp)
  case (Cons c v)
  then show ?case by (auto simp: escape_char_def Let_def)
qed simp

lemma plain_char:
  assumes "is_alnum c \<or> c = CHR ''_''"
  shows "c \<notin> {squote, dquote, CHR ''#'', CHR '':'', spc, tab, nl, cr, CHR ''['', CHR ''{'', CHR ''-'', CHR ''.'', CHR ''%'', CHR ''<'', bslash}"
    "\<not> is_ws c"
  using assms by (auto simp: is_alnum_def is_digit_def is_upper_def is_lower_def is_ws_def)

lemma strip_comment_key:
  assumes "\<forall>c\<in>set k. is_alnum c \<or> c = CHR ''_''"
  shows "strip_comment_from False False sp (k @ CHR '':'' # rest) = k @ CHR '':'' # strip_comment_from False False False rest"
  using assms
proof (induction k arbitrary: sp)
  case (Cons c k)
  then show ?case using plain_char(1)[of c] by (simp add: Let_def)
qed (simp add: Let_def)

lemma strip_comment_entry:
  "plain_key k \<Longrightarrow> strip_comment (k @ '': '' @ quote v) = k @ '': '' @ quote v"
  by (simp add: strip_comment_def plain_key_def strip_comment_key quote_def strip_comment_quoted Let_def)

lemma find_key_entry:
  "\<forall>c\<in>set k. is_alnum c \<or> c = CHR ''_'' \<Longrightarrow> find_key (k @ '': '' @ r) = Some (k, spc # r)"
proof (induction k)
  case (Cons c k)
  then show ?case using plain_char(1)[of c] by simp
qed simp

lemma split_key_entry:
  assumes "plain_key k"
  shows "split_key (k @ '': '' @ quote v) line = Inr (Some (k, quote v))"
proof -
  obtain c k' where k: "k = c # k'" "is_alnum c \<or> c = CHR ''_''"
    using assms by (cases k) (auto simp: plain_key_def)
  have e: "trim_end k = k"
    using assms plain_char(2)[of "last k"] by (intro trim_end_id) (auto simp: plain_key_def)
  have s: "trim_start (spc # quote v) = quote v"
    by (simp add: trim_start_def quote_def is_ws_def)
  have f: "find_key (k @ '': '' @ quote v) = Some (k, spc # quote v)"
    using assms by (intro find_key_entry) (simp add: plain_key_def)
  have q: "\<not> quoted_start (k @ r)" "\<not> starts_with ''['' (k @ r)" "\<not> starts_with ''{'' (k @ r)" "\<not> starts_with ''#'' (k @ r)" for r
    using k plain_char(1)[OF k(2)] by (auto simp: quoted_start_def)
  show ?thesis
    unfolding split_key_def f using q e s k(1) by (simp del: starts_with_simps)
qed

lemma escape_char_no_break: "c \<in> set (escape_char x) \<Longrightarrow> c \<noteq> nl \<and> c \<noteq> cr"
  by (auto simp: escape_char_def split: if_splits)

lemma print_entry_no_break:
  assumes "plain_key (fst kv)"
  shows "nl \<notin> set (print_entry kv) \<and> cr \<notin> set (print_entry kv)"
proof -
  have "nl \<notin> set (fst kv)" "cr \<notin> set (fst kv)"
    using assms plain_char(1)[of nl] plain_char(1)[of cr] by (auto simp: plain_key_def)
  moreover have "nl \<notin> set (quote (snd kv))" "cr \<notin> set (quote (snd kv))"
    using escape_char_no_break[of nl] escape_char_no_break[of cr] by (auto simp: quote_def)
  ultimately show ?thesis by (simp add: print_entry_def)
qed

definition entry_line :: "nat \<Rightarrow> string \<times> string \<Rightarrow> yline" where
  "entry_line no kv = \<lparr>lno = no, indent = 0, ltext = print_entry kv, lraw = print_entry kv\<rparr>"

fun entry_lines :: "nat \<Rightarrow> (string \<times> string) list \<Rightarrow> yline list" where
  "entry_lines no [] = []"
| "entry_lines no (kv # kvs) = entry_line no kv # entry_lines (no + 1) kvs"

lemma str_lines_mapping:
  "(\<forall>kv\<in>set kvs. plain_key (fst kv)) \<Longrightarrow> str_lines (print_mapping kvs) = map print_entry kvs"
proof (induction kvs)
  case (Cons kv kvs)
  then have "nl \<notin> set (print_entry kv)" "cr \<notin> set (print_entry kv)"
    using print_entry_no_break[of kv] by auto
  with Cons show ?case
    by (simp add: str_lines_def print_mapping_def raw_lines_cons strip_cr_id)
qed (simp add: str_lines_def print_mapping_def)

lemma parse_lines_mapping:
  "(\<forall>kv\<in>set kvs. plain_key (fst kv)) \<Longrightarrow> parse_lines no (map print_entry kvs) = Inr (entry_lines no kvs)"
proof (induction kvs arbitrary: no)
  case (Cons kv kvs)
  obtain k v where kv: "kv = (k, v)" by force
  with Cons.prems have k: "plain_key k" by simp
  then obtain c k' where c: "k = c # k'" "is_alnum c \<or> c = CHR ''_''"
    by (cases k) (auto simp: plain_key_def)
  have e: "print_entry kv = k @ '': '' @ quote v" by (simp add: print_entry_def kv)
  have t: "trim_spaces (k @ r) = k @ r" "\<not> starts_with [tab] (k @ r)" for r
    using c plain_char(1)[OF c(2)] by auto
  have s: "strip_cr (print_entry kv) = print_entry kv"
    using Cons.prems print_entry_no_break[of kv] by (simp add: strip_cr_id)
  have w: "trim_end (k @ '': '' @ quote v) = k @ '': '' @ quote v"
    by (rule trim_end_id) (simp add: quote_def is_ws_def)
  show ?case
    using Cons unfolding list.map parse_lines.simps Let_def s unfolding e
    by (simp add: t strip_comment_entry[OF k, unfolded append_Cons append_Nil] w[unfolded append_Cons append_Nil]
        entry_line_def e)
qed simp

lemma run_parser_tasks:
  "run_parser (Suc n) (Node m) s = parse_node (run_parser n) m s"
  "run_parser (Suc n) (Mapping_loop i own merged) s = parse_mapping (run_parser n) i own merged s"
  "run_parser (Suc n) (Sequence_loop i items) s = parse_sequence (run_parser n) i items s"
  "run_parser (Suc n) (After_key r i no) s = parse_value_after_key (run_parser n) r i no s"
  by simp_all

declare run_parser.simps(2) [simp del]

lemma parse_quoted_token: "parse_scalar_token (quote v) no = Inr (JStr v)"
proof -
  have "take_quoted (quote v) no = Inr (v, [])"
    using take_double_quote[of no "[]" v "[]"] by (simp add: take_quoted_def quote_def)
  moreover have "quoted_start (quote v)" by (simp add: quoted_start_def quote_def)
  moreover have "trim [] = []" by (simp add: trim_def trim_start_def trim_end_def drop_end_while_def)
  ultimately show ?thesis by (simp add: parse_scalar_token_def)
qed

lemma quote_first:
  "strip_prefix ''*'' (quote v) = None" "strip_prefix ''&'' (quote v) = None"
  "\<not> starts_with ''['' (quote v)" "\<not> starts_with ''{'' (quote v)" "\<not> starts_with ''!'' (quote v)"
  "\<not> starts_with ''|'' (quote v)" "\<not> starts_with ''>'' (quote v)" "quote v \<noteq> []"
  by (simp_all add: quote_def)

lemma after_key_quoted:
  "parse_value_after_key rec (quote v) i no st = Inr (JStr v, st)"
  by (simp add: parse_value_after_key_def parse_inline_value.simps(2) quote_first parse_quoted_token)

lemma mapping_loop_entries:
  assumes "\<forall>kv\<in>set kvs. plain_key (fst kv)" "length kvs + 2 \<le> n"
  shows "run_parser n (Mapping_loop 0 own []) \<lparr>ylines = entry_lines no kvs, anchors = anch\<rparr>
    = Inr (JObj (kextend own (map (\<lambda>(k, v). (k, JStr v)) kvs)), \<lparr>ylines = [], anchors = anch\<rparr>)"
  using assms
proof (induction kvs arbitrary: n own no)
  case Nil
  then show ?case
    by (cases n) (auto simp: run_parser_tasks parse_mapping_def skip_blank_def finish_mapping_def kextend_def)
next
  case (Cons kv kvs)
  obtain k v where kv: "kv = (k, v)" by force
  with Cons.prems have k: "plain_key k" by simp
  then obtain c k' where c: "k = c # k'" "is_alnum c \<or> c = CHR ''_''"
    by (cases k) (auto simp: plain_key_def)
  obtain m where n: "n = Suc (Suc m)" using Cons.prems(2) by (cases n; cases "n - 1") auto
  have e: "print_entry kv = k @ '': '' @ quote v" by (simp add: print_entry_def kv)
  have v: "run_parser (Suc m) (After_key (quote v) 0 no) st = Inr (JStr v, st)" for st
    by (simp add: run_parser_tasks after_key_quoted)
  have sk: "skip_blank (entry_lines no (kv # kvs)) = entry_line no kv # entry_lines (no + 1) kvs"
    by (simp add: skip_blank_def entry_line_def e)
  have mk: "print_entry kv \<noteq> ''---''" "print_entry kv \<noteq> ''...''" "k \<noteq> ''<<''"
    using c plain_char(1)[OF c(2)] by (auto simp: e)
  have l: "lno (entry_line no kv) = no" "indent (entry_line no kv) = 0" "ltext (entry_line no kv) = print_entry kv"
    by (simp_all add: entry_line_def)
  have sp: "split_key (print_entry kv) no = Inr (Some (k, quote v))"
    unfolding e by (rule split_key_entry[OF k])
  have "run_parser n (Mapping_loop 0 own []) \<lparr>ylines = entry_lines no (kv # kvs), anchors = anch\<rparr>
     = run_parser (Suc m) (Mapping_loop 0 (kinsert k (JStr v) own) []) \<lparr>ylines = entry_lines (no + 1) kvs, anchors = anch\<rparr>"
    unfolding n run_parser_tasks(2)[of "Suc m"] parse_mapping_def
    using mk by (simp add: sk l sp v del: entry_lines.simps)
  also have "\<dots> = Inr (JObj (kextend (kinsert k (JStr v) own) (map (\<lambda>(k, v). (k, JStr v)) kvs)), \<lparr>ylines = [], anchors = anch\<rparr>)"
    using Cons.prems n by (intro Cons.IH) auto
  finally show ?case by (simp add: kv kextend_def)
qed

text \<open>
  C34. A flat mapping printed with quoted values parses to the object with those entries (the
  last entry of a repeated key wins), whatever bytes the values hold.
\<close>

theorem from_str_print_mapping:
  assumes "kvs \<noteq> []" "\<forall>kv\<in>set kvs. plain_key (fst kv)"
  shows "from_str (print_mapping kvs) = Inr (JObj (kextend [] (map (\<lambda>(k, v). (k, JStr v)) kvs)))"
proof -
  obtain kv kvs' where kvs: "kvs = kv # kvs'" using assms(1) by (cases kvs) auto
  obtain k v where kv: "kv = (k, v)" by force
  with kvs assms(2) have k: "plain_key k" by simp
  then obtain c k' where c: "k = c # k'" "is_alnum c \<or> c = CHR ''_''"
    by (cases k) (auto simp: plain_key_def)
  define ls where "ls = entry_lines 1 kvs"
  define el where "el = entry_line 1 kv"
  have e: "print_entry kv = k @ '': '' @ quote v" by (simp add: print_entry_def kv)
  have sk: "skip_blank ls = el # entry_lines 2 kvs'"
    by (simp add: ls_def el_def skip_blank_def entry_line_def e kvs numeral_2_eq_2)
  have l: "lno el = 1" "indent el = 0" "ltext el = print_entry kv"
    by (simp_all add: el_def entry_line_def)
  have mk: "print_entry kv \<noteq> ''---''" "\<not> starts_with ''%'' (print_entry kv)" "\<not> is_item (print_entry kv)"
    using c plain_char(1)[OF c(2)] by (auto simp: e is_item_def)
  have sp: "split_key (print_entry kv) no = Inr (Some (k, quote v))" for no
    unfolding e by (rule split_key_entry[OF k])
  have w: "length ks \<le> weight (entry_lines no ks)" for ks no
    by (induction ks arbitrary: no) (auto intro: le_SucI trans_le_add2)
  have f: "3 * weight ls + 3 = Suc (3 * weight ls + 2)" by simp
  have "run_parser (3 * weight ls + 3) (Node 0) \<lparr>ylines = ls, anchors = Map.empty\<rparr>
      = run_parser (3 * weight ls + 2) (Mapping_loop 0 [] []) \<lparr>ylines = ls, anchors = Map.empty\<rparr>"
    using mk by (simp add: f run_parser_tasks(1) parse_node_def sk l sp)
  also have "\<dots> = Inr (JObj (kextend [] (map (\<lambda>(k, v). (k, JStr v)) kvs)), \<lparr>ylines = [], anchors = Map.empty\<rparr>)"
    unfolding ls_def using w[of kvs 1] by (intro mapping_loop_entries[OF assms(2)]) simp
  finally have "parse_body ls = Inr (JObj (kextend [] (map (\<lambda>(k, v). (k, JStr v)) kvs)))"
    by (simp add: parse_body_def skip_marker_def skip_blank_def end_of_document_def)
  then have "parse_document ls = Inr (JObj (kextend [] (map (\<lambda>(k, v). (k, JStr v)) kvs)))"
    using mk by (simp add: parse_document_def skip_marker_def sk l)
  then show ?thesis
    by (simp add: from_str_def str_lines_mapping[OF assms(2)] parse_lines_mapping[OF assms(2)] ls_def)
qed

theorem from_str_print_mapping_witness:
  "from_str (print_mapping [(''b'', ''x # y''), (''a'', [dquote, nl, bslash])])
     = Inr (JObj [(''a'', JStr [dquote, nl, bslash]), (''b'', JStr ''x # y'')])"
proof -
  let ?kvs = "[(''b'', ''x # y''), (''a'', [dquote, nl, bslash])]"
  have a: "?kvs \<noteq> []" by simp
  have b: "\<forall>kv\<in>set ?kvs. plain_key (fst kv)" by code_simp
  have c: "kextend [] (map (\<lambda>(k, v). (k, JStr v)) ?kvs) = [(''a'', JStr [dquote, nl, bslash]), (''b'', JStr ''x # y'')]"
    by code_simp
  show ?thesis using from_str_print_mapping[OF a b] unfolding c .
qed

section \<open>Merge keys\<close>

lemma map_of_or_insert_all: "map_of (or_insert_all merged m) = map_of m ++ map_of merged"
proof (induction m arbitrary: merged)
  case (Cons kv m)
  obtain k v where "kv = (k, v)" by force
  then have "or_insert_all merged (kv # m) = or_insert_all (if map_of merged k = None then kinsert k v merged else merged) m"
    by (simp add: or_insert_all_def)
  with Cons \<open>kv = (k, v)\<close> show ?case
    by (auto simp: fun_eq_iff map_add_def split: option.splits)
qed (simp add: or_insert_all_def)

lemma merge_all_objects:
  "\<exists>r. merge_all line merged (map JObj ms) = Inr r \<and> map_of r = map_of (concat ms) ++ map_of merged"
proof (induction ms arbitrary: merged)
  case (Cons m ms)
  from Cons[of "or_insert_all merged m"] show ?case
    by (auto simp: map_of_or_insert_all)
qed simp

text \<open>
  The merge key of a mapping: a list of mappings merges without an error, an entry the
  mapping has itself wins over every merged one, and among the merged mappings the
  earliest that has the key wins.
\<close>

theorem merge_key_precedence:
  assumes "ksorted own"
  shows "\<exists>merged r. merge_value line [] (JArr (map JObj ms)) = Inr merged \<and> finish_mapping own merged = JObj r
    \<and> map_of r k = (case map_of own k of Some v \<Rightarrow> Some v | None \<Rightarrow> map_of (concat ms) k)"
proof -
  obtain merged where m: "merge_all line [] (map JObj ms) = Inr merged" "map_of merged = map_of (concat ms)"
    using merge_all_objects[of line "[]" ms] by auto
  have o: "map_of (rev own) = map_of own"
    by (rule map_of_rev_ksorted[OF assms])
  show ?thesis
  proof (cases "merged = []")
    case True
    with m(2) have "map_of (concat ms) k = None" by (metis map_of.simps(1))
    with True m show ?thesis by (auto simp: merge_value_def finish_mapping_def split: option.split)
  next
    case False
    then show ?thesis
      using m o by (simp add: merge_value_def finish_mapping_def map_of_kextend map_add_def)
  qed
qed

theorem merge_key_precedence_witness:
  "ksorted [(''image'', JStr ''web'')] \<and>
   (\<exists>merged r. merge_value 7 [] (JArr (map JObj [[(''restart'', JStr ''no'')], [(''restart'', JStr ''always'')]])) = Inr merged
     \<and> finish_mapping [(''image'', JStr ''web'')] merged = JObj r \<and> map_of r ''restart'' = Some (JStr ''no''))"
proof -
  have s: "ksorted [(''image'', JStr ''web'')]" by (simp add: ksorted_def)
  show ?thesis
    using s merge_key_precedence[OF s, of 7 "[[(''restart'', JStr ''no'')], [(''restart'', JStr ''always'')]]" "''restart''"]
    by simp
qed

section \<open>Divergences\<close>

text \<open>
  A block sequence at the column of its key, which YAML allows, is not read as the key's
  value: its items become entries of the mapping.
\<close>

lemma compact_sequence_misread:
  "from_str (''ports:'' @ [nl] @ ''- target: 80'' @ [nl])
     = Inr (JObj [(''- target'', JNum (JInt 80)), (''ports'', JNull)])"
  by code_simp

text \<open>An apostrophe inside a plain scalar hides the comment that follows it.\<close>

lemma apostrophe_hides_comment:
  "strip_comment (''a: it'' @ [squote] @ ''s # note'') = ''a: it'' @ [squote] @ ''s # note''"
  by code_simp

text \<open>A block scalar that is an item of a sequence is not recognised.\<close>

lemma sequence_block_scalar_rejected:
  "from_str (''- |'' @ [nl] @ ''  a'') = Inl (Yaml_error 2 (''unexpected content '' @ [squote, CHR ''a'', squote]))"
  by code_simp

end
