(* ===== verification/Dip_Compose.thy ===== *)
theory Dip_Compose
  imports Dip_Yaml
begin

text \<open>
  The compose file of \<open>runtime/compose_file.rs\<close>: from the YAML value to the services dip
  runs. A path is its text with the separator \<open>/\<close>; the environment is a map.
\<close>

section \<open>Data\<close>

record build_config =
  context_dir :: "string option"
  dockerfile :: "string option"
  build_target :: "string option"
  build_args :: "(string \<times> json) list"

record volume_config =
  vkind :: "string option"
  vsource :: "string option"
  vtarget :: "string option"
  read_only :: "bool option"

record service_config =
  build :: "build_config option"
  image :: "string option"
  labels :: json
  volumes :: "volume_config list"
  ports :: json
  environment :: json
  env_file :: json
  command :: json
  entrypoint :: json
  working_dir :: "string option"
  depends_on :: "string list"
  healthcheck :: json

type_synonym compose_config = "(string \<times> service_config) list"

section \<open>Scalars and stages\<close>

definition scalar_to_string :: "json \<Rightarrow> string option" where
  "scalar_to_string = as_str"

definition strip_stage_quotes :: "string \<Rightarrow> string" where
  "strip_stage_quotes stage = drop_end_while (\<lambda>c. c = cr) (trim_matches squote (trim_matches dquote stage))"

text \<open>The word after the first \<open>AS\<close>.\<close>

fun stage_of_parts :: "string list \<Rightarrow> string option" where
  "stage_of_parts [] = None"
| "stage_of_parts (p # ps) =
     (if eq_ignore_case p ''AS'' then (case ps of s # _ \<Rightarrow> Some (strip_stage_quotes s) | [] \<Rightarrow> None)
      else stage_of_parts ps)"

definition stage_of_line :: "string \<Rightarrow> string option" where
  "stage_of_line raw =
     (let line = trim_start raw
      in if starts_with ''#'' line then None
         else (case split_ws line of
                 [] \<Rightarrow> None
               | first # parts \<Rightarrow> (if eq_ignore_case first ''FROM'' then stage_of_parts parts else None)))"

definition dockerfile_stages :: "string \<Rightarrow> string list" where
  "dockerfile_stages content = sextend [] (filter_map stage_of_line (str_lines content))"

section \<open>Paths\<close>

definition is_absolute :: "string \<Rightarrow> bool" where
  "is_absolute p = starts_with ''/'' p"

definition path_join :: "string \<Rightarrow> string \<Rightarrow> string" where
  "path_join base p =
     (if is_absolute p then p
      else if base = [] \<or> ends_with ''/'' base then base @ p
      else base @ ''/'' @ p)"

text \<open>
  \<open>Path::components\<close> without the root: empty pieces are separators only. A \<open>ParentDir\<close>
  pops the last component pushed, nothing at the root.
\<close>

fun normalize_components :: "string list \<Rightarrow> string list \<Rightarrow> string list" where
  "normalize_components out [] = out"
| "normalize_components out (c # cs) =
     (if c = [] \<or> c = ''.'' then normalize_components out cs
      else if c = ''..'' then normalize_components (butlast out) cs
      else normalize_components (out @ [c]) cs)"

definition normalize_path :: "string \<Rightarrow> string" where
  "normalize_path p =
     (if is_absolute p then ''/'' else []) @ join ''/'' (normalize_components [] (split_on CHR ''/'' p))"

definition resolve_path_string :: "string \<Rightarrow> string \<Rightarrow> string" where
  "resolve_path_string base_dir p =
     normalize_path (if is_absolute p then p else path_join base_dir p)"

definition dockerfile_name :: "build_config \<Rightarrow> string" where
  "dockerfile_name b = (case dockerfile b of Some d \<Rightarrow> d | None \<Rightarrow> ''Dockerfile'')"

definition dockerfile_path :: "build_config \<Rightarrow> string option" where
  "dockerfile_path b =
     map_option (\<lambda>ctx. let d = dockerfile_name b in if is_absolute d then d else path_join ctx d) (context_dir b)"

section \<open>Interpolation\<close>

definition resolve_env_expr :: "string \<Rightarrow> (string \<Rightarrow> string option) \<Rightarrow> string" where
  "resolve_env_expr expr env =
     (case split_sub '':-'' expr of
        Some (key, dflt) \<Rightarrow> (case env key of Some v \<Rightarrow> (if v \<noteq> [] then v else dflt) | None \<Rightarrow> dflt)
      | None \<Rightarrow>
          (case split_once CHR ''-'' expr of
             Some (key, dflt) \<Rightarrow> (case env key of Some v \<Rightarrow> v | None \<Rightarrow> dflt)
           | None \<Rightarrow> (case env expr of Some v \<Rightarrow> v | None \<Rightarrow> [])))"

lemma split_sub_shorter: "split_sub p s = Some (a, b) \<Longrightarrow> p \<noteq> [] \<Longrightarrow> length b < length s"
  by (drule split_sub_Some) auto

function interpolate_string :: "string \<Rightarrow> (string \<Rightarrow> string option) \<Rightarrow> string" where
  "interpolate_string input env =
     (case split_sub ''${'' input of
        None \<Rightarrow> input
      | Some (before', rest) \<Rightarrow>
          (case split_once CHR ''}'' rest of
             None \<Rightarrow> before' @ ''${'' @ rest
           | Some (expr, rest') \<Rightarrow> before' @ resolve_env_expr expr env @ interpolate_string rest' env))"
  by pat_completeness auto
termination
  by (relation "measure (\<lambda>(s, _). length s)") (auto dest: split_sub_shorter)

declare interpolate_string.simps [simp del]

fun interpolate_value :: "json \<Rightarrow> (string \<Rightarrow> string option) \<Rightarrow> json"
and interpolate_items :: "json list \<Rightarrow> (string \<Rightarrow> string option) \<Rightarrow> json list"
and interpolate_fields :: "(string \<times> json) list \<Rightarrow> (string \<Rightarrow> string option) \<Rightarrow> (string \<times> json) list" where
  "interpolate_value (JStr s) env = JStr (interpolate_string s env)"
| "interpolate_value (JArr items) env = JArr (interpolate_items items env)"
| "interpolate_value (JObj m) env = JObj (interpolate_fields m env)"
| "interpolate_value JNull env = JNull"
| "interpolate_value (JBool b) env = JBool b"
| "interpolate_value (JNum n) env = JNum n"
| "interpolate_items [] env = []"
| "interpolate_items (v # vs) env = interpolate_value v env # interpolate_items vs env"
| "interpolate_fields [] env = []"
| "interpolate_fields ((k, v) # m) env = (k, interpolate_value v env) # interpolate_fields m env"

section \<open>The parts of a service\<close>

definition string_field :: "string \<times> json \<Rightarrow> (string \<times> json) option" where
  "string_field kv = map_option (\<lambda>s. (fst kv, JStr s)) (scalar_to_string (snd kv))"

definition string_pair :: "json \<Rightarrow> (string \<times> json) option" where
  "string_pair item =
     Option.bind (as_str item) (\<lambda>raw.
       map_option (\<lambda>(k, v). (trim k, JStr (trim v))) (split_once CHR ''='' raw))"

definition parse_labels :: "json \<Rightarrow> json" where
  "parse_labels value =
     (case value of
        JObj m \<Rightarrow> JObj (kextend [] (filter_map string_field m))
      | JArr items \<Rightarrow> JObj (kextend [] (filter_map string_pair items))
      | _ \<Rightarrow> JObj [])"

definition parse_environment :: "json \<Rightarrow> json" where
  "parse_environment value =
     (case value of
        JObj m \<Rightarrow> JObj (kextend [] (filter_map string_field m))
      | JArr items \<Rightarrow> JObj (kextend [] (filter_map string_pair items))
      | _ \<Rightarrow> JObj [])"

definition label_entries :: "service_config \<Rightarrow> (string \<times> string) list" where
  "label_entries s =
     (case labels s of
        JObj m \<Rightarrow> filter_map (\<lambda>(k, v). map_option (\<lambda>t. (k, trim t)) (scalar_to_string v)) m
      | JArr items \<Rightarrow>
          filter_map (\<lambda>item. Option.bind (as_str item) (\<lambda>raw.
            map_option (\<lambda>(k, v). (trim k, trim v)) (split_once CHR ''='' (trim raw)))) items
      | _ \<Rightarrow> [])"

definition parse_string_list_value :: "json \<Rightarrow> json" where
  "parse_string_list_value value =
     (case value of
        JStr raw \<Rightarrow> JArr [JStr raw]
      | JArr items \<Rightarrow> JArr (map JStr (filter_map scalar_to_string items))
      | _ \<Rightarrow> JArr [])"

definition parse_path_list_value :: "json \<Rightarrow> string \<Rightarrow> json" where
  "parse_path_list_value value base_dir =
     (case parse_string_list_value value of
        JArr items \<Rightarrow> JArr (map (\<lambda>p. JStr (resolve_path_string base_dir p)) (filter_map as_str items))
      | _ \<Rightarrow> JArr [])"

definition parse_depends_on :: "json \<Rightarrow> string list" where
  "parse_depends_on value =
     (case value of
        JArr items \<Rightarrow> filter_map scalar_to_string items
      | JObj m \<Rightarrow> map fst m
      | _ \<Rightarrow> [])"

definition parse_build :: "json \<Rightarrow> string \<Rightarrow> build_config option" where
  "parse_build value base_dir =
     (case value of
        JStr ctx \<Rightarrow> Some \<lparr>context_dir = Some (resolve_path_string base_dir ctx), dockerfile = None,
                         build_target = None, build_args = []\<rparr>
      | JObj m \<Rightarrow>
          Some \<lparr>context_dir = Some (case Option.bind (map_of m ''context'') scalar_to_string of
                   Some c \<Rightarrow> resolve_path_string base_dir c | None \<Rightarrow> base_dir),
                dockerfile = Option.bind (map_of m ''dockerfile'') scalar_to_string,
                build_target = Option.bind (map_of m ''target'') scalar_to_string,
                build_args = (case Option.bind (map_of m ''args'') as_object of
                   Some a \<Rightarrow> kextend [] a | None \<Rightarrow> [])\<rparr>
      | _ \<Rightarrow> None)"

definition is_bind_source :: "string \<Rightarrow> bool" where
  "is_bind_source s \<longleftrightarrow> starts_with ''/'' s \<or> starts_with ''./'' s \<or> starts_with ''../'' s \<or> starts_with ''~'' s"

definition parse_short_volume :: "string \<Rightarrow> string \<Rightarrow> volume_config option" where
  "parse_short_volume raw base_dir =
     (let bind_or_named = (\<lambda>source target mode.
            let kind = (if is_bind_source source then ''bind'' else ''volume'')
            in \<lparr>vkind = Some kind,
                vsource = Some (if kind = ''bind'' then resolve_path_string base_dir source else source),
                vtarget = Some target,
                read_only = map_option (\<lambda>m. contains_sub ''ro'' m) mode\<rparr>)
      in case split_on CHR '':'' raw of
           [target] \<Rightarrow> Some \<lparr>vkind = Some ''volume'', vsource = None, vtarget = Some target, read_only = None\<rparr>
         | [source, target] \<Rightarrow> Some (bind_or_named source target None)
         | [source, target, mode] \<Rightarrow> Some (bind_or_named source target (Some mode))
         | _ \<Rightarrow> None)"

definition first_key :: "(string \<times> json) list \<Rightarrow> string list \<Rightarrow> json option" where
  "first_key m ks = (case filter (\<lambda>k. map_of m k \<noteq> None) ks of k # _ \<Rightarrow> map_of m k | [] \<Rightarrow> None)"

definition parse_volume :: "json \<Rightarrow> string \<Rightarrow> volume_config option" where
  "parse_volume value base_dir =
     (case as_str value of
        Some raw \<Rightarrow> parse_short_volume raw base_dir
      | None \<Rightarrow>
          (case as_object value of
             None \<Rightarrow> None
           | Some m \<Rightarrow>
               (let kind = (case Option.bind (map_of m ''type'') scalar_to_string of Some k \<Rightarrow> k | None \<Rightarrow> ''volume'')
                in Some \<lparr>vkind = Some kind,
                     vsource = map_option (\<lambda>s. if kind = ''bind'' then resolve_path_string base_dir s else s)
                       (Option.bind (first_key m [''source'', ''src'']) scalar_to_string),
                     vtarget = Option.bind (first_key m [''target'', ''dst'', ''destination'']) scalar_to_string,
                     read_only = Option.bind (first_key m [''read_only'', ''readonly'']) as_bool\<rparr>)))"

definition parse_volumes :: "json \<Rightarrow> string \<Rightarrow> volume_config list" where
  "parse_volumes value base_dir =
     (case as_array value of
        None \<Rightarrow> []
      | Some items \<Rightarrow> filter_map (\<lambda>i. parse_volume i base_dir) items)"

fun merge_value_into :: "(string \<times> json) list \<Rightarrow> json \<Rightarrow> (string \<times> json) list"
and merge_values_into :: "(string \<times> json) list \<Rightarrow> json list \<Rightarrow> (string \<times> json) list" where
  "merge_value_into target (JObj m) = or_insert_all target m"
| "merge_value_into target (JArr items) = merge_values_into target items"
| "merge_value_into target JNull = target"
| "merge_value_into target (JBool b) = target"
| "merge_value_into target (JNum n) = target"
| "merge_value_into target (JStr s) = target"
| "merge_values_into target [] = target"
| "merge_values_into target (v # vs) = merge_values_into (merge_value_into target v) vs"

definition merge_service_map :: "json \<Rightarrow> (string \<times> json) list option" where
  "merge_service_map value =
     map_option (\<lambda>m.
       let merged = (case map_of m ''<<'' of Some base \<Rightarrow> merge_value_into [] base | None \<Rightarrow> [])
       in kextend merged (filter (\<lambda>(k, _). k \<noteq> ''<<'') m)) (as_object value)"

definition field_or :: "'a \<Rightarrow> (json \<Rightarrow> 'a) \<Rightarrow> (string \<times> json) list \<Rightarrow> string \<Rightarrow> 'a" where
  "field_or d f m k = (case map_of m k of Some v \<Rightarrow> f v | None \<Rightarrow> d)"

definition parse_service :: "json \<Rightarrow> string \<Rightarrow> service_config option" where
  "parse_service value base_dir =
     map_option (\<lambda>m.
       \<lparr>build = Option.bind (map_of m ''build'') (\<lambda>v. parse_build v base_dir),
        image = Option.bind (map_of m ''image'') scalar_to_string,
        labels = field_or (JObj []) parse_labels m ''labels'',
        volumes = field_or [] (\<lambda>v. parse_volumes v base_dir) m ''volumes'',
        ports = field_or (JArr []) parse_string_list_value m ''ports'',
        environment = field_or (JObj []) parse_environment m ''environment'',
        env_file = field_or (JArr []) (\<lambda>v. parse_path_list_value v base_dir) m ''env_file'',
        command = field_or JNull (\<lambda>v. v) m ''command'',
        entrypoint = field_or JNull (\<lambda>v. v) m ''entrypoint'',
        working_dir = Option.bind (first_key m [''working_dir'', ''workdir'']) scalar_to_string,
        depends_on = field_or [] parse_depends_on m ''depends_on'',
        healthcheck = field_or JNull (\<lambda>v. v) m ''healthcheck''\<rparr>) (merge_service_map value)"

definition parse_compose_value :: "json \<Rightarrow> string \<Rightarrow> string + compose_config" where
  "parse_compose_value value base_dir =
     (case Option.bind (jget ''services'' value) as_object of
        None \<Rightarrow> Inl ''compose file has no services map''
      | Some services \<Rightarrow>
          Inr (kextend [] (filter_map (\<lambda>(name, v). map_option (\<lambda>s. (name, s)) (parse_service v base_dir)) services)))"

text \<open>\<open>content\<close> is the compose file, \<open>None\<close> when it cannot be read.\<close>

definition load_project_compose :: "string option \<Rightarrow> (string \<Rightarrow> string option) \<Rightarrow> string \<Rightarrow> string + compose_config" where
  "load_project_compose content env base_dir =
     (case content of
        None \<Rightarrow> Inl ''failed to read compose file''
      | Some c \<Rightarrow>
          (case from_str c of
             Inl _ \<Rightarrow> Inl ''failed to parse compose file''
           | Inr value \<Rightarrow> parse_compose_value (interpolate_value value env) base_dir))"

section \<open>Facts about paths\<close>

definition clean_component :: "string \<Rightarrow> bool" where
  "clean_component c \<longleftrightarrow> c \<noteq> [] \<and> c \<noteq> ''.'' \<and> c \<noteq> ''..'' \<and> CHR ''/'' \<notin> set c"

lemma normalize_components_clean:
  "\<forall>c\<in>set cs. CHR ''/'' \<notin> set c \<Longrightarrow> \<forall>c\<in>set out. clean_component c
   \<Longrightarrow> \<forall>c\<in>set (normalize_components out cs). clean_component c"
proof (induction out cs rule: normalize_components.induct)
  case (2 out c cs)
  have b: "\<forall>x\<in>set (butlast out). clean_component x" using "2.prems"(2) by (auto dest: in_set_butlastD)
  have cs: "\<forall>c\<in>set cs. CHR ''/'' \<notin> set c" using "2.prems"(1) by simp
  show ?case
  proof (cases "c = [] \<or> c = ''.''")
    case True
    then show ?thesis using "2.IH"(1)[OF True cs "2.prems"(2)] by simp
  next
    case f: False
    show ?thesis
    proof (cases "c = ''..''")
      case True
      then show ?thesis using "2.IH"(2)[OF f True cs b] by simp
    next
      case False
      then have "clean_component c" using f "2.prems"(1) by (simp add: clean_component_def)
      with "2.prems"(2) have "\<forall>x\<in>set (out @ [c]). clean_component x" by simp
      from "2.IH"(3)[OF f False cs this] f False show ?thesis by simp
    qed
  qed
qed simp

lemma normalize_components_id:
  "\<forall>c\<in>set cs. clean_component c \<Longrightarrow> normalize_components out cs = out @ cs"
  by (induction out cs rule: normalize_components.induct) (simp_all add: clean_component_def)

lemma normalize_components_skip: "normalize_components out ([] # cs) = normalize_components out cs"
  by simp

lemma path_components_clean: "\<forall>c\<in>set (normalize_components [] (split_on CHR ''/'' p)). clean_component c"
  by (rule normalize_components_clean) (auto dest: split_on_parts)

text \<open>The components a normalized path is written with.\<close>

lemma split_clean_path:
  assumes "\<forall>c\<in>set cs. clean_component c"
  shows "normalize_components [] (split_on CHR ''/'' ((if r then ''/'' else []) @ join ''/'' cs)) = cs"
proof -
  have j: "normalize_components [] (split_on CHR ''/'' (join ''/'' cs)) = cs"
  proof (cases "cs = []")
    case False
    with assms have "split_on CHR ''/'' (join ''/'' cs) = cs"
      by (intro split_on_join) (auto simp: clean_component_def)
    with assms show ?thesis by (simp add: normalize_components_id)
  qed simp
  then show ?thesis
    using split_on_append[of "CHR ''/''" "[]" "join ''/'' cs"] by auto
qed

lemma clean_join_relative: "\<forall>c\<in>set cs. clean_component c \<Longrightarrow> \<not> is_absolute (join ''/'' cs)"
proof (cases cs)
  case (Cons c cs')
  assume a: "\<forall>c\<in>set cs. clean_component c"
  with Cons obtain x r where "c = x # r" "x \<noteq> CHR ''/''"
    by (cases c) (auto simp: clean_component_def)
  with Cons show ?thesis by (simp add: is_absolute_def join_Cons)
qed (simp add: is_absolute_def)

lemma is_absolute_normalize: "is_absolute (normalize_path p) \<longleftrightarrow> is_absolute p"
  using clean_join_relative[OF path_components_clean[of p]]
  by (auto simp: normalize_path_def is_absolute_def)

lemma normalize_components_of: 
  "normalize_components [] (split_on CHR ''/'' (normalize_path p)) = normalize_components [] (split_on CHR ''/'' p)"
  unfolding normalize_path_def using split_clean_path[OF path_components_clean, of "is_absolute p" p] by simp

section \<open>Properties\<close>

text \<open>
  A path of a compose file resolved against the absolute directory of the file is
  absolute, none of its components is empty, \<open>.\<close> or \<open>..\<close>, and normalizing it again
  changes nothing: what is handed to the runtime never depends on the current directory.
\<close>

theorem resolve_path_normal:
  assumes "is_absolute base_dir"
  shows "is_absolute (resolve_path_string base_dir p)
    \<and> (\<exists>cs. resolve_path_string base_dir p = ''/'' @ join ''/'' cs \<and> (\<forall>c\<in>set cs. clean_component c))
    \<and> normalize_path (resolve_path_string base_dir p) = resolve_path_string base_dir p"
proof -
  let ?q = "if is_absolute p then p else path_join base_dir p"
  have a: "is_absolute ?q"
    using assms by (auto simp: path_join_def is_absolute_def starts_with_iff)
  then have r: "resolve_path_string base_dir p = ''/'' @ join ''/'' (normalize_components [] (split_on CHR ''/'' ?q))"
    by (simp add: resolve_path_string_def normalize_path_def)
  have "normalize_path (normalize_path ?q) = normalize_path ?q"
    by (simp only: normalize_path_def[of "normalize_path ?q"] is_absolute_normalize normalize_components_of)
       (simp add: normalize_path_def)
  then have n: "normalize_path (resolve_path_string base_dir p) = resolve_path_string base_dir p"
    by (simp add: resolve_path_string_def)
  have "is_absolute (resolve_path_string base_dir p)"
    using a by (simp add: resolve_path_string_def is_absolute_normalize)
  with r n path_components_clean[of ?q] show ?thesis by blast
qed

theorem resolve_path_normal_witness:
  "is_absolute ''/home/me/app'' \<and> resolve_path_string ''/home/me/app'' ''./../lib//x'' = ''/home/me/lib/x''
   \<and> normalize_path ''/home/me/lib/x'' = ''/home/me/lib/x''"
proof -
  have a: "is_absolute ''/home/me/app''" by code_simp
  have r: "resolve_path_string ''/home/me/app'' ''./../lib//x'' = ''/home/me/lib/x''" by code_simp
  show ?thesis using a r resolve_path_normal[OF a, of "''./../lib//x''"] by simp
qed

text \<open>A text as the interpolation sees it: literal pieces and \<open>${..}\<close> expressions.\<close>

datatype segment = Lit string | Expr string

fun render_segment :: "segment \<Rightarrow> string" where
  "render_segment (Lit s) = s"
| "render_segment (Expr e) = ''${'' @ e @ ''}''"

fun segment_value :: "(string \<Rightarrow> string option) \<Rightarrow> segment \<Rightarrow> string" where
  "segment_value env (Lit s) = s"
| "segment_value env (Expr e) = resolve_env_expr e env"

fun segment_ok :: "segment \<Rightarrow> bool" where
  "segment_ok (Lit s) \<longleftrightarrow> CHR ''$'' \<notin> set s"
| "segment_ok (Expr e) \<longleftrightarrow> CHR ''}'' \<notin> set e"

lemma split_sub_dollar:
  "CHR ''$'' \<notin> set a \<Longrightarrow> split_sub ''${'' (a @ s) = map_option (\<lambda>(x, y). (a @ x, y)) (split_sub ''${'' s)"
  by (induction a) (auto simp: option.map_comp comp_def case_prod_beta' option.map_ident)

lemma interpolate_lit:
  assumes "CHR ''$'' \<notin> set a"
  shows "interpolate_string (a @ s) env = a @ interpolate_string s env"
  by (subst (1 2) interpolate_string.simps)
     (auto simp: split_sub_dollar[OF assms] simp del: split_once_Some split_once_None split: option.split)

lemma interpolate_expr:
  assumes "CHR ''}'' \<notin> set e"
  shows "interpolate_string (''${'' @ e @ ''}'' @ s) env = resolve_env_expr e env @ interpolate_string s env"
proof -
  have "split_once CHR ''}'' (e @ ''}'' @ s) = Some (e, s)" using assms by simp
  then show ?thesis by (subst interpolate_string.simps) (simp del: split_once_Some)
qed

text \<open>
  Interpolation replaces every \<open>${..}\<close> expression of a text by its value and nothing
  else: the literal pieces stay, in order, and a substituted value is not looked at again.
\<close>

theorem interpolate_segments:
  assumes "\<forall>g\<in>set segs. segment_ok g"
  shows "interpolate_string (concat (map render_segment segs)) env = concat (map (segment_value env) segs)"
  using assms
proof (induction segs)
  case Nil
  then show ?case by (subst interpolate_string.simps) simp
next
  case (Cons g segs)
  then show ?case
    using interpolate_expr interpolate_lit by (cases g) auto
qed

theorem interpolate_segments_witness:
  "interpolate_string ''a-${TAG:-latest}/${X}'' [''X'' \<mapsto> ''${TAG}''] = ''a-latest/${TAG}''"
proof -
  let ?segs = "[Lit ''a-'', Expr ''TAG:-latest'', Lit ''/'', Expr ''X'']"
  have ok: "\<forall>g\<in>set ?segs. segment_ok g" by code_simp
  have r: "concat (map render_segment ?segs) = ''a-${TAG:-latest}/${X}''" by code_simp
  have v: "concat (map (segment_value [''X'' \<mapsto> ''${TAG}'']) ?segs) = ''a-latest/${TAG}''" by code_simp
  show ?thesis using interpolate_segments[OF ok, of "[''X'' \<mapsto> ''${TAG}'']"] unfolding r v .
qed

section \<open>Divergences\<close>

text \<open>A number or a boolean as the value of an environment variable drops the variable.\<close>

lemma numeric_environment_dropped:
  "parse_environment (JObj [(''DEBUG'', JBool True), (''HOST'', JStr ''db''), (''PORT'', JNum (JInt 5432))])
     = JObj [(''HOST'', JStr ''db'')]"
  by code_simp

text \<open>A bind source below the home directory is taken relative to the compose file.\<close>

lemma home_volume_misresolved:
  "map_option vsource (parse_short_volume ''~/data:/d'' ''/srv/app'') = Some (Some ''/srv/app/~/data'')"
  by code_simp

text \<open>A required variable that is not set becomes the empty text instead of an error.\<close>

lemma required_variable_ignored: "interpolate_string ''${DB_PASS:?missing}'' Map.empty = []"
  by code_simp

end
