(* ===== verification/Dip_Effects.thy ===== *)
theory Dip_Effects
  imports Dip_Prelude
begin

text \<open>
  Child processes. A command is its argv with the binary first; what a process does is
  a parameter \<open>cli\<close> that answers from the commands run so far, so the state of the container
  engine is whatever the history of commands makes it. A computation passes that history on
  and returns an error message or a value, as \<open>anyhow::Result\<close> does.
\<close>

type_synonym hist = "string list list"

datatype cli_out = Spawn_error string
  | Exited (code: "int option") (signal: "int option") (stdout: string) (stderr: string)

type_synonym cli = "hist \<Rightarrow> string list \<Rightarrow> cli_out"

text \<open>
  A fallible computation on a state: the history of processes or of other actions \<open>'e\<close>, or the
  file system of \<open>Dip_Disk\<close>.
\<close>

type_synonym ('s, 'a) st = "'s \<Rightarrow> (string + 'a) \<times> 's"

type_synonym ('e, 'a) act = "('e list, 'a) st"

type_synonym 'a io = "(string list, 'a) act"

definition ret :: "'a \<Rightarrow> ('s, 'a) st" where
  "ret a h = (Inr a, h)"

definition bail :: "string \<Rightarrow> ('s, 'a) st" where
  "bail e h = (Inl e, h)"

definition io_bind :: "('s, 'a) st \<Rightarrow> ('a \<Rightarrow> ('s, 'b) st) \<Rightarrow> ('s, 'b) st" where
  "io_bind m f h = (case m h of (Inl e, h') \<Rightarrow> (Inl e, h') | (Inr a, h') \<Rightarrow> f a h')"

definition io_seq :: "('s, 'a) st \<Rightarrow> ('s, 'b) st \<Rightarrow> ('s, 'b) st" where
  "io_seq m n = io_bind m (\<lambda>_. n)"

text \<open>A result looked at instead of passed on with \<open>?\<close>.\<close>

definition attempt :: "('s, 'a) st \<Rightarrow> ('s, string + 'a) st" where
  "attempt m h = (case m h of (r, h') \<Rightarrow> (Inr r, h'))"

definition of_result :: "string + 'a \<Rightarrow> ('s, 'a) st" where
  "of_result r h = (r, h)"

definition call :: "cli \<Rightarrow> string list \<Rightarrow> cli_out io" where
  "call cli argv h = (Inr (cli h argv), h @ [argv])"

fun io_each :: "('a \<Rightarrow> ('s, unit) st) \<Rightarrow> 'a list \<Rightarrow> ('s, unit) st" where
  "io_each f [] = ret ()"
| "io_each f (x # xs) = io_seq (f x) (io_each f xs)"

fun io_map :: "('a \<Rightarrow> ('s, 'b) st) \<Rightarrow> 'a list \<Rightarrow> ('s, 'b list) st" where
  "io_map f [] = ret []"
| "io_map f (x # xs) = io_bind (f x) (\<lambda>y. io_bind (io_map f xs) (\<lambda>ys. ret (y # ys)))"

text \<open>\<open>runtime::exit_code\<close>: the code, \<open>128 + signal\<close> for a killed process, else 1.\<close>

definition exit_code :: "int option \<Rightarrow> int option \<Rightarrow> int" where
  "exit_code c s = (case c of Some c \<Rightarrow> c | None \<Rightarrow> (case s of Some s \<Rightarrow> 128 + s | None \<Rightarrow> 1))"

definition succeeded :: "cli_out \<Rightarrow> bool" where
  "succeeded out = (case out of Exited c _ _ _ \<Rightarrow> c = Some 0 | Spawn_error _ \<Rightarrow> False)"

definition exit_of :: "cli_out \<Rightarrow> int" where
  "exit_of out = (case out of Exited c s _ _ \<Rightarrow> exit_code c s | Spawn_error _ \<Rightarrow> 1)"

text \<open>The standard error of a failed command, then its standard output, without the empty ones.\<close>

definition command_output_message :: "string \<Rightarrow> string \<Rightarrow> string \<Rightarrow> string" where
  "command_output_message out err dflt =
     (let m = join [nl] (filter (\<lambda>p. p \<noteq> []) [trim err, trim out]) in if m = [] then dflt else m)"

section \<open>Facts\<close>

lemma ret_apply [simp]: "ret a h = (Inr a, h)"
  by (simp add: ret_def)

lemma bail_apply [simp]: "bail e h = (Inl e, h)"
  by (simp add: bail_def)

lemma call_apply [simp]: "call cli argv h = (Inr (cli h argv), h @ [argv])"
  by (simp add: call_def)

lemma bind_ret [simp]: "io_bind (ret a) f = f a"
  by (auto simp: io_bind_def fun_eq_iff)

lemma bind_bail [simp]: "io_bind (bail e) f = bail e"
  by (auto simp: io_bind_def fun_eq_iff)

lemma bind_result [simp]:
  "io_bind (of_result (Inl e)) f = bail e"
  "io_bind (of_result (Inr a)) g = g a"
  by (auto simp: io_bind_def of_result_def fun_eq_iff)

lemma bind_call [simp]: "io_bind (call cli argv) f h = f (cli h argv) (h @ [argv])"
  by (simp add: io_bind_def)

lemma io_seq_simps [simp]:
  "io_seq (ret a) n = n"
  "io_seq (bail e) n = bail e"
  by (simp_all add: io_seq_def)

lemma attempt_simps [simp]: "attempt m h = (Inr (fst (m h)), snd (m h))"
  by (simp add: attempt_def split: prod.split)

lemma io_bind_cases:
  "io_bind m f h = (case fst (m h) of Inl e \<Rightarrow> (Inl e, snd (m h)) | Inr a \<Rightarrow> f a (snd (m h)))"
  by (auto simp: io_bind_def split: prod.splits sum.splits)

lemma io_bind_attempt: "io_bind (attempt m) f h = f (fst (m h)) (snd (m h))"
  by (simp add: io_bind_def)

lemma seq_Inr: "io_seq m n d = (Inr b, d') \<longleftrightarrow> (\<exists>a d1. m d = (Inr a, d1) \<and> n d1 = (Inr b, d'))"
  by (cases "m d"; cases "fst (m d)") (auto simp: io_seq_def io_bind_def)

lemma bind_Inr: "io_bind m f d = (Inr b, d') \<longleftrightarrow> (\<exists>a d1. m d = (Inr a, d1) \<and> f a d1 = (Inr b, d'))"
  by (cases "m d"; cases "fst (m d)") (auto simp: io_bind_def)

text \<open>Every computation built from \<open>call\<close> only appends to the history.\<close>

definition appends :: "('e, 'a) act \<Rightarrow> bool" where
  "appends m \<longleftrightarrow> (\<forall>h. \<exists>t. snd (m h) = h @ t)"

named_theorems appends_intros

lemma appends_ret [appends_intros]: "appends (ret a)"
  by (simp add: appends_def)

lemma appends_bail [appends_intros]: "appends (bail e)"
  by (simp add: appends_def)

lemma appends_of_result [appends_intros]: "appends (of_result r)"
  by (simp add: appends_def of_result_def)

lemma appends_call [appends_intros]: "appends (call cli argv)"
  by (simp add: appends_def)

lemma appends_bind [appends_intros]: "appends m \<Longrightarrow> (\<And>a. appends (f a)) \<Longrightarrow> appends (io_bind m f)"
  unfolding appends_def io_bind_cases
  by (auto split: sum.split) (metis append.assoc)

lemma appends_seq [appends_intros]: "appends m \<Longrightarrow> appends n \<Longrightarrow> appends (io_seq m n)"
  unfolding io_seq_def by (rule appends_bind)

lemma appends_attempt [appends_intros]: "appends m \<Longrightarrow> appends (attempt m)"
  by (simp add: appends_def)

lemma appends_each [appends_intros]: "(\<And>x. appends (f x)) \<Longrightarrow> appends (io_each f xs)"
  by (induction xs) (auto intro: appends_intros)

lemma appends_map [appends_intros]: "(\<And>x. appends (f x)) \<Longrightarrow> appends (io_map f xs)"
  by (induction xs) (auto intro!: appends_intros)

text \<open>
  The events a computation causes: \<open>pick\<close> says what each command contributes, given what
  ran before it. \<open>emits pick m es\<close>: when \<open>m\<close> succeeds it has caused exactly the events \<open>es\<close>,
  when it fails a prefix of them.
\<close>

fun events :: "('c list \<Rightarrow> 'c \<Rightarrow> 'e list) \<Rightarrow> 'c list \<Rightarrow> 'c list \<Rightarrow> 'e list" where
  "events pick h [] = []"
| "events pick h (a # t) = pick h a @ events pick (h @ [a]) t"

definition emits :: "('c list \<Rightarrow> 'c \<Rightarrow> 'e list) \<Rightarrow> ('c, 'a) act \<Rightarrow> 'e list \<Rightarrow> bool" where
  "emits pick m es \<longleftrightarrow>
     (\<forall>h. \<exists>t r. snd (m h) = h @ t \<and> es = events pick h t @ r \<and> ((\<exists>a. fst (m h) = Inr a) \<longrightarrow> r = []))"

named_theorems emits_intros

lemma events_append: "events pick h (s @ t) = events pick h s @ events pick (h @ s) t"
  by (induction s arbitrary: h) auto

lemma emits_ret [emits_intros]: "emits pick (ret a) []"
  by (simp add: emits_def)

lemma emits_bail [emits_intros]: "emits pick (bail e) es"
  by (simp add: emits_def)

lemma emits_of_result [emits_intros]: "emits pick (of_result r) []"
  by (simp add: emits_def of_result_def)

lemma emits_call: "(\<And>h. pick h argv = es) \<Longrightarrow> emits pick (call cli argv) es"
  by (simp add: emits_def)

lemma emits_silent_call [emits_intros]: "(\<And>h. pick h argv = []) \<Longrightarrow> emits pick (call cli argv) []"
  by (rule emits_call)

lemma emits_bind:
  assumes m: "emits pick m es" and f: "\<And>a. emits pick (f a) es'"
  shows "emits pick (io_bind m f) (es @ es')"
  unfolding emits_def
proof
  fix h
  obtain t r where t: "snd (m h) = h @ t" "es = events pick h t @ r" "(\<exists>a. fst (m h) = Inr a) \<longrightarrow> r = []"
    using m unfolding emits_def by blast
  show "\<exists>t r. snd (io_bind m f h) = h @ t \<and> es @ es' = events pick h t @ r \<and>
      ((\<exists>a. fst (io_bind m f h) = Inr a) \<longrightarrow> r = [])"
  proof (cases "fst (m h)")
    case (Inl e)
    then show ?thesis using t(1,2) by (intro exI[of _ t] exI[of _ "r @ es'"]) (simp add: io_bind_cases)
  next
    case (Inr a)
    obtain t' r' where t': "snd (f a (h @ t)) = (h @ t) @ t'" "es' = events pick (h @ t) t' @ r'"
        "(\<exists>b. fst (f a (h @ t)) = Inr b) \<longrightarrow> r' = []"
      using f[of a] unfolding emits_def by meson
    then show ?thesis using t Inr
      by (intro exI[of _ "t @ t'"] exI[of _ r']) (simp add: io_bind_cases events_append)
  qed
qed

lemma emits_silent_bind [emits_intros]:
  "emits pick m [] \<Longrightarrow> (\<And>a. emits pick (f a) []) \<Longrightarrow> emits pick (io_bind m f) []"
  using emits_bind[of pick m "[]" f "[]"] by simp

lemma emits_then: "emits pick m [] \<Longrightarrow> (\<And>a. emits pick (f a) es) \<Longrightarrow> emits pick (io_bind m f) es"
  using emits_bind[of pick m "[]" f es] by simp

lemma emits_seq: "emits pick m es \<Longrightarrow> emits pick n es' \<Longrightarrow> emits pick (io_seq m n) (es @ es')"
  unfolding io_seq_def by (rule emits_bind)

lemma emits_silent_seq [emits_intros]: "emits pick m [] \<Longrightarrow> emits pick n [] \<Longrightarrow> emits pick (io_seq m n) []"
  using emits_seq[of pick m "[]" n "[]"] by simp

lemma emits_attempt [emits_intros]: "emits pick m [] \<Longrightarrow> emits pick (attempt m) []"
  by (auto simp: emits_def)

lemma emits_each:
  "(\<And>x. x \<in> set xs \<Longrightarrow> emits pick (f x) (g x)) \<Longrightarrow> emits pick (io_each f xs) (concat (map g xs))"
  by (induction xs) (auto intro: emits_ret emits_seq)

lemma emits_silent_each [emits_intros]: "(\<And>x. emits pick (f x) []) \<Longrightarrow> emits pick (io_each f xs) []"
  by (induction xs) (auto intro: emits_ret emits_silent_seq)

text \<open>
  \<open>causes pick m es\<close>: \<open>m\<close> causes the events \<open>es\<close> whether it succeeds or fails; then so does an
  attempt of \<open>m\<close>.
\<close>

definition causes :: "('c list \<Rightarrow> 'c \<Rightarrow> 'e list) \<Rightarrow> ('c, 'a) act \<Rightarrow> 'e list \<Rightarrow> bool" where
  "causes pick m es \<longleftrightarrow> (\<forall>h. \<exists>t. snd (m h) = h @ t \<and> events pick h t = es)"

named_theorems causes_intros

lemma causes_ret [causes_intros]: "causes pick (ret a) []"
  by (simp add: causes_def)

lemma causes_bail [causes_intros]: "causes pick (bail e) []"
  by (simp add: causes_def)

lemma causes_attempt [causes_intros]: "causes pick m es \<Longrightarrow> causes pick (attempt m) es"
  by (simp add: causes_def)

lemma causes_call: "(\<And>h. pick h argv = es) \<Longrightarrow> causes pick (call cli argv) es"
  by (simp add: causes_def)

lemma causes_bind: "causes pick m es \<Longrightarrow> (\<And>a. causes pick (f a) []) \<Longrightarrow> causes pick (io_bind m f) es"
  unfolding causes_def io_bind_cases
  by (auto split: sum.split) (metis append.assoc append_Nil2 events_append)

lemma causes_emits: "causes pick m es \<Longrightarrow> emits pick m es"
  unfolding causes_def emits_def by fastforce

lemma emits_attempt_causes: "causes pick m es \<Longrightarrow> emits pick (attempt m) es"
  by (rule causes_emits[OF causes_attempt])

end
