(* ===== verification/Dip_Env.thy ===== *)
theory Dip_Env
  imports Dip_Effects
begin

text \<open>
  Environment variables: the line parser of \<open>utils/env.rs\<close>, the layered environment of a
  project in \<open>project.rs\<close>, the hooks of \<open>hooks.rs\<close> whose output joins it, and the comparison
  of \<open>dip env diff\<close> in \<open>commands/env.rs\<close>. A \<open>HashMap\<close> is a map.
\<close>

section \<open>Lines\<close>

definition strip_quotes :: "string \<Rightarrow> string" where
  "strip_quotes s =
     (if 2 \<le> length s \<and> (hd s = dquote \<or> hd s = squote) \<and> last s = hd s
      then butlast (tl s) else s)"

definition parse_env_line :: "string \<Rightarrow> (string \<times> string) option" where
  "parse_env_line raw =
     (let line = trim raw in
      if line = [] \<or> starts_with ''#'' line then None
      else
        (let body = (case strip_prefix ''export '' line of Some r \<Rightarrow> r | None \<Rightarrow> line)
         in map_option (\<lambda>(k, v). (trim k, strip_quotes (trim v))) (split_once CHR ''='' body)))"

text \<open>\<open>collect\<close> into a map: the last entry of a key wins.\<close>

definition collect_map :: "(string \<times> string) list \<Rightarrow> string \<Rightarrow> string option" where
  "collect_map kvs = map_of (rev kvs)"

definition parse_env_str :: "string \<Rightarrow> string \<Rightarrow> string option" where
  "parse_env_str s = collect_map (filter_map parse_env_line (str_lines s))"

definition parse_env_json_array :: "json \<Rightarrow> string \<Rightarrow> string option" where
  "parse_env_json_array v =
     (case as_array v of
        None \<Rightarrow> Map.empty
      | Some arr \<Rightarrow> collect_map (filter_map (\<lambda>e. Option.bind (as_str e) parse_env_line) arr))"

section \<open>The project\<close>

record project_config =
  root_dir :: string
  dip_dir :: string
  env_path :: string
  compose_path :: string
  project_name :: string
  penv :: "string \<Rightarrow> string option"

text \<open>
  \<open>find_project_root\<close>: the nearest directory at or above the current one that holds
  \<open>.dip\<close>. A directory is its list of components, \<open>is_dir\<close> asks the file system.
\<close>

function find_project_root :: "(string list \<Rightarrow> bool) \<Rightarrow> string list \<Rightarrow> string list option" where
  "find_project_root is_dir current =
     (if is_dir (current @ [''.dip'']) then Some current
      else if current = [] then None
      else find_project_root is_dir (butlast current))"
  by pat_completeness auto
termination
  by (relation "measure (\<lambda>(_, c). length c)") auto

declare find_project_root.simps [simp del]

definition dir_text :: "string list \<Rightarrow> string" where
  "dir_text d = ''/'' @ join ''/'' d"

text \<open>The variables dip computes itself.\<close>

definition dip_keys :: "string list" where
  "dip_keys = [''PROJECT_NAME'', ''PROJECT_ROOT'', ''DIP_DIR'', ''ENV_FILE'', ''HOST_UID'', ''HOST_GID'', ''COMPOSE_PROJECT_NAME'']"

definition build_env ::
    "(string \<Rightarrow> string option) \<Rightarrow> (string \<Rightarrow> string option) \<Rightarrow> string list \<Rightarrow> string \<Rightarrow> string \<Rightarrow> string
      \<Rightarrow> string \<Rightarrow> string option" where
  "build_env sys vars root name uid gid =
     (sys ++ vars)
       (''PROJECT_ROOT'' \<mapsto> dir_text root,
        ''PROJECT_NAME'' \<mapsto> name,
        ''COMPOSE_PROJECT_NAME'' \<mapsto> name,
        ''DIP_DIR'' \<mapsto> dir_text (root @ [''.dip'']),
        ''ENV_FILE'' \<mapsto> dir_text (root @ [''.dip'', ''.env'']),
        ''HOST_UID'' \<mapsto> uid,
        ''HOST_GID'' \<mapsto> gid)"

text \<open>
  \<open>ProjectConfig::load\<close>. \<open>files\<close> gives the content of a file; the result pairs the project
  with the files after the load, since a missing \<open>.env\<close> is copied from \<open>default.env\<close>.
\<close>

type_synonym files = "string list \<Rightarrow> string option"

definition env_file_of :: "string list \<Rightarrow> string list" where
  "env_file_of root = root @ [''.dip'', ''.env'']"

definition default_env_of :: "string list \<Rightarrow> string list" where
  "default_env_of root = root @ [''.dip'', ''default.env'']"

definition ensure_env_file :: "string list \<Rightarrow> files \<Rightarrow> files" where
  "ensure_env_file root files =
     (case files (env_file_of root) of
        Some _ \<Rightarrow> files
      | None \<Rightarrow> (case files (default_env_of root) of
                   Some c \<Rightarrow> files(env_file_of root \<mapsto> c)
                 | None \<Rightarrow> files))"

definition project_of ::
    "string list \<Rightarrow> string \<Rightarrow> (string \<Rightarrow> string option) \<Rightarrow> string \<Rightarrow> string \<Rightarrow> string + project_config" where
  "project_of root content sys uid gid =
     (let vars = parse_env_str content in
      case vars ''PROJECT_NAME'' of
        None \<Rightarrow> Inl (''Env PROJECT_NAME must be set in '' @ dir_text (env_file_of root))
      | Some name \<Rightarrow>
          Inr \<lparr>root_dir = dir_text root, dip_dir = dir_text (root @ [''.dip'']),
               env_path = dir_text (env_file_of root),
               compose_path = dir_text (root @ [''.dip'', ''docker-compose.yml'']),
               project_name = name,
               penv = build_env sys vars root name uid gid\<rparr>)"

definition load_project ::
    "(string list \<Rightarrow> bool) \<Rightarrow> string list \<Rightarrow> files \<Rightarrow> (string \<Rightarrow> string option)
      \<Rightarrow> string \<Rightarrow> string \<Rightarrow> (string + project_config) \<times> files" where
  "load_project is_dir cwd files sys uid gid =
     (case find_project_root is_dir cwd of
        None \<Rightarrow> (Inl ''Not a dip project: .dip directory not found'', files)
      | Some root \<Rightarrow>
          (let files1 = ensure_env_file root files
           in case files1 (env_file_of root) of
                None \<Rightarrow> (Inl (''Env file not found: '' @ dir_text (env_file_of root)), files1)
              | Some content \<Rightarrow> (project_of root content sys uid gid, files1)))"

definition merge_env :: "(string \<Rightarrow> string option) \<Rightarrow> project_config \<Rightarrow> project_config" where
  "merge_env vars p = p\<lparr>penv := penv p ++ vars\<rparr>"

section \<open>Hooks\<close>

text \<open>
  \<open>run_hook\<close> runs \<open>.dip/hooks/<name>\<close> when it exists. Its argv is the path of the script; a
  line of its output that cannot be read ends the capture, so \<open>stdout\<close> is what was captured.
\<close>

definition hook_path :: "project_config \<Rightarrow> string \<Rightarrow> string" where
  "hook_path p name = dip_dir p @ ''/hooks/'' @ name"

definition run_hook :: "cli \<Rightarrow> string \<Rightarrow> (string \<Rightarrow> string option) io" where
  "run_hook cli path =
     io_bind (call cli [path]) (\<lambda>out.
       (case out of
          Spawn_error e \<Rightarrow> bail (''Failed to run hook '' @ path @ '': '' @ e)
        | Exited c s so se \<Rightarrow>
            (if c = Some 0 then ret (parse_env_str so) else bail (''Hook '' @ path @ '' failed''))))"

definition run_named_hook :: "cli \<Rightarrow> (string \<Rightarrow> bool) \<Rightarrow> project_config \<Rightarrow> string \<Rightarrow> (string \<Rightarrow> string option) io" where
  "run_named_hook cli exists p name =
     (if exists (hook_path p name) then run_hook cli (hook_path p name) else ret Map.empty)"

definition apply_pre_start :: "cli \<Rightarrow> (string \<Rightarrow> bool) \<Rightarrow> project_config \<Rightarrow> project_config io" where
  "apply_pre_start cli exists p =
     io_bind (run_named_hook cli exists p ''pre-start'') (\<lambda>vars. ret (merge_env vars p))"

text \<open>The other hooks are best effort: an error is only a warning.\<close>

definition run_soft_hook :: "cli \<Rightarrow> (string \<Rightarrow> bool) \<Rightarrow> project_config \<Rightarrow> string \<Rightarrow> unit io" where
  "run_soft_hook cli exists p name =
     io_bind (attempt (run_named_hook cli exists p name)) (\<lambda>_. ret ())"

section \<open>Comparing two environment files\<close>

text \<open>The keys of a file as a \<open>BTreeSet\<close>.\<close>

definition env_keys :: "string \<Rightarrow> string list" where
  "env_keys content = sextend [] (map fst (filter_map parse_env_line (str_lines content)))"

record env_diff =
  missing :: "string list"
  extra :: "string list"
  changed :: "string list"
  empty_overrides :: "string list"

definition diff_env :: "string \<Rightarrow> string \<Rightarrow> env_diff" where
  "diff_env dflt local =
     (let dk = env_keys dflt; lk = env_keys local; dv = parse_env_str dflt; lv = parse_env_str local;
          both = filter (\<lambda>k. k \<in> set lk) dk;
          blank = (\<lambda>v. trim (case v of Some s \<Rightarrow> s | None \<Rightarrow> []) = [])
      in \<lparr>missing = filter (\<lambda>k. k \<notin> set lk) dk,
          extra = filter (\<lambda>k. k \<notin> set dk) lk,
          changed = filter (\<lambda>k. dv k \<noteq> lv k) both,
          empty_overrides = filter (\<lambda>k. \<not> blank (dv k) \<and> blank (lv k)) both\<rparr>)"

definition read_env_keys :: "string \<Rightarrow> string list" where
  "read_env_keys content =
     filter_map (\<lambda>raw. let l = trim raw in
       if l = [] \<or> starts_with ''#'' l then None
       else map_option (\<lambda>(k, _). trim k) (split_once CHR ''='' l)) (str_lines content)"

section \<open>Facts\<close>

definition env_key :: "string \<Rightarrow> bool" where
  "env_key k \<longleftrightarrow> k \<noteq> [] \<and> tidy k \<and> hd k \<noteq> CHR ''#'' \<and> \<not> starts_with ''export '' k
     \<and> (\<forall>c\<in>set k. c \<noteq> CHR ''='' \<and> c \<noteq> nl \<and> c \<noteq> cr)"

definition env_value :: "string \<Rightarrow> bool" where
  "env_value v \<longleftrightarrow> (\<forall>c\<in>set v. c \<noteq> nl \<and> c \<noteq> cr)"

definition print_env :: "(string \<times> string) list \<Rightarrow> string" where
  "print_env kvs = concat (map (\<lambda>(k, v). k @ ''='' @ [dquote] @ v @ [dquote, nl]) kvs)"

lemma strip_quotes_quoted: "strip_quotes (dquote # v @ [dquote]) = v"
  by (simp add: strip_quotes_def)

lemma dquote_not_ws [simp]: "\<not> is_ws dquote"
  by (simp add: is_ws_def)

lemma starts_with_cut: "starts_with p (k @ c # r) \<Longrightarrow> c \<notin> set p \<Longrightarrow> starts_with p k"
proof (induction p arbitrary: k)
  case (Cons x p)
  then show ?case by (cases k) auto
qed simp

lemma env_key_parts:
  assumes "env_key k"
  shows "k \<noteq> []" "hd k \<noteq> CHR ''#''" "\<not> is_ws (hd k)" "trim k = k"
    "CHR ''='' \<notin> set k" "nl \<notin> set k" "cr \<notin> set k" "\<not> starts_with ''export '' (k @ CHR ''='' # r)"
proof -
  note e = assms[unfolded env_key_def]
  have t: "tidy k" using e by (elim conjE)
  have m: "\<forall>c\<in>set k. c \<noteq> CHR ''='' \<and> c \<noteq> nl \<and> c \<noteq> cr" using e by (elim conjE)
  show ne: "k \<noteq> []" using e by (elim conjE)
  show "hd k \<noteq> CHR ''#''" using e by (elim conjE)
  show "CHR ''='' \<notin> set k" "nl \<notin> set k" "cr \<notin> set k" using m by fast+
  from ne show "\<not> is_ws (hd k)" using t by (simp add: tidy_def)
  show "trim k = k" using t by (rule trim_tidy)
  have ns: "\<not> starts_with ''export '' k" using e by (elim conjE)
  show "\<not> starts_with ''export '' (k @ CHR ''='' # r)"
  proof
    assume "starts_with ''export '' (k @ CHR ''='' # r)"
    then have "starts_with ''export '' k" by (rule starts_with_cut) simp
    with ns show False by (rule notE)
  qed
qed

lemma parse_env_line_quoted:
  assumes "env_key k"
  shows "parse_env_line (k @ ''='' @ [dquote] @ v @ [dquote]) = Some (k, v)"
proof -
  let ?l = "k @ ''='' @ [dquote] @ v @ [dquote]"
  note k = env_key_parts[OF assms]
  then have t: "trim ?l = ?l"
    by (intro trim_tidy) (simp add: tidy_def)
  have h: "\<not> starts_with ''#'' ?l"
    using k by (cases k) auto
  have e: "strip_prefix ''export '' ?l = None"
    using k(8)[of "[dquote] @ v @ [dquote]"] by (simp only: starts_with_def not_not append_Cons append_Nil)
  have s: "split_once CHR ''='' ?l = Some (k, [dquote] @ v @ [dquote])" using k by simp
  have q: "trim ([dquote] @ v @ [dquote]) = [dquote] @ v @ [dquote]"
    by (rule trim_tidy) (simp add: tidy_def)
  show ?thesis
    unfolding parse_env_line_def t Let_def e option.case s
    using h k q strip_quotes_quoted[of v] by simp
qed

lemma str_lines_print_env:
  "\<forall>(k, v)\<in>set kvs. env_key k \<and> env_value v \<Longrightarrow>
   str_lines (print_env kvs) = map (\<lambda>(k, v). k @ ''='' @ [dquote] @ v @ [dquote]) kvs"
proof (induction kvs)
  case (Cons kv kvs)
  obtain k v where kv: "kv = (k, v)" by force
  let ?l = "k @ ''='' @ [dquote] @ v @ [dquote]"
  from Cons.prems kv have "nl \<notin> set ?l" "cr \<notin> set ?l"
    using env_key_parts(6,7)[of k] by (auto simp: env_value_def)
  then have "str_lines (?l @ nl # print_env kvs) = ?l # str_lines (print_env kvs)"
    by (simp add: str_lines_def raw_lines_cons strip_cr_id del: append_assoc)
  with Cons kv show ?case by (simp add: print_env_def)
qed (simp add: print_env_def str_lines_def)

lemma set_env_keys: "set (env_keys c) = dom (parse_env_str c)"
  by (simp add: env_keys_def parse_env_str_def collect_map_def dom_map_of_conv_image_fst)

lemma append_butlast_cut: "butlast xs = r @ s \<Longrightarrow> xs \<noteq> [] \<Longrightarrow> \<exists>t. xs = r @ t"
  by (metis append_assoc append_butlast_last_id)

lemma find_project_root_Some:
  "find_project_root is_dir cwd = Some r \<Longrightarrow> is_dir (r @ [''.dip'']) \<and> (\<exists>s. cwd = r @ s)"
proof (induction is_dir cwd rule: find_project_root.induct)
  case (1 is_dir cwd)
  then show ?case
    by (subst (asm) find_project_root.simps)
       (auto split: if_splits dest: append_butlast_cut)
qed

section \<open>Properties\<close>

text \<open>
  A file of \<open>KEY="value"\<close> lines is read back exactly, whatever the values hold apart
  from line breaks (equals signs, hashes, quotes and blanks included); the last line of a
  key wins.
\<close>

theorem parse_env_print:
  assumes "\<forall>(k, v)\<in>set kvs. env_key k \<and> env_value v"
  shows "parse_env_str (print_env kvs) = map_of (rev kvs)"
proof -
  have "filter_map parse_env_line (map (\<lambda>(k, v). k @ ''='' @ [dquote] @ v @ [dquote]) kvs) = kvs"
    using assms
  proof (induction kvs)
    case (Cons kv kvs)
    then show ?case using parse_env_line_quoted by (cases kv) auto
  qed simp
  then show ?thesis
    by (simp add: parse_env_str_def str_lines_print_env[OF assms] collect_map_def)
qed

theorem parse_env_print_witness:
  "parse_env_str (print_env [(''A'', ''x # =1 ''), (''B_2'', [squote]), (''A'', ''2'')]) ''A'' = Some ''2''"
proof -
  let ?kvs = "[(''A'', ''x # =1 ''), (''B_2'', [squote]), (''A'', ''2'')]"
  have a: "\<forall>(k, v)\<in>set ?kvs. env_key k \<and> env_value v" by code_simp
  show ?thesis unfolding parse_env_print[OF a] by simp
qed

text \<open>
  A project that loads lives in a directory that holds \<open>.dip\<close>, at or above the current
  one; its name is the one its \<open>.env\<close> sets. In its environment the paths, ids and names
  that dip computes cannot be overridden, every other variable of \<open>.env\<close> wins over the
  system's, and the rest is the system's. An existing \<open>.env\<close> is never written.
\<close>

theorem load_project_env:
  assumes "load_project is_dir cwd files sys uid gid = (Inr p, files')"
  shows "\<exists>root content. is_dir (root @ [''.dip'']) \<and> take (length root) cwd = root
    \<and> files' (env_file_of root) = Some content
    \<and> parse_env_str content ''PROJECT_NAME'' = Some (project_name p)
    \<and> penv p ''PROJECT_NAME'' = Some (project_name p)
    \<and> penv p ''COMPOSE_PROJECT_NAME'' = Some (project_name p)
    \<and> penv p ''PROJECT_ROOT'' = Some (dir_text root)
    \<and> penv p ''HOST_UID'' = Some uid \<and> penv p ''HOST_GID'' = Some gid
    \<and> (\<forall>k. k \<notin> set dip_keys
         \<longrightarrow> penv p k = (case parse_env_str content k of Some v \<Rightarrow> Some v | None \<Rightarrow> sys k))
    \<and> (\<forall>f. files f \<noteq> None \<longrightarrow> files' f = files f)"
proof -
  from assms obtain root where r: "find_project_root is_dir cwd = Some root"
    by (auto simp: load_project_def split: option.splits)
  with assms obtain content where c: "ensure_env_file root files (env_file_of root) = Some content"
    "files' = ensure_env_file root files" "project_of root content sys uid gid = Inr p"
    by (auto simp: load_project_def Let_def split: option.splits)
  from c(3) obtain name where n: "parse_env_str content ''PROJECT_NAME'' = Some name"
    "project_name p = name" "penv p = build_env sys (parse_env_str content) root name uid gid"
    by (auto simp: project_of_def Let_def split: option.splits)
  have fr: "files f \<noteq> None \<longrightarrow> ensure_env_file root files f = files f" for f
    by (auto simp: ensure_env_file_def split: option.splits)
  have d: "is_dir (root @ [''.dip''])" "take (length root) cwd = root"
    using find_project_root_Some[OF r] by auto
  have e: "penv p ''PROJECT_NAME'' = Some name" "penv p ''COMPOSE_PROJECT_NAME'' = Some name"
    "penv p ''PROJECT_ROOT'' = Some (dir_text root)" "penv p ''HOST_UID'' = Some uid" "penv p ''HOST_GID'' = Some gid"
    unfolding n(3) build_env_def by simp_all
  have rest: "penv p k = (case parse_env_str content k of Some v \<Rightarrow> Some v | None \<Rightarrow> sys k)"
    if "k \<notin> set dip_keys" for k
    using that unfolding n(3) build_env_def dip_keys_def by (simp add: map_add_def)
  show ?thesis
    by (intro exI[of _ root] exI[of _ content] conjI allI impI)
       (simp_all only: d c(1,2) n(1,2) e rest fr not_False_eq_True simp_thms)
qed

definition demo_files :: files where
  "demo_files = [[''w'', ''.dip'', ''default.env''] \<mapsto> ''PROJECT_NAME=app'']"

theorem load_project_env_witness:
  "\<exists>p files'. load_project (\<lambda>d. d = [''w'', ''.dip'']) [''w'', ''src''] demo_files Map.empty ''1000'' ''1000'' = (Inr p, files')
     \<and> penv p ''HOST_UID'' = Some ''1000''"
proof -
  have root: "find_project_root (\<lambda>d. d = [''w'', ''.dip'']) [''w'', ''src''] = Some [''w'']"
    by (subst find_project_root.simps, simp, subst find_project_root.simps) simp
  have name: "parse_env_str ''PROJECT_NAME=app'' ''PROJECT_NAME'' = Some ''app''" by code_simp
  obtain p f where p: "load_project (\<lambda>d. d = [''w'', ''.dip'']) [''w'', ''src''] demo_files Map.empty ''1000'' ''1000'' = (Inr p, f)"
    by (simp add: load_project_def root Let_def project_of_def name ensure_env_file_def demo_files_def
        env_file_of_def default_env_of_def)
  from load_project_env[OF p] p show ?thesis by blast
qed

text \<open>
  \<open>dip env diff\<close>: the keys of the two files are split without overlap into the missing,
  the extra and the common ones, a common key is changed exactly when its values differ,
  and every list is in increasing order.
\<close>

theorem diff_env_correct:
  "set (missing (diff_env d l)) = dom (parse_env_str d) - dom (parse_env_str l)
   \<and> set (extra (diff_env d l)) = dom (parse_env_str l) - dom (parse_env_str d)
   \<and> set (changed (diff_env d l)) = {k \<in> dom (parse_env_str d) \<inter> dom (parse_env_str l). parse_env_str d k \<noteq> parse_env_str l k}
   \<and> set (empty_overrides (diff_env d l)) \<subseteq> dom (parse_env_str d) \<inter> dom (parse_env_str l)
   \<and> sorted_wrt (<) (missing (diff_env d l)) \<and> sorted_wrt (<) (extra (diff_env d l))
   \<and> sorted_wrt (<) (changed (diff_env d l))"
proof -
  have s: "sorted_wrt (<) (env_keys c)" for c
    by (simp add: env_keys_def sorted_sextend)
  then have f: "sorted_wrt (<) (filter P (env_keys c))" for P c
    by (rule sorted_wrt_filter)
  show ?thesis
    using s by (auto simp: diff_env_def Let_def set_env_keys sorted_wrt_filter filter_filter simp del: filter_filter)
qed

section \<open>Divergences\<close>

text \<open>The container's environment is not shell text, yet its quotes are stripped.\<close>

lemma container_env_unquoted:
  "parse_env_json_array (JArr [JStr (''POSTGRES_PASSWORD='' @ [dquote] @ ''pw'' @ [dquote])]) ''POSTGRES_PASSWORD''
     = Some ''pw''"
  by code_simp

text \<open>\<open>dip env\<close> looks an exported variable up under a name that is not its key.\<close>

lemma exported_key_misread:
  "read_env_keys ''export TOKEN=1'' = [''export TOKEN''] \<and> env_keys ''export TOKEN=1'' = [''TOKEN'']"
  by code_simp

end
