(* ===== verification/Dip_Docker.thy ===== *)
theory Dip_Docker
  imports Dip_Env
begin

text \<open>
  The runtime layer of \<open>runtime/mod.rs\<close> and its Docker backend \<open>runtime/docker.rs\<close>. The
  backend is a set of computations over the \<open>docker\<close> binary. \<open>decode\<close> stands for
  \<open>serde_json::from_slice\<close> and \<open>try_ps\<close> for the query over the engine's socket, which may
  decline (\<open>None\<close>) or fail. What a command prints line by line is the value it returns.
\<close>

section \<open>Data shared by the backends\<close>

datatype db_kind = MySql | Postgres

record db_service =
  svc_name :: string
  svc_container :: string
  backend :: db_kind
  db_name :: string
  db_password :: string
  db_user :: string

record project_container =
  clabels :: json
  cip :: "string option"

definition value_or :: "string \<Rightarrow> string option \<Rightarrow> string" where
  "value_or d x = (case x of Some v \<Rightarrow> v | None \<Rightarrow> d)"

definition or_key :: "(string \<Rightarrow> string option) \<Rightarrow> string \<Rightarrow> string \<Rightarrow> string option" where
  "or_key env a b = (case env a of Some v \<Rightarrow> Some v | None \<Rightarrow> env b)"

definition db_service_from_parts ::
    "string \<Rightarrow> string \<Rightarrow> string \<Rightarrow> (string \<Rightarrow> string option) \<Rightarrow> db_service option" where
  "db_service_from_parts service_name container_id db_type env =
     (if db_type = ''mysql'' then
        (let name = value_or [] (env ''MYSQL_DATABASE'');
             password = value_or [] (env ''MYSQL_ROOT_PASSWORD'')
         in if name = [] \<or> password = [] then None
            else Some \<lparr>svc_name = service_name, svc_container = container_id, backend = MySql,
                       db_name = name, db_password = password, db_user = ''root''\<rparr>)
      else if db_type = ''postgres'' then
        (let name = value_or [] (or_key env ''POSTGRES_DB'' ''PGDATABASE'');
             password = value_or [] (or_key env ''POSTGRES_PASSWORD'' ''PGPASSWORD'');
             user = value_or ''postgres'' (or_key env ''POSTGRES_USER'' ''PGUSER'')
         in if name = [] \<or> password = [] then None
            else Some \<lparr>svc_name = service_name, svc_container = container_id, backend = Postgres,
                       db_name = name, db_password = password, db_user = user\<rparr>)
      else None)"

definition container_exec_command ::
    "string \<Rightarrow> string \<Rightarrow> (string \<times> string) list \<Rightarrow> bool \<Rightarrow> string list \<Rightarrow> string list" where
  "container_exec_command runtime container_id env_pairs interactive command_args =
     [if runtime = ''apple'' then ''container'' else ''docker'', ''exec'']
     @ (if interactive then [''-i''] else [])
     @ concat (map (\<lambda>(k, v). [''-e'', k @ ''='' @ v]) env_pairs)
     @ [container_id] @ command_args"

section \<open>Choosing the backend\<close>

datatype runtime_kind = Docker | Apple

definition wants_apple_runtime :: "string \<Rightarrow> bool" where
  "wants_apple_runtime r \<longleftrightarrow> to_lower r \<in> set [''apple'', ''container'', ''apple-container'']"

text \<open>\<open>macos\<close>: the platform; elsewhere only Docker exists.\<close>

definition backend_for :: "bool \<Rightarrow> string option \<Rightarrow> runtime_kind" where
  "backend_for macos r =
     (if macos \<and> (case r of Some n \<Rightarrow> wants_apple_runtime n | None \<Rightarrow> False) then Apple else Docker)"

definition normalize_runtime :: "bool \<Rightarrow> string \<Rightarrow> string + string" where
  "normalize_runtime macos raw =
     (let r = to_lower (trim raw) in
      if macos \<and> r \<in> set [''apple'', ''container'', ''apple-container''] then Inr ''apple''
      else if r = ''docker'' then Inr ''docker''
      else if r = ''auto'' \<or> r = [] then Inr ''auto''
      else Inl (''unsupported runtime '' @ r))"

text \<open>A runtime file; \<open>None\<close> when there is none.\<close>

definition read_runtime_file :: "string option \<Rightarrow> string + string option" where
  "read_runtime_file file =
     (case file of
        None \<Rightarrow> Inr None
      | Some raw \<Rightarrow>
          (let r = trim raw in
           if r = [] \<or> eq_ignore_case r ''auto'' then Inr None
           else (case normalize_runtime True r of Inl e \<Rightarrow> Inl e | Inr n \<Rightarrow> Inr (Some n))))"

definition set_runtime_file :: "string option \<Rightarrow> string option \<Rightarrow> string + string option" where
  "set_runtime_file r file =
     (case r of
        Some name \<Rightarrow> (case normalize_runtime True name of Inl e \<Rightarrow> Inl e | Inr n \<Rightarrow> Inr (Some (n @ [nl])))
      | None \<Rightarrow> Inr None)"

definition not_blank :: "string option \<Rightarrow> string option" where
  "not_blank x = (case x of Some v \<Rightarrow> (if v = [] then None else Some v) | None \<Rightarrow> None)"

definition ok_flatten :: "string + string option \<Rightarrow> string option" where
  "ok_flatten r = (case r of Inr x \<Rightarrow> x | Inl _ \<Rightarrow> None)"

text \<open>\<open>process\<close> is \<open>DIP_RUNTIME\<close> of the process, \<open>project_var\<close> that of the project's environment.\<close>

definition detect_for_project :: "bool \<Rightarrow> string option \<Rightarrow> string option \<Rightarrow> string option \<Rightarrow> string option \<Rightarrow> runtime_kind" where
  "detect_for_project macos process project_file project_var global_file =
     (if \<not> macos then Docker
      else case not_blank process of
        Some r \<Rightarrow> backend_for macos (Some r)
      | None \<Rightarrow>
          (case ok_flatten (read_runtime_file project_file) of
             Some r \<Rightarrow> backend_for macos (Some r)
           | None \<Rightarrow>
               (case not_blank project_var of
                  Some r \<Rightarrow> backend_for macos (Some r)
                | None \<Rightarrow> backend_for macos (ok_flatten (read_runtime_file global_file)))))"

definition detect :: "bool \<Rightarrow> string option \<Rightarrow> string option \<Rightarrow> runtime_kind" where
  "detect macos process global_file =
     (if \<not> macos then Docker
      else case not_blank process of
        Some r \<Rightarrow> backend_for macos (Some r)
      | None \<Rightarrow> backend_for macos (ok_flatten (read_runtime_file global_file)))"

section \<open>The Docker backend\<close>

definition compose_argv :: "project_config \<Rightarrow> string list \<Rightarrow> string list" where
  "compose_argv p args = [''docker'', ''compose'', ''-f'', compose_path p] @ args"

definition docker_check_daemon :: "cli \<Rightarrow> unit io" where
  "docker_check_daemon cli =
     io_bind (call cli [''docker'', ''info'']) (\<lambda>out.
       if succeeded out then ret () else bail ''Docker daemon is not running. Start Docker and try again.'')"

definition docker_compose_run :: "cli \<Rightarrow> project_config \<Rightarrow> string list \<Rightarrow> unit io" where
  "docker_compose_run cli p args =
     io_bind (call cli (compose_argv p args)) (\<lambda>out.
       (case out of
          Spawn_error e \<Rightarrow> bail e
        | Exited c s so se \<Rightarrow> (if c = Some 0 then ret () else bail ''docker compose command failed'')))"

definition docker_compose_stream :: "cli \<Rightarrow> project_config \<Rightarrow> string list \<Rightarrow> bool \<Rightarrow> int io" where
  "docker_compose_stream cli p args passthrough =
     io_bind (call cli (compose_argv p args)) (\<lambda>out.
       (case out of
          Spawn_error e \<Rightarrow> bail e
        | Exited c s so se \<Rightarrow>
            (if c \<noteq> Some 0 \<and> exit_code c s \<noteq> 130 \<and> \<not> passthrough
             then bail ''docker compose command failed''
             else ret (exit_code c s))))"

definition is_env_warning :: "string \<Rightarrow> bool" where
  "is_env_warning line = contains_sub ''variable is not set. Defaulting to a blank string.'' line"

definition docker_compose_stream_grep :: "cli \<Rightarrow> project_config \<Rightarrow> string list \<Rightarrow> string list \<Rightarrow> string list io" where
  "docker_compose_stream_grep cli p args keywords =
     io_bind (call cli (compose_argv p args)) (\<lambda>out.
       (case out of
          Spawn_error e \<Rightarrow> bail e
        | Exited c s so se \<Rightarrow>
            (if c \<noteq> Some 0 \<and> exit_code c s \<noteq> 130 then bail ''docker compose command failed''
             else ret (filter (\<lambda>l. list_ex (\<lambda>kw. contains_sub kw (to_lower l)) keywords) (str_lines so)))))"

definition docker_compose_capture ::
    "cli \<Rightarrow> (string \<Rightarrow> string list \<Rightarrow> (string + string) option) \<Rightarrow> project_config \<Rightarrow> string list \<Rightarrow> string io" where
  "docker_compose_capture cli try_ps p args =
     (case try_ps (project_name p) args of
        Some (Inr out) \<Rightarrow> ret out
      | _ \<Rightarrow>
          io_bind (call cli (compose_argv p args)) (\<lambda>out.
            (case out of
               Spawn_error e \<Rightarrow> bail e
             | Exited c s so se \<Rightarrow>
                 (if c = Some 0 then ret so else bail (''docker compose failed: '' @ trim se)))))"

definition docker_raw_capture :: "cli \<Rightarrow> string list \<Rightarrow> string io" where
  "docker_raw_capture cli args =
     io_bind (call cli (''docker'' # args)) (\<lambda>out.
       (case out of
          Spawn_error e \<Rightarrow> bail e
        | Exited c s so se \<Rightarrow> (if c = Some 0 then ret so else bail (''docker command failed: '' @ trim se))))"

definition docker_raw_stream :: "cli \<Rightarrow> string list \<Rightarrow> unit io" where
  "docker_raw_stream cli args =
     io_bind (call cli (''docker'' # args)) (\<lambda>out.
       (case out of
          Spawn_error e \<Rightarrow> bail e
        | Exited c s so se \<Rightarrow>
            (if c \<noteq> Some 0 \<and> exit_code c s \<noteq> 130 then bail ''docker command failed'' else ret ())))"

text \<open>The non-blank lines of an output.\<close>

definition id_lines :: "string \<Rightarrow> string list" where
  "id_lines out = filter (\<lambda>l. l \<noteq> []) (map trim (str_lines out))"

definition short_id :: "string \<Rightarrow> string" where
  "short_id i = (if 12 \<le> length i then take 12 i else i)"

definition docker_db_service_of :: "json \<Rightarrow> db_service option" where
  "docker_db_service_of c =
     (let labels = jindex (jindex c ''Config'') ''Labels'' in
      case as_str (jindex labels ''dip.db'') of
        None \<Rightarrow> None
      | Some db_type \<Rightarrow>
          (case as_str (jindex c ''Id'') of
             None \<Rightarrow> None
           | Some i \<Rightarrow>
               (let name = (case as_str (jindex labels ''com.docker.compose.service'') of
                              Some s \<Rightarrow> s
                            | None \<Rightarrow> dropWhile (\<lambda>x. x = CHR ''/'') (value_or ''db'' (as_str (jindex c ''Name''))))
                in db_service_from_parts name (short_id i) db_type
                     (parse_env_json_array (jindex (jindex c ''Config'') ''Env'')))))"

text \<open>The containers that \<open>docker inspect\<close> describes; a spawn failure is an error.\<close>

definition docker_inspect :: "cli \<Rightarrow> (string \<Rightarrow> json option) \<Rightarrow> string list \<Rightarrow> json list io" where
  "docker_inspect cli decode ids =
     io_bind (call cli (''docker'' # ''inspect'' # ids)) (\<lambda>out.
       (case out of
          Spawn_error e \<Rightarrow> bail e
        | Exited c s so se \<Rightarrow>
            (if c \<noteq> Some 0 then ret []
             else case decode so of
                    None \<Rightarrow> bail ''invalid JSON''
                  | Some v \<Rightarrow> ret (case as_array v of Some a \<Rightarrow> a | None \<Rightarrow> []))))"

definition docker_db_services :: "cli \<Rightarrow> (string \<Rightarrow> json option) \<Rightarrow> project_config \<Rightarrow> db_service list io" where
  "docker_db_services cli decode p =
     io_bind (call cli (compose_argv p [''ps'', ''-q''])) (\<lambda>out.
       (case out of
          Spawn_error e \<Rightarrow> bail e
        | Exited c s so se \<Rightarrow>
            (if id_lines so = [] then ret []
             else io_bind (docker_inspect cli decode (id_lines so)) (\<lambda>cs. ret (filter_map docker_db_service_of cs)))))"

definition docker_ip_of :: "json \<Rightarrow> string option" where
  "docker_ip_of c =
     (case as_object (jindex (jindex c ''NetworkSettings'') ''Networks'') of
        Some ((_, net) # _) \<Rightarrow> not_blank (as_str (jindex net ''IPAddress''))
      | _ \<Rightarrow> None)"

definition docker_container_ip :: "cli \<Rightarrow> (string \<Rightarrow> json option) \<Rightarrow> string \<Rightarrow> string io" where
  "docker_container_ip cli decode i =
     io_bind (call cli [''docker'', ''inspect'', i]) (\<lambda>out.
       (case out of
          Spawn_error e \<Rightarrow> bail e
        | Exited c s so se \<Rightarrow>
            (if c \<noteq> Some 0 then bail (''docker inspect failed for container '' @ i)
             else case decode so of
                    None \<Rightarrow> bail ''invalid JSON''
                  | Some v \<Rightarrow>
                      (case docker_ip_of (case v of JArr (x # _) \<Rightarrow> x | _ \<Rightarrow> JNull) of
                         Some ip \<Rightarrow> ret ip
                       | None \<Rightarrow> bail (''Could not find IP for container '' @ i)))))"

definition docker_project_containers ::
    "cli \<Rightarrow> (string \<Rightarrow> json option) \<Rightarrow> project_config \<Rightarrow> bool \<Rightarrow> project_container list io" where
  "docker_project_containers cli decode p include_stopped =
     io_bind (call cli (compose_argv p ([''ps'', ''-q''] @ (if include_stopped then [''-a''] else [])))) (\<lambda>out.
       (case out of
          Spawn_error e \<Rightarrow> bail e
        | Exited c s so se \<Rightarrow>
            (if id_lines so = [] then ret []
             else io_bind (docker_inspect cli decode (id_lines so)) (\<lambda>cs.
                    ret (map (\<lambda>x. \<lparr>clabels = jindex (jindex x ''Config'') ''Labels'', cip = docker_ip_of x\<rparr>) cs)))))"

definition docker_running_count_by_project :: "cli \<Rightarrow> string \<Rightarrow> nat io" where
  "docker_running_count_by_project cli name =
     io_bind (call cli [''docker'', ''ps'', ''-q'', ''--filter'', ''label=com.docker.compose.project='' @ name]) (\<lambda>out.
       ret (case out of
              Spawn_error _ \<Rightarrow> 0
            | Exited c s so se \<Rightarrow> length (filter (\<lambda>l. l \<noteq> []) (str_lines so))))"

text \<open>A command whose result is ignored.\<close>

definition run_spinner_command :: "cli \<Rightarrow> string list \<Rightarrow> unit io" where
  "run_spinner_command cli argv = io_bind (call cli argv) (\<lambda>_. ret ())"

definition docker_prune_system :: "cli \<Rightarrow> bool \<Rightarrow> bool \<Rightarrow> unit io" where
  "docker_prune_system cli volumes everything =
     io_each (\<lambda>a. run_spinner_command cli (''docker'' # a))
       ([[''container'', ''prune'', ''-f''], [''builder'', ''prune'', ''-f''], [''network'', ''prune'', ''-f''],
         [''image'', ''prune'', ''-f''] @ (if everything then [''-a''] else [])]
        @ (if volumes then [[''volume'', ''prune'', ''-f'', ''--all'']] else []))"

definition prune_plan :: "runtime_kind \<Rightarrow> bool \<Rightarrow> bool \<Rightarrow> string list" where
  "prune_plan k volumes everything =
     [''stopped containers'', ''unused networks'',
      if everything then ''all unused images'' else ''dangling images'']
     @ (if k = Docker then [''build cache''] else [])
     @ (if volumes then [''unused volumes (including named db_data etc.)''] else [])"

section \<open>Benchmarks\<close>

text \<open>
  A benchmark runs disposable containers. The clock is a parameter that reads nanoseconds
  from the history; \<open>name\<close> gives the container of each run.
\<close>

record bench_spec =
  iterations :: nat
  warmup :: nat
  bench_image :: string
  bench_path :: string
  size_mb :: nat
  mount :: "(string \<times> string) option"

record bench_totals =
  t_start :: nat
  t_exec :: nat
  t_disk :: nat

definition bench_run_args :: "string \<Rightarrow> bench_spec \<Rightarrow> string list" where
  "bench_run_args name spec =
     [''run'', ''--detach'', ''--name'', name]
     @ (case mount spec of Some (host, target) \<Rightarrow> [''--volume'', host @ '':'' @ target] | None \<Rightarrow> [])
     @ [bench_image spec, ''sh'', ''-c'', ''sleep 3600'']"

text \<open>The parts in which the two backends differ.\<close>

record bench_tool =
  binary :: string
  pull_args :: "string \<Rightarrow> string list"
  remove_args :: "string \<Rightarrow> string list"
  no_output :: "int option \<Rightarrow> int option \<Rightarrow> string"

text \<open>\<open>status_text\<close> is the text of an \<open>ExitStatus\<close>.\<close>

definition docker_tool :: "(int option \<Rightarrow> int option \<Rightarrow> string) \<Rightarrow> bench_tool" where
  "docker_tool status_text =
     \<lparr>binary = ''docker'', pull_args = (\<lambda>i. [''pull'', i]), remove_args = (\<lambda>n. [''rm'', ''-f'', n]),
      no_output = status_text\<rparr>"

definition tool_status :: "cli \<Rightarrow> bench_tool \<Rightarrow> string list \<Rightarrow> unit io" where
  "tool_status cli tool args =
     io_bind (call cli (binary tool # args)) (\<lambda>out.
       (case out of
          Spawn_error e \<Rightarrow> bail e
        | Exited c s so se \<Rightarrow>
            (if c = Some 0 then ret ()
             else bail (binary tool @ '' '' @ join '' '' args @ '' failed: ''
                        @ command_output_message so se (no_output tool c s)))))"

definition ensure_image :: "cli \<Rightarrow> bench_tool \<Rightarrow> string \<Rightarrow> unit io" where
  "ensure_image cli tool img =
     io_bind (attempt (tool_status cli tool [''image'', ''inspect'', img])) (\<lambda>r.
       (case r of Inr _ \<Rightarrow> ret () | Inl _ \<Rightarrow> tool_status cli tool (pull_args tool img)))"

definition now :: "(hist \<Rightarrow> nat) \<Rightarrow> nat io" where
  "now clock h = (Inr (clock h), h)"

definition timed :: "(hist \<Rightarrow> nat) \<Rightarrow> unit io \<Rightarrow> nat io" where
  "timed clock m = io_bind (now clock) (\<lambda>a. io_bind m (\<lambda>_. io_bind (now clock) (\<lambda>b. ret (b - a))))"

definition bench_sample :: "cli \<Rightarrow> bench_tool \<Rightarrow> (hist \<Rightarrow> nat) \<Rightarrow> string \<Rightarrow> bench_spec \<Rightarrow> string \<Rightarrow> (nat \<times> nat) io" where
  "bench_sample cli tool clock script spec name =
     io_bind (timed clock (tool_status cli tool [''exec'', name, ''true''])) (\<lambda>e.
     io_bind (timed clock (tool_status cli tool [''exec'', name, ''sh'', ''-lc'', script])) (\<lambda>d. ret (e, d)))"

definition bench_once :: "cli \<Rightarrow> bench_tool \<Rightarrow> (hist \<Rightarrow> nat) \<Rightarrow> string \<Rightarrow> bench_spec \<Rightarrow> string \<Rightarrow> (nat \<times> nat \<times> nat) io" where
  "bench_once cli tool clock script spec name =
     io_bind (timed clock (tool_status cli tool (bench_run_args name spec))) (\<lambda>st.
     io_bind (bench_sample cli tool clock script spec name) (\<lambda>(e, d). ret (st, e, d)))"

definition add_sample :: "nat \<times> nat \<times> nat \<Rightarrow> bench_totals \<Rightarrow> bench_totals" where
  "add_sample x t =
     (case x of (a, b, c) \<Rightarrow> t\<lparr>t_start := t_start t + a, t_exec := t_exec t + b, t_disk := t_disk t + c\<rparr>)"

definition remove_bench :: "cli \<Rightarrow> bench_tool \<Rightarrow> string \<Rightarrow> unit io" where
  "remove_bench cli tool name = io_bind (attempt (tool_status cli tool (remove_args tool name))) (\<lambda>_. ret ())"

text \<open>The container is removed before and after every run, and also when the run failed.\<close>

definition with_bench_container :: "cli \<Rightarrow> bench_tool \<Rightarrow> string \<Rightarrow> 'a io \<Rightarrow> 'a io" where
  "with_bench_container cli tool name m =
     io_seq (remove_bench cli tool name)
       (io_bind (attempt m) (\<lambda>r. io_seq (remove_bench cli tool name) (of_result r)))"

fun bench_loop ::
    "cli \<Rightarrow> bench_tool \<Rightarrow> (hist \<Rightarrow> nat) \<Rightarrow> string \<Rightarrow> (nat \<Rightarrow> string) \<Rightarrow> bench_spec \<Rightarrow> nat list \<Rightarrow> bench_totals \<Rightarrow> bench_totals io" where
  "bench_loop cli tool clock script name spec [] t = ret t"
| "bench_loop cli tool clock script name spec (i # is) t =
     io_bind (with_bench_container cli tool (name i) (bench_once cli tool clock script spec (name i))) (\<lambda>x.
       bench_loop cli tool clock script name spec is (if warmup spec \<le> i then add_sample x t else t))"

definition bench_runs :: "bench_spec \<Rightarrow> nat list" where
  "bench_runs spec = [0..<warmup spec + max (iterations spec) 1]"

definition bench :: "cli \<Rightarrow> bench_tool \<Rightarrow> (hist \<Rightarrow> nat) \<Rightarrow> string \<Rightarrow> (nat \<Rightarrow> string) \<Rightarrow> bench_spec \<Rightarrow> bench_totals io" where
  "bench cli tool clock script name spec =
     io_seq (ensure_image cli tool (bench_image spec))
       (bench_loop cli tool clock script name spec (bench_runs spec) \<lparr>t_start = 0, t_exec = 0, t_disk = 0\<rparr>)"

fun steady_loop :: "cli \<Rightarrow> bench_tool \<Rightarrow> (hist \<Rightarrow> nat) \<Rightarrow> string \<Rightarrow> string \<Rightarrow> bench_spec \<Rightarrow> nat list \<Rightarrow> bench_totals \<Rightarrow> bench_totals io" where
  "steady_loop cli tool clock script name spec [] t = ret t"
| "steady_loop cli tool clock script name spec (i # is) t =
     io_bind (bench_sample cli tool clock script spec name) (\<lambda>(e, d).
       steady_loop cli tool clock script name spec is (if warmup spec \<le> i then add_sample (0, e, d) t else t))"

definition bench_steady :: "cli \<Rightarrow> bench_tool \<Rightarrow> (hist \<Rightarrow> nat) \<Rightarrow> string \<Rightarrow> string \<Rightarrow> bench_spec \<Rightarrow> bench_totals io" where
  "bench_steady cli tool clock script name spec =
     io_seq (ensure_image cli tool (bench_image spec))
       (with_bench_container cli tool name
          (io_bind (timed clock (tool_status cli tool (bench_run_args name spec))) (\<lambda>st.
             steady_loop cli tool clock script name spec (bench_runs spec) \<lparr>t_start = st, t_exec = 0, t_disk = 0\<rparr>)))"

section \<open>Information about the engine\<close>

record system_info =
  version_label :: string
  version :: string
  images :: "string option"
  containers :: "(string \<times> string \<times> string \<times> string) option"

definition docker_system_info :: "cli \<Rightarrow> string list \<Rightarrow> string list \<Rightarrow> system_info io" where
  "docker_system_info cli version_argv info_argv =
     io_bind (call cli version_argv) (\<lambda>v.
       (case v of
          Spawn_error e \<Rightarrow> bail e
        | Exited _ _ vo _ \<Rightarrow>
            io_bind (call cli info_argv) (\<lambda>i.
              (case i of
                 Spawn_error e \<Rightarrow> bail e
               | Exited _ _ io _ \<Rightarrow>
                   (let ls = str_lines io
                    in ret \<lparr>version_label = ''Docker:'', version = trim vo,
                            images = (if 4 < length ls then Some (ls ! 4) else None),
                            containers = (if 4 \<le> length ls then Some (ls ! 0, ls ! 1, ls ! 2, ls ! 3) else None)\<rparr>)))))"

section \<open>Facts about benchmarks\<close>

definition remove_argv :: "bench_tool \<Rightarrow> string \<Rightarrow> string list" where
  "remove_argv tool n = binary tool # remove_args tool n"

lemma tool_status_hist: "snd (tool_status cli tool args h) = h @ [binary tool # args]"
  by (auto simp: tool_status_def split: cli_out.split)

lemma remove_bench_run: "remove_bench cli tool n h = (Inr (), h @ [remove_argv tool n])"
  by (simp add: remove_bench_def io_bind_attempt tool_status_hist remove_argv_def)

lemma with_bench_container_run:
  "with_bench_container cli tool n m h =
     (case m (h @ [remove_argv tool n]) of (r, h') \<Rightarrow> (r, h' @ [remove_argv tool n]))"
  by (simp add: with_bench_container_def io_seq_def io_bind_def remove_bench_run of_result_def split: prod.split)

lemma timed_hist: "snd (timed clock (tool_status cli tool args) h) = h @ [binary tool # args]"
  using tool_status_hist[of cli tool args h]
  by (auto simp: timed_def io_bind_def now_def split: prod.splits sum.splits)

definition bench_commands :: "bench_tool \<Rightarrow> bench_spec \<Rightarrow> string \<Rightarrow> string \<Rightarrow> string list list" where
  "bench_commands tool spec script n =
     [binary tool # bench_run_args n spec, [binary tool, ''exec'', n, ''true''],
      [binary tool, ''exec'', n, ''sh'', ''-lc'', script]]"

lemma bench_once_hist:
  "\<exists>k\<le>3. snd (bench_once cli tool clock script spec n h) = h @ take k (bench_commands tool spec script n)"
proof -
  let ?a = "bench_run_args n spec"
  obtain r1 h1 where 1: "timed clock (tool_status cli tool ?a) h = (r1, h1)" by force
  then have h1: "h1 = h @ [binary tool # ?a]" using timed_hist[of clock cli tool ?a h] by simp
  obtain r2 h2 where 2: "timed clock (tool_status cli tool [''exec'', n, ''true'']) h1 = (r2, h2)" by force
  then have h2: "h2 = h1 @ [[binary tool, ''exec'', n, ''true'']]"
    using timed_hist[of clock cli tool "[''exec'', n, ''true'']" h1] by simp
  obtain r3 h3 where 3: "timed clock (tool_status cli tool [''exec'', n, ''sh'', ''-lc'', script]) h2 = (r3, h3)" by force
  then have h3: "h3 = h2 @ [[binary tool, ''exec'', n, ''sh'', ''-lc'', script]]"
    using timed_hist[of clock cli tool "[''exec'', n, ''sh'', ''-lc'', script]" h2] by simp
  show ?thesis
  proof (cases r1)
    case (Inl e)
    then show ?thesis
      by (intro exI[of _ 1]) (simp add: bench_once_def io_bind_def 1 h1 bench_commands_def)
  next
    case r1: (Inr st)
    show ?thesis
    proof (cases r2)
      case (Inl e)
      then show ?thesis
        by (intro exI[of _ 2]) (simp add: bench_once_def bench_sample_def io_bind_def 1 2[unfolded h1] r1 h1 h2 bench_commands_def)
    next
      case (Inr x)
      then show ?thesis
        by (intro exI[of _ 3])
           (simp add: bench_once_def bench_sample_def io_bind_def 1 2[unfolded h1] 3[unfolded h2 h1, simplified] r1 h1 h2 h3 bench_commands_def split: sum.split)
    qed
  qed
qed

definition bench_block :: "bench_tool \<Rightarrow> bench_spec \<Rightarrow> string \<Rightarrow> string \<times> nat \<Rightarrow> string list list" where
  "bench_block tool spec script b =
     [remove_argv tool (fst b)] @ take (snd b) (bench_commands tool spec script (fst b)) @ [remove_argv tool (fst b)]"

lemma bench_loop_hist:
  "\<exists>bs. snd (bench_loop cli tool clock script name spec is t h) = h @ concat (map (bench_block tool spec script) bs)
     \<and> map fst bs = map name (take (length bs) is)"
proof (induction "is" arbitrary: t h)
  case Nil
  show ?case by (intro exI[of _ "[]"]) simp
next
  case (Cons i "is")
  let ?rm = "remove_argv tool (name i)"
  obtain r h1 where o: "bench_once cli tool clock script spec (name i) (h @ [?rm]) = (r, h1)" by force
  with bench_once_hist[of cli tool clock script spec "name i" "h @ [?rm]"]
  obtain k where k: "h1 = (h @ [?rm]) @ take k (bench_commands tool spec script (name i))" by auto
  have w: "with_bench_container cli tool (name i) (bench_once cli tool clock script spec (name i)) h = (r, h1 @ [?rm])"
    by (simp add: with_bench_container_run o)
  have blk: "h1 @ [?rm] = h @ bench_block tool spec script (name i, k)"
    by (simp add: k bench_block_def)
  show ?case
  proof (cases r)
    case (Inl e)
    then show ?thesis
      by (intro exI[of _ "[(name i, k)]"]) (simp add: io_bind_def w blk)
  next
    case (Inr x)
    obtain bs where
      "snd (bench_loop cli tool clock script name spec is (if warmup spec \<le> i then add_sample x t else t) (h1 @ [?rm]))
         = (h1 @ [?rm]) @ concat (map (bench_block tool spec script) bs)"
      "map fst bs = map name (take (length bs) is)"
      using Cons by blast
    then show ?thesis
      using Inr by (intro exI[of _ "(name i, k) # bs"]) (simp add: io_bind_def w blk)
  qed
qed

lemma ensure_image_hist:
  "\<exists>pre. snd (ensure_image cli tool img h) = h @ pre
     \<and> set pre \<subseteq> {[binary tool, ''image'', ''inspect'', img], binary tool # pull_args tool img}"
proof -
  have "snd ((case x of Inl _ \<Rightarrow> tool_status cli tool (pull_args tool img) | Inr _ \<Rightarrow> ret ()) h')
      = h' @ (case x of Inl _ \<Rightarrow> [binary tool # pull_args tool img] | Inr _ \<Rightarrow> [])" for x :: "string + unit" and h'
    by (simp add: tool_status_hist split: sum.split)
  then show ?thesis
    unfolding ensure_image_def io_bind_attempt tool_status_hist
    by (auto split: sum.split)
qed

section \<open>Properties\<close>

text \<open>
  However a benchmark ends, also with an error of the engine in the middle of a run,
  each of its runs is framed by the removal of the run's container, before and after: the
  commands it issues are the lookup of the image and then such frames, in run order.
\<close>

theorem bench_always_cleans_up:
  "\<exists>pre bs. snd (bench cli tool clock script name spec h)
      = h @ pre @ concat (map (bench_block tool spec script) bs)
    \<and> set pre \<subseteq> {[binary tool, ''image'', ''inspect'', bench_image spec], binary tool # pull_args tool (bench_image spec)}
    \<and> map fst bs = map name (take (length bs) (bench_runs spec))"
proof -
  obtain r h1 where e: "ensure_image cli tool (bench_image spec) h = (r, h1)" by force
  obtain pre where pre: "h1 = h @ pre"
    "set pre \<subseteq> {[binary tool, ''image'', ''inspect'', bench_image spec], binary tool # pull_args tool (bench_image spec)}"
    using ensure_image_hist[of cli tool "bench_image spec" h] e by auto
  show ?thesis
  proof (cases r)
    case (Inl err)
    with e pre show ?thesis
      by (intro exI[of _ pre] exI[of _ "[]"]) (simp add: bench_def io_seq_def io_bind_def)
  next
    case (Inr u)
    let ?t = "\<lparr>t_start = 0, t_exec = 0, t_disk = 0\<rparr>"
    obtain bs where "snd (bench_loop cli tool clock script name spec (bench_runs spec) ?t h1)
        = h1 @ concat (map (bench_block tool spec script) bs)"
      "map fst bs = map name (take (length bs) (bench_runs spec))"
      using bench_loop_hist by blast
    with e pre Inr show ?thesis
      by (intro exI[of _ pre] exI[of _ bs]) (simp add: bench_def io_seq_def io_bind_def)
  qed
qed

text \<open>
  A runtime chosen with \<open>dip use\<close> for a project is read back from the file it is stored
  in and decides the backend of every later command of the project: Apple exactly for the
  names of the Apple runtime, unless \<open>DIP_RUNTIME\<close> is set for the process. The choice
  \<open>auto\<close> leaves the decision to the project's environment and the global file.
\<close>

theorem runtime_choice_persists:
  assumes "set_runtime_file (Some name) old = Inr file"
  shows "if normalize_runtime True name = Inr ''auto'' then read_runtime_file file = Inr None
    else detect_for_project True None file project_var global_file
      = (if wants_apple_runtime (trim name) then Apple else Docker)"
proof -
  from assms obtain n where n: "normalize_runtime True name = Inr n" "file = Some (n @ [nl])"
    by (auto simp: set_runtime_file_def split: sum.splits)
  then consider (apple) "n = ''apple''" "wants_apple_runtime (trim name)"
    | (docker) "n = ''docker''" "\<not> wants_apple_runtime (trim name)" | (auto) "n = ''auto''"
    by (auto simp: normalize_runtime_def wants_apple_runtime_def Let_def split: if_splits)
  then show ?thesis
  proof cases
    case apple
    have "read_runtime_file (Some (''apple'' @ [nl])) = Inr (Some ''apple'')" by code_simp
    moreover have "wants_apple_runtime ''apple''" by code_simp
    ultimately show ?thesis
      using apple n by (simp add: detect_for_project_def not_blank_def ok_flatten_def backend_for_def)
  next
    case docker
    have "read_runtime_file (Some (''docker'' @ [nl])) = Inr (Some ''docker'')" by code_simp
    moreover have "\<not> wants_apple_runtime ''docker''" by code_simp
    ultimately show ?thesis
      using docker n by (simp add: detect_for_project_def not_blank_def ok_flatten_def backend_for_def)
  next
    case auto
    have "read_runtime_file (Some (''auto'' @ [nl])) = Inr None" by code_simp
    with auto n show ?thesis by simp
  qed
qed

theorem runtime_choice_persists_witness:
  "set_runtime_file (Some ''Apple-Container'') None = Inr (Some (''apple'' @ [nl]))
   \<and> detect_for_project True None (Some (''apple'' @ [nl])) (Some ''docker'') None = Apple"
proof -
  have s: "set_runtime_file (Some ''Apple-Container'') None = Inr (Some (''apple'' @ [nl]))" by code_simp
  have n: "normalize_runtime True ''Apple-Container'' \<noteq> Inr ''auto''" by code_simp
  have w: "wants_apple_runtime (trim ''Apple-Container'')" by code_simp
  show ?thesis using s runtime_choice_persists[OF s, of "Some ''docker''" None] n w by simp
qed

text \<open>
  A database service found in a container always has a name and a password, and its
  user is the one its image creates: \<open>root\<close> for MySQL, the configured one or \<open>postgres\<close>.
\<close>

theorem db_service_complete:
  assumes "db_service_from_parts sn i t env = Some d"
  shows "db_name d \<noteq> [] \<and> db_password d \<noteq> [] \<and> svc_name d = sn \<and> svc_container d = i
    \<and> (backend d = MySql \<and> t = ''mysql'' \<and> env ''MYSQL_DATABASE'' = Some (db_name d)
         \<and> env ''MYSQL_ROOT_PASSWORD'' = Some (db_password d) \<and> db_user d = ''root''
       \<or> backend d = Postgres \<and> t = ''postgres''
         \<and> db_user d = value_or ''postgres'' (or_key env ''POSTGRES_USER'' ''PGUSER''))"
proof -
  have v: "value_or [] x = v \<Longrightarrow> v \<noteq> [] \<Longrightarrow> x = Some v" for x v
    by (auto simp: value_or_def split: option.splits)
  show ?thesis
    using assms by (auto simp: db_service_from_parts_def Let_def split: if_splits intro!: v)
qed

theorem db_service_complete_witness:
  "\<exists>d. db_service_from_parts ''db'' ''c0ffee'' ''mysql'' [''MYSQL_DATABASE'' \<mapsto> ''app'', ''MYSQL_ROOT_PASSWORD'' \<mapsto> ''s3''] = Some d
     \<and> db_password d \<noteq> []"
proof -
  obtain d where d: "db_service_from_parts ''db'' ''c0ffee'' ''mysql'' [''MYSQL_DATABASE'' \<mapsto> ''app'', ''MYSQL_ROOT_PASSWORD'' \<mapsto> ''s3''] = Some d"
    by (simp add: db_service_from_parts_def value_or_def)
  from db_service_complete[OF d] d show ?thesis by blast
qed

end
