(* ===== verification/Dip_Apple.thy ===== *)
theory Dip_Apple
  imports Dip_Docker Dip_Compose
begin

text \<open>
  The Apple Container backend of \<open>runtime/apple.rs\<close>, which plays the compose commands on the
  \<open>container\<close> binary. \<open>cfg\<close> is the result of \<open>load_project_compose\<close> for the project.
\<close>

section \<open>Names\<close>

definition name_char :: "char \<Rightarrow> char" where
  "name_char c =
     (if is_alnum c \<or> c = CHR ''_'' \<or> c = CHR ''.'' \<or> c = CHR ''-'' then lower_char c else CHR ''-'')"

fun squash_dashes :: "bool \<Rightarrow> string \<Rightarrow> string" where
  "squash_dashes last_dash [] = []"
| "squash_dashes last_dash (c # cs) =
     (let next = name_char c in
      if next = CHR ''-'' then (if last_dash then squash_dashes True cs else next # squash_dashes True cs)
      else next # squash_dashes False cs)"

definition sanitize_name :: "string \<Rightarrow> string" where
  "sanitize_name value = trim_matches CHR ''-'' (squash_dashes False value)"

definition container_name :: "string \<Rightarrow> string \<Rightarrow> string" where
  "container_name project service = ''dip-'' @ sanitize_name project @ ''-'' @ sanitize_name service"

definition network_name :: "string \<Rightarrow> string" where
  "network_name project = ''dip-'' @ sanitize_name project"

definition image_name :: "string \<Rightarrow> string \<Rightarrow> service_config \<Rightarrow> string" where
  "image_name project name s =
     (case image s of Some i \<Rightarrow> i | None \<Rightarrow> container_name project name @ '':latest'')"

section \<open>Values of a service\<close>

definition value_to_string :: "json \<Rightarrow> string option" where
  "value_to_string v =
     (case v of
        JStr s \<Rightarrow> Some s
      | JNum n \<Rightarrow> Some (show_jnum n)
      | JBool b \<Rightarrow> Some (show_bool b)
      | _ \<Rightarrow> None)"

definition environment_entries :: "json \<Rightarrow> (string \<times> string) list" where
  "environment_entries v =
     (case as_object v of
        None \<Rightarrow> []
      | Some m \<Rightarrow> filter_map (\<lambda>(k, x). map_option (\<lambda>s. (k, s)) (value_to_string x)) m)"

definition string_list :: "json \<Rightarrow> string list" where
  "string_list v =
     (case v of
        JStr s \<Rightarrow> [s]
      | JArr items \<Rightarrow> filter_map value_to_string items
      | _ \<Rightarrow> [])"

definition command_args :: "json \<Rightarrow> string list" where
  "command_args v =
     (case v of
        JStr c \<Rightarrow> (if trim c \<noteq> [] then [''/bin/sh'', ''-lc'', c] else [])
      | JArr items \<Rightarrow> filter_map value_to_string items
      | _ \<Rightarrow> [])"

definition entrypoint_arg :: "json \<Rightarrow> string option" where
  "entrypoint_arg v =
     (case v of
        JStr s \<Rightarrow> (if trim s \<noteq> [] then Some s else None)
      | JArr items \<Rightarrow>
          (let parts = filter_map value_to_string items
           in if parts = [] then None else Some (join '' '' parts))
      | _ \<Rightarrow> None)"

definition volume_spec :: "volume_config \<Rightarrow> string option" where
  "volume_spec v =
     (case vtarget v of
        None \<Rightarrow> None
      | Some target \<Rightarrow>
          (case vsource v of
             Some source \<Rightarrow> Some (source @ '':'' @ target @ (if read_only v = Some True then '':ro'' else []))
           | None \<Rightarrow> Some target))"

definition healthcheck_command_args :: "service_config \<Rightarrow> string list option" where
  "healthcheck_command_args s =
     (case (case jget ''test'' (healthcheck s) of Some t \<Rightarrow> t | None \<Rightarrow> JNull) of
        JStr c \<Rightarrow> (if trim c \<noteq> [] then Some [''sh'', ''-c'', trim c] else None)
      | JArr items \<Rightarrow>
          (case filter_map value_to_string items of
             [] \<Rightarrow> None
           | first # parts \<Rightarrow>
               (if first = ''NONE'' then None
                else if first = ''CMD'' then Some parts
                else if first = ''CMD-SHELL'' then Some [''sh'', ''-c'', join '' '' parts]
                else Some (first # parts)))
      | _ \<Rightarrow> None)"

fun json_string_any :: "json \<Rightarrow> string list \<Rightarrow> string option" where
  "json_string_any v [] = None"
| "json_string_any v (k # ks) =
     (case Option.bind (jget k v) value_to_string of Some s \<Rightarrow> Some s | None \<Rightarrow> json_string_any v ks)"

definition apple_container_id :: "json \<Rightarrow> string option" where
  "apple_container_id v =
     (case json_string_any v [''ID'', ''Id'', ''id'', ''name'', ''Name''] of
        Some s \<Rightarrow> Some s
      | None \<Rightarrow> Option.bind (jpointer [''configuration'', ''id''] v) value_to_string)"

definition normalize_state :: "string \<Rightarrow> string" where
  "normalize_state raw =
     (let r = to_lower raw in
      if contains_sub ''running'' r then ''running''
      else if contains_sub ''stopped'' r \<or> contains_sub ''exited'' r then ''exited''
      else r)"

definition state_keys :: "string list" where
  "state_keys = [''STATE'', ''State'', ''state'', ''status'']"

definition is_running :: "json \<Rightarrow> bool" where
  "is_running c = (normalize_state (value_or [] (json_string_any c state_keys)) = ''running'')"

definition container_labels :: "json \<Rightarrow> json" where
  "container_labels c = (case jpointer [''configuration'', ''labels''] c of Some l \<Rightarrow> l | None \<Rightarrow> JNull)"

definition belongs_to_project :: "string \<Rightarrow> json \<Rightarrow> bool" where
  "belongs_to_project project c =
     (let l = container_labels c in
      Option.bind (case jget ''com.docker.compose.project'' l of Some x \<Rightarrow> Some x | None \<Rightarrow> jget ''com.dip.project'' l) as_str
        = Some project)"

section \<open>Selecting and ordering services\<close>

definition service_not_found :: "string \<Rightarrow> string" where
  "service_not_found s = ''Service '' @ [squote] @ s @ [squote] @ '' not found''"

definition selected_services :: "compose_config \<Rightarrow> string option \<Rightarrow> string + string list" where
  "selected_services cfg service =
     (case service of
        Some s \<Rightarrow> (if map_of cfg s = None then Inl (service_not_found s) else Inr [s])
      | None \<Rightarrow> Inr (map fst cfg))"

text \<open>\<open>visit_service\<close> with the set of visited services and the order so far; \<open>None\<close> is out of fuel.\<close>

type_synonym visit_state = "string list \<times> string list"

function visit_service :: "nat \<Rightarrow> compose_config \<Rightarrow> string \<Rightarrow> visit_state \<Rightarrow> (string + visit_state) option"
and visit_deps :: "nat \<Rightarrow> compose_config \<Rightarrow> string list \<Rightarrow> visit_state \<Rightarrow> (string + visit_state) option" where
  "visit_service 0 cfg s st = None"
| "visit_service (Suc n) cfg s st =
     (if s \<in> set (fst st) then Some (Inr st)
      else case map_of cfg s of
        None \<Rightarrow> Some (Inl (service_not_found s))
      | Some svc \<Rightarrow>
          (case visit_deps n cfg (depends_on svc) (s # fst st, snd st) of
             Some (Inr st') \<Rightarrow> Some (Inr (fst st', snd st' @ [s]))
           | r \<Rightarrow> r))"
| "visit_deps n cfg [] st = Some (Inr st)"
| "visit_deps n cfg (d # ds) st =
     (if map_of cfg d = None then visit_deps n cfg ds st
      else case visit_service n cfg d st of
             Some (Inr st') \<Rightarrow> visit_deps n cfg ds st'
           | r \<Rightarrow> r)"
  by pat_completeness auto
termination
  by (relation "measures [\<lambda>x. case x of Inl (n, _) \<Rightarrow> n | Inr (n, _) \<Rightarrow> n,
        \<lambda>x. case x of Inl _ \<Rightarrow> 0 | Inr (_, _, ds, _) \<Rightarrow> Suc (length ds)]") auto

fun visit_roots :: "nat \<Rightarrow> compose_config \<Rightarrow> string list \<Rightarrow> visit_state \<Rightarrow> (string + visit_state) option" where
  "visit_roots n cfg [] st = Some (Inr st)"
| "visit_roots n cfg (r # rs) st =
     (case visit_service n cfg r st of
        Some (Inr st') \<Rightarrow> visit_roots n cfg rs st'
      | x \<Rightarrow> x)"

definition start_order :: "compose_config \<Rightarrow> string option \<Rightarrow> (string + string list) option" where
  "start_order cfg service =
     (case selected_services cfg service of
        Inl e \<Rightarrow> Some (Inl e)
      | Inr roots \<Rightarrow>
          (case visit_roots (Suc (length cfg)) cfg roots ([], []) of
             None \<Rightarrow> None
           | Some (Inl e) \<Rightarrow> Some (Inl e)
           | Some (Inr st) \<Rightarrow> Some (Inr (snd st))))"

section \<open>Parsing arguments\<close>

definition exec_option_name :: "string \<Rightarrow> string" where
  "exec_option_name a =
     (if a = ''-e'' then ''--env''
      else if a = ''-u'' then ''--user''
      else if a = ''-w'' \<or> a = ''--cwd'' then ''--workdir''
      else a)"

definition value_options :: "string list" where
  "value_options = [''-e'', ''--env'', ''--env-file'', ''-u'', ''--user'', ''--uid'', ''--gid'', ''--ulimit'',
     ''-w'', ''--workdir'', ''--cwd'']"

text \<open>The arguments after \<open>exec\<close>: the service, the translated options and the command.\<close>

fun parse_exec_args :: "string list \<Rightarrow> string list \<Rightarrow> (string \<times> string list \<times> string list) option" where
  "parse_exec_args opts [] = None"
| "parse_exec_args opts (a # rest) =
     (if a = ''-i'' \<or> a = ''--interactive'' then parse_exec_args (opts @ [''--interactive'']) rest
      else if a = ''-t'' \<or> a = ''--tty'' then parse_exec_args (opts @ [''--tty'']) rest
      else if a = ''-it'' \<or> a = ''-ti'' then parse_exec_args (opts @ [''--interactive'', ''--tty'']) rest
      else if a \<in> set value_options then
        (case rest of
           [] \<Rightarrow> None
         | v # rest' \<Rightarrow> parse_exec_args (opts @ [exec_option_name a, v]) rest')
      else if starts_with ''--env='' a then
        parse_exec_args (opts @ [''--env'', trim_start_text ''--env='' a]) rest
      else if starts_with ''--env-file='' a then
        parse_exec_args (opts @ [''--env-file'', trim_start_text ''--env-file='' a]) rest
      else if starts_with ''--workdir='' a \<or> starts_with ''--cwd='' a then
        (case split_once CHR ''='' a of
           None \<Rightarrow> None
         | Some (_, v) \<Rightarrow> parse_exec_args (opts @ [''--workdir'', v]) rest)
      else if starts_with ''-'' a then parse_exec_args opts rest
      else Some (a, opts, rest))"

definition parse_exec_service :: "string list \<Rightarrow> (string \<times> string list \<times> string list) option" where
  "parse_exec_service args = parse_exec_args [] (drop 1 args)"

definition service_arg_after_rm :: "string list \<Rightarrow> string option" where
  "service_arg_after_rm args = find (\<lambda>a. \<not> starts_with ''-'' a) (rev (drop 1 args))"

definition log_service :: "compose_config \<Rightarrow> string list \<Rightarrow> string option" where
  "log_service cfg args =
     find (\<lambda>a. \<not> starts_with ''-'' a \<and> a \<noteq> ''logs'' \<and> map_of cfg a \<noteq> None) (rev args)"

definition log_targets :: "compose_config \<Rightarrow> string list \<Rightarrow> string + string list" where
  "log_targets cfg args = selected_services cfg (log_service cfg args)"

definition parse_docker_project_filter :: "string list \<Rightarrow> string option" where
  "parse_docker_project_filter args =
     (case args of
        [a, b, c, d] \<Rightarrow>
          (if a = ''ps'' \<and> b = ''-q'' \<and> c = ''--filter''
           then strip_prefix ''label=com.docker.compose.project='' d else None)
      | _ \<Rightarrow> None)"

fun replace_run_network :: "string list \<Rightarrow> string \<Rightarrow> string list" where
  "replace_run_network [] network = []"
| "replace_run_network (a # as) network =
     (if a = ''--network'' then
        (case as of [] \<Rightarrow> [a] | _ # as' \<Rightarrow> a # network # as')
      else a # replace_run_network as network)"

section \<open>Running the \<open>container\<close> binary\<close>

definition container_argv :: "string list \<Rightarrow> string list" where
  "container_argv args = ''container'' # args"

text \<open>A failed exit: a killed process counts as code 0 here, and 130 as an interrupt.\<close>

definition bad_exit :: "int option \<Rightarrow> bool" where
  "bad_exit c \<longleftrightarrow> c \<noteq> Some 0 \<and> (case c of Some x \<Rightarrow> x | None \<Rightarrow> 0) \<noteq> 130"

definition run_container_status :: "cli \<Rightarrow> string list \<Rightarrow> unit io" where
  "run_container_status cli args =
     io_bind (call cli (container_argv args)) (\<lambda>out.
       (case out of
          Spawn_error e \<Rightarrow> bail e
        | Exited c s so se \<Rightarrow> (if bad_exit c then bail ''container command failed'' else ret ())))"

definition run_container_capture :: "cli \<Rightarrow> string list \<Rightarrow> unit io" where
  "run_container_capture cli args =
     io_bind (call cli (container_argv args)) (\<lambda>out.
       (case out of
          Spawn_error e \<Rightarrow> bail e
        | Exited c s so se \<Rightarrow>
            (if c = Some 0 then ret () else bail (command_output_message so se ''container command failed''))))"

definition json_output_has_entries :: "(string \<Rightarrow> json option) \<Rightarrow> string \<Rightarrow> bool" where
  "json_output_has_entries decode out =
     (case decode out of
        Some (JArr items) \<Rightarrow> items \<noteq> []
      | Some (JObj m) \<Rightarrow> m \<noteq> []
      | _ \<Rightarrow> False)"

definition inspect_ok :: "(string \<Rightarrow> json option) \<Rightarrow> cli_out \<Rightarrow> bool" where
  "inspect_ok decode out =
     (case out of Spawn_error _ \<Rightarrow> False | Exited c s so se \<Rightarrow> c = Some 0 \<and> json_output_has_entries decode so)"

definition container_exists :: "cli \<Rightarrow> (string \<Rightarrow> json option) \<Rightarrow> string \<Rightarrow> bool io" where
  "container_exists cli decode name =
     io_bind (call cli (container_argv [''inspect'', name])) (\<lambda>out. ret (inspect_ok decode out))"

definition image_exists :: "cli \<Rightarrow> (string \<Rightarrow> json option) \<Rightarrow> string \<Rightarrow> bool io" where
  "image_exists cli decode name =
     io_bind (call cli (container_argv [''image'', ''inspect'', name])) (\<lambda>out. ret (inspect_ok decode out))"

text \<open>The first column of a network listing, below its heading.\<close>

definition listed_networks :: "string \<Rightarrow> string list" where
  "listed_networks out =
     filter_map (\<lambda>l. case split_ws l of w # _ \<Rightarrow> Some w | [] \<Rightarrow> None) (drop 1 (str_lines out))"

definition network_ready :: "cli \<Rightarrow> (string \<Rightarrow> json option) \<Rightarrow> string \<Rightarrow> bool io" where
  "network_ready cli decode name =
     io_bind (call cli (container_argv [''network'', ''inspect'', name])) (\<lambda>out.
       if inspect_ok decode out then ret True
       else io_bind (call cli (container_argv [''network'', ''list''])) (\<lambda>out2.
         ret (case out2 of
                Spawn_error _ \<Rightarrow> False
              | Exited c s so se \<Rightarrow> c = Some 0 \<and> name \<in> set (listed_networks so))))"

fun await_network :: "nat \<Rightarrow> cli \<Rightarrow> (string \<Rightarrow> json option) \<Rightarrow> string \<Rightarrow> bool io" where
  "await_network 0 cli decode name = ret False"
| "await_network (Suc n) cli decode name =
     io_bind (network_ready cli decode name) (\<lambda>ok. if ok then ret True else await_network n cli decode name)"

definition ensure_network :: "cli \<Rightarrow> (string \<Rightarrow> json option) \<Rightarrow> project_config \<Rightarrow> string io" where
  "ensure_network cli decode p =
     (let network = network_name (project_name p) in
      io_bind (network_ready cli decode network) (\<lambda>ok.
        if ok then ret network
        else io_bind (call cli (container_argv [''network'', ''create'', network])) (\<lambda>out.
          if succeeded out
          then io_bind (await_network 30 cli decode network) (\<lambda>ready. ret (if ready then network else ''default''))
          else ret ''default'')))"

definition delete_container_if_exists :: "cli \<Rightarrow> (string \<Rightarrow> json option) \<Rightarrow> string \<Rightarrow> unit io" where
  "delete_container_if_exists cli decode name =
     io_bind (container_exists cli decode name) (\<lambda>ex.
       if \<not> ex then ret ()
       else io_bind (attempt (run_container_capture cli [''delete'', ''--force'', name])) (\<lambda>_. ret ()))"

definition is_network_not_found :: "string \<Rightarrow> bool" where
  "is_network_not_found m \<longleftrightarrow> contains_sub ''network'' m \<and> contains_sub ''not found'' m"

text \<open>\<open>is_container_not_found\<close> only decides which warning is logged.\<close>

definition is_container_not_found :: "string \<Rightarrow> bool" where
  "is_container_not_found m \<longleftrightarrow> contains_sub ''notFound'' m \<or> contains_sub ''not found'' m"

section \<open>Building and running a service\<close>

definition build_argv :: "string \<Rightarrow> string \<Rightarrow> service_config \<Rightarrow> build_config \<Rightarrow> string + string list" where
  "build_argv project name s b =
     (case context_dir b of
        None \<Rightarrow> Inl (name @ '': build context is missing'')
      | Some ctx \<Rightarrow>
          Inr ([''build'', ''-t'', image_name project name s]
            @ (case dockerfile_path b of Some f \<Rightarrow> [''-f'', f] | None \<Rightarrow> [])
            @ (case build_target b of Some t \<Rightarrow> [''--target'', t] | None \<Rightarrow> [])
            @ concat (filter_map (\<lambda>(k, v). map_option (\<lambda>x. [''--build-arg'', k @ ''='' @ x]) (value_to_string v)) (build_args b))
            @ [ctx]))"

definition build_service :: "cli \<Rightarrow> project_config \<Rightarrow> string \<Rightarrow> service_config \<Rightarrow> unit io" where
  "build_service cli p name s =
     (case build s of
        None \<Rightarrow> ret ()
      | Some b \<Rightarrow>
          io_bind (of_result (build_argv (project_name p) name s b)) (\<lambda>argv. run_container_status cli argv))"

definition flag_each :: "string \<Rightarrow> string list \<Rightarrow> string list" where
  "flag_each flag vs = concat (map (\<lambda>v. [flag, v]) vs)"

definition pair_text :: "string \<times> string \<Rightarrow> string" where
  "pair_text kv = fst kv @ ''='' @ snd kv"

definition run_head :: "string \<Rightarrow> string \<Rightarrow> string list" where
  "run_head project name = [''run'', ''--detach'', ''--name'', container_name project name]"

definition run_tail :: "string \<Rightarrow> string \<Rightarrow> service_config \<Rightarrow> string list" where
  "run_tail project name s =
     flag_each ''--label''
       [''com.docker.compose.project='' @ project, ''com.docker.compose.service='' @ name,
        ''com.dip.project='' @ project, ''com.dip.service='' @ name]
     @ flag_each ''--label'' (map pair_text (label_entries s))
     @ flag_each ''--env-file'' (string_list (env_file s))
     @ flag_each ''--env'' (map pair_text (environment_entries (environment s)))
     @ flag_each ''--volume'' (filter_map volume_spec (volumes s))
     @ flag_each ''--publish'' (string_list (ports s))
     @ (case working_dir s of Some w \<Rightarrow> [''--workdir'', w] | None \<Rightarrow> [])
     @ (case entrypoint_arg (entrypoint s) of Some e \<Rightarrow> [''--entrypoint'', e] | None \<Rightarrow> [])
     @ [image_name project name s]
     @ command_args (command s)"

definition run_argv :: "string \<Rightarrow> string \<Rightarrow> service_config \<Rightarrow> string \<Rightarrow> string list" where
  "run_argv project name s network = run_head project name @ [''--network'', network] @ run_tail project name s"

definition run_service :: "cli \<Rightarrow> (string \<Rightarrow> json option) \<Rightarrow> project_config \<Rightarrow> string \<Rightarrow> service_config \<Rightarrow> string \<Rightarrow> unit io" where
  "run_service cli decode p name s network =
     (let argv = run_argv (project_name p) name s network in
      io_seq (delete_container_if_exists cli decode (container_name (project_name p) name))
        (io_bind (attempt (run_container_capture cli argv)) (\<lambda>r.
          (case r of
             Inr _ \<Rightarrow> ret ()
           | Inl m \<Rightarrow>
               (if network \<noteq> ''default'' \<and> is_network_not_found m
                then run_container_capture cli (replace_run_network argv ''default'')
                else bail m)))))"

section \<open>Compose commands\<close>

definition for_services :: "compose_config \<Rightarrow> (string \<Rightarrow> service_config \<Rightarrow> unit io) \<Rightarrow> string list \<Rightarrow> unit io" where
  "for_services cfg f names = io_each (\<lambda>n. case map_of cfg n of None \<Rightarrow> ret () | Some s \<Rightarrow> f n s) names"

definition build_services :: "cli \<Rightarrow> project_config \<Rightarrow> string + compose_config \<Rightarrow> string option \<Rightarrow> unit io" where
  "build_services cli p loaded service =
     io_bind (of_result loaded) (\<lambda>cfg.
     io_bind (of_result (selected_services cfg service)) (\<lambda>names.
       for_services cfg (\<lambda>n s. if build s \<noteq> None then build_service cli p n s else ret ()) names))"

definition up_service :: "cli \<Rightarrow> (string \<Rightarrow> json option) \<Rightarrow> project_config \<Rightarrow> string \<Rightarrow> string \<Rightarrow> service_config \<Rightarrow> unit io" where
  "up_service cli decode p network n s =
     io_seq
       (if build s \<noteq> None
        then io_bind (image_exists cli decode (image_name (project_name p) n s)) (\<lambda>ex.
               if ex then ret () else build_service cli p n s)
        else ret ())
       (run_service cli decode p n s network)"

text \<open>\<open>start_order\<close> never runs out of fuel (\<open>start_order_total\<close> below), so its \<open>None\<close> is not reached.\<close>

definition up_services :: "cli \<Rightarrow> (string \<Rightarrow> json option) \<Rightarrow> project_config \<Rightarrow> string + compose_config \<Rightarrow> string option \<Rightarrow> unit io" where
  "up_services cli decode p loaded service =
     io_bind (of_result loaded) (\<lambda>cfg.
     io_bind (ensure_network cli decode p) (\<lambda>network.
       (case start_order cfg service of
          None \<Rightarrow> bail ''out of fuel''
        | Some (Inl e) \<Rightarrow> bail e
        | Some (Inr order) \<Rightarrow> for_services cfg (up_service cli decode p network) order)))"

definition stop_services :: "cli \<Rightarrow> (string \<Rightarrow> json option) \<Rightarrow> project_config \<Rightarrow> string + compose_config \<Rightarrow> string option \<Rightarrow> unit io" where
  "stop_services cli decode p loaded service =
     io_bind (of_result loaded) (\<lambda>cfg.
     io_bind (of_result (selected_services cfg service)) (\<lambda>names.
       io_each (\<lambda>n. io_bind (container_exists cli decode (container_name (project_name p) n)) (\<lambda>ex.
         if ex then io_bind (attempt (run_container_status cli [''stop'', container_name (project_name p) n])) (\<lambda>_. ret ())
         else ret ())) names))"

definition remove_services :: "cli \<Rightarrow> (string \<Rightarrow> json option) \<Rightarrow> project_config \<Rightarrow> string + compose_config \<Rightarrow> string option \<Rightarrow> unit io" where
  "remove_services cli decode p loaded service =
     io_bind (of_result loaded) (\<lambda>cfg.
     io_bind (of_result (selected_services cfg service)) (\<lambda>names.
       io_each (\<lambda>n. delete_container_if_exists cli decode (container_name (project_name p) n)) names))"

definition pull_services :: "cli \<Rightarrow> string + compose_config \<Rightarrow> unit io" where
  "pull_services cli loaded =
     io_bind (of_result loaded) (\<lambda>cfg.
       io_each (\<lambda>(_, s).
         (case (build s, image s) of
            (None, Some i) \<Rightarrow> run_container_status cli [''image'', ''pull'', i]
          | _ \<Rightarrow> ret ())) cfg)"

definition unsupported_compose :: "string list \<Rightarrow> 'a io" where
  "unsupported_compose args =
     bail (''Apple Container runtime does not support this compose operation yet: '' @ join '' '' args)"

definition apple_compose_run :: "cli \<Rightarrow> (string \<Rightarrow> json option) \<Rightarrow> project_config \<Rightarrow> string + compose_config \<Rightarrow> string list \<Rightarrow> unit io" where
  "apple_compose_run cli decode p loaded args =
     (if args = [''build''] then build_services cli p loaded None
      else if length args = 2 \<and> hd args = ''build'' then build_services cli p loaded (Some (args ! 1))
      else if args = [''up'', ''-d''] then up_services cli decode p loaded None
      else if length args = 3 \<and> take 2 args = [''up'', ''-d''] then up_services cli decode p loaded (Some (args ! 2))
      else if args = [''stop''] then stop_services cli decode p loaded None
      else if length args = 2 \<and> hd args = ''stop'' then stop_services cli decode p loaded (Some (args ! 1))
      else if args \<noteq> [] \<and> hd args = ''rm'' then remove_services cli decode p loaded (service_arg_after_rm args)
      else if args = [''pull''] then pull_services cli loaded
      else unsupported_compose args)"

definition exec_service :: "cli \<Rightarrow> project_config \<Rightarrow> string list \<Rightarrow> bool \<Rightarrow> int io" where
  "exec_service cli p args passthrough =
     (case parse_exec_service args of
        None \<Rightarrow> bail (''apple runtime: unsupported exec command: '' @ join '' '' args)
      | Some (service, opts, cmd) \<Rightarrow>
          io_bind (call cli (container_argv ([''exec''] @ opts @ [container_name (project_name p) service] @ cmd))) (\<lambda>out.
            (case out of
               Spawn_error e \<Rightarrow> bail ''failed to run container exec''
             | Exited c s so se \<Rightarrow>
                 (if c \<noteq> Some 0 \<and> exit_code c s \<noteq> 130 \<and> \<not> passthrough then bail ''container exec failed''
                  else ret (exit_code c s)))))"

definition tail_options :: "string list \<Rightarrow> string list" where
  "tail_options args =
     (case filter_map (strip_prefix ''--tail='') args of t # _ \<Rightarrow> [''-n'', t] | [] \<Rightarrow> [])"

definition logs_argv :: "string \<Rightarrow> bool \<Rightarrow> string list \<Rightarrow> string \<Rightarrow> string list" where
  "logs_argv project follow args target =
     [''logs''] @ (if follow then [''--follow''] else []) @ tail_options args @ [container_name project target]"

text \<open>The lines one stream of logs prints.\<close>

definition log_line_shown :: "string list \<Rightarrow> string \<Rightarrow> bool" where
  "log_line_shown keywords l \<longleftrightarrow> keywords = [] \<or> list_ex (\<lambda>kw. contains_sub (to_lower kw) (to_lower l)) keywords"

definition stream_container_output :: "cli \<Rightarrow> string list \<Rightarrow> string list \<Rightarrow> string list io" where
  "stream_container_output cli args keywords =
     io_bind (call cli (container_argv args)) (\<lambda>out.
       (case out of
          Spawn_error e \<Rightarrow> bail ''failed to stream container command''
        | Exited c s so se \<Rightarrow>
            (if bad_exit c then bail ''container command failed''
             else ret (filter (log_line_shown keywords) (str_lines so)))))"

text \<open>
  Following several containers: all are started, then waited for; the result is an error
  when one of them failed. The interleaving of their lines is that of \<open>Dip_Logs\<close>.
\<close>

definition stream_multi_logs :: "cli \<Rightarrow> project_config \<Rightarrow> string list \<Rightarrow> string list \<Rightarrow> string list \<Rightarrow> string list io" where
  "stream_multi_logs cli p targets args keywords =
     io_bind (io_map (\<lambda>t. io_bind (call cli (container_argv (logs_argv (project_name p) True args t))) (\<lambda>out.
        (case out of Spawn_error e \<Rightarrow> bail ''failed to stream container logs'' | _ \<Rightarrow> ret out))) targets) (\<lambda>outs.
       if list_ex (\<lambda>out. \<not> succeeded out \<and> exit_of out \<noteq> 130) outs then bail ''container logs failed''
       else ret (concat (map (\<lambda>out. filter (log_line_shown keywords) (str_lines (stdout out) @ str_lines (stderr out))) outs)))"

definition stream_logs :: "cli \<Rightarrow> project_config \<Rightarrow> string + compose_config \<Rightarrow> string list \<Rightarrow> string list \<Rightarrow> string list io" where
  "stream_logs cli p loaded args keywords =
     io_bind (of_result loaded) (\<lambda>cfg.
     io_bind (of_result (log_targets cfg args)) (\<lambda>targets.
       let follow = ''-f'' \<in> set args \<or> ''--follow'' \<in> set args in
       if follow \<and> 1 < length targets then stream_multi_logs cli p targets args keywords
       else io_bind (io_map (\<lambda>t. stream_container_output cli (logs_argv (project_name p) follow args t) keywords) targets)
              (\<lambda>ls. ret (concat ls))))"

definition top_services :: "cli \<Rightarrow> project_config \<Rightarrow> string + compose_config \<Rightarrow> string list \<Rightarrow> unit io" where
  "top_services cli p loaded args =
     io_bind (of_result loaded) (\<lambda>cfg.
       io_each (\<lambda>t. run_container_status cli [''exec'', container_name (project_name p) t, ''ps'', ''aux''])
         (if 1 < length args then [args ! 1] else map fst cfg))"

definition apple_compose_stream :: "cli \<Rightarrow> project_config \<Rightarrow> string + compose_config \<Rightarrow> string list \<Rightarrow> bool \<Rightarrow> int io" where
  "apple_compose_stream cli p loaded args passthrough =
     (case args of
        a # _ \<Rightarrow>
          (if a = ''logs'' then io_bind (stream_logs cli p loaded args []) (\<lambda>_. ret 0)
           else if a = ''exec'' then exec_service cli p args passthrough
           else if a = ''top'' then io_bind (top_services cli p loaded args) (\<lambda>_. ret 0)
           else unsupported_compose args)
      | [] \<Rightarrow> unsupported_compose args)"

definition apple_compose_stream_grep :: "cli \<Rightarrow> project_config \<Rightarrow> string + compose_config \<Rightarrow> string list \<Rightarrow> string list \<Rightarrow> string list io" where
  "apple_compose_stream_grep cli p loaded args keywords =
     (if args \<noteq> [] \<and> hd args = ''logs'' then stream_logs cli p loaded args keywords else unsupported_compose args)"

section \<open>Queries\<close>

definition list_containers_json :: "cli \<Rightarrow> (string \<Rightarrow> json option) \<Rightarrow> json list io" where
  "list_containers_json cli decode =
     io_bind (call cli (container_argv [''list'', ''--all'', ''--format'', ''json''])) (\<lambda>out.
       (case out of
          Spawn_error e \<Rightarrow> bail ''failed to list Apple containers''
        | Exited c s so se \<Rightarrow>
            (if c \<noteq> Some 0 then ret []
             else (case decode so of
                     None \<Rightarrow> bail ''invalid JSON''
                   | Some (JArr items) \<Rightarrow> ret items
                   | Some (JObj m) \<Rightarrow> ret (case map_of m ''containers'' of Some (JArr items) \<Rightarrow> items | _ \<Rightarrow> [])
                   | Some _ \<Rightarrow> ret []))))"

definition container_running :: "cli \<Rightarrow> (string \<Rightarrow> json option) \<Rightarrow> string \<Rightarrow> bool io" where
  "container_running cli decode name =
     io_bind (attempt (list_containers_json cli decode)) (\<lambda>r.
       ret (case r of
              Inl _ \<Rightarrow> False
            | Inr cs \<Rightarrow> list_ex (\<lambda>c. apple_container_id c = Some name \<and> is_running c) cs))"

definition ps_quiet :: "cli \<Rightarrow> (string \<Rightarrow> json option) \<Rightarrow> project_config \<Rightarrow> string + compose_config \<Rightarrow> string option \<Rightarrow> bool \<Rightarrow> string io" where
  "ps_quiet cli decode p loaded service everything =
     io_bind (of_result loaded) (\<lambda>cfg.
     io_bind (of_result (selected_services cfg service)) (\<lambda>names.
     io_bind (io_map (\<lambda>n.
        (let c = container_name (project_name p) n in
         if everything then ret (c @ [nl])
         else io_bind (container_running cli decode c) (\<lambda>r. ret (if r then c @ [nl] else [])))) names) (\<lambda>ls.
       ret (concat ls))))"

definition run_healthcheck :: "cli \<Rightarrow> string \<Rightarrow> service_config \<Rightarrow> string io" where
  "run_healthcheck cli container s =
     (case healthcheck_command_args s of
        None \<Rightarrow> ret []
      | Some args \<Rightarrow>
          io_bind (call cli (container_argv ([''exec'', container] @ args))) (\<lambda>out.
            ret (if succeeded out then ''healthy'' else ''unhealthy'')))"

record ps_row =
  row_service :: string
  row_state :: string
  row_status :: string
  row_health :: string
  row_ports :: string

text \<open>\<open>by_id\<close> of \<open>ps_json\<close>: the containers with an id, the last one of an id wins.\<close>

definition containers_by_id :: "json list \<Rightarrow> (string \<times> json) list" where
  "containers_by_id cs = kextend [] (filter_map (\<lambda>c. map_option (\<lambda>i. (i, c)) (apple_container_id c)) cs)"

definition ps_row_of :: "cli \<Rightarrow> project_config \<Rightarrow> (string \<times> json) list \<Rightarrow> string \<times> service_config \<Rightarrow> ps_row io" where
  "ps_row_of cli p by_id ns =
     (case ns of (n, s) \<Rightarrow>
        (let i = container_name (project_name p) n;
             state = normalize_state (value_or ''exited'' (Option.bind (map_of by_id i) (\<lambda>v. json_string_any v state_keys)));
             status = value_or [] (Option.bind (map_of by_id i) (\<lambda>v. json_string_any v [''STATUS'', ''Status'', ''status'']))
         in io_bind (if state = ''running'' then run_healthcheck cli i s else ret []) (\<lambda>health.
              ret \<lparr>row_service = n, row_state = state, row_status = status, row_health = health,
                   row_ports = join '', '' (string_list (ports s))\<rparr>)))"

definition ps_json :: "cli \<Rightarrow> (string \<Rightarrow> json option) \<Rightarrow> project_config \<Rightarrow> string + compose_config \<Rightarrow> ps_row list io" where
  "ps_json cli decode p loaded =
     io_bind (of_result loaded) (\<lambda>cfg.
     io_bind (attempt (list_containers_json cli decode)) (\<lambda>r.
       io_map (ps_row_of cli p (containers_by_id (case r of Inr cs \<Rightarrow> cs | Inl _ \<Rightarrow> []))) cfg))"

definition apple_ps_quiet_by_project :: "cli \<Rightarrow> (string \<Rightarrow> json option) \<Rightarrow> string \<Rightarrow> string io" where
  "apple_ps_quiet_by_project cli decode project =
     io_bind (list_containers_json cli decode) (\<lambda>cs.
       ret (concat (map (\<lambda>i. i @ [nl])
         (filter_map apple_container_id (filter (\<lambda>c. is_running c \<and> belongs_to_project project c) cs)))))"

definition first_ipv4 :: "json \<Rightarrow> string option" where
  "first_ipv4 c =
     (case Option.bind (jget ''networks'' c) as_array of
        Some (net # _) \<Rightarrow>
          not_blank (map_option (\<lambda>ip. hd (split_on CHR ''/'' ip)) (Option.bind (jget ''ipv4Address'' net) as_str))
      | _ \<Rightarrow> None)"

definition apple_container_ip :: "cli \<Rightarrow> (string \<Rightarrow> json option) \<Rightarrow> string \<Rightarrow> string io" where
  "apple_container_ip cli decode i =
     io_bind (call cli (container_argv [''inspect'', i])) (\<lambda>out.
       (case out of
          Spawn_error e \<Rightarrow> bail e
        | Exited c s so se \<Rightarrow>
            (if c \<noteq> Some 0 then bail (''container inspect failed for container '' @ i)
             else (case decode so of
                     None \<Rightarrow> bail ''invalid JSON''
                   | Some v \<Rightarrow>
                       (case (case as_array v of Some (x # _) \<Rightarrow> first_ipv4 x | _ \<Rightarrow> None) of
                          Some ip \<Rightarrow> ret ip
                        | None \<Rightarrow> bail (''Could not find IP for container '' @ i))))))"

definition apple_project_containers :: "cli \<Rightarrow> (string \<Rightarrow> json option) \<Rightarrow> project_config \<Rightarrow> bool \<Rightarrow> project_container list io" where
  "apple_project_containers cli decode p include_stopped =
     io_bind (list_containers_json cli decode) (\<lambda>cs.
       ret (map (\<lambda>c. \<lparr>clabels = container_labels c, cip = first_ipv4 c\<rparr>)
         (filter (\<lambda>c. (include_stopped \<or> is_running c) \<and> belongs_to_project (project_name p) c) cs)))"

definition apple_running_count_by_project :: "cli \<Rightarrow> (string \<Rightarrow> json option) \<Rightarrow> string \<Rightarrow> nat io" where
  "apple_running_count_by_project cli decode project =
     io_bind (attempt (list_containers_json cli decode)) (\<lambda>r.
       ret (case r of
              Inl _ \<Rightarrow> 0
            | Inr cs \<Rightarrow> length (filter (\<lambda>c. is_running c \<and> belongs_to_project project c) cs)))"

definition apple_db_service_of :: "string \<Rightarrow> json \<Rightarrow> db_service option" where
  "apple_db_service_of project c =
     (if \<not> is_running c \<or> \<not> belongs_to_project project c then None
      else (case as_str (jindex (container_labels c) ''dip.db'') of
              None \<Rightarrow> None
            | Some t \<Rightarrow>
                (case Option.bind (jpointer [''configuration'', ''id''] c) as_str of
                   None \<Rightarrow> None
                 | Some i \<Rightarrow>
                     (let name = (case as_str (jindex (container_labels c) ''com.docker.compose.service'') of
                                    Some n \<Rightarrow> n
                                  | None \<Rightarrow> value_or ''db'' (as_str (jindex (container_labels c) ''com.dip.service'')))
                      in db_service_from_parts name i t
                           (parse_env_json_array
                              (case jpointer [''configuration'', ''initProcess'', ''environment''] c of
                                 Some e \<Rightarrow> e | None \<Rightarrow> JNull))))))"

definition apple_db_services :: "cli \<Rightarrow> (string \<Rightarrow> json option) \<Rightarrow> project_config \<Rightarrow> db_service list io" where
  "apple_db_services cli decode p =
     io_bind (list_containers_json cli decode) (\<lambda>cs. ret (filter_map (apple_db_service_of (project_name p)) cs))"

definition apple_check_daemon :: "cli \<Rightarrow> unit io" where
  "apple_check_daemon cli =
     io_bind (call cli (container_argv [''system'', ''status''])) (\<lambda>out.
       if succeeded out then ret ()
       else bail ''Apple Container is not running. Install it and run `container system start`.'')"

definition apple_raw_capture :: "cli \<Rightarrow> (string \<Rightarrow> json option) \<Rightarrow> string list \<Rightarrow> string io" where
  "apple_raw_capture cli decode args =
     (case parse_docker_project_filter args of
        Some project \<Rightarrow> apple_ps_quiet_by_project cli decode project
      | None \<Rightarrow>
          io_bind (call cli (container_argv args)) (\<lambda>out.
            (case out of
               Spawn_error e \<Rightarrow> bail e
             | Exited c s so se \<Rightarrow> (if c = Some 0 then ret so else bail (''container command failed: '' @ trim se)))))"

definition translate_raw :: "string list \<Rightarrow> string list" where
  "translate_raw args =
     (if args \<noteq> [] \<and> hd args = ''stats'' then
        ''stats'' # filter (\<lambda>a. a \<noteq> ''--format'' \<and> \<not> starts_with ''table '' a) (drop 1 args)
      else if 2 \<le> length args \<and> hd args = ''image'' \<and> args ! 1 = ''prune'' then
        [''image'', ''prune''] @ map (\<lambda>a. if a = ''-a'' then ''--all'' else a)
          (filter (\<lambda>a. a \<noteq> ''-f'' \<and> a \<noteq> ''--force'') (drop 2 args))
      else args)"

definition apple_raw_stream :: "cli \<Rightarrow> string list \<Rightarrow> unit io" where
  "apple_raw_stream cli args = run_container_status cli (translate_raw args)"

definition apple_prune_system :: "cli \<Rightarrow> bool \<Rightarrow> bool \<Rightarrow> unit io" where
  "apple_prune_system cli vols everything =
     io_each (\<lambda>a. run_spinner_command cli (container_argv a))
       ([[''prune''], [''network'', ''prune''], [''image'', ''prune''] @ (if everything then [''--all''] else [])]
        @ (if vols then [[''volume'', ''prune'']] else []))"

text \<open>The benchmarks run as on Docker, with this binary and these commands.\<close>

definition apple_tool :: bench_tool where
  "apple_tool =
     \<lparr>binary = ''container'', pull_args = (\<lambda>i. [''image'', ''pull'', i]),
      remove_args = (\<lambda>n. [''delete'', ''--force'', n]), no_output = (\<lambda>_ _. ''container command failed'')\<rparr>"

definition apple_container_version :: "string \<Rightarrow> string" where
  "apple_container_version raw =
     (case filter_map (\<lambda>l. case split_ws l of
                a # v # _ \<Rightarrow> (if a = ''container'' then Some v else None) | _ \<Rightarrow> None) (str_lines raw) of
        v # _ \<Rightarrow> v
      | [] \<Rightarrow> (case str_lines raw of l # _ \<Rightarrow> trim l | [] \<Rightarrow> []))"

section \<open>Start order\<close>

definition dep_edges :: "compose_config \<Rightarrow> (string \<times> string) set" where
  "dep_edges cfg = {(x, d). \<exists>svc. map_of cfg x = Some svc \<and> d \<in> set (depends_on svc) \<and> map_of cfg d \<noteq> None}"

text \<open>Each service comes after its dependencies, up to those it shares a cycle with.\<close>

definition deps_first :: "compose_config \<Rightarrow> string list \<Rightarrow> bool" where
  "deps_first cfg ord \<longleftrightarrow>
     (\<forall>xs x ys d. ord = xs @ x # ys \<longrightarrow> (x, d) \<in> dep_edges cfg \<longrightarrow>
        d \<in> set xs \<or> (d, x) \<in> (dep_edges cfg)\<^sup>*)"

definition open_nodes :: "visit_state \<Rightarrow> string set" where
  "open_nodes st = set (fst st) - set (snd st)"

definition wf_visit :: "compose_config \<Rightarrow> visit_state \<Rightarrow> bool" where
  "wf_visit cfg st \<longleftrightarrow>
     distinct (snd st) \<and> set (snd st) \<subseteq> set (fst st) \<and> set (fst st) \<subseteq> dom (map_of cfg) \<and>
     dep_edges cfg `` set (snd st) \<subseteq> set (fst st) \<and> deps_first cfg (snd st)"

definition known_deps :: "compose_config \<Rightarrow> string list \<Rightarrow> string set" where
  "known_deps cfg ds = {d \<in> set ds. map_of cfg d \<noteq> None}"

text \<open>What a visit of the nodes \<open>R\<close> turns \<open>st\<close> into.\<close>

definition visited :: "compose_config \<Rightarrow> string set \<Rightarrow> visit_state \<Rightarrow> visit_state \<Rightarrow> bool" where
  "visited cfg R st st' \<longleftrightarrow>
     wf_visit cfg st' \<and> open_nodes st' = open_nodes st \<and> set (fst st) \<subseteq> set (fst st') \<and> R \<subseteq> set (fst st') \<and>
     set (fst st') \<subseteq> set (fst st) \<union> (dep_edges cfg)\<^sup>* `` R"

definition unseen :: "compose_config \<Rightarrow> visit_state \<Rightarrow> nat" where
  "unseen cfg st = card (dom (map_of cfg) - set (fst st))"

lemma deps_first_snoc:
  assumes "deps_first cfg ord" "\<And>d. (s, d) \<in> dep_edges cfg \<Longrightarrow> d \<in> set ord \<or> (d, s) \<in> (dep_edges cfg)\<^sup>*"
  shows "deps_first cfg (ord @ [s])"
  unfolding deps_first_def
proof (intro allI impI)
  fix xs x ys d
  assume eq: "ord @ [s] = xs @ x # ys" and e: "(x, d) \<in> dep_edges cfg"
  show "d \<in> set xs \<or> (d, x) \<in> (dep_edges cfg)\<^sup>*"
  proof (cases ys rule: rev_cases)
    case Nil
    then show ?thesis using eq e assms(2) by auto
  next
    case (snoc zs z)
    then have "ord = xs @ x # zs" using eq by simp
    then show ?thesis using assms(1) e unfolding deps_first_def by blast
  qed
qed

lemma unseen_mono: "set (fst st) \<subseteq> set (fst st') \<Longrightarrow> unseen cfg st' \<le> unseen cfg st"
  unfolding unseen_def by (rule card_mono) (auto simp: finite_dom_map_of)

lemma unseen_enter:
  assumes "s \<notin> set (fst st)" "map_of cfg s \<noteq> None"
  shows "Suc (unseen cfg (s # fst st, snd st)) = unseen cfg st"
proof -
  let ?D = "dom (map_of cfg) - set (fst st)"
  have s: "s \<in> ?D" using assms by auto
  have "Suc (card (?D - {s})) = card ?D" by (rule card_Suc_Diff1[OF _ s]) (simp add: finite_dom_map_of)
  moreover have "dom (map_of cfg) - set (s # fst st) = ?D - {s}" by auto
  ultimately show ?thesis unfolding unseen_def by (simp only: fst_conv)
qed

lemma visited_refl: "wf_visit cfg st \<Longrightarrow> R \<subseteq> set (fst st) \<Longrightarrow> visited cfg R st st"
  by (auto simp: visited_def)

lemma visited_trans:
  assumes v: "visited cfg R st st'" and w: "visited cfg S st' st''"
  shows "visited cfg (R \<union> S) st st''"
proof -
  have "set (fst st'') \<subseteq> set (fst st') \<union> (dep_edges cfg)\<^sup>* `` S" using w by (simp only: visited_def)
  moreover have "set (fst st') \<subseteq> set (fst st) \<union> (dep_edges cfg)\<^sup>* `` R" using v by (simp only: visited_def)
  ultimately have union: "set (fst st'') \<subseteq> set (fst st) \<union> (dep_edges cfg)\<^sup>* `` (R \<union> S)"
    unfolding Image_Un by fast
  have sub: "set (fst st) \<subseteq> set (fst st')" "set (fst st') \<subseteq> set (fst st'')" "R \<subseteq> set (fst st')"
    "S \<subseteq> set (fst st'')" using v w by (simp_all only: visited_def)
  from sub have "set (fst st) \<subseteq> set (fst st'')" "R \<union> S \<subseteq> set (fst st'')"
    by (fast, fast)
  then show ?thesis using v w union by (simp add: visited_def)
qed

lemma wf_enter:
  assumes "wf_visit cfg st" "s \<notin> set (fst st)" "map_of cfg s \<noteq> None"
  shows "wf_visit cfg (s # fst st, snd st)" "open_nodes (s # fst st, snd st) = insert s (open_nodes st)"
  using assms by (auto simp: wf_visit_def open_nodes_def)

lemma visited_leave:
  assumes wf: "wf_visit cfg st" and s: "s \<notin> set (fst st)" "map_of cfg s = Some svc"
    and reach: "\<And>g. g \<in> open_nodes st \<Longrightarrow> (g, s) \<in> (dep_edges cfg)\<^sup>*"
    and v: "visited cfg (known_deps cfg (depends_on svc)) (s # fst st, snd st) st'"
  shows "visited cfg {s} st (fst st', snd st' @ [s])"
proof -
  have succ: "(s, d) \<in> dep_edges cfg \<longleftrightarrow> d \<in> known_deps cfg (depends_on svc)" for d
    using s by (auto simp: dep_edges_def known_deps_def)
  have ns: "s \<notin> set (snd st')" and pend: "open_nodes st' = insert s (open_nodes st)"
    using v wf_enter(2)[OF wf s(1)] s(2) by (auto simp: visited_def open_nodes_def)
  have d_first: "deps_first cfg (snd st' @ [s])"
  proof (rule deps_first_snoc)
    show "deps_first cfg (snd st')" using v by (simp add: visited_def wf_visit_def)
    fix d assume "(s, d) \<in> dep_edges cfg"
    then have "d \<in> set (fst st')" using v succ by (auto simp: visited_def)
    then have "d \<in> set (snd st') \<or> d \<in> open_nodes st'" by (simp add: open_nodes_def)
    then show "d \<in> set (snd st') \<or> (d, s) \<in> (dep_edges cfg)\<^sup>*"
      using pend reach by auto
  qed
  have sub: "set (fst st') \<subseteq> set (fst st) \<union> (dep_edges cfg)\<^sup>* `` {s}"
  proof
    fix x assume "x \<in> set (fst st')"
    moreover have "set (fst st') \<subseteq> insert s (set (fst st)) \<union> (dep_edges cfg)\<^sup>* `` known_deps cfg (depends_on svc)"
      using v by (simp add: visited_def)
    ultimately have "x \<in> insert s (set (fst st)) \<or> (\<exists>d. (s, d) \<in> dep_edges cfg \<and> (d, x) \<in> (dep_edges cfg)\<^sup>*)"
      unfolding succ by blast
    then show "x \<in> set (fst st) \<union> (dep_edges cfg)\<^sup>* `` {s}"
      by (auto intro: converse_rtrancl_into_rtrancl)
  qed
  have st': "distinct (snd st')" "set (snd st') \<subseteq> set (fst st')" "set (fst st') \<subseteq> dom (map_of cfg)"
    "dep_edges cfg `` set (snd st') \<subseteq> set (fst st')" "s \<in> set (fst st')" "set (fst st) \<subseteq> set (fst st')"
    using v by (auto simp: visited_def wf_visit_def)
  have "dep_edges cfg `` {s} \<subseteq> set (fst st')" using v succ by (auto simp: visited_def)
  then have "wf_visit cfg (fst st', snd st' @ [s])"
    using st' ns d_first by (auto simp: wf_visit_def)
  moreover have "open_nodes (fst st', snd st' @ [s]) = open_nodes st"
    using pend s(1) by (auto simp: open_nodes_def)
  ultimately show ?thesis using st' sub by (simp add: visited_def)
qed

lemma visit_correct:
  shows "wf_visit cfg st \<Longrightarrow> map_of cfg s \<noteq> None \<Longrightarrow> unseen cfg st < n \<Longrightarrow>
    (\<And>g. g \<in> open_nodes st \<Longrightarrow> (g, s) \<in> (dep_edges cfg)\<^sup>*) \<Longrightarrow>
    \<exists>st'. visit_service n cfg s st = Some (Inr st') \<and> visited cfg {s} st st'"
  and "wf_visit cfg st \<Longrightarrow> unseen cfg st < n \<Longrightarrow>
    (\<And>g d. g \<in> open_nodes st \<Longrightarrow> d \<in> set ds \<Longrightarrow> map_of cfg d \<noteq> None \<Longrightarrow> (g, d) \<in> (dep_edges cfg)\<^sup>*) \<Longrightarrow>
    \<exists>st'. visit_deps n cfg ds st = Some (Inr st') \<and> visited cfg (known_deps cfg ds) st st'"
proof (induction n cfg s st and n cfg ds st rule: visit_service_visit_deps.induct)
  case (2 n cfg s st)
  show ?case
  proof (cases "s \<in> set (fst st)")
    case True
    then show ?thesis using 2(2) by (simp add: visited_refl)
  next
    case False
    obtain svc where svc: "map_of cfg s = Some svc" using 2(3) by blast
    have "\<exists>st'. visit_deps n cfg (depends_on svc) (s # fst st, snd st) = Some (Inr st') \<and>
        visited cfg (known_deps cfg (depends_on svc)) (s # fst st, snd st) st'"
    proof (rule 2(1)[OF False svc])
      show "wf_visit cfg (s # fst st, snd st)" by (rule wf_enter(1)[OF 2(2) False 2(3)])
      show "unseen cfg (s # fst st, snd st) < n" using unseen_enter[OF False 2(3)] 2(4) by simp
      fix g d
      assume g: "g \<in> open_nodes (s # fst st, snd st)" and d: "d \<in> set (depends_on svc)" "map_of cfg d \<noteq> None"
      have "(s, d) \<in> dep_edges cfg" using svc d by (auto simp: dep_edges_def)
      moreover have "(g, s) \<in> (dep_edges cfg)\<^sup>*"
        using g 2(5) wf_enter(2)[OF 2(2) False 2(3)] by auto
      ultimately show "(g, d) \<in> (dep_edges cfg)\<^sup>*" by simp
    qed
    then obtain st' where st': "visit_deps n cfg (depends_on svc) (s # fst st, snd st) = Some (Inr st')"
        "visited cfg (known_deps cfg (depends_on svc)) (s # fst st, snd st) st'" by blast
    then show ?thesis using visited_leave[OF 2(2) False svc 2(5) st'(2)] False svc by simp
  qed
next
  case (4 n cfg d ds st)
  show ?case
  proof (cases "map_of cfg d = None")
    case True
    then have "known_deps cfg (d # ds) = known_deps cfg ds" by (auto simp: known_deps_def)
    then show ?thesis using True 4(1)[OF True 4(4,5)] 4(6) by simp
  next
    case False
    obtain st1 where v1: "visit_service n cfg d st = Some (Inr st1)" "visited cfg {d} st st1"
      using 4(2)[OF False 4(4) False 4(5)] 4(6) False by auto
    have wf1: "wf_visit cfg st1" "open_nodes st1 = open_nodes st" using v1(2) by (auto simp: visited_def)
    have un: "unseen cfg st1 < n"
      using unseen_mono[of st st1 cfg] v1(2) 4(5) by (simp add: visited_def)
    obtain st2 where v2: "visit_deps n cfg ds st1 = Some (Inr st2)"
        "visited cfg (known_deps cfg ds) st1 st2"
      using 4(3)[OF False v1(1) _ wf1(1) un] 4(6) wf1(2) by auto
    have "known_deps cfg (d # ds) = {d} \<union> known_deps cfg ds"
      using False by (auto simp: known_deps_def)
    then have "visited cfg (known_deps cfg (d # ds)) st st2" using visited_trans[OF v1(2) v2(2)] by simp
    then show ?thesis using v1(1) v2(1) False by (intro exI[of _ st2]) (simp only: visit_deps.simps if_False option.case sum.case simp_thms)
  qed
qed (auto simp: visited_refl known_deps_def)

lemma visit_roots_correct:
  assumes "wf_visit cfg st" "open_nodes st = {}" "\<forall>r\<in>set rs. map_of cfg r \<noteq> None" "unseen cfg st < n"
  shows "\<exists>st'. visit_roots n cfg rs st = Some (Inr st') \<and> visited cfg (set rs) st st'"
  using assms
proof (induction rs arbitrary: st)
  case Nil
  then show ?case by (simp add: visited_refl)
next
  case (Cons r rs)
  obtain st1 where v1: "visit_service n cfg r st = Some (Inr st1)" "visited cfg {r} st st1"
    using visit_correct(1)[OF Cons.prems(1) _ Cons.prems(4), of r] Cons.prems(2,3) by auto
  have "unseen cfg st1 < n"
    using unseen_mono[of st st1 cfg] v1(2) Cons.prems(4) by (simp add: visited_def)
  then obtain st2 where v2: "visit_roots n cfg rs st1 = Some (Inr st2)" "visited cfg (set rs) st1 st2"
    using Cons.IH[of st1] v1(2) Cons.prems(2,3) by (auto simp: visited_def)
  have "visited cfg (set (r # rs)) st st2" using visited_trans[OF v1(2) v2(2)] by simp
  then show ?case using v1(1) v2(1) by (intro exI[of _ st2]) simp
qed

lemma dep_edges_known: "(x, d) \<in> (dep_edges cfg)\<^sup>* \<Longrightarrow> map_of cfg x \<noteq> None \<Longrightarrow> map_of cfg d \<noteq> None"
  by (induction rule: rtrancl_induct) (auto simp: dep_edges_def)

lemma selected_known:
  assumes "selected_services cfg service = Inr roots"
  shows "\<forall>r\<in>set roots. map_of cfg r \<noteq> None"
  using assms by (auto simp: selected_services_def map_of_eq_None_iff image_iff split: option.splits if_splits) force?

lemma closed_rtrancl: "R `` A \<subseteq> A \<Longrightarrow> R\<^sup>* `` A \<subseteq> A"
  by (rule Image_closed_trancl[THEN equalityD1])

lemma start_order_correct:
  assumes "selected_services cfg service = Inr roots"
  shows "\<exists>ord. start_order cfg service = Some (Inr ord) \<and> distinct ord \<and>
    set ord = (dep_edges cfg)\<^sup>* `` set roots \<and> deps_first cfg ord"
proof -
  have wf: "wf_visit cfg ([], [])" by (simp add: wf_visit_def deps_first_def)
  have "unseen cfg ([], []) < Suc (length cfg)"
    using card_length[of "map fst cfg"] by (simp add: unseen_def dom_map_of_conv_image_fst le_imp_less_Suc)
  then obtain st where st: "visit_roots (Suc (length cfg)) cfg roots ([], []) = Some (Inr st)"
      "visited cfg (set roots) ([], []) st"
    using visit_roots_correct[OF wf _ selected_known[OF assms], of "Suc (length cfg)"]
    by (fastforce simp: open_nodes_def)
  have eq: "set (snd st) = set (fst st)" and closed: "dep_edges cfg `` set (snd st) \<subseteq> set (snd st)"
    using st(2) by (auto simp: visited_def open_nodes_def wf_visit_def)
  have "set (snd st) \<subseteq> (dep_edges cfg)\<^sup>* `` set roots" "set roots \<subseteq> set (snd st)"
    using st(2) eq by (simp_all add: visited_def)
  then have "set (snd st) = (dep_edges cfg)\<^sup>* `` set roots"
    using closed_rtrancl[OF closed] by (meson Image_mono order_refl subset_antisym subset_trans)
  then show ?thesis using st assms by (simp add: start_order_def visited_def wf_visit_def)
qed

text \<open>
  C4. The order services are started in: the depth-first visit of \<open>depends_on\<close> always ends within
  its fuel and without an error, cyclic dependencies included. It starts exactly the services
  the selected ones depend on, directly or not, each once, and every service after its
  dependencies, except for a dependency that depends on it in turn.
\<close>

theorem start_order_total:
  assumes "selected_services cfg service = Inr roots"
  shows "\<exists>ord. start_order cfg service = Some (Inr ord) \<and> distinct ord \<and>
    set ord = (dep_edges cfg)\<^sup>* `` set roots \<and> deps_first cfg ord"
  using assms by (rule start_order_correct)

definition bare_service :: "string list \<Rightarrow> service_config" where
  "bare_service deps =
     \<lparr>build = None, image = None, labels = JNull, volumes = [], ports = JNull, environment = JNull,
      env_file = JNull, command = JNull, entrypoint = JNull, working_dir = None, depends_on = deps,
      healthcheck = JNull\<rparr>"

definition demo_services :: compose_config where
  "demo_services = [(''a'', bare_service [''db'', ''gone'']), (''db'', bare_service [''net'']), (''net'', bare_service [''db'']),
     (''z'', bare_service [])]"

theorem start_order_total_witness:
  "start_order demo_services (Some ''a'') = Some (Inr [''net'', ''db'', ''a'']) \<and>
   distinct [''net'', ''db'', ''a''] \<and>
   {''net'', ''db'', ''a''} = (dep_edges demo_services)\<^sup>* `` {''a''} \<and> deps_first demo_services [''net'', ''db'', ''a'']"
proof -
  have "selected_services demo_services (Some ''a'') = Inr [''a'']" by code_simp
  from start_order_total[OF this] obtain ord where o:
    "start_order demo_services (Some ''a'') = Some (Inr ord)" "distinct ord"
    "set ord = (dep_edges demo_services)\<^sup>* `` set [''a'']" "deps_first demo_services ord" by blast
  have "start_order demo_services (Some ''a'') = Some (Inr [''net'', ''db'', ''a''])" by code_simp
  then have "ord = [''net'', ''db'', ''a'']" using o(1) by simp
  then show ?thesis using o by simp
qed

section \<open>Names are clean\<close>

definition name_ok :: "char \<Rightarrow> bool" where
  "name_ok c \<longleftrightarrow> is_lower c \<or> is_digit c \<or> c = CHR ''_'' \<or> c = CHR ''.'' \<or> c = CHR ''-''"

fun no_double_dash :: "string \<Rightarrow> bool" where
  "no_double_dash (a # b # s) \<longleftrightarrow> \<not> (a = CHR ''-'' \<and> b = CHR ''-'') \<and> no_double_dash (b # s)"
| "no_double_dash _ \<longleftrightarrow> True"

definition clean_name :: "string \<Rightarrow> bool" where
  "clean_name s \<longleftrightarrow> list_all name_ok s \<and> no_double_dash s \<and>
     (s = [] \<or> hd s \<noteq> CHR ''-'' \<and> last s \<noteq> CHR ''-'')"

definition demo_project :: "string \<Rightarrow> project_config" where
  "demo_project name =
     \<lparr>root_dir = ''/w'', dip_dir = ''/w/.dip'', env_path = ''/w/.dip/.env'', compose_path = ''/w/.dip/docker-compose.yml'',
      project_name = name, penv = (\<lambda>_. None)\<rparr>"

lemma name_ok_name_char: "name_ok (name_char c)"
proof (cases "is_upper c")
  case True
  then have "(of_char (char_of ((of_char c :: nat) + 32)) :: nat) = of_char c + 32"
    by (simp add: is_upper_def)
  then have "is_lower (lower_char c)" using True by (simp add: lower_char_def is_lower_def is_upper_def)
  then show ?thesis using True by (simp add: name_char_def name_ok_def is_alnum_def)
next
  case False
  then show ?thesis
    unfolding name_char_def name_ok_def is_alnum_def lower_char_def by presburger
qed

lemma name_char_id: "name_ok c \<Longrightarrow> name_char c = c"
  unfolding name_char_def name_ok_def is_alnum_def lower_char_def
  by (auto simp: is_upper_def is_lower_def is_digit_def)

lemma squash_ok: "list_all name_ok (squash_dashes b s)"
proof (induction b s rule: squash_dashes.induct)
  case (2 b c cs)
  then show ?case using name_ok_name_char[of c] by (cases "name_char c = CHR ''-''") (simp_all add: Let_def)
qed simp

lemma no_double_dash_Cons:
  "no_double_dash (a # s) \<longleftrightarrow> no_double_dash s \<and> (s = [] \<or> a \<noteq> CHR ''-'' \<or> hd s \<noteq> CHR ''-'')"
  by (cases s) auto

lemma squash_dashes_spec:
  "no_double_dash (squash_dashes b s) \<and>
   (b \<longrightarrow> squash_dashes b s = [] \<or> hd (squash_dashes b s) \<noteq> CHR ''-'')"
proof (induction b s rule: squash_dashes.induct)
  case (2 b c cs)
  then show ?case by (cases "name_char c = CHR ''-''"; cases b) (simp_all add: Let_def no_double_dash_Cons)
qed simp

lemma no_double_dash_append: "no_double_dash (xs @ ys) \<Longrightarrow> no_double_dash xs \<and> no_double_dash ys"
  by (induction xs) (auto simp: no_double_dash_Cons)

lemma trim_matches_split: "\<exists>xs ys. s = xs @ trim_matches c s @ ys"
proof -
  have a: "s = takeWhile (\<lambda>x. x = c) s @ dropWhile (\<lambda>x. x = c) s" by simp
  have "rev (dropWhile (\<lambda>x. x = c) s) = takeWhile (\<lambda>x. x = c) (rev (dropWhile (\<lambda>x. x = c) s))
      @ dropWhile (\<lambda>x. x = c) (rev (dropWhile (\<lambda>x. x = c) s))" by (simp only: takeWhile_dropWhile_id)
  then have "dropWhile (\<lambda>x. x = c) s = trim_matches c s @ rev (takeWhile (\<lambda>x. x = c) (rev (dropWhile (\<lambda>x. x = c) s)))"
    unfolding trim_matches_def drop_end_while_def by (metis rev_append rev_rev_ident)
  then show ?thesis using a by metis
qed

lemma trim_matches_ends:
  assumes "trim_matches c s \<noteq> []"
  shows "hd (trim_matches c s) \<noteq> c" "last (trim_matches c s) \<noteq> c"
proof -
  let ?d = "dropWhile (\<lambda>x. x = c) s"
  have l: "hd (dropWhile (\<lambda>x. x = c) (rev ?d)) \<noteq> c"
    using hd_dropWhile[of "\<lambda>x. x = c" "rev ?d"] assms by (simp add: trim_matches_def drop_end_while_def)
  then show "last (trim_matches c s) \<noteq> c"
    using assms by (simp add: trim_matches_def drop_end_while_def last_rev)
  have "?d \<noteq> []" using assms unfolding trim_matches_def drop_end_while_def by fastforce
  then have "hd ?d \<noteq> c" using hd_dropWhile[of "\<lambda>x. x = c" s] by simp
  moreover obtain ys where "?d = trim_matches c s @ ys"
    unfolding trim_matches_def drop_end_while_def
    by (metis rev_append rev_rev_ident takeWhile_dropWhile_id)
  ultimately show "hd (trim_matches c s) \<noteq> c" using assms by (metis hd_append2)
qed

lemma trim_matches_id: "s = [] \<or> hd s \<noteq> c \<and> last s \<noteq> c \<Longrightarrow> trim_matches c s = s"
proof -
  assume a: "s = [] \<or> hd s \<noteq> c \<and> last s \<noteq> c"
  have "dropWhile (\<lambda>x. x = c) s = s" using a by (cases s) auto
  moreover have "dropWhile (\<lambda>x. x = c) (rev s) = rev s" using a by (cases s rule: rev_cases) auto
  ultimately show ?thesis by (simp add: trim_matches_def drop_end_while_def)
qed

lemma clean_sanitize_name: "clean_name (sanitize_name v)"
proof -
  obtain xs ys where eq: "squash_dashes False v = xs @ sanitize_name v @ ys"
    unfolding sanitize_name_def using trim_matches_split by metis
  have "list_all name_ok (xs @ sanitize_name v @ ys)" "no_double_dash (xs @ sanitize_name v @ ys)"
    unfolding eq[symmetric] by (rule squash_ok, rule squash_dashes_spec[THEN conjunct1])
  then have "list_all name_ok (sanitize_name v)" "no_double_dash (sanitize_name v)"
    using no_double_dash_append[of xs "sanitize_name v @ ys"] no_double_dash_append[of "sanitize_name v" ys]
    by simp_all
  moreover have "sanitize_name v \<noteq> [] \<Longrightarrow> hd (sanitize_name v) \<noteq> CHR ''-'' \<and> last (sanitize_name v) \<noteq> CHR ''-''"
    unfolding sanitize_name_def using trim_matches_ends by blast
  ultimately show ?thesis unfolding clean_name_def by satx
qed

lemma squash_clean:
  "list_all name_ok s \<Longrightarrow> no_double_dash s \<Longrightarrow> \<not> (b \<and> s \<noteq> [] \<and> hd s = CHR ''-'') \<Longrightarrow> squash_dashes b s = s"
  by (induction s arbitrary: b) (auto simp: Let_def name_char_id no_double_dash_Cons)

lemma sanitize_clean: "clean_name s \<Longrightarrow> sanitize_name s = s"
  by (simp add: sanitize_name_def clean_name_def squash_clean trim_matches_id)

text \<open>
  Names of containers and networks: whatever the project or the service is called, the
  sanitized name has only lower-case letters, digits, underscores, dots and dashes, no two
  dashes in a row and none at either end, and sanitizing it again changes nothing.
\<close>

theorem sanitize_name_clean:
  "clean_name (sanitize_name v) \<and> sanitize_name (sanitize_name v) = sanitize_name v"
  by (simp add: clean_sanitize_name sanitize_clean)

text \<open>
  The dash between project and service can also come from either name: two projects can own
  the same container name, and \<open>up\<close> of one force-deletes the container of the other.
\<close>

theorem container_names_collide:
  "container_name ''shop'' ''api-db'' = container_name ''shop-api'' ''db'' \<and>
   snd (run_service (\<lambda>h a. Exited (Some 0) None ''[{}]'' []) (\<lambda>_. Some (JArr [JNull]))
          (demo_project ''shop-api'') ''db'' (bare_service []) ''dip-shop-api'' []) ! 1 =
     [''container'', ''delete'', ''--force'', container_name ''shop'' ''api-db'']"
  by code_simp

section \<open>Networks\<close>

text \<open>
  Retrying on another network: replacing the network in the argv of a service gives the argv
  the service would have had on that network, everything else untouched.
\<close>

theorem replace_network_of_run:
  "replace_run_network (run_argv p n s net) net' = run_argv p n s net'"
  by (simp add: run_argv_def run_head_def container_name_def)

section \<open>What \<open>up\<close> starts\<close>

text \<open>The container a successful \<open>container run\<close> has started.\<close>

definition run_name :: "string list \<Rightarrow> string option" where
  "run_name argv =
     (if take 4 argv = [''container'', ''run'', ''--detach'', ''--name''] \<and> 4 < length argv then Some (argv ! 4) else None)"

definition started :: "cli \<Rightarrow> hist \<Rightarrow> string list \<Rightarrow> string list" where
  "started cli h argv =
     (case run_name argv of Some n \<Rightarrow> (if succeeded (cli h argv) then [n] else []) | None \<Rightarrow> [])"

lemma not_run [simp]: "c \<noteq> ''run'' \<Longrightarrow> started cli h (container_argv (c # as)) = []"
  by (simp add: started_def run_name_def container_argv_def)

lemma run_name_run: "run_name (container_argv (run_argv p n s net)) = Some (container_name p n)"
  by (simp add: run_name_def container_argv_def run_argv_def run_head_def)

lemma silent_status [emits_intros]:
  "c \<noteq> ''run'' \<Longrightarrow> emits (started k) (run_container_status cli (c # as)) []"
  unfolding run_container_status_def
  by (intro emits_intros) (auto intro!: emits_intros split: cli_out.split)

lemma silent_capture [emits_intros]:
  "c \<noteq> ''run'' \<Longrightarrow> emits (started k) (run_container_capture cli (c # as)) []"
  unfolding run_container_capture_def
  by (intro emits_intros) (auto intro!: emits_intros split: cli_out.split)

lemma silent_delete [emits_intros]: "emits (started k) (delete_container_if_exists cli decode name) []"
  unfolding delete_container_if_exists_def container_exists_def
  by (intro emits_intros) (auto intro!: emits_intros)

lemma silent_network_ready [emits_intros]: "emits (started k) (network_ready cli decode name) []"
  unfolding network_ready_def
  by (intro emits_intros) (auto intro!: emits_intros)

lemma silent_await [emits_intros]: "emits (started k) (await_network n cli decode name) []"
proof (induction n)
  case (Suc n)
  show ?case unfolding await_network.simps
    by (intro emits_intros) (simp add: Suc.IH emits_ret)
qed (simp only: await_network.simps emits_ret)

lemma silent_ensure_network [emits_intros]: "emits (started k) (ensure_network cli decode p) []"
  unfolding ensure_network_def Let_def
  by (intro emits_intros) (auto intro!: emits_intros)

lemma silent_build [emits_intros]: "emits (started k) (build_service cli p n s) []"
proof (cases "build s")
  case (Some b)
  show ?thesis
  proof (cases "build_argv (project_name p) n s b")
    case (Inr argv)
    then obtain as where "argv = ''build'' # as" by (auto simp: build_argv_def split: option.splits)
    then show ?thesis using Some Inr by (simp add: build_service_def silent_status)
  qed (simp add: Some build_service_def emits_intros)
qed (simp add: build_service_def emits_intros)

lemma run_capture_emits:
  "emits (started cli) (run_container_capture cli (run_argv p n s net)) [container_name p n]"
  unfolding emits_def
proof
  fix h
  let ?a = "container_argv (run_argv p n s net)"
  show "\<exists>t r. snd (run_container_capture cli (run_argv p n s net) h) = h @ t \<and>
      [container_name p n] = events (started cli) h t @ r \<and>
      ((\<exists>a. fst (run_container_capture cli (run_argv p n s net) h) = Inr a) \<longrightarrow> r = [])"
    by (intro exI[of _ "[?a]"] exI[of _ "if succeeded (cli h ?a) then [] else [container_name p n]"])
      (auto simp: run_container_capture_def started_def run_name_run succeeded_def split: cli_out.split)
qed

lemma run_service_emits:
  "emits (started cli) (run_service cli decode p n s net) [container_name (project_name p) n]"
proof -
  let ?run = "\<lambda>net. run_container_capture cli (run_argv (project_name p) n s net)"
  let ?retry = "\<lambda>r. case r of Inr _ \<Rightarrow> ret () | Inl m \<Rightarrow>
      (if net \<noteq> ''default'' \<and> is_network_not_found m then ?run ''default'' else bail m)"
  have "emits (started cli) (io_bind (attempt (?run net)) ?retry) [container_name (project_name p) n]"
    unfolding emits_def
  proof
    fix h
    let ?a = "container_argv (run_argv (project_name p) n s net)"
    show "\<exists>t r. snd (io_bind (attempt (?run net)) ?retry h) = h @ t \<and>
        [container_name (project_name p) n] = events (started cli) h t @ r \<and>
        ((\<exists>a. fst (io_bind (attempt (?run net)) ?retry h) = Inr a) \<longrightarrow> r = [])"
    proof (cases "succeeded (cli h ?a)")
      case True
      then show ?thesis
        by (intro exI[of _ "[?a]"] exI[of _ "[]"])
          (auto simp: run_container_capture_def started_def run_name_run succeeded_def io_bind_attempt split: cli_out.splits)
    next
      case False
      obtain e where e: "?run net h = (Inl e, h @ [?a])"
        using False by (auto simp: run_container_capture_def succeeded_def split: cli_out.splits)
      have quiet: "started cli h ?a = []" using False by (simp add: started_def run_name_run)
      obtain t r where t: "snd (?run ''default'' (h @ [?a])) = (h @ [?a]) @ t"
          "[container_name (project_name p) n] = events (started cli) (h @ [?a]) t @ r"
          "(\<exists>a. fst (?run ''default'' (h @ [?a])) = Inr a) \<longrightarrow> r = []"
        using run_capture_emits[of cli "project_name p" n s "''default''"] unfolding emits_def by meson
      show ?thesis
      proof (cases "net \<noteq> ''default'' \<and> is_network_not_found e")
        case True
        then show ?thesis using e quiet t
          by (intro exI[of _ "?a # t"] exI[of _ r]) (simp add: io_bind_attempt)
      next
        case other: False
        then show ?thesis using e quiet
          by (intro exI[of _ "[?a]"] exI[of _ "[container_name (project_name p) n]"]) (auto simp: io_bind_attempt)
      qed
    qed
  qed
  then show ?thesis
    unfolding run_service_def Let_def replace_network_of_run io_seq_def
    by (rule emits_then[OF silent_delete])
qed

lemma up_service_emits:
  "emits (started cli) (up_service cli decode p net n s) [container_name (project_name p) n]"
  unfolding up_service_def image_exists_def
  by (rule emits_seq[of _ _ "[]", simplified])
    (auto intro!: emits_intros run_service_emits simp: emits_intros)


lemma start_order_known:
  assumes "start_order cfg service = Some (Inr ord)"
  shows "\<forall>n\<in>set ord. map_of cfg n \<noteq> None"
proof -
  obtain roots where r: "selected_services cfg service = Inr roots"
    using assms by (auto simp: start_order_def split: sum.splits)
  have "set ord = (dep_edges cfg)\<^sup>* `` set roots"
    using start_order_correct[OF r] assms by auto
  then show ?thesis using dep_edges_known selected_known[OF r] by blast
qed

lemma for_services_emits:
  assumes "\<forall>n\<in>set names. map_of cfg n \<noteq> None" "\<And>n s. emits pick (f n s) [g n]"
  shows "emits pick (for_services cfg f names) (map g names)"
proof -
  have "emits pick (for_services cfg f names) (concat (map (\<lambda>n. [g n]) names))"
    unfolding for_services_def using assms by (intro emits_each) auto
  then show ?thesis by simp
qed

text \<open>
  C3. Starting services, on any container engine: the containers \<open>up\<close> has started are those
  of the start order, in that order and each once, even when a missing network makes it run the
  same service a second time. When it fails, they are a prefix of that order.
\<close>

theorem up_starts_in_order:
  assumes "start_order cfg service = Some (Inr ord)"
  shows "\<exists>t r. snd (up_services cli decode p (Inr cfg) service h) = h @ t \<and>
    map (container_name (project_name p)) ord = events (started cli) h t @ r \<and>
    ((\<exists>u. fst (up_services cli decode p (Inr cfg) service h) = Inr u) \<longrightarrow> r = [])"
proof -
  have "emits (started cli) (up_services cli decode p (Inr cfg) service) (map (container_name (project_name p)) ord)"
    unfolding up_services_def bind_result assms option.case sum.case
    by (intro emits_then[OF silent_ensure_network] for_services_emits start_order_known[OF assms] up_service_emits)
  then show ?thesis unfolding emits_def by blast
qed

text \<open>An engine that answers every inspection, and knows no network but the default one.\<close>

definition demo_engine :: cli where
  "demo_engine h argv =
     (if take 2 argv = [''container'', ''run''] \<and> ''default'' \<notin> set argv
      then Exited (Some 1) None [] ''network not found'' else Exited (Some 0) None [] [])"

theorem up_starts_in_order_witness:
  "start_order demo_services (Some ''db'') = Some (Inr [''net'', ''db'']) \<and>
   (\<exists>t r. snd (up_services demo_engine (\<lambda>_. Some (JArr [JNull])) (demo_project ''p'') (Inr demo_services) (Some ''db'') []) = t \<and>
     [''dip-p-net'', ''dip-p-db''] = events (started demo_engine) [] t @ r \<and>
     ((\<exists>u. fst (up_services demo_engine (\<lambda>_. Some (JArr [JNull])) (demo_project ''p'') (Inr demo_services) (Some ''db'') []) = Inr u)
        \<longrightarrow> r = []))"
proof -
  have o: "start_order demo_services (Some ''db'') = Some (Inr [''net'', ''db''])" by code_simp
  have n: "map (container_name (project_name (demo_project ''p''))) [''net'', ''db''] = [''dip-p-net'', ''dip-p-db'']"
    by code_simp
  show ?thesis
    using up_starts_in_order[OF o, of demo_engine "\<lambda>_. Some (JArr [JNull])" "demo_project ''p''" "[]"] o
    unfolding n append_Nil by blast
qed
end
