(* ===== verification/Dip_Shell.thy ===== *)
theory Dip_Shell
  imports Dip_Apple
begin

text \<open>
  Running a command in a service's container: \<open>commands/shell.rs\<close> on top of the two backends.
  The locale \<open>exec_backend\<close> is what \<open>dip exec\<close> and \<open>dip shell\<close> need of a backend; both backends
  are instances. It is proved once, in the locale, what the two commands do.
\<close>

section \<open>The commands\<close>

definition build_exec_args :: "string \<Rightarrow> string option \<Rightarrow> string list \<Rightarrow> string list" where
  "build_exec_args service workdir cmd =
     [''exec'', ''-i'']
     @ (case workdir of Some dir \<Rightarrow> [''-w'', dir] | None \<Rightarrow> [])
     @ [service]
     @ (if length cmd = 1 \<and> list_ex is_ws (hd cmd) then [''sh'', ''-c'', hd cmd] else cmd)"

definition run_exec ::
    "(string list \<Rightarrow> bool \<Rightarrow> int io) \<Rightarrow> string \<Rightarrow> string option \<Rightarrow> string list \<Rightarrow> unit io" where
  "run_exec stream service workdir cmd =
     (if cmd = [] then bail ''Please provide a command to execute''
      else io_bind (stream (build_exec_args service workdir cmd) True) (\<lambda>_. ret ()))"

definition run_shell :: "(string list \<Rightarrow> bool \<Rightarrow> int io) \<Rightarrow> string \<Rightarrow> string \<Rightarrow> unit io" where
  "run_shell stream service shell_type =
     io_bind (attempt (stream [''exec'', ''-it'', service, shell_type] True)) (\<lambda>r.
       (case r of
          Inr _ \<Rightarrow> ret ()
        | Inl e \<Rightarrow>
            (if shell_type \<noteq> ''sh''
             then io_bind (stream [''exec'', ''-it'', service, ''sh''] True) (\<lambda>_. ret ())
             else bail e)))"

section \<open>What the commands need of a backend\<close>

text \<open>The options the two commands put before the service.\<close>

definition shell_options :: "string list \<Rightarrow> bool" where
  "shell_options opts \<longleftrightarrow> opts = [''-it''] \<or> opts = [''-i''] \<or> (\<exists>d. opts = [''-i'', ''-w'', d])"

text \<open>A service name that cannot be taken for an option.\<close>

definition plain_service :: "string \<Rightarrow> bool" where
  "plain_service s \<longleftrightarrow> \<not> starts_with ''-'' s"

locale exec_backend =
  fixes stream :: "string list \<Rightarrow> bool \<Rightarrow> int io"
    and engine :: cli
    and argv :: "string list \<Rightarrow> string \<Rightarrow> string list \<Rightarrow> string list"
    and spawn_error :: "string \<Rightarrow> string"
  assumes exec_once: "shell_options opts \<Longrightarrow> plain_service s \<Longrightarrow>
    stream (''exec'' # opts @ s # cmd) True h =
      (case engine h (argv opts s cmd) of
         Spawn_error e \<Rightarrow> (Inl (spawn_error e), h @ [argv opts s cmd])
       | Exited c sg so se \<Rightarrow> (Inr (exit_code c sg), h @ [argv opts s cmd]))"
begin

lemma shell_run:
  assumes "plain_service s"
  shows "run_shell stream s shell_type h =
    (let a = argv [''-it''] s [shell_type]; b = argv [''-it''] s [''sh''] in
     case engine h a of
       Exited _ _ _ _ \<Rightarrow> (Inr (), h @ [a])
     | Spawn_error e \<Rightarrow>
         if shell_type = ''sh'' then (Inl (spawn_error e), h @ [a])
         else (case engine (h @ [a]) b of
                 Exited _ _ _ _ \<Rightarrow> (Inr (), h @ [a, b])
               | Spawn_error e' \<Rightarrow> (Inl (spawn_error e'), h @ [a, b])))"
proof -
  have o: "shell_options [''-it'']" by (simp only: shell_options_def) blast
  have 1: "stream [''exec'', ''-it'', s, sh] True h' =
      (case engine h' (argv [''-it''] s [sh]) of
         Spawn_error e \<Rightarrow> (Inl (spawn_error e), h' @ [argv [''-it''] s [sh]])
       | Exited c sg so se \<Rightarrow> (Inr (exit_code c sg), h' @ [argv [''-it''] s [sh]]))" for sh h'
    using exec_once[OF o assms, of "[sh]" h'] by (simp only: append_Cons append_Nil)
  show ?thesis
    unfolding run_shell_def io_bind_attempt 1 Let_def
    by (auto simp: io_bind_def 1 split: cli_out.split)
qed

lemma exec_run:
  assumes "plain_service s" "cmd \<noteq> []"
  shows "run_exec stream s workdir cmd h =
    (let a = argv (case workdir of Some d \<Rightarrow> [''-i'', ''-w'', d] | None \<Rightarrow> [''-i'']) s
               (if length cmd = 1 \<and> list_ex is_ws (hd cmd) then [''sh'', ''-c'', hd cmd] else cmd) in
     case engine h a of
       Exited _ _ _ _ \<Rightarrow> (Inr (), h @ [a])
     | Spawn_error e \<Rightarrow> (Inl (spawn_error e), h @ [a]))"
proof -
  let ?o = "case workdir of Some d \<Rightarrow> [''-i'', ''-w'', d] | None \<Rightarrow> [''-i'']"
  let ?c = "if length cmd = 1 \<and> list_ex is_ws (hd cmd) then [''sh'', ''-c'', hd cmd] else cmd"
  have "shell_options ?o" unfolding shell_options_def by (cases workdir) simp_all
  moreover have "build_exec_args s workdir cmd = ''exec'' # ?o @ s # ?c"
    by (cases workdir) (simp_all add: build_exec_args_def)
  ultimately show ?thesis
    unfolding run_exec_def Let_def using assms exec_once[of ?o s ?c h]
    by (simp add: io_bind_def split: cli_out.split)
qed

end

section \<open>The two backends\<close>

definition docker_exec_argv :: "project_config \<Rightarrow> string list \<Rightarrow> string \<Rightarrow> string list \<Rightarrow> string list" where
  "docker_exec_argv p opts s cmd = compose_argv p (''exec'' # opts @ s # cmd)"

text \<open>The options as the Apple backend hands them to \<open>container exec\<close>.\<close>

fun apple_options :: "string list \<Rightarrow> string list" where
  "apple_options [] = []"
| "apple_options (a # as) =
     (if a = ''-it'' then [''--interactive'', ''--tty''] @ apple_options as
      else if a = ''-i'' then ''--interactive'' # apple_options as
      else if a = ''-w'' then ''--workdir'' # as
      else apple_options as)"

definition apple_exec_argv :: "project_config \<Rightarrow> string list \<Rightarrow> string \<Rightarrow> string list \<Rightarrow> string list" where
  "apple_exec_argv p opts s cmd =
     container_argv (''exec'' # apple_options opts @ container_name (project_name p) s # cmd)"

lemma docker_exec_once:
  "docker_compose_stream cli p (''exec'' # opts @ s # cmd) True h =
    (case cli h (docker_exec_argv p opts s cmd) of
       Spawn_error e \<Rightarrow> (Inl e, h @ [docker_exec_argv p opts s cmd])
     | Exited c sg so se \<Rightarrow> (Inr (exit_code c sg), h @ [docker_exec_argv p opts s cmd]))"
  by (simp add: docker_compose_stream_def docker_exec_argv_def split: cli_out.split)

text \<open>What \<open>exec\<close> was given is what \<open>parse_exec_service\<close> reads back.\<close>

lemma starts_with_Cons: "starts_with (p # ps) s \<longleftrightarrow> (\<exists>t. s = p # t \<and> starts_with ps t)"
  by (cases s) (auto simp: starts_with_def)

lemma starts_with_Nil [simp]: "starts_with [] s"
  by (simp add: starts_with_def)

lemma parse_service_name:
  assumes "plain_service s"
  shows "parse_exec_args opts (s # cmd) = Some (s, opts, cmd)"
proof -
  have n: "s \<noteq> CHR ''-'' # t" for t using assms by (auto simp: plain_service_def starts_with_Cons)
  have v: "s \<notin> set value_options" by (simp add: value_options_def n)
  show ?thesis using assms v n by (simp add: starts_with_Cons plain_service_def)
qed

lemma parse_exec_shell:
  assumes "shell_options opts" "plain_service s"
  shows "parse_exec_service (''exec'' # opts @ s # cmd) = Some (s, apple_options opts, cmd)"
proof -
  have w: "''-w'' \<in> set value_options" "exec_option_name ''-w'' = ''--workdir''"
    by (simp_all add: value_options_def exec_option_name_def)
  from assms(1) consider "opts = [''-it'']" | "opts = [''-i'']" | d where "opts = [''-i'', ''-w'', d]"
    unfolding shell_options_def by blast
  then show ?thesis
    by cases (simp_all add: parse_exec_service_def parse_service_name[OF assms(2)] w del: parse_exec_args.simps
        add: parse_exec_args.simps(2)[of _ "''-it''"] parse_exec_args.simps(2)[of _ "''-i''"] parse_exec_args.simps(2)[of _ "''-w''"])
qed

lemma apple_exec_once:
  assumes "shell_options opts" "plain_service s"
  shows "apple_compose_stream cli p loaded (''exec'' # opts @ s # cmd) True h =
    (case cli h (apple_exec_argv p opts s cmd) of
       Spawn_error e \<Rightarrow> (Inl ''failed to run container exec'', h @ [apple_exec_argv p opts s cmd])
     | Exited c sg so se \<Rightarrow> (Inr (exit_code c sg), h @ [apple_exec_argv p opts s cmd]))"
  by (simp add: apple_compose_stream_def exec_service_def parse_exec_shell[OF assms] apple_exec_argv_def
      split: cli_out.split)

interpretation docker_exec: exec_backend "docker_compose_stream cli p" cli "docker_exec_argv p" "\<lambda>e. e"
  for cli p by unfold_locales (rule docker_exec_once)

interpretation apple_exec: exec_backend "apple_compose_stream cli p loaded" cli "apple_exec_argv p"
    "\<lambda>_. ''failed to run container exec''"
  for cli p loaded by unfold_locales (rule apple_exec_once)

section \<open>Properties\<close>

definition command_words :: "string list \<Rightarrow> string list" where
  "command_words cmd = (if length cmd = 1 \<and> list_ex is_ws (hd cmd) then [''sh'', ''-c'', hd cmd] else cmd)"

text \<open>
  \<open>dip exec\<close> on both backends: exactly one command of the engine runs, in the container of
  the service and in the given directory, and its words are the caller's, one by one, whatever
  characters or dashes they contain; only a single word with white space goes through a shell.
  The exit status of the command is no error of \<open>dip exec\<close>.
\<close>

theorem exec_passes_words:
  assumes "plain_service s" "cmd \<noteq> []"
    and "\<And>h a. \<exists>c sg so se. cli h a = Exited c sg so se"
  shows "run_exec (docker_compose_stream cli p) s None cmd h =
      (Inr (), h @ [compose_argv p ([''exec'', ''-i'', s] @ command_words cmd)])
    \<and> run_exec (docker_compose_stream cli p) s (Some d) cmd h =
      (Inr (), h @ [compose_argv p ([''exec'', ''-i'', ''-w'', d, s] @ command_words cmd)])
    \<and> run_exec (apple_compose_stream cli p loaded) s (Some d) cmd h =
      (Inr (), h @ [[''container'', ''exec'', ''--interactive'', ''--workdir'', d, container_name (project_name p) s]
                     @ command_words cmd])"
proof -
  have e: "(case cli h a of Exited _ _ _ _ \<Rightarrow> x | Spawn_error e \<Rightarrow> f e) = x" for h a and x :: "'x" and f
    using assms(3)[of h a] by (auto split: cli_out.split)
  show ?thesis
    unfolding docker_exec.exec_run[OF assms(1,2)] apple_exec.exec_run[OF assms(1,2)] Let_def e
    by (simp add: docker_exec_argv_def apple_exec_argv_def container_argv_def command_words_def)
qed

theorem exec_passes_words_witness:
  "run_exec (docker_compose_stream (\<lambda>_ _. Exited (Some 3) None [] []) (demo_project ''p'')) ''db'' None
      [''psql'', ''-c'', ''SELECT (1)''] [] =
    (Inr (), [compose_argv (demo_project ''p'') [''exec'', ''-i'', ''db'', ''psql'', ''-c'', ''SELECT (1)'']])"
proof -
  have p: "plain_service ''db''" by code_simp
  have w: "command_words [''psql'', ''-c'', ''SELECT (1)''] = [''psql'', ''-c'', ''SELECT (1)'']"
    by (simp add: command_words_def)
  show ?thesis
    using exec_passes_words[OF p, of "[''psql'', ''-c'', ''SELECT (1)'']" "\<lambda>_ _. Exited (Some 3) None [] []"
        "demo_project ''p''" "[]"] unfolding w by simp
qed



end
