(* ===== verification/Dip_Certs.thy ===== *)
theory Dip_Certs
  imports Dip_Router Dip_Effects
begin

text \<open>
  The certificates of \<open>proxy/certs.rs\<close>: which names the server certificate covers, when it is
  issued again, and the files this leaves behind. Keys and certificates are the library
  \<open>rcgen\<close>'s: a key pair is the number it was generated under, a certificate the names, the
  keys and the day of expiry the code puts into it. Every step that can fail fails when the
  parameter \<open>faults\<close> says so; a failed write leaves its file as it was, for
  \<open>write_atomic\<close> renames a complete file over it.
\<close>

section \<open>Names\<close>

text \<open>A \<open>BTreeSet\<close> of names is its sorted list.\<close>

definition wildcard_of :: "string \<Rightarrow> string option" where
  "wildcard_of d =
     (if starts_with ''*.'' d then Some d
      else if 3 \<le> length (split_on CHR ''.'' d)
      then map_option (\<lambda>(_, rest). ''*.'' @ rest) (split_once CHR ''.'' d)
      else None)"

definition wildcard_sans :: "string list \<Rightarrow> string list" where
  "wildcard_sans domains = sextend [] (filter_map wildcard_of domains)"

definition domain_matches_wildcard :: "string \<Rightarrow> string \<Rightarrow> bool" where
  "domain_matches_wildcard d w =
     (case (strip_prefix ''*.'' w, split_once CHR ''.'' d) of
        (Some suffix, Some (_, rest)) \<Rightarrow> rest = suffix
      | _ \<Rightarrow> False)"

definition exact_sans :: "string list \<Rightarrow> string list" where
  "exact_sans domains =
     sextend [] (filter (\<lambda>d. CHR ''*'' \<notin> set d \<and>
       \<not> list_ex (domain_matches_wildcard d) (wildcard_sans domains)) domains)"

definition needed_sans :: "string list \<Rightarrow> string list" where
  "needed_sans domains = sextend (wildcard_sans domains) (exact_sans domains)"

section \<open>Files\<close>

record server_cert =
  cert_key :: nat
  cert_sans :: "string list"
  common_name :: string
  signed_by :: nat
  chain_ca :: nat
  valid_until :: nat

record cert_store =
  ca_key :: "nat option"
  ca_cert :: "nat option"
  srv_key :: "nat option"
  srv_cert :: "server_cert option"
  sans_file :: "string option"

datatype cert_op = Read_ca | Generate_ca | Write_ca_key | Write_ca_cert | Sign | Write_key | Write_cert | Write_sans

type_synonym faults = "cert_op \<Rightarrow> string option"

definition checked :: "faults \<Rightarrow> cert_op \<Rightarrow> cert_store \<Rightarrow> (string + 'a) \<times> cert_store \<Rightarrow> (string + 'a) \<times> cert_store" where
  "checked faults op st r = (case faults op of Some e \<Rightarrow> (Inl e, st) | None \<Rightarrow> r)"

text \<open>The result names the key in the certificate file and the key in the key file.\<close>

definition ensure_ca :: "faults \<Rightarrow> nat \<Rightarrow> cert_store \<Rightarrow> (string + nat \<times> nat) \<times> cert_store" where
  "ensure_ca faults fresh st =
     (case (ca_cert st, ca_key st) of
        (Some c, Some k) \<Rightarrow> checked faults Read_ca st (Inr (c, k), st)
      | _ \<Rightarrow>
          checked faults Generate_ca st
          (checked faults Write_ca_key st
            (let st1 = st\<lparr>ca_key := Some fresh\<rparr> in
             checked faults Write_ca_cert st1 (Inr (fresh, fresh), st1\<lparr>ca_cert := Some fresh\<rparr>))))"

definition stored_sans :: "cert_store \<Rightarrow> string list" where
  "stored_sans st = filter (\<lambda>l. l \<noteq> []) (str_lines (case sans_file st of Some c \<Rightarrow> c | None \<Rightarrow> []))"

definition cert_needs_regen :: "string list \<Rightarrow> cert_store \<Rightarrow> bool" where
  "cert_needs_regen needed st \<longleftrightarrow> sextend [] (stored_sans st) \<noteq> needed"

definition issued_sans :: "string list \<Rightarrow> string list" where
  "issued_sans needed = (if needed = [] then [''localhost''] else needed)"

definition server_cn :: "string list \<Rightarrow> string list \<Rightarrow> string" where
  "server_cn exact sans = (case exact of d # _ \<Rightarrow> d | [] \<Rightarrow> (case sans of s # _ \<Rightarrow> s | [] \<Rightarrow> ''dip local''))"

definition issue :: "nat \<Rightarrow> nat \<Rightarrow> string list \<Rightarrow> nat \<times> nat \<Rightarrow> server_cert" where
  "issue today fresh domains ca =
     \<lparr>cert_key = fresh, cert_sans = issued_sans (needed_sans domains),
      common_name = server_cn (exact_sans domains) (issued_sans (needed_sans domains)),
      signed_by = snd ca, chain_ca = fst ca, valid_until = today + 397\<rparr>"

text \<open>\<open>today\<close> counts days; \<open>fresh_ca\<close> and \<open>fresh\<close> are the key pairs this call may generate.\<close>

definition ensure_server_cert ::
    "faults \<Rightarrow> nat \<Rightarrow> nat \<Rightarrow> nat \<Rightarrow> string list \<Rightarrow> cert_store \<Rightarrow> (string + bool) \<times> cert_store" where
  "ensure_server_cert faults today fresh_ca fresh domains st =
     (let needed = needed_sans domains in
      if needed = [] \<and> srv_cert st \<noteq> None then (Inr False, st)
      else if srv_cert st \<noteq> None \<and> \<not> cert_needs_regen needed st then (Inr False, st)
      else case ensure_ca faults fresh_ca st of
        (Inl e, st1) \<Rightarrow> (Inl e, st1)
      | (Inr ca, st1) \<Rightarrow>
          checked faults Sign st1
          (checked faults Write_key st1
            (let st2 = st1\<lparr>srv_key := Some fresh\<rparr> in
             checked faults Write_cert st2
              (let st3 = st2\<lparr>srv_cert := Some (issue today fresh domains ca)\<rparr> in
               checked faults Write_sans st3
                (Inr True, st3\<lparr>sans_file := Some (join [nl] needed)\<rparr>)))))"

section \<open>Installing the CA\<close>

definition install_ca_macos :: "cli \<Rightarrow> bool \<Rightarrow> string \<Rightarrow> bool io" where
  "install_ca_macos cli cert_exists cert_path =
     (if \<not> cert_exists then bail ''CA cert not found''
      else io_seq (io_bind (call cli [''sudo'', ''security'', ''delete-certificate'', ''-c'', ''dip Local CA'',
                                      ''/Library/Keychains/System.keychain'']) (\<lambda>_. ret ()))
        (io_bind (call cli [''sudo'', ''security'', ''add-trusted-cert'', ''-d'', ''-r'', ''trustRoot'', ''-k'',
                            ''/Library/Keychains/System.keychain'', cert_path]) (\<lambda>out.
          (case out of
             Spawn_error e \<Rightarrow> bail e
           | Exited c _ _ _ \<Rightarrow>
               (if c = Some 0 then ret True else bail ''Failed to install CA into system keychain'')))))"

definition cert_dirs :: "(string \<times> string) list" where
  "cert_dirs =
     [(''/usr/local/share/ca-certificates'', ''dip-ca.crt''), (''/etc/pki/ca-trust/source/anchors'', ''dip-ca.crt''),
      (''/etc/ca-certificates/trust-source/anchors'', ''dip-ca.crt''), (''/etc/ssl/certs'', ''dip-ca.pem'')]"

definition update_cmds :: "string list list" where
  "update_cmds =
     [[''update-ca-certificates''], [''update-ca-trust''], [''c_rehash'', ''/etc/ssl/certs''],
      [''openssl'', ''rehash'', ''/etc/ssl/certs'']]"

fun first_success :: "cli \<Rightarrow> string list list \<Rightarrow> string list option io" where
  "first_success cli [] = ret None"
| "first_success cli (a # as) =
     io_bind (call cli (''sudo'' # a)) (\<lambda>out. if succeeded out then ret (Some a) else first_success cli as)"

definition install_ca_linux :: "cli \<Rightarrow> (string \<Rightarrow> bool) \<Rightarrow> string \<Rightarrow> bool io" where
  "install_ca_linux cli is_dir cert_path =
     (case find (\<lambda>(dir, _). is_dir dir) cert_dirs of
        None \<Rightarrow> ret False
      | Some (dir, filename) \<Rightarrow>
          (let dest = dir @ ''/'' @ filename in
           io_bind (call cli [''sudo'', ''cp'', cert_path, dest]) (\<lambda>out.
             if \<not> succeeded out then bail (''Failed to copy CA cert to '' @ dest)
             else io_bind (first_success cli update_cmds) (\<lambda>_. ret True))))"

section \<open>Facts\<close>

lemma set_wildcard_sans: "set (wildcard_sans ds) = {w. \<exists>d\<in>set ds. wildcard_of d = Some w}"
  by (auto simp: wildcard_sans_def set_filter_map)

lemma set_exact_sans:
  "set (exact_sans ds) = {d \<in> set ds. CHR ''*'' \<notin> set d \<and> \<not> (\<exists>w\<in>set (wildcard_sans ds). domain_matches_wildcard d w)}"
  unfolding exact_sans_def set_sextend set_filter list_ex_iff by auto

lemma set_needed_sans: "set (needed_sans ds) = set (wildcard_sans ds) \<union> set (exact_sans ds)"
  by (simp add: needed_sans_def)

lemma sorted_needed_sans: "sorted_wrt (<) (needed_sans ds)"
  unfolding needed_sans_def wildcard_sans_def by (intro sorted_sextend) simp

text \<open>A name of the certificate stands for a host as TLS clients read it: a wildcard for one label.\<close>

definition covers :: "string \<Rightarrow> string \<Rightarrow> bool" where
  "covers san host \<longleftrightarrow> san = host \<or> domain_matches_wildcard host san"

definition line_text :: "string \<Rightarrow> bool" where
  "line_text s \<longleftrightarrow> s \<noteq> [] \<and> nl \<notin> set s \<and> cr \<notin> set s"

lemma str_lines_join:
  assumes "list_all line_text ls"
  shows "filter (\<lambda>l. l \<noteq> []) (str_lines (join [nl] ls)) = ls"
proof -
  have a: "map strip_cr ls = ls" "filter (\<lambda>l. l \<noteq> []) ls = ls" "list_all (\<lambda>l. nl \<notin> set l) ls"
    using assms by (induction ls) (auto simp: line_text_def strip_cr_id)
  have "ls \<noteq> [] \<Longrightarrow> last ls \<noteq> []"
    using assms last_in_set[of ls] by (auto simp: line_text_def list_all_iff)
  then have "raw_lines (join [nl] ls) = ls" using raw_lines_join[OF a(3), of "[]"] by (cases ls) auto
  then show ?thesis by (simp add: str_lines_def a)
qed

lemma sextend_sorted: "sorted_wrt (<) (xs :: string list) \<Longrightarrow> sextend [] xs = xs"
  by (rule sorted_sets_eq) (simp_all add: sorted_sextend)

text \<open>The recorded names are those of the certificate, its key is the key file's and its chain the CA's.\<close>

definition certs_ok :: "cert_store \<Rightarrow> bool" where
  "certs_ok st \<longleftrightarrow>
     (case srv_cert st of
        None \<Rightarrow> True
      | Some c \<Rightarrow> srv_key st = Some (cert_key c) \<and> ca_key st = Some (signed_by c) \<and> ca_cert st = Some (chain_ca c)
          \<and> cert_sans c = issued_sans (sextend [] (stored_sans st)))
     \<and> (case (ca_key st, ca_cert st) of (Some k, Some c) \<Rightarrow> k = c | _ \<Rightarrow> True)"

lemma checked_Inr: "checked faults op st r = (Inr x, st') \<longleftrightarrow> faults op = None \<and> r = (Inr x, st')"
  by (simp add: checked_def split: option.split)

lemma ensure_ca_ok:
  assumes "ensure_ca faults fresh st = (Inr ca, st')" "certs_ok st"
  shows "fst ca = snd ca \<and> ca_key st' = Some (snd ca) \<and> ca_cert st' = Some (fst ca)"
  using assms unfolding ensure_ca_def Let_def certs_ok_def
  by (auto simp: checked_Inr split: option.splits)

lemma ensure_server_cert_Inr:
  assumes "ensure_server_cert faults today fresh_ca fresh domains st = (Inr b, st')"
  shows "\<not> b \<and> st' = st \<and> srv_cert st \<noteq> None \<and> (needed_sans domains = [] \<or> sextend [] (stored_sans st) = needed_sans domains)
    \<or> b \<and> (\<exists>ca st1. ensure_ca faults fresh_ca st = (Inr ca, st1) \<and>
        st' = st1\<lparr>srv_key := Some fresh, srv_cert := Some (issue today fresh domains ca),
                 sans_file := Some (join [nl] (needed_sans domains))\<rparr>)"
proof (cases "srv_cert st \<noteq> None \<and> (needed_sans domains = [] \<or> \<not> cert_needs_regen (needed_sans domains) st)")
  case True
  then have "ensure_server_cert faults today fresh_ca fresh domains st = (Inr False, st)"
    by (auto simp: ensure_server_cert_def Let_def)
  then show ?thesis using assms True by (simp add: cert_needs_regen_def)
next
  case False
  obtain r st1 where e: "ensure_ca faults fresh_ca st = (r, st1)" by (cases "ensure_ca faults fresh_ca st")
  have eq: "ensure_server_cert faults today fresh_ca fresh domains st =
      (case (r, st1) of (Inl e, st1) \<Rightarrow> (Inl e, st1)
       | (Inr ca, st1) \<Rightarrow>
          checked faults Sign st1
          (checked faults Write_key st1
            (let st2 = st1\<lparr>srv_key := Some fresh\<rparr> in
             checked faults Write_cert st2
              (let st3 = st2\<lparr>srv_cert := Some (issue today fresh domains ca)\<rparr> in
               checked faults Write_sans st3
                (Inr True, st3\<lparr>sans_file := Some (join [nl] (needed_sans domains))\<rparr>)))))"
    using False unfolding ensure_server_cert_def Let_def e by auto
  show ?thesis
    using assms e unfolding eq by (cases r) (simp_all add: checked_Inr Let_def)
qed

lemma split_on_3: "3 \<le> length (split_on c d) \<Longrightarrow> c \<in> set d"
  using split_on_no_sep[of c d] by fastforce

lemma needed_sans_covers:
  "(\<forall>d\<in>set domains. CHR ''*'' \<notin> set d \<or> starts_with ''*.'' d \<longrightarrow> (\<exists>s\<in>set (needed_sans domains). covers s d))
   \<and> (\<forall>s\<in>set (needed_sans domains). s \<in> set domains \<or>
        (\<exists>l rest. l @ ''.'' @ rest \<in> set domains \<and> s = ''*.'' @ rest \<and> CHR ''.'' \<in> set rest))"
proof (intro conjI ballI impI)
  fix d assume d: "d \<in> set domains" "CHR ''*'' \<notin> set d \<or> starts_with ''*.'' d"
  show "\<exists>s\<in>set (needed_sans domains). covers s d"
  proof (cases "\<exists>w\<in>set (wildcard_sans domains). domain_matches_wildcard d w")
    case True
    then show ?thesis unfolding set_needed_sans covers_def by blast
  next
    case False
    show ?thesis
    proof (cases "starts_with ''*.'' d")
      case True
      then have "d \<in> set (wildcard_sans domains)" using d unfolding set_wildcard_sans wildcard_of_def by auto
      then show ?thesis unfolding set_needed_sans covers_def by blast
    next
      case w: False
      then have "d \<in> set (exact_sans domains)" using d False unfolding set_exact_sans by blast
      then show ?thesis unfolding set_needed_sans covers_def by blast
    qed
  qed
next
  fix s assume "s \<in> set (needed_sans domains)"
  then consider "s \<in> set (exact_sans domains)" | d where "d \<in> set domains" "wildcard_of d = Some s"
    unfolding set_needed_sans set_wildcard_sans by blast
  then show "s \<in> set domains \<or> (\<exists>l rest. l @ ''.'' @ rest \<in> set domains \<and> s = ''*.'' @ rest \<and> CHR ''.'' \<in> set rest)"
  proof cases
    case 1
    then show ?thesis unfolding set_exact_sans by blast
  next
    case 2
    show ?thesis
    proof (cases "starts_with ''*.'' d")
      case True
      then show ?thesis using 2 by (simp add: wildcard_of_def)
    next
      case False
      then have n: "3 \<le> length (split_on CHR ''.'' d)"
        using 2(2) unfolding wildcard_of_def by (auto split: if_splits)
      then obtain l rest where r: "d = l @ CHR ''.'' # rest" "CHR ''.'' \<notin> set l"
        using split_on_3[OF n] split_list_first by metis
      have "split_on CHR ''.'' d = l # split_on CHR ''.'' rest"
        unfolding r(1) by (rule split_on_append[OF r(2)])
      then have "2 \<le> length (split_on CHR ''.'' rest)" using n by simp
      then have "CHR ''.'' \<in> set rest" using split_on_no_sep[of "CHR ''.''" rest] by fastforce
      moreover have "split_once CHR ''.'' d = Some (l, rest)" using r by simp
      then have "wildcard_of d = Some (''*.'' @ rest)" unfolding wildcard_of_def using False n by (simp only: if_False if_True option.map prod.case)
      then have "s = ''*.'' @ rest" using 2(2) by simp
      ultimately show ?thesis using r 2(1) by (intro disjI2 exI[of _ l] exI[of _ rest]) simp
    qed
  qed
qed

lemma ensure_cert_good:
  assumes "certs_ok st" "list_all line_text (needed_sans domains)"
    and "ensure_server_cert faults today fresh_ca fresh domains st = (Inr b, st')"
  shows "certs_ok st' \<and> (\<not> b \<longrightarrow> st' = st) \<and>
    (\<exists>c. srv_cert st' = Some c \<and> (needed_sans domains \<noteq> [] \<longrightarrow> cert_sans c = needed_sans domains))"
proof -
  from ensure_server_cert_Inr[OF assms(3)] consider
    (same) "\<not> b" "st' = st" "srv_cert st \<noteq> None"
      "needed_sans domains = [] \<or> sextend [] (stored_sans st) = needed_sans domains"
  | (new) ca st1 where b "ensure_ca faults fresh_ca st = (Inr ca, st1)"
      "st' = st1\<lparr>srv_key := Some fresh, srv_cert := Some (issue today fresh domains ca),
                 sans_file := Some (join [nl] (needed_sans domains))\<rparr>" by blast
  then show ?thesis
  proof cases
    case same
    then show ?thesis using assms(1) by (auto simp: certs_ok_def issued_sans_def)
  next
    case new
    have "sextend [] (stored_sans st') = needed_sans domains"
      using str_lines_join[OF assms(2)] by (simp add: new(3) stored_sans_def sextend_sorted sorted_needed_sans)
    then show ?thesis
      using new(1) ensure_ca_ok[OF new(2) assms(1)] by (simp add: new(3) certs_ok_def issue_def issued_sans_def)
  qed
qed

lemma ensure_no_faults:
  "\<exists>b st'. ensure_server_cert (\<lambda>_. None) today fresh_ca fresh domains st = (Inr b, st')"
proof -
  obtain r st1 where e: "ensure_ca (\<lambda>_. None) fresh_ca st = (r, st1)" by (cases "ensure_ca (\<lambda>_. None) fresh_ca st")
  then obtain ca where "r = Inr ca" by (auto simp: ensure_ca_def checked_def Let_def split: option.splits)
  then show ?thesis using e by (auto simp: ensure_server_cert_def Let_def checked_def)
qed

section \<open>Properties\<close>

text \<open>
  The names the certificate is asked to cover: every routed domain, be it a name or a
  wildcard, is covered by one of them; and they are not wider than that: each is a routed
  domain or the wildcard for the siblings of a routed domain of three or more labels, so no
  wildcard for a whole TLD is ever made up.
\<close>

theorem needed_sans_cover:
  "(\<forall>d\<in>set domains. CHR ''*'' \<notin> set d \<or> starts_with ''*.'' d \<longrightarrow> (\<exists>s\<in>set (needed_sans domains). covers s d))
   \<and> (\<forall>s\<in>set (needed_sans domains). s \<in> set domains \<or>
        (\<exists>l rest. l @ ''.'' @ rest \<in> set domains \<and> s = ''*.'' @ rest \<and> CHR ''.'' \<in> set rest))"
  by (rule needed_sans_covers)

theorem needed_sans_cover_witness:
  "needed_sans [''shop.test'', ''api.shop.test''] = [''*.shop.test'', ''shop.test''] \<and>
   (\<exists>s\<in>set [''*.shop.test'', ''shop.test'']. covers s ''api.shop.test'')"
proof -
  have n: "needed_sans [''shop.test'', ''api.shop.test''] = [''*.shop.test'', ''shop.test'']" by code_simp
  have "CHR ''*'' \<notin> set ''api.shop.test''" by code_simp
  then have "\<exists>s\<in>set (needed_sans [''shop.test'', ''api.shop.test'']). covers s ''api.shop.test''"
    using needed_sans_cover[of "[''shop.test'', ''api.shop.test'']"]
    by (meson list.set_intros)
  then show ?thesis unfolding n by blast
qed


definition no_certs :: cert_store where
  "no_certs = \<lparr>ca_key = None, ca_cert = None, srv_key = None, srv_cert = None, sans_file = None\<rparr>"

definition shop_certs :: cert_store where
  "shop_certs = snd (ensure_server_cert (\<lambda>_. None) 0 1 2 [''shop.test''] no_certs)"


section \<open>Where the record and the certificate part\<close>

text \<open>
  When only the last write fails, the new certificate is in place under the old record: the next
  call for the old names keeps a certificate that does not have them.
\<close>

theorem failed_record_hides_certificate:
  "let st = snd (ensure_server_cert (\<lambda>op. if op = Write_sans then Some ''disk full'' else None) 0 3 4 [''blog.test''] shop_certs) in
   ensure_server_cert (\<lambda>_. None) 0 5 6 [''shop.test''] st = (Inr False, st) \<and>
   map_option cert_sans (srv_cert st) = Some [''blog.test'']"
  by code_simp

text \<open>When the certificate cannot be written, its key already was: the pair no longer matches, for good.\<close>

theorem failed_certificate_orphans_key:
  "let st = snd (ensure_server_cert (\<lambda>op. if op = Write_cert then Some ''disk full'' else None) 0 3 4 [''blog.test''] shop_certs) in
   ensure_server_cert (\<lambda>_. None) 0 5 6 [''shop.test''] st = (Inr False, st) \<and>
   srv_key st = Some 4 \<and> map_option cert_key (srv_cert st) = Some 2"
  by code_simp

text \<open>A certificate is valid for 397 days, but a call long after that day leaves it in place.\<close>

theorem expired_certificate_kept:
  "map_option valid_until (srv_cert shop_certs) = Some 397 \<and>
   ensure_server_cert (\<lambda>_. None) 500 5 6 [''shop.test''] shop_certs = (Inr False, shop_certs)"
  by code_simp

text \<open>A wildcard route serves hosts of any depth, the certificate for it only one more label.\<close>

theorem deep_host_routed_not_covered:
  "match_route ''a.b.shop.test'' [\<lparr>domain = ''*.shop.test'', upstream = ''10.0.0.2:80''\<rparr>] \<noteq> None \<and>
   \<not> list_ex (\<lambda>s. covers s ''a.b.shop.test'') (needed_sans [''*.shop.test''])"
  by code_simp

end
