(* ===== verification/Dip_Routes.thy ===== *)
theory Dip_Routes
  imports Dip_Watcher Dip_Certs Dip_Docker
begin

text \<open>
  Route management of \<open>commands/proxy/routes.rs\<close>: the routes of a project's containers are
  added to the proxy's configuration after a start and removed after a stop, the certificate
  follows, and the daemon is told. The configuration file, the certificates and whether the
  daemon runs are the state; what the file system and the daemon answer are parameters.
\<close>

section \<open>Labels\<close>

definition clean_host_value :: "json \<Rightarrow> string" where
  "clean_host_value v =
     trim (trim_matches squote (trim_matches dquote (trim (case as_str v of Some s \<Rightarrow> s | None \<Rightarrow> []))))"

definition host_entry :: "string \<times> json \<Rightarrow> (string \<times> string) option" where
  "host_entry kv =
     (if \<not> is_host_label (fst kv) then None
      else let raw = clean_host_value (snd kv) in
        if raw = [] then None
        else let (d, p) = (case split_once CHR '':'' raw of
                             Some (d, p) \<Rightarrow> (trim_matches squote (trim_matches dquote (trim d)), trim p)
                           | None \<Rightarrow> (raw, ''80''))
             in if d = [] then None else Some (d, p))"

definition parse_host_labels :: "json \<Rightarrow> (string \<times> string) list" where
  "parse_host_labels labels =
     (case as_object labels of None \<Rightarrow> [] | Some m \<Rightarrow> filter_map host_entry m)"

section \<open>Discovery\<close>

definition container_routes :: "project_container \<Rightarrow> route list" where
  "container_routes c =
     (case cip c of
        None \<Rightarrow> []
      | Some ip \<Rightarrow> map (\<lambda>(d, p). \<lparr>domain = d, upstream = ip @ '':'' @ p\<rparr>) (parse_host_labels (clabels c)))"

definition discover_routes :: "project_container list \<Rightarrow> route list" where
  "discover_routes cs = concat (map container_routes cs)"

definition discover_project_domains :: "project_container list \<Rightarrow> string list" where
  "discover_project_domains cs = concat (map (\<lambda>c. map fst (parse_host_labels (clabels c))) cs)"

section \<open>The proxy's state\<close>

datatype daemon_event = Hup | Stop | Spawn

record proxy_state =
  config_file :: "string + proxy_config"
  certs :: cert_store
  daemon_up :: bool
  daemon_events :: "daemon_event list"

text \<open>What the outside answers: failing writes, the keys to be generated, the spawn of the daemon.\<close>

record outside =
  cert_faults :: faults
  day :: nat
  key_ca :: nat
  key_srv :: nat
  save_fails :: "string option"
  spawn_fails :: "string option"
  spawn_alive :: bool

definition sighup_daemon :: "proxy_state \<Rightarrow> proxy_state" where
  "sighup_daemon s = (if daemon_up s then s\<lparr>daemon_events := daemon_events s @ [Hup]\<rparr> else s)"

definition spawn_daemon :: "outside \<Rightarrow> proxy_state \<Rightarrow> (string + unit) \<times> proxy_state" where
  "spawn_daemon o1 s =
     (case spawn_fails o1 of
        Some e \<Rightarrow> (Inl e, s)
      | None \<Rightarrow> (Inr (), s\<lparr>daemon_up := spawn_alive o1, daemon_events := daemon_events s @ [Spawn]\<rparr>))"

text \<open>\<open>run_stop\<close> signals the daemon and waits until it is gone; it removes the pid file anyway.\<close>

definition stop_daemon :: "proxy_state \<Rightarrow> proxy_state" where
  "stop_daemon s = (if daemon_up s then s\<lparr>daemon_up := False, daemon_events := daemon_events s @ [Stop]\<rparr> else s)"

definition restart_daemon :: "outside \<Rightarrow> proxy_state \<Rightarrow> (string + unit) \<times> proxy_state" where
  "restart_daemon o1 s = spawn_daemon o1 (stop_daemon s)"

definition save_config :: "outside \<Rightarrow> proxy_config \<Rightarrow> proxy_state \<Rightarrow> (string + unit) \<times> proxy_state" where
  "save_config o1 cfg s =
     (case save_fails o1 of Some e \<Rightarrow> (Inl e, s) | None \<Rightarrow> (Inr (), s\<lparr>config_file := Inr cfg\<rparr>))"

text \<open>A failed update of the certificate is a warning and counts as no change.\<close>

definition update_cert :: "outside \<Rightarrow> route list \<Rightarrow> proxy_state \<Rightarrow> bool \<times> proxy_state" where
  "update_cert o1 rs s =
     (case ensure_server_cert (cert_faults o1) (day o1) (key_ca o1) (key_srv o1) (map domain rs) (certs s) of
        (r, cs) \<Rightarrow> ((case r of Inr renewed \<Rightarrow> renewed | Inl _ \<Rightarrow> False), s\<lparr>certs := cs\<rparr>))"

section \<open>Sync and unsync\<close>

definition sync_routes :: "route list \<Rightarrow> route list \<Rightarrow> route list" where
  "sync_routes discovered rs = filter (\<lambda>r. domain r \<notin> set (map domain discovered)) rs @ discovered"

definition notify_daemon :: "outside \<Rightarrow> bool \<Rightarrow> bool \<Rightarrow> proxy_state \<Rightarrow> (string + unit) \<times> proxy_state" where
  "notify_daemon o1 start renewed s =
     (if daemon_up s then (if renewed then restart_daemon o1 s else (Inr (), sighup_daemon s))
      else if start then spawn_daemon o1 s
      else (Inr (), s))"

text \<open>\<open>found\<close> is the outcome of listing the containers; a failure to list them is only a warning.\<close>

definition sync_from_project ::
    "outside \<Rightarrow> string + project_container list \<Rightarrow> proxy_state \<Rightarrow> (string + unit) \<times> proxy_state" where
  "sync_from_project o1 found s =
     (case found of
        Inl e \<Rightarrow> (Inr (), s)
      | Inr cs \<Rightarrow>
          (let discovered = discover_routes cs in
           if discovered = [] then (Inr (), s)
           else case config_file s of
             Inl e \<Rightarrow> (Inl e, s)
           | Inr cfg \<Rightarrow>
               (let cfg' = cfg\<lparr>routes := sync_routes discovered (routes cfg)\<rparr>;
                    (renewed, s1) = update_cert o1 (routes cfg') s
                in case save_config o1 cfg' s1 of
                     (Inl e, s2) \<Rightarrow> (Inl e, s2)
                   | (Inr _, s2) \<Rightarrow>
                       (if srv_cert (certs s2) = None then (Inr (), s2)
                        else notify_daemon o1 True renewed s2))))"

definition unsync_from_project ::
    "outside \<Rightarrow> string + project_container list \<Rightarrow> proxy_state \<Rightarrow> (string + unit) \<times> proxy_state" where
  "unsync_from_project o1 found s =
     (case found of
        Inl e \<Rightarrow> (Inl e, s)
      | Inr cs \<Rightarrow>
          (let domains = discover_project_domains cs in
           if domains = [] then (Inr (), s)
           else case config_file s of
             Inl e \<Rightarrow> (Inl e, s)
           | Inr cfg \<Rightarrow>
               (let rs = drop_routes domains (routes cfg) in
                if length rs = length (routes cfg) then (Inr (), s)
                else case save_config o1 (cfg\<lparr>routes := rs\<rparr>) s of
                     (Inl e, s1) \<Rightarrow> (Inl e, s1)
                   | (Inr _, s1) \<Rightarrow>
                       (let (renewed, s2) = update_cert o1 rs s1 in notify_daemon o1 False renewed s2))))"

text \<open>After a start or a stop an error is at most a warning.\<close>

definition apply_sync :: "outside \<Rightarrow> string + project_container list \<Rightarrow> proxy_state \<Rightarrow> proxy_state" where
  "apply_sync o1 found s = snd (sync_from_project o1 found s)"

definition apply_unsync :: "outside \<Rightarrow> string + project_container list \<Rightarrow> proxy_state \<Rightarrow> proxy_state" where
  "apply_unsync o1 found s = snd (unsync_from_project o1 found s)"

section \<open>Editing by hand\<close>

definition run_add :: "outside \<Rightarrow> string \<Rightarrow> string \<Rightarrow> proxy_state \<Rightarrow> (string + unit) \<times> proxy_state" where
  "run_add o1 d u s =
     (case config_file s of
        Inl e \<Rightarrow> (Inl e, s)
      | Inr cfg \<Rightarrow>
          (case save_config o1 (cfg\<lparr>routes := put_route d u (routes cfg)\<rparr>) s of
             (Inl e, s1) \<Rightarrow> (Inl e, s1)
           | (Inr _, s1) \<Rightarrow> (Inr (), sighup_daemon s1)))"

definition run_remove :: "outside \<Rightarrow> string \<Rightarrow> proxy_state \<Rightarrow> (string + unit) \<times> proxy_state" where
  "run_remove o1 d s =
     (case config_file s of
        Inl e \<Rightarrow> (Inl e, s)
      | Inr cfg \<Rightarrow>
          (let rs = drop_routes [d] (routes cfg) in
           if length rs < length (routes cfg)
           then case save_config o1 (cfg\<lparr>routes := rs\<rparr>) s of
                  (Inl e, s1) \<Rightarrow> (Inl e, s1)
                | (Inr _, s1) \<Rightarrow> (Inr (), sighup_daemon s1)
           else (Inr (), s)))"

section \<open>Facts\<close>

lemma route_to_sync:
  "route_to (sync_routes disc rs) e =
     (if e \<in> set (map domain disc) then route_to disc e else route_to rs e)"
proof -
  have "find (\<lambda>r. domain r = e) (filter (\<lambda>r. domain r \<notin> set (map domain disc)) rs)
      = (if e \<in> set (map domain disc) then None else find (\<lambda>r. domain r = e) rs)"
    by (induction rs) auto
  moreover have "e \<notin> set (map domain disc) \<Longrightarrow> find (\<lambda>r. domain r = e) disc = None"
    by (auto simp: find_None_iff)
  ultimately show ?thesis
    by (auto simp: route_to_def sync_routes_def find_append split: option.splits)
qed

lemma sync_routes_twice: "sync_routes disc (sync_routes disc rs) = sync_routes disc rs"
  by (auto simp: sync_routes_def filter_empty_conv)

lemma distinct_sync:
  "distinct_domains rs \<Longrightarrow> distinct_domains disc \<Longrightarrow> distinct_domains (sync_routes disc rs)"
  by (auto simp: distinct_domains_def sync_routes_def distinct_map_filter)

lemma save_config_Inr: "save_config o1 cfg s = (Inr u, s') \<longleftrightarrow> save_fails o1 = None \<and> s' = s\<lparr>config_file := Inr cfg\<rparr>"
  by (auto simp: save_config_def split: option.splits)

lemma notify_keeps:
  assumes "notify_daemon o1 start c s = (r, s')"
  shows "config_file s' = config_file s \<and> certs s' = certs s"
  using assms
  by (auto simp: notify_daemon_def restart_daemon_def spawn_daemon_def stop_daemon_def sighup_daemon_def
      split: if_splits option.splits)

text \<open>A sync that goes through, step by step.\<close>

lemma sync_steps:
  assumes "sync_from_project o1 (Inr cs) s = (Inr u, s')" "config_file s = Inr cfg" "discover_routes cs \<noteq> []"
  obtains renewed s1 where
    "update_cert o1 (sync_routes (discover_routes cs) (routes cfg)) s = (renewed, s1)"
    "save_fails o1 = None"
    "s1\<lparr>config_file := Inr (cfg\<lparr>routes := sync_routes (discover_routes cs) (routes cfg)\<rparr>)\<rparr> = s' \<and> srv_cert (certs s') = None \<or>
     notify_daemon o1 True renewed
       (s1\<lparr>config_file := Inr (cfg\<lparr>routes := sync_routes (discover_routes cs) (routes cfg)\<rparr>)\<rparr>) = (Inr u, s')"
proof -
  let ?cfg = "cfg\<lparr>routes := sync_routes (discover_routes cs) (routes cfg)\<rparr>"
  obtain renewed s1 where u: "update_cert o1 (sync_routes (discover_routes cs) (routes cfg)) s = (renewed, s1)" by force
  obtain r s2 where sv: "save_config o1 ?cfg s1 = (r, s2)" by force
  show ?thesis
  proof (cases r)
    case (Inl e)
    then show ?thesis using assms u sv by (simp add: sync_from_project_def)
  next
    case (Inr v)
    then have "save_fails o1 = None" and s2: "s2 = s1\<lparr>config_file := Inr ?cfg\<rparr>"
      using sv by (simp_all add: save_config_Inr)
    then show ?thesis using that[OF u] assms u sv Inr
      by (auto simp: sync_from_project_def Let_def split: if_splits)
  qed
qed

lemma update_cert_keeps:
  "update_cert o1 rs s = (c, s1) \<Longrightarrow>
    config_file s1 = config_file s \<and> daemon_up s1 = daemon_up s \<and> daemon_events s1 = daemon_events s"
  by (auto simp: update_cert_def split: prod.splits)

lemma sync_config:
  assumes "sync_from_project o1 (Inr cs) s = (Inr u, s')" "config_file s = Inr cfg" "discover_routes cs \<noteq> []"
  shows "config_file s' = Inr (cfg\<lparr>routes := sync_routes (discover_routes cs) (routes cfg)\<rparr>)"
  using sync_steps[OF assms] by (metis (no_types, lifting) notify_keeps proxy_state.select_convs(1)
      proxy_state.surjective proxy_state.update_convs(1))

lemma unsync_config:
  assumes "unsync_from_project o1 (Inr cs) s = (Inr u, s')" "config_file s = Inr cfg"
  shows "config_file s' = Inr (cfg\<lparr>routes := drop_routes (discover_project_domains cs) (routes cfg)\<rparr>)"
proof (cases "length (drop_routes (discover_project_domains cs) (routes cfg)) = length (routes cfg)")
  case True
  then have same: "drop_routes (discover_project_domains cs) (routes cfg) = routes cfg"
    unfolding drop_routes_def by (metis filter_True length_filter_less less_irrefl)
  have "discover_project_domains cs = [] \<Longrightarrow> drop_routes (discover_project_domains cs) (routes cfg) = routes cfg"
    by (simp add: drop_routes_def)
  then have "s' = s" using assms True by (auto simp: unsync_from_project_def Let_def split: if_splits)
  then show ?thesis using assms(2) same by simp
next
  case False
  then have ne: "discover_project_domains cs \<noteq> []" by (auto simp: drop_routes_def)
  let ?cfg = "cfg\<lparr>routes := drop_routes (discover_project_domains cs) (routes cfg)\<rparr>"
  obtain r s1 where sv: "save_config o1 ?cfg s = (r, s1)" by force
  obtain c s2 where u: "update_cert o1 (routes ?cfg) s1 = (c, s2)" by force
  show ?thesis
  proof (cases r)
    case (Inl e)
    then show ?thesis using assms False ne sv by (simp add: unsync_from_project_def)
  next
    case (Inr v)
    then have "config_file s1 = Inr ?cfg" using sv by (simp add: save_config_Inr)
    moreover have "notify_daemon o1 False c s2 = (Inr u, s')"
      using assms False ne sv u Inr by (simp add: unsync_from_project_def)
    ultimately show ?thesis using notify_keeps[of o1 False c s2 "Inr u" s'] update_cert_keeps[OF u] by simp
  qed
qed

lemma no_quotes_trim_matches: "q \<notin> set v \<Longrightarrow> trim_matches q v = v"
proof -
  assume q: "q \<notin> set v"
  have "dropWhile (\<lambda>x. x = q) v = v" using q by (cases v) auto
  moreover have "v = [] \<or> last v \<noteq> q" using q by (metis last_in_set)
  ultimately show ?thesis by (simp add: trim_matches_def drop_end_while_id)
qed

lemma update_cert_no_faults:
  assumes "cert_faults o1 = (\<lambda>_. None)" "update_cert o1 rs s = (renewed, s1)"
    and "certs_ok (certs s)" "list_all line_text (needed_sans (map domain rs))"
  shows "certs_ok (certs s1) \<and> (\<not> renewed \<longrightarrow> certs s1 = certs s) \<and>
    (\<exists>c. srv_cert (certs s1) = Some c \<and> (needed_sans (map domain rs) \<noteq> [] \<longrightarrow> cert_sans c = needed_sans (map domain rs)))"
proof -
  obtain b cs where e: "ensure_server_cert (\<lambda>_. None) (day o1) (key_ca o1) (key_srv o1) (map domain rs) (certs s) = (Inr b, cs)"
    using ensure_no_faults by blast
  then show ?thesis
    using ensure_cert_good[OF assms(3,4) e] assms(2) by (auto simp: update_cert_def assms(1))
qed

section \<open>Properties\<close>

text \<open>
  After \<open>dip start\<close>: a sync that goes through leaves in the configuration the route of every
  discovered domain and the routes of all other domains as they were; the certificate on disk
  covers every routed name and wildcard, the proxy is up, and it was started again if the
  certificate was renewed.
\<close>

theorem sync_serves_domains:
  assumes "sync_from_project o1 (Inr cs) s = (Inr u, s')" "config_file s = Inr cfg" "discover_routes cs \<noteq> []"
    and "rs = sync_routes (discover_routes cs) (routes cfg)"
    and "cert_faults o1 = (\<lambda>_. None)" "spawn_alive o1"
    and "certs_ok (certs s)" "list_all line_text (needed_sans (map domain rs))"
  shows "config_file s' = Inr (cfg\<lparr>routes := rs\<rparr>)
    \<and> (\<forall>d. route_to rs d = (if d \<in> domain ` set (discover_routes cs) then route_to (discover_routes cs) d
                           else route_to (routes cfg) d))
    \<and> (\<exists>c. srv_cert (certs s') = Some c \<and>
        (\<forall>d\<in>domain ` set rs. CHR ''*'' \<notin> set d \<or> starts_with ''*.'' d \<longrightarrow> (\<exists>n\<in>set (cert_sans c). covers n d)))
    \<and> certs_ok (certs s') \<and> daemon_up s' \<and> (certs s' \<noteq> certs s \<longrightarrow> last (daemon_events s') = Spawn)"
proof -
  obtain renewed s1 where st: "update_cert o1 rs s = (renewed, s1)" "save_fails o1 = None"
      "s1\<lparr>config_file := Inr (cfg\<lparr>routes := rs\<rparr>)\<rparr> = s' \<and> srv_cert (certs s') = None \<or>
       notify_daemon o1 True renewed (s1\<lparr>config_file := Inr (cfg\<lparr>routes := rs\<rparr>)\<rparr>) = (Inr u, s')"
    using sync_steps[OF assms(1-3)] assms(4) by metis
  obtain c where c: "certs_ok (certs s1)" "\<not> renewed \<longrightarrow> certs s1 = certs s" "srv_cert (certs s1) = Some c"
      "needed_sans (map domain rs) \<noteq> [] \<longrightarrow> cert_sans c = needed_sans (map domain rs)"
    using update_cert_no_faults[OF assms(5) st(1) assms(7,8)] by blast
  have n: "notify_daemon o1 True renewed (s1\<lparr>config_file := Inr (cfg\<lparr>routes := rs\<rparr>)\<rparr>) = (Inr u, s')"
    using st(3) c(3) by auto
  have cs: "certs s' = certs s1" using notify_keeps[OF n] by simp
  have up: "daemon_up s' \<and> (renewed \<longrightarrow> last (daemon_events s') = Spawn)"
    using n assms(6) by (auto simp: notify_daemon_def restart_daemon_def spawn_daemon_def stop_daemon_def
        sighup_daemon_def split: if_splits option.splits)
  have cover: "\<forall>d\<in>domain ` set rs. CHR ''*'' \<notin> set d \<or> starts_with ''*.'' d \<longrightarrow> (\<exists>n\<in>set (cert_sans c). covers n d)"
  proof (intro ballI impI)
    fix d assume d: "d \<in> domain ` set rs" "CHR ''*'' \<notin> set d \<or> starts_with ''*.'' d"
    have "d \<in> set (map domain rs)" using d(1) by simp
    then obtain n where n: "n \<in> set (needed_sans (map domain rs))" "covers n d"
      using needed_sans_covers[of "map domain rs"] d(2) by blast
    then have "needed_sans (map domain rs) \<noteq> []" by (metis list.set(1) empty_iff)
    then show "\<exists>n\<in>set (cert_sans c). covers n d" using n c(4) by metis
  qed
  have look: "\<forall>d. route_to rs d = (if d \<in> domain ` set (discover_routes cs) then route_to (discover_routes cs) d
                           else route_to (routes cfg) d)"
    unfolding assms(4) route_to_sync by simp
  have conf: "config_file s' = Inr (cfg\<lparr>routes := rs\<rparr>)" using sync_config[OF assms(1-3)] assms(4) by simp
  show ?thesis using conf look cover c cs up by auto
qed

definition web_container :: project_container where
  "web_container = \<lparr>clabels = JObj [(''dip.host'', JStr ''shop.test:8080'')], cip = Some ''10.0.0.2''\<rparr>"

definition calm :: outside where
  "calm = \<lparr>cert_faults = (\<lambda>_. None), day = 0, key_ca = 1, key_srv = 2, save_fails = None, spawn_fails = None,
           spawn_alive = True\<rparr>"

definition fresh_proxy :: proxy_state where
  "fresh_proxy = \<lparr>config_file = Inr default_config, certs = no_certs, daemon_up = False, daemon_events = []\<rparr>"

theorem sync_serves_domains_witness:
  "daemon_up (snd (sync_from_project calm (Inr [web_container]) fresh_proxy)) \<and>
   config_file (snd (sync_from_project calm (Inr [web_container]) fresh_proxy)) =
     Inr (default_config\<lparr>routes := [\<lparr>domain = ''shop.test'', upstream = ''10.0.0.2:8080''\<rparr>]\<rparr>)"
proof -
  let ?s = "snd (sync_from_project calm (Inr [web_container]) fresh_proxy)"
  have d: "discover_routes [web_container] = [\<lparr>domain = ''shop.test'', upstream = ''10.0.0.2:8080''\<rparr>]" by code_simp
  have r: "sync_routes (discover_routes [web_container]) (routes default_config)
      = [\<lparr>domain = ''shop.test'', upstream = ''10.0.0.2:8080''\<rparr>]" unfolding d by code_simp
  have "fst (sync_from_project calm (Inr [web_container]) fresh_proxy) = Inr ()" by code_simp
  then have run: "sync_from_project calm (Inr [web_container]) fresh_proxy = (Inr (), ?s)" by (metis prod.collapse)
  have n: "list_all line_text (needed_sans (map domain [\<lparr>domain = ''shop.test'', upstream = ''10.0.0.2:8080''\<rparr>]))"
    by code_simp
  have ok: "certs_ok (certs fresh_proxy)" by (simp add: fresh_proxy_def certs_ok_def no_certs_def)
  show ?thesis
    using sync_serves_domains[OF run _ _ _ _ _ ok, of default_config, OF _ _ refl] d r n
    by (simp add: fresh_proxy_def calm_def)
qed



text \<open>
  The watcher and the sync read a container's \<open>dip.host\<close> labels by code of their own. On every
  value without quotes they find the same domain and port, but for a value that names no domain,
  which only the sync leaves out.
\<close>

theorem label_readers_agree:
  assumes "is_host_label k" "dquote \<notin> set v" "squote \<notin> set v"
  shows "host_entry (k, JStr v) = (if fst (parse_host_value v) = [] then None else Some (parse_host_value v))"
proof -
  have t: "trim_matches squote (trim_matches dquote (trim w)) = trim w" if "set w \<subseteq> set v" for w
  proof -
    have "dquote \<notin> set (trim w)" "squote \<notin> set (trim w)" using assms(2,3) that set_trim[of w] by fast+
    then show ?thesis by (metis no_quotes_trim_matches)
  qed
  show ?thesis
  proof (cases "split_once CHR '':'' (trim v)")
    case None
    then show ?thesis
      using assms(1) t[of v] by (simp add: host_entry_def clean_host_value_def parse_host_value_def Let_def del: split_once_None split_once_Some)
  next
    case (Some dp)
    obtain d p where dp: "dp = (d, p)" by (cases dp)
    then have v: "trim v = d @ CHR '':'' # p" using Some by simp
    then have vt: "trim (d @ CHR '':'' # p) = d @ CHR '':'' # p" by (metis trim_trim)
    from v have "set d \<subseteq> set v" using set_trim[of v] by auto
    then show ?thesis
      using assms(1) Some dp v vt t[of v] t[of d]
      by (simp add: host_entry_def clean_host_value_def parse_host_value_def Let_def del: split_once_None split_once_Some)
  qed
qed

theorem label_readers_agree_witness:
  "host_entry (''dip.host.api'', JStr '' api.test:3000 '') = Some (''api.test'', ''3000'') \<and>
   parse_host_value '' api.test:3000 '' = (''api.test'', ''3000'')"
proof -
  have k: "is_host_label ''dip.host.api''" by code_simp
  have p: "parse_host_value '' api.test:3000 '' = (''api.test'', ''3000'')" by code_simp
  show ?thesis using label_readers_agree[OF k, of "'' api.test:3000 ''"] p by simp
qed

section \<open>Where the two readers part\<close>

text \<open>
  Quotes around the domain alone are read away by the sync only, and a blank label becomes a
  route for the empty domain in the watcher.
\<close>

theorem label_readers_disagree:
  "host_entry (''dip.host'', JStr ([dquote] @ ''a.test'' @ [dquote] @ '':80'')) = Some (''a.test'', ''80'') \<and>
   parse_host_value ([dquote] @ ''a.test'' @ [dquote] @ '':80'') = (''a.test'' @ [dquote], ''80'') \<and>
   host_entry (''dip.host'', JStr '' '') = None \<and> parse_host_value '' '' = ([], ''80'')"
  by code_simp

text \<open>Two containers with the same domain leave two routes for it, of which only the first is served.\<close>

theorem sync_keeps_duplicates:
  "distinct_domains (routes default_config) \<and>
   \<not> distinct_domains (sync_routes (discover_routes [web_container, web_container\<lparr>cip := Some ''10.0.0.3''\<rparr>]) (routes default_config))"
  by code_simp

end
