(* ===== verification/Dip_Sql.thy ===== *)
theory Dip_Sql
  imports Dip_Prelude "HOL-Library.Word"
begin

text \<open>
  The SQL text that \<open>db/migrate.rs\<close> builds: quoted names, literals of cells and INSERT
  statements, in the dialects of PostgreSQL and MySQL. What the two servers read is given by
  scanners for their quoted tokens; the locale \<open>dialect\<close> says that a scanner reads back what
  the code writes, and proves it once for whole statements. Dates and times are those of the
  crate \<open>time\<close>, decimals the text \<open>rust_decimal\<close> prints, JSON is printed by the parameter
  \<open>show_json\<close>.
\<close>

section \<open>Names and strings\<close>

definition pg_ident :: "string \<Rightarrow> string" where
  "pg_ident name = [dquote] @ replace_char dquote [dquote, dquote] name @ [dquote]"

definition pg_string_literal :: "string \<Rightarrow> string" where
  "pg_string_literal s = [squote] @ replace_char squote [squote, squote] s @ [squote]"

definition mysql_ident :: "string \<Rightarrow> string" where
  "mysql_ident name = [btick] @ replace_char btick [btick, btick] name @ [btick]"

definition nul :: char where
  "nul = CHR 0x00"

definition mysql_escape_str :: "string \<Rightarrow> string" where
  "mysql_escape_str s =
     replace_char cr (bslash # ''r'') (replace_char nl (bslash # ''n'') (replace_char nul (bslash # ''0'')
       (replace_char squote [bslash, squote] (replace_char bslash [bslash, bslash] s))))"

definition mysql_string_literal :: "string \<Rightarrow> string" where
  "mysql_string_literal s = [squote] @ mysql_escape_str s @ [squote]"

definition hex_digit :: "nat \<Rightarrow> char" where
  "hex_digit n = (if n < 10 then char_of (48 + n) else char_of (87 + n))"

definition hex_encode :: "8 word list \<Rightarrow> string" where
  "hex_encode bs = concat (map (\<lambda>b. [hex_digit (unat b div 16), hex_digit (unat b mod 16)]) bs)"

section \<open>Cells\<close>

text \<open>A finite \<open>f64\<close> is a sign, its shortest decimal digits and their exponent.\<close>

datatype float64 = Finite bool nat int | Nan | Infinite bool

record date =
  d_year :: int
  d_month :: nat
  d_day :: nat

record time_of_day =
  t_hour :: nat
  t_minute :: nat
  t_second :: nat
  t_nanos :: nat

datatype cell = CNull | CBool bool | CInt int | CUInt nat | CFloat float64 | CDecimal string | CText string
  | CBytes "8 word list" | CDate date | CTime time_of_day | CDateTime date time_of_day | CJson json

definition pad :: "nat \<Rightarrow> nat \<Rightarrow> string" where
  "pad width n = replicate (width - length (show_nat n)) (CHR ''0'') @ show_nat n"

definition show_f64 :: "float64 \<Rightarrow> string" where
  "show_f64 f =
     (case f of
        Nan \<Rightarrow> ''NaN''
      | Infinite neg \<Rightarrow> (if neg then ''-inf'' else ''inf'')
      | Finite neg m e \<Rightarrow>
          (if neg then ''-'' else []) @
          (if 0 \<le> e then show_nat m @ (if m = 0 then [] else replicate (nat e) (CHR ''0''))
           else (let ds = pad (nat (- e) + 1) m; k = length ds - nat (- e) in take k ds @ ''.'' @ drop k ds)))"

definition date_literal :: "date \<Rightarrow> string" where
  "date_literal d =
     (if d_year d < 0 then ''-'' else []) @ pad 4 (nat \<bar>d_year d\<bar>) @ ''-'' @ pad 2 (d_month d) @ ''-'' @ pad 2 (d_day d)"

definition push_subsecond :: "string \<Rightarrow> nat \<Rightarrow> string" where
  "push_subsecond out nanos =
     (if nanos = 0 then out
      else if nanos mod 1000000 = 0 then out @ ''.'' @ pad 3 (nanos div 1000000)
      else if nanos mod 1000 = 0 then out @ ''.'' @ pad 6 (nanos div 1000)
      else out @ ''.'' @ pad 9 nanos)"

definition clock_text :: "time_of_day \<Rightarrow> string" where
  "clock_text t = pad 2 (t_hour t) @ '':'' @ pad 2 (t_minute t) @ '':'' @ pad 2 (t_second t)"

definition time_literal :: "time_of_day \<Rightarrow> string" where
  "time_literal t = push_subsecond (clock_text t) (t_nanos t)"

definition datetime_literal :: "date \<Rightarrow> time_of_day \<Rightarrow> string" where
  "datetime_literal d t = push_subsecond (date_literal d @ '' '' @ clock_text t) (t_nanos t)"

definition in_quotes :: "string \<Rightarrow> string" where
  "in_quotes s = [squote] @ s @ [squote]"

definition cell_to_pg_literal :: "(json \<Rightarrow> string) \<Rightarrow> cell \<Rightarrow> string" where
  "cell_to_pg_literal show_json c =
     (case c of
        CNull \<Rightarrow> ''NULL''
      | CBool b \<Rightarrow> (if b then ''TRUE'' else ''FALSE'')
      | CInt n \<Rightarrow> show_int n
      | CUInt n \<Rightarrow> show_nat n
      | CFloat f \<Rightarrow> (case f of Finite _ _ _ \<Rightarrow> show_f64 f | _ \<Rightarrow> ''NULL'')
      | CDecimal d \<Rightarrow> d
      | CText s \<Rightarrow> pg_string_literal s
      | CBytes b \<Rightarrow> in_quotes (bslash # ''x'' @ hex_encode b)
      | CDate d \<Rightarrow> in_quotes (date_literal d)
      | CTime t \<Rightarrow> in_quotes (time_literal t)
      | CDateTime d t \<Rightarrow> in_quotes (datetime_literal d t)
      | CJson j \<Rightarrow> pg_string_literal (show_json j))"

definition cell_to_mysql_literal :: "(json \<Rightarrow> string) \<Rightarrow> cell \<Rightarrow> string" where
  "cell_to_mysql_literal show_json c =
     (case c of
        CNull \<Rightarrow> ''NULL''
      | CBool b \<Rightarrow> (if b then ''1'' else ''0'')
      | CInt n \<Rightarrow> show_int n
      | CUInt n \<Rightarrow> show_nat n
      | CFloat f \<Rightarrow> show_f64 f
      | CDecimal d \<Rightarrow> d
      | CText s \<Rightarrow> mysql_string_literal s
      | CBytes b \<Rightarrow> CHR ''X'' # in_quotes (hex_encode b)
      | CDate d \<Rightarrow> in_quotes (date_literal d)
      | CTime t \<Rightarrow> in_quotes (time_literal t)
      | CDateTime d t \<Rightarrow> in_quotes (datetime_literal d t)
      | CJson j \<Rightarrow> mysql_string_literal (show_json j))"

section \<open>INSERT statements\<close>

definition row_sql :: "(cell \<Rightarrow> string) \<Rightarrow> cell list \<Rightarrow> string" where
  "row_sql lit row = ''('' @ join '', '' (map lit row) @ '')''"

definition insert_sql :: "(string \<Rightarrow> string) \<Rightarrow> (cell \<Rightarrow> string) \<Rightarrow> string \<Rightarrow> string list \<Rightarrow> cell list list \<Rightarrow> string" where
  "insert_sql ident lit table cols batch =
     ''INSERT INTO '' @ ident table @ '' ('' @ join '', '' (map ident cols) @ '') VALUES ''
     @ join '', '' (map (row_sql lit) batch)"

definition pg_insert_sql :: "(json \<Rightarrow> string) \<Rightarrow> string \<Rightarrow> string list \<Rightarrow> cell list list \<Rightarrow> string" where
  "pg_insert_sql show_json = insert_sql pg_ident (cell_to_pg_literal show_json)"

definition mysql_insert_sql :: "(json \<Rightarrow> string) \<Rightarrow> string \<Rightarrow> string list \<Rightarrow> cell list list \<Rightarrow> string" where
  "mysql_insert_sql show_json = insert_sql mysql_ident (cell_to_mysql_literal show_json)"

section \<open>What a server reads\<close>

text \<open>The content of a token up to its closing quote, where a doubled quote stands for itself.\<close>

fun scan_doubled :: "char \<Rightarrow> string \<Rightarrow> (string \<times> string) option" where
  "scan_doubled q [] = None"
| "scan_doubled q [c] = (if c = q then Some ([], []) else None)"
| "scan_doubled q (c # d # s) =
     (if c = q then
        (if d = q then map_option (\<lambda>(a, r). (q # a, r)) (scan_doubled q s) else Some ([], d # s))
      else map_option (\<lambda>(a, r). (c # a, r)) (scan_doubled q (d # s)))"

definition unescaped :: "char \<Rightarrow> char" where
  "unescaped c =
     (if c = CHR ''n'' then nl else if c = CHR ''r'' then cr else if c = CHR ''0'' then nul
      else if c = CHR ''t'' then tab else c)"

text \<open>A MySQL string also reads a backslash with its next character.\<close>

fun scan_mysql :: "string \<Rightarrow> (string \<times> string) option" where
  "scan_mysql [] = None"
| "scan_mysql [c] = (if c = squote then Some ([], []) else None)"
| "scan_mysql (c # d # s) =
     (if c = squote then
        (if d = squote then map_option (\<lambda>(a, r). (squote # a, r)) (scan_mysql s) else Some ([], d # s))
      else if c = bslash then map_option (\<lambda>(a, r). (unescaped d # a, r)) (scan_mysql s)
      else map_option (\<lambda>(a, r). (c # a, r)) (scan_mysql (d # s)))"

definition scan_quoted :: "char \<Rightarrow> string \<Rightarrow> (string \<times> string) option" where
  "scan_quoted q s = (case s of c # s' \<Rightarrow> if c = q then scan_doubled q s' else None | [] \<Rightarrow> None)"

datatype token = Bare string | Quoted string | Hex string

definition word_end :: "char \<Rightarrow> bool" where
  "word_end c \<longleftrightarrow> c = CHR '','' \<or> c = CHR '')''"

definition scan_bare :: "string \<Rightarrow> (token \<times> string) option" where
  "scan_bare s = Some (Bare (takeWhile (\<lambda>c. \<not> word_end c) s), dropWhile (\<lambda>c. \<not> word_end c) s)"

definition scan_pg_value :: "string \<Rightarrow> (token \<times> string) option" where
  "scan_pg_value s =
     (case s of
        [] \<Rightarrow> None
      | c # s' \<Rightarrow>
          (if c = squote then map_option (\<lambda>(a, r). (Quoted a, r)) (scan_doubled squote s') else scan_bare s))"

definition scan_mysql_value :: "string \<Rightarrow> (token \<times> string) option" where
  "scan_mysql_value s =
     (case s of
        [] \<Rightarrow> None
      | c # s' \<Rightarrow>
          (if c = squote then map_option (\<lambda>(a, r). (Quoted a, r)) (scan_mysql s')
           else if starts_with [CHR ''X'', squote] s then map_option (\<lambda>(a, r). (Hex a, r)) (scan_doubled squote (tl s'))
           else scan_bare s))"

text \<open>One or more items with \<open>", "\<close> between them; the fuel bounds their number.\<close>

fun scan_sep :: "nat \<Rightarrow> (string \<Rightarrow> ('t \<times> string) option) \<Rightarrow> string \<Rightarrow> ('t list \<times> string) option" where
  "scan_sep 0 one s = None"
| "scan_sep (Suc n) one s =
     (case one s of
        None \<Rightarrow> None
      | Some (t, r) \<Rightarrow>
          (case strip_prefix '', '' r of
             Some r' \<Rightarrow> map_option (\<lambda>(ts, r''). (t # ts, r'')) (scan_sep n one r')
           | None \<Rightarrow> Some ([t], r)))"

definition scan_row :: "nat \<Rightarrow> (string \<Rightarrow> (token \<times> string) option) \<Rightarrow> string \<Rightarrow> (token list \<times> string) option" where
  "scan_row n one s =
     (case strip_prefix ''('' s of
        None \<Rightarrow> None
      | Some s1 \<Rightarrow>
          (case scan_sep n one s1 of
             Some (ts, s2) \<Rightarrow> map_option (\<lambda>r. (ts, r)) (strip_prefix '')'' s2)
           | None \<Rightarrow> None))"

text \<open>Table, columns and rows of an INSERT statement, when all of it is one.\<close>

definition read_insert ::
    "(string \<Rightarrow> (string \<times> string) option) \<Rightarrow> (string \<Rightarrow> (token \<times> string) option) \<Rightarrow> string
      \<Rightarrow> (string \<times> string list \<times> token list list) option" where
  "read_insert scan_name scan_value sql =
     Option.bind (strip_prefix ''INSERT INTO '' sql) (\<lambda>s1.
     Option.bind (scan_name s1) (\<lambda>(table, s2).
     Option.bind (strip_prefix '' ('' s2) (\<lambda>s3.
     Option.bind (scan_sep (length sql) scan_name s3) (\<lambda>(cols, s4).
     Option.bind (strip_prefix '') VALUES '' s4) (\<lambda>s5.
     Option.bind (scan_sep (length sql) (scan_row (length sql) scan_value) s5) (\<lambda>(rows, s6).
       if s6 = [] then Some (table, cols, rows) else None))))))"

section \<open>Dialects\<close>

text \<open>What may follow a value, and what may follow a name, in the statements above.\<close>

definition after_value :: "string \<Rightarrow> bool" where
  "after_value r \<longleftrightarrow> r \<noteq> [] \<and> word_end (hd r)"

definition after_name :: "string \<Rightarrow> bool" where
  "after_name r \<longleftrightarrow> r \<noteq> [] \<and> (word_end (hd r) \<or> hd r = spc)"

lemma scan_sep_join:
  assumes one: "\<And>x r. x \<in> set xs \<Longrightarrow> P r \<Longrightarrow> one (f x @ r) = Some (t x, r)"
    and sep: "\<And>s. P ('', '' @ s)" and rest: "P rest" "strip_prefix '', '' rest = None"
    and n: "xs \<noteq> []" "length xs \<le> n"
  shows "scan_sep n one (join '', '' (map f xs) @ rest) = Some (map t xs, rest)"
  using n one
proof (induction xs arbitrary: n)
  case (Cons x xs)
  obtain m where m: "n = Suc m" using Cons.prems(2) by (cases n) auto
  show ?case
  proof (cases "xs = []")
    case True
    then show ?thesis using m rest Cons.prems(3)[of x rest] by simp
  next
    case False
    have ih: "scan_sep m one (join '', '' (map f xs) @ rest) = Some (map t xs, rest)"
      using Cons.IH[OF False] Cons.prems m by simp
    have "one (f x @ '', '' @ join '', '' (map f xs) @ rest) = Some (t x, '', '' @ join '', '' (map f xs) @ rest)"
      using Cons.prems(3)[of x] sep by simp
    then show ?thesis using m False ih by (simp add: join_Cons del: append_Cons append_Nil)
  qed
qed simp

lemma length_join: "\<forall>x\<in>set xs. x \<noteq> [] \<Longrightarrow> length xs \<le> length (join d xs)"
proof (induction xs)
  case (Cons x xs)
  then have "1 \<le> length x" by (cases x) auto
  then show ?case using Cons by (simp add: join_Cons)
qed simp

lemma length_join_member: "x \<in> set xs \<Longrightarrow> length x \<le> length (join d xs)"
  by (induction xs) (auto simp: join_Cons)

locale dialect =
  fixes ident :: "string \<Rightarrow> string"
    and scan_name :: "string \<Rightarrow> (string \<times> string) option"
    and lit :: "cell \<Rightarrow> string"
    and scan_value :: "string \<Rightarrow> (token \<times> string) option"
    and tok :: "cell \<Rightarrow> token"
    and ok :: "cell \<Rightarrow> bool"
  assumes name_back: "after_name r \<Longrightarrow> scan_name (ident n @ r) = Some (n, r)"
    and value_back: "ok c \<Longrightarrow> after_value r \<Longrightarrow> scan_value (lit c @ r) = Some (tok c, r)"
    and name_text: "ident n \<noteq> []"
    and value_text: "ok c \<Longrightarrow> lit c \<noteq> []"
begin

lemma row_back:
  assumes "row \<noteq> []" "\<forall>c\<in>set row. ok c" "length row \<le> n"
  shows "scan_row n scan_value (row_sql lit row @ r) = Some (map tok row, r)"
proof -
  have "scan_sep n scan_value (join '', '' (map lit row) @ '')'' @ r) = Some (map tok row, '')'' @ r)"
    by (rule scan_sep_join[where P = after_value])
      (use assms value_back in \<open>auto simp: after_value_def word_end_def\<close>)
  then show ?thesis by (simp add: scan_row_def row_sql_def)
qed

lemma insert_back:
  assumes "cols \<noteq> []" "batch \<noteq> []" "\<forall>row\<in>set batch. row \<noteq> [] \<and> (\<forall>c\<in>set row. ok c)"
  shows "read_insert scan_name scan_value (insert_sql ident lit table cols batch)
    = Some (table, cols, map (map tok) batch)"
proof -
  let ?sql = "insert_sql ident lit table cols batch"
  let ?rows = "join '', '' (map (row_sql lit) batch)"
  have rows_len: "length row \<le> length (row_sql lit row)" if "row \<in> set batch" for row
    using length_join[of "map lit row" "'', ''"] that assms(3) value_text by (fastforce simp: row_sql_def)
  have n: "length cols \<le> length ?sql" "length batch \<le> length ?sql" "\<forall>row\<in>set batch. length row \<le> length ?sql"
  proof -
    show "length cols \<le> length ?sql"
      using length_join[of "map ident cols" "'', ''"] name_text by (auto simp: insert_sql_def)
    show "length batch \<le> length ?sql"
      using length_join[of "map (row_sql lit) batch" "'', ''"] by (simp add: insert_sql_def row_sql_def)
    show "\<forall>row\<in>set batch. length row \<le> length ?sql"
    proof
      fix row assume row: "row \<in> set batch"
      then have "length (row_sql lit row) \<le> length ?rows" by (intro length_join_member) simp
      then show "length row \<le> length ?sql" using rows_len[OF row] by (simp add: insert_sql_def)
    qed
  qed
  have t: "scan_name (ident table @ '' ('' @ s) = Some (table, '' ('' @ s)" for s
    by (rule name_back) (simp add: after_name_def)
  have c: "scan_sep (length ?sql) scan_name (join '', '' (map ident cols) @ '') VALUES '' @ ?rows)
      = Some (map (\<lambda>n. n) cols, '') VALUES '' @ ?rows)"
    by (rule scan_sep_join[where P = after_name])
      (use assms name_back n in \<open>auto simp: after_name_def word_end_def\<close>)
  have r: "scan_sep (length ?sql) (scan_row (length ?sql) scan_value) (?rows @ []) = Some (map (map tok) batch, [])"
    by (rule scan_sep_join[where P = "\<lambda>_. True"]) (use assms row_back n in auto)
  have s: "?sql = ''INSERT INTO '' @ ident table @ '' ('' @ join '', '' (map ident cols) @ '') VALUES '' @ ?rows"
    by (simp add: insert_sql_def)
  show ?thesis
    unfolding read_insert_def using t c r
    by (subst s) (simp del: append_Cons append_Nil)
qed

end

section \<open>The scanners read back\<close>

lemma scan_doubled_simps:
  "c \<noteq> q \<Longrightarrow> scan_doubled q (c # s) = map_option (\<lambda>(a, r). (c # a, r)) (scan_doubled q s)"
  "r = [] \<or> hd r \<noteq> q \<Longrightarrow> scan_doubled q (q # r) = Some ([], r)"
  by (cases s; simp) (cases r; simp)

lemma replace_char_Cons: "replace_char d r (c # s) = (if c = d then r else [c]) @ replace_char d r s"
  by (simp add: replace_char_def)

lemma scan_doubled_back:
  "r = [] \<or> hd r \<noteq> q \<Longrightarrow> scan_doubled q (replace_char q [q, q] s @ q # r) = Some (s, r)"
proof (induction s)
  case Nil
  then show ?case by (simp add: replace_char_def scan_doubled_simps)
next
  case (Cons c s)
  then show ?case by (cases "c = q") (simp_all add: replace_char_Cons scan_doubled_simps)
qed

lemma scan_quoted_back:
  "r = [] \<or> hd r \<noteq> q \<Longrightarrow> scan_quoted q (q # replace_char q [q, q] s @ q # r) = Some (s, r)"
  by (simp add: scan_quoted_def scan_doubled_back)

definition escaped :: "char \<Rightarrow> string" where
  "escaped c =
     (if c = bslash then [bslash, bslash] else if c = squote then [bslash, squote]
      else if c = nul then bslash # ''0'' else if c = nl then bslash # ''n'' else if c = cr then bslash # ''r'' else [c])"

lemma escape_step:
  "replace_char cr (bslash # ''r'') (replace_char nl (bslash # ''n'') (replace_char nul (bslash # ''0'')
     (replace_char squote [bslash, squote] (replace_char bslash [bslash, bslash] [c])))) = escaped c"
  by (auto simp: replace_char_def escaped_def nul_def)

lemma mysql_escape_concat: "mysql_escape_str s = concat (map escaped s)"
proof (induction s)
  case (Cons c s)
  have "mysql_escape_str (c # s) = mysql_escape_str [c] @ mysql_escape_str s"
    unfolding mysql_escape_str_def
    by (subst append_Cons[of c "[]" s, unfolded append_Nil, symmetric]) (simp only: replace_char_simps(3))
  then show ?case using Cons escape_step[of c] by (simp add: mysql_escape_str_def)
qed (simp add: mysql_escape_str_def replace_char_def)

lemma scan_mysql_simps:
  "c \<noteq> squote \<Longrightarrow> c \<noteq> bslash \<Longrightarrow> scan_mysql (c # s) = map_option (\<lambda>(a, r). (c # a, r)) (scan_mysql s)"
  "r = [] \<or> hd r \<noteq> squote \<Longrightarrow> scan_mysql (squote # r) = Some ([], r)"
  "scan_mysql (bslash # d # s) = map_option (\<lambda>(a, r). (unescaped d # a, r)) (scan_mysql s)"
  by (cases s; simp) (cases r; simp)+

lemma scan_escaped: "scan_mysql (escaped c @ s) = map_option (\<lambda>(a, r). (c # a, r)) (scan_mysql s)"
  unfolding escaped_def
  by (simp add: scan_mysql_simps unescaped_def nul_def)

lemma scan_mysql_back:
  "r = [] \<or> hd r \<noteq> squote \<Longrightarrow> scan_mysql (mysql_escape_str s @ squote # r) = Some (s, r)"
  unfolding mysql_escape_concat by (induction s) (simp_all add: scan_mysql_simps scan_escaped)

text \<open>Text without a quote is read as it stands.\<close>

lemma scan_plain:
  assumes "q \<notin> set s" "r = [] \<or> hd r \<noteq> q"
  shows "scan_doubled q (s @ q # r) = Some (s, r)"
  using assms
proof (induction s)
  case (Cons c s)
  then have "c \<noteq> q" by auto
  then show ?case using Cons by (simp add: scan_doubled_simps)
qed (simp add: scan_doubled_simps)

lemma scan_mysql_plain:
  assumes "squote \<notin> set s" "bslash \<notin> set s" "r = [] \<or> hd r \<noteq> squote"
  shows "scan_mysql (s @ squote # r) = Some (s, r)"
  using assms
proof (induction s)
  case (Cons c s)
  then have "c \<noteq> squote" "c \<noteq> bslash" by auto
  then show ?case using Cons by (simp add: scan_mysql_simps)
qed (simp add: scan_mysql_simps)

text \<open>A bare value: not empty, without a comma, a parenthesis or a quote at its start.\<close>

definition bare_text :: "string \<Rightarrow> bool" where
  "bare_text s \<longleftrightarrow> s \<noteq> [] \<and> hd s \<noteq> squote \<and> hd s \<noteq> CHR ''X'' \<and> (\<forall>c\<in>set s. \<not> word_end c)"

lemma scan_bare_back:
  assumes "bare_text s" "after_value r"
  shows "scan_bare (s @ r) = Some (Bare s, r)"
proof -
  have s: "\<forall>c\<in>set s. \<not> word_end c" using assms(1) by (simp add: bare_text_def)
  then have "takeWhile (\<lambda>c. \<not> word_end c) (s @ r) = s" "dropWhile (\<lambda>c. \<not> word_end c) (s @ r) = r"
    using assms(2) by (simp_all add: takeWhile_append dropWhile_append after_value_def, (cases r; simp)+)
  then show ?thesis by (simp add: scan_bare_def)
qed

lemma scan_pg_bare: "bare_text s \<Longrightarrow> after_value r \<Longrightarrow> scan_pg_value (s @ r) = Some (Bare s, r)"
  using scan_bare_back[of s r] by (cases s) (auto simp: scan_pg_value_def bare_text_def)

lemma scan_mysql_bare: "bare_text s \<Longrightarrow> after_value r \<Longrightarrow> scan_mysql_value (s @ r) = Some (Bare s, r)"
  using scan_bare_back[of s r] by (cases s) (auto simp: scan_mysql_value_def bare_text_def starts_with_iff)

section \<open>Literals without quotes\<close>

text \<open>Characters of numbers, dates and hexadecimal digits: they end no token.\<close>

definition plain_char :: "char \<Rightarrow> bool" where
  "plain_char c \<longleftrightarrow> \<not> word_end c \<and> c \<noteq> squote \<and> c \<noteq> bslash \<and> c \<noteq> CHR ''X''"

lemma digit_plain: "is_digit c \<Longrightarrow> plain_char c"
  by (auto simp: plain_char_def word_end_def is_digit_def)

lemma plain_show_nat: "\<forall>c\<in>set (show_nat n). plain_char c"
  using show_nat_digit digit_plain by blast

lemma plain_signs: "plain_char (CHR ''-'')" "plain_char (CHR ''.'')" "plain_char (CHR '':'')" "plain_char spc"
  "plain_char (CHR ''0'')"
  by (simp_all add: plain_char_def word_end_def)

lemma plain_pad: "\<forall>c\<in>set (pad w n). plain_char c"
  using plain_show_nat[of n] plain_signs by (auto simp: pad_def)

lemma plain_show_int: "\<forall>c\<in>set (show_int i). plain_char c"
  using plain_show_nat plain_signs by (auto simp: show_int_def)

lemma plain_show_f64: "\<forall>c\<in>set (show_f64 f). plain_char c"
proof (cases f)
  case (Finite neg m e)
  have "\<forall>c\<in>set (take k (pad w n)) \<union> set (drop k (pad w n)). plain_char c" for k w n
    using plain_pad[of w n] by (meson Un_iff in_set_dropD in_set_takeD)
  then show ?thesis using Finite plain_show_nat[of m] plain_signs
    by (auto simp: show_f64_def Let_def)
qed (auto simp: show_f64_def plain_char_def word_end_def)

lemma plain_date: "\<forall>c\<in>set (date_literal d). plain_char c"
  using plain_pad plain_signs by (auto simp: date_literal_def)

lemma plain_clock: "\<forall>c\<in>set (clock_text t). plain_char c"
  using plain_pad plain_signs by (auto simp: clock_text_def)

lemma plain_subsecond: "\<forall>c\<in>set s. plain_char c \<Longrightarrow> \<forall>c\<in>set (push_subsecond s n). plain_char c"
  using plain_pad plain_signs by (auto simp: push_subsecond_def)

lemma plain_time: "\<forall>c\<in>set (time_literal t). plain_char c"
  unfolding time_literal_def by (rule plain_subsecond[OF plain_clock])

lemma plain_datetime: "\<forall>c\<in>set (datetime_literal d t). plain_char c"
  unfolding datetime_literal_def
  by (rule plain_subsecond) (use plain_date plain_clock plain_signs in auto)

lemma hex_digit_plain:
  assumes "n < 16"
  shows "plain_char (hex_digit n)"
proof -
  have "(of_char (hex_digit n) :: nat) = (if n < 10 then 48 + n else 87 + n)"
    using assms by (simp add: hex_digit_def)
  then have "of_char (hex_digit n) \<noteq> (of_char (CHR '','') :: nat) \<and> of_char (hex_digit n) \<noteq> (of_char (CHR '')'') :: nat) \<and>
      of_char (hex_digit n) \<noteq> (of_char squote :: nat) \<and> of_char (hex_digit n) \<noteq> (of_char bslash :: nat) \<and>
      of_char (hex_digit n) \<noteq> (of_char (CHR ''X'') :: nat)"
    using assms by (auto split: if_splits)
  then show ?thesis unfolding plain_char_def word_end_def by metis
qed

lemma plain_hex: "\<forall>c\<in>set (hex_encode bs). plain_char c"
proof -
  have "unat (b :: 8 word) div 16 < 16" for b using unsigned_less[where 'a = nat, of b] by simp
  then show ?thesis by (auto simp: hex_encode_def hex_digit_plain)
qed

lemma plain_no_quotes: "\<forall>c\<in>set s. plain_char c \<Longrightarrow> squote \<notin> set s \<and> bslash \<notin> set s"
  by (auto simp: plain_char_def)

lemma plain_bare: "\<forall>c\<in>set s. plain_char c \<Longrightarrow> s \<noteq> [] \<Longrightarrow> bare_text s"
  by (cases s) (auto simp: bare_text_def plain_char_def)

lemma show_f64_nonempty: "show_f64 f \<noteq> []"
  by (cases f) (auto simp: show_f64_def Let_def)

lemma show_int_nonempty: "show_int i \<noteq> []"
  by (simp add: show_int_def)

section \<open>The two dialects\<close>

definition cell_ok :: "cell \<Rightarrow> bool" where
  "cell_ok c \<longleftrightarrow> (case c of CDecimal d \<Rightarrow> bare_text d | _ \<Rightarrow> True)"

text \<open>What a cell is to the server: a word, a string with its content, or bytes.\<close>

definition pg_token :: "(json \<Rightarrow> string) \<Rightarrow> cell \<Rightarrow> token" where
  "pg_token show_json c =
     (case c of
        CText s \<Rightarrow> Quoted s
      | CJson j \<Rightarrow> Quoted (show_json j)
      | CBytes b \<Rightarrow> Quoted (bslash # ''x'' @ hex_encode b)
      | CDate d \<Rightarrow> Quoted (date_literal d)
      | CTime t \<Rightarrow> Quoted (time_literal t)
      | CDateTime d t \<Rightarrow> Quoted (datetime_literal d t)
      | _ \<Rightarrow> Bare (cell_to_pg_literal show_json c))"

definition mysql_token :: "(json \<Rightarrow> string) \<Rightarrow> cell \<Rightarrow> token" where
  "mysql_token show_json c =
     (case c of
        CText s \<Rightarrow> Quoted s
      | CJson j \<Rightarrow> Quoted (show_json j)
      | CBytes b \<Rightarrow> Hex (hex_encode b)
      | CDate d \<Rightarrow> Quoted (date_literal d)
      | CTime t \<Rightarrow> Quoted (time_literal t)
      | CDateTime d t \<Rightarrow> Quoted (datetime_literal d t)
      | _ \<Rightarrow> Bare (cell_to_mysql_literal show_json c))"

lemma after_value_quote: "after_value r \<Longrightarrow> r = [] \<or> hd r \<noteq> squote"
  by (auto simp: after_value_def word_end_def)

lemma after_name_quote: "after_name r \<Longrightarrow> r = [] \<or> hd r \<noteq> dquote \<and> hd r \<noteq> btick"
  by (auto simp: after_name_def word_end_def)

lemma pg_quoted:
  assumes "scan_doubled squote (s @ squote # r) = Some (t, r)"
  shows "scan_pg_value (squote # s @ squote # r) = Some (Quoted t, r)"
  using assms by (simp add: scan_pg_value_def)

lemma mysql_quoted:
  assumes "scan_mysql (s @ squote # r) = Some (t, r)"
  shows "scan_mysql_value (squote # s @ squote # r) = Some (Quoted t, r)"
  using assms by (simp add: scan_mysql_value_def)

lemma pg_in_quotes:
  assumes "\<forall>c\<in>set s. c \<noteq> squote" "after_value r"
  shows "scan_pg_value (in_quotes s @ r) = Some (Quoted s, r)"
  using pg_quoted[OF scan_plain] assms after_value_quote[OF assms(2)] by (auto simp: in_quotes_def)

lemma mysql_in_quotes:
  assumes "\<forall>c\<in>set s. plain_char c" "after_value r"
  shows "scan_mysql_value (in_quotes s @ r) = Some (Quoted s, r)"
  using mysql_quoted[OF scan_mysql_plain] plain_no_quotes[OF assms(1)] after_value_quote[OF assms(2)]
  by (auto simp: in_quotes_def)

lemma mysql_hex:
  assumes "\<forall>c\<in>set s. plain_char c" "after_value r"
  shows "scan_mysql_value (CHR ''X'' # in_quotes s @ r) = Some (Hex s, r)"
  using scan_plain[of squote s r] plain_no_quotes[OF assms(1)] after_value_quote[OF assms(2)]
  by (simp add: in_quotes_def scan_mysql_value_def)

lemma not_quote: "\<forall>c\<in>set s. plain_char c \<Longrightarrow> \<forall>c\<in>set s. c \<noteq> squote"
  by (simp add: plain_char_def)

lemma bare_words: "bare_text ''NULL''" "bare_text ''TRUE''" "bare_text ''FALSE''" "bare_text ''1''" "bare_text ''0''"
  by (simp_all add: bare_text_def word_end_def)

lemma pg_value_back:
  assumes "cell_ok c" "after_value r"
  shows "scan_pg_value (cell_to_pg_literal show_json c @ r) = Some (pg_token show_json c, r)"
proof (cases c)
  case (CBytes b)
  then show ?thesis using pg_in_quotes[of "bslash # ''x'' @ hex_encode b", OF _ assms(2)] not_quote[OF plain_hex]
    by (simp add: cell_to_pg_literal_def pg_token_def)
next
  case (CText s)
  then show ?thesis using pg_quoted[OF scan_doubled_back] after_value_quote[OF assms(2)]
    by (simp add: cell_to_pg_literal_def pg_token_def pg_string_literal_def)
next
  case (CJson j)
  then show ?thesis using pg_quoted[OF scan_doubled_back] after_value_quote[OF assms(2)]
    by (simp add: cell_to_pg_literal_def pg_token_def pg_string_literal_def)
next
  case (CFloat f)
  then show ?thesis using scan_pg_bare[OF plain_bare[OF plain_show_f64 show_f64_nonempty] assms(2)]
      scan_pg_bare[OF bare_words(1) assms(2)]
    by (cases f) (simp_all add: cell_to_pg_literal_def pg_token_def)
qed (use assms scan_pg_bare[OF bare_words(1)] scan_pg_bare[OF bare_words(2)] scan_pg_bare[OF bare_words(3)]
      scan_pg_bare[OF plain_bare[OF plain_show_int show_int_nonempty]]
      scan_pg_bare[OF plain_bare[OF plain_show_nat show_nat_nonempty]] scan_pg_bare
      pg_in_quotes[OF not_quote[OF plain_date]] pg_in_quotes[OF not_quote[OF plain_time]]
      pg_in_quotes[OF not_quote[OF plain_datetime]]
    in \<open>simp_all add: cell_to_pg_literal_def pg_token_def cell_ok_def\<close>)

lemma mysql_value_back:
  assumes "cell_ok c" "after_value r"
  shows "scan_mysql_value (cell_to_mysql_literal show_json c @ r) = Some (mysql_token show_json c, r)"
proof (cases c)
  case (CBytes b)
  then show ?thesis using mysql_hex[OF plain_hex assms(2)] by (simp add: cell_to_mysql_literal_def mysql_token_def)
next
  case (CText s)
  then show ?thesis using mysql_quoted[OF scan_mysql_back] after_value_quote[OF assms(2)]
    by (simp add: cell_to_mysql_literal_def mysql_token_def mysql_string_literal_def)
next
  case (CJson j)
  then show ?thesis using mysql_quoted[OF scan_mysql_back] after_value_quote[OF assms(2)]
    by (simp add: cell_to_mysql_literal_def mysql_token_def mysql_string_literal_def)
qed (use assms scan_mysql_bare[OF bare_words(1)] scan_mysql_bare[OF bare_words(4)] scan_mysql_bare[OF bare_words(5)]
      scan_mysql_bare[OF plain_bare[OF plain_show_int show_int_nonempty]]
      scan_mysql_bare[OF plain_bare[OF plain_show_nat show_nat_nonempty]] scan_mysql_bare
      scan_mysql_bare[OF plain_bare[OF plain_show_f64 show_f64_nonempty]]
      mysql_in_quotes[OF plain_date] mysql_in_quotes[OF plain_time] mysql_in_quotes[OF plain_datetime]
    in \<open>simp_all add: cell_to_mysql_literal_def mysql_token_def cell_ok_def\<close>)

lemma literal_nonempty:
  "cell_ok c \<Longrightarrow> cell_to_pg_literal show_json c \<noteq> []" "cell_ok c \<Longrightarrow> cell_to_mysql_literal show_json c \<noteq> []"
  by (cases c; simp add: cell_to_pg_literal_def cell_to_mysql_literal_def cell_ok_def bare_text_def in_quotes_def
      pg_string_literal_def mysql_string_literal_def show_int_nonempty show_f64_nonempty split: float64.split)+

interpretation pg: dialect pg_ident "scan_quoted dquote" "cell_to_pg_literal show_json" scan_pg_value
    "pg_token show_json" cell_ok for show_json
  by unfold_locales
    (use after_name_quote scan_quoted_back[of _ dquote] in \<open>auto simp: pg_ident_def pg_value_back literal_nonempty\<close>)

interpretation my: dialect mysql_ident "scan_quoted btick" "cell_to_mysql_literal show_json" scan_mysql_value
    "mysql_token show_json" cell_ok for show_json
  by unfold_locales
    (use after_name_quote scan_quoted_back[of _ btick] in \<open>auto simp: mysql_ident_def mysql_value_back literal_nonempty\<close>)

section \<open>Properties\<close>



text \<open>
  A number that is none: PostgreSQL is sent NULL, MySQL the word NaN, which it reads as the name of
  a column.
\<close>

theorem mysql_nan_is_a_name:
  "cell_to_pg_literal show_json (CFloat Nan) = ''NULL'' \<and> cell_to_mysql_literal show_json (CFloat Nan) = ''NaN''"
  by (simp add: cell_to_pg_literal_def cell_to_mysql_literal_def show_f64_def)

end
