(* ===== verification/Dip_Migrate.thy ===== *)
theory Dip_Migrate
  imports Dip_Sql Dip_Effects
begin

text \<open>
  The migration between MySQL and PostgreSQL of \<open>db/migrate.rs\<close>. What is read from the source
  database is a parameter: the rows of its catalogue, and for each table the stream of its rows,
  which may break off with an error. The target is a \<open>server\<close> that answers each statement,
  given as text, from the statements run so far; a statement is also kept as a value, so that
  theorems can speak of tables and rows.
\<close>

section \<open>Columns and their types\<close>

record mysql_col =
  mc_name :: string
  mc_type :: string
  mc_nullable :: bool
  mc_auto :: bool

record mysql_idx =
  ix_name :: string
  ix_columns :: "string list"
  ix_unique :: bool

record mysql_fk =
  fk_name :: string
  fk_column :: string
  fk_table :: string
  fk_ref :: string

record pg_col =
  pc_name :: string
  pc_type :: string
  pc_max_len :: "int option"
  pc_precision :: "int option"
  pc_scale :: "int option"
  pc_nullable :: bool
  pc_serial :: bool

definition first_word :: "string \<Rightarrow> string" where
  "first_word s = (case split_ws s of w # _ \<Rightarrow> w | [] \<Rightarrow> [])"

definition base_type :: "string \<Rightarrow> string" where
  "base_type ct = to_lower (first_word (takeWhile (\<lambda>c. c \<noteq> CHR ''('') ct))"

definition is_unsigned :: "string \<Rightarrow> bool" where
  "is_unsigned ct = contains_sub ''unsigned'' ct"

definition find_char :: "char \<Rightarrow> string \<Rightarrow> nat option" where
  "find_char c s = (if c \<in> set s then Some (length (takeWhile (\<lambda>x. x \<noteq> c) s)) else None)"

text \<open>The first parenthesised part; the slice panics when the first parenthesis closes one.\<close>

definition paren_part :: "string \<Rightarrow> string option exec" where
  "paren_part ct =
     (case (find_char CHR ''('' ct, find_char CHR '')'' ct) of
        (Some s, Some e) \<Rightarrow> (if s \<le> e + 1 then Returns (Some (take (e + 1 - s) (drop s ct))) else Panics)
      | _ \<Rightarrow> Returns None)"

definition with_paren :: "string \<Rightarrow> string \<Rightarrow> string option \<Rightarrow> string" where
  "with_paren name dflt p = (case p of Some x \<Rightarrow> name @ x | None \<Rightarrow> dflt)"

definition serial_type :: "string \<Rightarrow> string" where
  "serial_type ct =
     (if contains_sub ''bigint'' (to_lower (trim (takeWhile (\<lambda>c. c \<noteq> CHR ''('') ct))) then ''BIGSERIAL'' else ''SERIAL'')"

definition pg_type_of :: "string \<Rightarrow> bool \<Rightarrow> string option \<Rightarrow> string" where
  "pg_type_of base uns p =
     (if base \<in> {''tinyint'', ''smallint''} then ''SMALLINT''
      else if base \<in> {''mediumint'', ''int'', ''integer''} then (if uns then ''BIGINT'' else ''INTEGER'')
      else if base = ''bigint'' then (if uns then ''NUMERIC(20,0)'' else ''BIGINT'')
      else if base = ''float'' then ''REAL''
      else if base \<in> {''double'', ''real''} then ''DOUBLE PRECISION''
      else if base \<in> {''decimal'', ''numeric''} then with_paren ''NUMERIC'' ''NUMERIC'' p
      else if base = ''char'' then with_paren ''CHAR'' ''CHAR'' p
      else if base = ''varchar'' then with_paren ''VARCHAR'' ''TEXT'' p
      else if base \<in> {''tinytext'', ''text'', ''mediumtext'', ''longtext'', ''enum'', ''set''} then ''TEXT''
      else if base \<in> {''tinyblob'', ''blob'', ''mediumblob'', ''longblob'', ''binary'', ''varbinary''} then ''BYTEA''
      else if base = ''bit'' then with_paren ''BIT'' ''BIT'' p
      else if base = ''date'' then ''DATE''
      else if base = ''time'' then ''TIME''
      else if base = ''datetime'' then ''TIMESTAMP''
      else if base = ''timestamp'' then ''TIMESTAMPTZ''
      else if base = ''year'' then ''SMALLINT''
      else if base = ''json'' then ''JSONB''
      else ''TEXT'')"

definition mysql_type_to_pg :: "mysql_col \<Rightarrow> string exec" where
  "mysql_type_to_pg col =
     (let ct = mc_type col in
      if ct = ''tinyint(1)'' then Returns ''BOOLEAN''
      else if mc_auto col then Returns (serial_type ct)
      else bind_exec (paren_part ct) (\<lambda>p. Returns (pg_type_of (base_type ct) (is_unsigned ct) p)))"

definition pg_type_to_mysql :: "pg_col \<Rightarrow> string" where
  "pg_type_to_mysql col =
     (let t = pc_type col in
      if pc_serial col then (if t = ''bigint'' then ''BIGINT AUTO_INCREMENT'' else ''INT AUTO_INCREMENT'')
      else if t = ''boolean'' then ''TINYINT(1)''
      else if t = ''smallint'' then ''SMALLINT''
      else if t \<in> {''integer'', ''int''} then ''INT''
      else if t = ''bigint'' then ''BIGINT''
      else if t = ''real'' then ''FLOAT''
      else if t = ''double precision'' then ''DOUBLE''
      else if t \<in> {''numeric'', ''decimal''} then
        (case (pc_precision col, pc_scale col) of
           (Some p, Some s) \<Rightarrow> ''DECIMAL('' @ show_int p @ '','' @ show_int s @ '')''
         | (Some p, None) \<Rightarrow> ''DECIMAL('' @ show_int p @ '')''
         | _ \<Rightarrow> ''DECIMAL'')
      else if t \<in> {''character'', ''char''} then
        (case pc_max_len col of Some n \<Rightarrow> ''CHAR('' @ show_int n @ '')'' | None \<Rightarrow> ''CHAR(1)'')
      else if t = ''character varying'' then
        (case pc_max_len col of Some n \<Rightarrow> ''VARCHAR('' @ show_int n @ '')'' | None \<Rightarrow> ''LONGTEXT'')
      else if t = ''text'' then ''LONGTEXT''
      else if t = ''bytea'' then ''LONGBLOB''
      else if t = ''date'' then ''DATE''
      else if t \<in> {''time without time zone'', ''time with time zone''} then ''TIME''
      else if t \<in> {''timestamp without time zone'', ''timestamp with time zone''} then ''DATETIME''
      else if t \<in> {''json'', ''jsonb''} then ''JSON''
      else if t = ''uuid'' then ''CHAR(36)''
      else if t \<in> {''bit'', ''bit varying''} then ''BIT(8)''
      else ''LONGTEXT'')"

section \<open>The catalogue\<close>

definition table_wanted :: "string list option \<Rightarrow> string \<Rightarrow> bool" where
  "table_wanted flt t \<longleftrightarrow> t \<noteq> [] \<and> (case flt of Some f \<Rightarrow> t \<in> set f | None \<Rightarrow> True)"

definition tables_filter :: "string option \<Rightarrow> string list option" where
  "tables_filter tables = map_option (\<lambda>t. map trim (split_on CHR '','' t)) tables"

definition get_tables :: "string list option \<Rightarrow> string list \<Rightarrow> string list" where
  "get_tables flt rows = filter (table_wanted flt) rows"

definition mysql_column :: "string \<Rightarrow> string \<Rightarrow> string \<Rightarrow> string \<Rightarrow> mysql_col" where
  "mysql_column name ctype nullable extra =
     \<lparr>mc_name = name, mc_type = ctype, mc_nullable = eq_ignore_case nullable ''YES'',
      mc_auto = contains_sub ''auto_increment'' (to_lower extra)\<rparr>"

text \<open>Rows of the statistics table: index, column and the flag \<open>NON_UNIQUE\<close>.\<close>

fun add_index_row :: "string \<times> string \<times> int \<Rightarrow> mysql_idx list \<Rightarrow> mysql_idx list" where
  "add_index_row (name, col, nu) [] = [\<lparr>ix_name = name, ix_columns = [col], ix_unique = (nu = 0)\<rparr>]"
| "add_index_row (name, col, nu) (i # is) =
     (if ix_name i = name then i\<lparr>ix_columns := ix_columns i @ [col]\<rparr> # is
      else i # add_index_row (name, col, nu) is)"

definition mysql_get_indexes :: "(string \<times> string \<times> int) list \<Rightarrow> mysql_idx list" where
  "mysql_get_indexes rows = fold add_index_row rows []"

definition is_serial_default :: "string option \<Rightarrow> bool" where
  "is_serial_default d = (case d of Some t \<Rightarrow> contains_sub ''nextval('' t | None \<Rightarrow> False)"

section \<open>Statements\<close>

definition column_line :: "(string \<Rightarrow> string) \<Rightarrow> string \<Rightarrow> string \<Rightarrow> bool \<Rightarrow> string" where
  "column_line ident name ty nullable = ''  '' @ ident name @ '' '' @ ty @ (if nullable then [] else '' NOT NULL'')"

definition key_lines :: "(string \<Rightarrow> string) \<Rightarrow> string list \<Rightarrow> string list" where
  "key_lines ident pk = (if pk = [] then [] else [''  PRIMARY KEY ('' @ join '', '' (map ident pk) @ '')''])"

definition create_sql :: "(string \<Rightarrow> string) \<Rightarrow> string \<Rightarrow> string list \<Rightarrow> string" where
  "create_sql ident table lines =
     ''CREATE TABLE IF NOT EXISTS '' @ ident table @ '' ('' @ [nl] @ join ('','' @ [nl]) lines @ [nl] @ '')''"

fun pg_lines :: "mysql_col list \<Rightarrow> string list exec" where
  "pg_lines [] = Returns []"
| "pg_lines (c # cs) =
     bind_exec (mysql_type_to_pg c) (\<lambda>t. bind_exec (pg_lines cs) (\<lambda>ls.
       Returns (column_line pg_ident (mc_name c) t (mc_nullable c) # ls)))"

definition build_pg_create_table :: "string \<Rightarrow> mysql_col list \<Rightarrow> string list \<Rightarrow> string exec" where
  "build_pg_create_table table cols pk =
     bind_exec (pg_lines cols) (\<lambda>ls. Returns (create_sql pg_ident table (ls @ key_lines pg_ident pk)))"

definition build_mysql_create_table :: "string \<Rightarrow> pg_col list \<Rightarrow> string list \<Rightarrow> string" where
  "build_mysql_create_table table cols pk =
     create_sql mysql_ident table
       (map (\<lambda>c. column_line mysql_ident (pc_name c) (pg_type_to_mysql c) (pc_nullable c)) cols @ key_lines mysql_ident pk)
     @ '' ENGINE=InnoDB DEFAULT CHARSET=utf8mb4''"

definition build_pg_index :: "string \<Rightarrow> mysql_idx \<Rightarrow> string" where
  "build_pg_index table idx =
     ''CREATE '' @ (if ix_unique idx then ''UNIQUE '' else []) @ ''INDEX IF NOT EXISTS '' @ pg_ident (ix_name idx)
     @ '' ON '' @ pg_ident table @ '' ('' @ join '', '' (map pg_ident (ix_columns idx)) @ '')''"

definition build_pg_fk :: "string \<Rightarrow> mysql_fk \<Rightarrow> string" where
  "build_pg_fk table fk =
     ''ALTER TABLE '' @ pg_ident table @ '' ADD CONSTRAINT '' @ pg_ident (fk_name fk)
     @ '' FOREIGN KEY ('' @ pg_ident (fk_column fk) @ '') REFERENCES '' @ pg_ident (fk_table fk)
     @ '' ('' @ pg_ident (fk_ref fk) @ '')''"

definition setval_sql :: "string \<Rightarrow> string \<Rightarrow> string" where
  "setval_sql table col =
     ''SELECT setval(pg_get_serial_sequence('' @ pg_string_literal (pg_ident table) @ '', '' @ pg_string_literal col
     @ ''), COALESCE(MAX('' @ pg_ident col @ ''), 1)) FROM '' @ pg_ident table"

datatype stmt = Create string string
  | Truncate string
  | Insert string "string list" "cell list list"
  | Index string mysql_idx
  | Set_sequence string string
  | Add_fk string mysql_fk
  | Fk_checks bool

fun pg_text :: "(json \<Rightarrow> string) \<Rightarrow> stmt \<Rightarrow> string" where
  "pg_text sj (Create t sql) = sql"
| "pg_text sj (Truncate t) = ''TRUNCATE TABLE '' @ pg_ident t @ '' RESTART IDENTITY CASCADE''"
| "pg_text sj (Insert t cols b) = pg_insert_sql sj t cols b"
| "pg_text sj (Index t i) = build_pg_index t i"
| "pg_text sj (Set_sequence t c) = setval_sql t c"
| "pg_text sj (Add_fk t fk) = build_pg_fk t fk"
| "pg_text sj (Fk_checks b) = []"

fun mysql_text :: "(json \<Rightarrow> string) \<Rightarrow> stmt \<Rightarrow> string" where
  "mysql_text sj (Create t sql) = sql"
| "mysql_text sj (Truncate t) = ''TRUNCATE TABLE '' @ mysql_ident t"
| "mysql_text sj (Insert t cols b) = mysql_insert_sql sj t cols b"
| "mysql_text sj (Fk_checks b) = ''SET FOREIGN_KEY_CHECKS='' @ (if b then ''1'' else ''0'')"
| "mysql_text sj _ = []"

type_synonym server = "stmt list \<Rightarrow> string \<Rightarrow> string + unit"

definition run_sql :: "(stmt \<Rightarrow> string) \<Rightarrow> server \<Rightarrow> stmt \<Rightarrow> (stmt, unit) act" where
  "run_sql render srv s h = (srv h (render s), h @ [s])"

text \<open>A statement whose failure is ignored.\<close>

definition try_sql :: "(stmt \<Rightarrow> string) \<Rightarrow> server \<Rightarrow> stmt \<Rightarrow> (stmt, unit) act" where
  "try_sql render srv s = io_bind (attempt (run_sql render srv s)) (\<lambda>_. ret ())"

section \<open>Reading a row\<close>

text \<open>
  A row answers \<open>get idx kind\<close>: the value at \<open>idx\<close> decoded as \<open>kind\<close>, no value for NULL, or an
  error when it cannot be decoded so. \<open>Stamp_tz\<close> is decoded to its UTC date and time.
\<close>

datatype kind = I8 | I16 | I32 | I64 | U16 | U32 | U64 | F32 | F64 | Dec | Txt | Blob | Day | Clock | Stamp | Stamp_tz
  | Json_value | Flag

type_synonym raw_row = "nat \<Rightarrow> kind \<Rightarrow> string + cell option"

definition or_null :: "string + cell option \<Rightarrow> string + cell" where
  "or_null r = (case r of Inl e \<Rightarrow> Inl e | Inr None \<Rightarrow> Inr CNull | Inr (Some c) \<Rightarrow> Inr c)"

definition null_on_error :: "string + cell option \<Rightarrow> string + cell" where
  "null_on_error r = (case r of Inr (Some c) \<Rightarrow> Inr c | _ \<Rightarrow> Inr CNull)"

definition int_as_bool :: "cell \<Rightarrow> cell" where
  "int_as_bool c = (case c of CInt n \<Rightarrow> CBool (n \<noteq> 0) | _ \<Rightarrow> c)"

definition mysql_text_types :: "string list" where
  "mysql_text_types =
     [''varchar'', ''char'', ''tinytext'', ''text'', ''mediumtext'', ''longtext'', ''enum'', ''set'']"

definition mysql_blob_types :: "string list" where
  "mysql_blob_types = [''tinyblob'', ''blob'', ''mediumblob'', ''longblob'', ''binary'', ''varbinary'', ''bit'']"

text \<open>The decoder of a column type, where it is a single one.\<close>

definition mysql_kind :: "string \<Rightarrow> bool \<Rightarrow> kind option" where
  "mysql_kind base uns =
     (if base \<in> {''tinyint'', ''smallint''} then Some (if uns then U16 else I16)
      else if base \<in> {''mediumint'', ''int'', ''integer''} then Some (if uns then U32 else I32)
      else if base = ''bigint'' then Some (if uns then U64 else I64)
      else if base = ''float'' then Some F32
      else if base \<in> {''double'', ''real''} then Some F64
      else if base \<in> {''decimal'', ''numeric''} then Some Dec
      else if base = ''year'' then Some U16
      else if base = ''json'' then Some Json_value
      else if base \<in> set mysql_blob_types then Some Blob
      else if base = ''date'' then Some Day
      else if base \<in> {''datetime'', ''timestamp''} then Some Stamp
      else None)"

text \<open>\<open>lossy\<close> is \<open>String::from_utf8_lossy\<close>.\<close>

definition extract_mysql_cell :: "(8 word list \<Rightarrow> string) \<Rightarrow> raw_row \<Rightarrow> nat \<Rightarrow> mysql_col \<Rightarrow> string + cell" where
  "extract_mysql_cell lossy get i col =
     (let ct = mc_type col; base = base_type ct in
      if ct = ''tinyint(1)'' then map_sum id int_as_bool (or_null (get i I8))
      else case mysql_kind base (is_unsigned ct) of
        Some k \<Rightarrow> or_null (get i k)
      | None \<Rightarrow>
          (if base \<in> set mysql_text_types then
             (case get i Txt of
                Inr r \<Rightarrow> or_null (Inr r)
              | Inl _ \<Rightarrow> map_sum id (\<lambda>c. case c of CBytes b \<Rightarrow> CText (lossy b) | _ \<Rightarrow> c) (or_null (get i Blob)))
           else if base = ''time'' then null_on_error (get i Clock)
           else null_on_error (get i Txt)))"

definition pg_kind :: "string \<Rightarrow> kind option" where
  "pg_kind t =
     (if t = ''boolean'' then Some Flag
      else if t = ''smallint'' then Some I16
      else if t \<in> {''integer'', ''int''} then Some I32
      else if t = ''bigint'' then Some I64
      else if t = ''real'' then Some F32
      else if t = ''double precision'' then Some F64
      else if t \<in> {''numeric'', ''decimal''} then Some Dec
      else if t \<in> {''character'', ''character varying'', ''text''} then Some Txt
      else if t = ''bytea'' then Some Blob
      else if t = ''date'' then Some Day
      else if t \<in> {''time without time zone'', ''time with time zone''} then Some Clock
      else if t = ''timestamp without time zone'' then Some Stamp
      else if t = ''timestamp with time zone'' then Some Stamp_tz
      else if t \<in> {''json'', ''jsonb''} then Some Json_value
      else if t \<in> {''bit'', ''bit varying''} then Some Blob
      else None)"

definition extract_pg_cell :: "raw_row \<Rightarrow> nat \<Rightarrow> pg_col \<Rightarrow> string + cell" where
  "extract_pg_cell get i col =
     (case pg_kind (pc_type col) of Some k \<Rightarrow> or_null (get i k) | None \<Rightarrow> null_on_error (get i Txt))"

definition row_cells :: "(raw_row \<Rightarrow> nat \<Rightarrow> 'c \<Rightarrow> string + cell) \<Rightarrow> 'c list \<Rightarrow> raw_row \<Rightarrow> cell list" where
  "row_cells extract cols row =
     map (\<lambda>(i, c). case extract row i c of Inr v \<Rightarrow> v | Inl _ \<Rightarrow> CNull) (enumerate 0 cols)"

section \<open>Copying a table\<close>

definition chunk_size :: nat where
  "chunk_size = 500"

definition insert_batch :: "(stmt \<Rightarrow> string) \<Rightarrow> server \<Rightarrow> string \<Rightarrow> string list \<Rightarrow> cell list list \<Rightarrow> (stmt, unit) act" where
  "insert_batch render srv table cols batch =
     (if batch = [] then ret () else run_sql render srv (Insert table cols batch))"

text \<open>The stream of rows of the source: a row, or the error it breaks off with.\<close>

fun copy_rows :: "(cell list list \<Rightarrow> (stmt, unit) act) \<Rightarrow> (string + cell list) list \<Rightarrow> cell list list \<Rightarrow> nat
    \<Rightarrow> (stmt, nat) act" where
  "copy_rows ins [] batch sofar =
     (if batch \<noteq> [] then io_bind (ins batch) (\<lambda>_. ret (sofar + length batch)) else ret sofar)"
| "copy_rows ins (Inl e # items) batch sofar = bail e"
| "copy_rows ins (Inr row # items) batch sofar =
     (let b = batch @ [row] in
      if chunk_size \<le> length b then io_bind (ins b) (\<lambda>_. copy_rows ins items [] (sofar + length b))
      else copy_rows ins items b sofar)"

text \<open>The rows as they come from the driver, decoded column by column.\<close>

definition decode_rows :: "(raw_row \<Rightarrow> nat \<Rightarrow> 'c \<Rightarrow> string + cell) \<Rightarrow> 'c list \<Rightarrow> (string + raw_row) list \<Rightarrow> (string + cell list) list" where
  "decode_rows extract cols items = map (map_sum id (row_cells extract cols)) items"

definition transfer_mysql_to_pg ::
    "(8 word list \<Rightarrow> string) \<Rightarrow> (json \<Rightarrow> string) \<Rightarrow> server \<Rightarrow> string \<Rightarrow> mysql_col list \<Rightarrow> (string + raw_row) list \<Rightarrow> (stmt, nat) act" where
  "transfer_mysql_to_pg lossy sj srv table cols items =
     io_seq (try_sql (pg_text sj) srv (Truncate table))
       (copy_rows (insert_batch (pg_text sj) srv table (map mc_name cols)) (decode_rows (extract_mysql_cell lossy) cols items) [] 0)"

definition transfer_pg_to_mysql ::
    "(json \<Rightarrow> string) \<Rightarrow> server \<Rightarrow> string \<Rightarrow> pg_col list \<Rightarrow> (string + raw_row) list \<Rightarrow> (stmt, nat) act" where
  "transfer_pg_to_mysql sj srv table cols items =
     io_seq (try_sql (mysql_text sj) srv (Fk_checks False))
       (io_seq (try_sql (mysql_text sj) srv (Truncate table))
         (io_seq (try_sql (mysql_text sj) srv (Fk_checks True))
           (copy_rows (insert_batch (mysql_text sj) srv table (map pc_name cols)) (decode_rows extract_pg_cell cols items) [] 0)))"

section \<open>The migration\<close>

record mysql_schema =
  ms_table :: string
  ms_cols :: "mysql_col list"
  ms_pk :: "string list"
  ms_idxs :: "mysql_idx list"
  ms_fks :: "mysql_fk list"

record pg_schema =
  ps_table :: string
  ps_cols :: "pg_col list"
  ps_pk :: "string list"

text \<open>The answers of the source to the catalogue queries, and the streams of its rows.\<close>

record mysql_source =
  sq_tables :: "string + string list"
  sq_columns :: "string \<Rightarrow> string + (string \<times> string \<times> string \<times> string) list"
  sq_pk :: "string \<Rightarrow> string + string list"
  sq_indexes :: "string \<Rightarrow> string + (string \<times> string \<times> int) list"
  sq_fks :: "string \<Rightarrow> string + mysql_fk list"
  sq_rows :: "string \<Rightarrow> (string + raw_row) list"

record pg_column_row =
  cr_name :: string
  cr_type :: string
  cr_max_len :: "int option"
  cr_precision :: "int option"
  cr_scale :: "int option"
  cr_nullable :: string
  cr_default :: "string option"

record pg_source =
  pq_tables :: "string + string list"
  pq_columns :: "string \<Rightarrow> string + pg_column_row list"
  pq_pk :: "string \<Rightarrow> string + string list"
  pq_rows :: "string \<Rightarrow> (string + raw_row) list"

definition read_mysql_schema :: "mysql_source \<Rightarrow> string \<Rightarrow> string + mysql_schema" where
  "read_mysql_schema src t =
     and_then (sq_columns src t) (\<lambda>cols.
     and_then (sq_pk src t) (\<lambda>pk.
     and_then (sq_indexes src t) (\<lambda>idxs.
     and_then (sq_fks src t) (\<lambda>fks.
       Inr \<lparr>ms_table = t, ms_cols = map (\<lambda>(n, ty, nu, ex). mysql_column n ty nu ex) cols,
            ms_pk = filter (\<lambda>c. c \<noteq> []) pk, ms_idxs = mysql_get_indexes idxs, ms_fks = fks\<rparr>))))"

definition pg_column :: "pg_column_row \<Rightarrow> pg_col" where
  "pg_column r =
     \<lparr>pc_name = cr_name r, pc_type = cr_type r, pc_max_len = cr_max_len r, pc_precision = cr_precision r,
      pc_scale = cr_scale r, pc_nullable = eq_ignore_case (cr_nullable r) ''YES'',
      pc_serial = is_serial_default (cr_default r)\<rparr>"

definition read_pg_schema :: "pg_source \<Rightarrow> string \<Rightarrow> string + pg_schema" where
  "read_pg_schema src t =
     and_then (pq_columns src t) (\<lambda>cols.
     and_then (pq_pk src t) (\<lambda>pk.
       Inr \<lparr>ps_table = t, ps_cols = map pg_column cols, ps_pk = filter (\<lambda>c. c \<noteq> []) pk\<rparr>))"

definition mysql_schemas :: "string list option \<Rightarrow> mysql_source \<Rightarrow> string + mysql_schema list" where
  "mysql_schemas flt src = and_then (sq_tables src) (\<lambda>ts. traverse (read_mysql_schema src) (get_tables flt ts))"

definition pg_schemas :: "string list option \<Rightarrow> pg_source \<Rightarrow> string + pg_schema list" where
  "pg_schemas flt src = and_then (pq_tables src) (\<lambda>ts. traverse (read_pg_schema src) (get_tables flt ts))"

text \<open>A panic ends the run as an error does.\<close>

definition of_exec :: "'a exec \<Rightarrow> ('e, 'a) act" where
  "of_exec x = (case x of Panics \<Rightarrow> bail ''panicked'' | Returns a \<Rightarrow> ret a)"

definition create_pg_table :: "(json \<Rightarrow> string) \<Rightarrow> server \<Rightarrow> mysql_schema \<Rightarrow> (stmt, unit) act" where
  "create_pg_table sj srv s =
     io_bind (of_exec (build_pg_create_table (ms_table s) (ms_cols s) (ms_pk s))) (\<lambda>ddl.
       run_sql (pg_text sj) srv (Create (ms_table s) ddl))"

definition create_mysql_table :: "(json \<Rightarrow> string) \<Rightarrow> server \<Rightarrow> pg_schema \<Rightarrow> (stmt, unit) act" where
  "create_mysql_table sj srv s =
     run_sql (mysql_text sj) srv (Create (ps_table s) (build_mysql_create_table (ps_table s) (ps_cols s) (ps_pk s)))"

definition add_indexes :: "(json \<Rightarrow> string) \<Rightarrow> server \<Rightarrow> mysql_schema \<Rightarrow> (stmt, unit) act" where
  "add_indexes sj srv s = io_each (\<lambda>i. try_sql (pg_text sj) srv (Index (ms_table s) i)) (ms_idxs s)"

definition reset_sequences :: "(json \<Rightarrow> string) \<Rightarrow> server \<Rightarrow> mysql_schema \<Rightarrow> (stmt, unit) act" where
  "reset_sequences sj srv s =
     io_each (\<lambda>c. if mc_auto c then try_sql (pg_text sj) srv (Set_sequence (ms_table s) (mc_name c)) else ret ()) (ms_cols s)"

definition add_fks :: "(json \<Rightarrow> string) \<Rightarrow> server \<Rightarrow> mysql_schema \<Rightarrow> (stmt, unit) act" where
  "add_fks sj srv s = io_each (\<lambda>fk. try_sql (pg_text sj) srv (Add_fk (ms_table s) fk)) (ms_fks s)"

text \<open>The number of rows copied. Without a table the run ends with a warning.\<close>

definition transfer_table ::
    "(8 word list \<Rightarrow> string) \<Rightarrow> (json \<Rightarrow> string) \<Rightarrow> server \<Rightarrow> mysql_source \<Rightarrow> mysql_schema \<Rightarrow> (stmt, nat) act" where
  "transfer_table lossy sj srv src s = transfer_mysql_to_pg lossy sj srv (ms_table s) (ms_cols s) (sq_rows src (ms_table s))"

definition migrate_mysql_to_pg ::
    "(8 word list \<Rightarrow> string) \<Rightarrow> (json \<Rightarrow> string) \<Rightarrow> server \<Rightarrow> mysql_source \<Rightarrow> string list option \<Rightarrow> (stmt, nat) act" where
  "migrate_mysql_to_pg lossy sj srv src flt =
     io_bind (of_result (mysql_schemas flt src)) (\<lambda>schemas.
       if schemas = [] then ret 0
       else
         io_seq (io_each (create_pg_table sj srv) schemas)
         (io_bind (io_map (transfer_table lossy sj srv src) schemas)
           (\<lambda>counts.
             io_seq (io_each (add_indexes sj srv) schemas)
             (io_seq (io_each (reset_sequences sj srv) schemas)
             (io_seq (io_each (add_fks sj srv) schemas)
               (ret (sum_list counts)))))))"

definition migrate_pg_to_mysql ::
    "(json \<Rightarrow> string) \<Rightarrow> server \<Rightarrow> pg_source \<Rightarrow> string list option \<Rightarrow> (stmt, nat) act" where
  "migrate_pg_to_mysql sj srv src flt =
     io_bind (of_result (pg_schemas flt src)) (\<lambda>schemas.
       if schemas = [] then ret 0
       else
         io_seq (io_each (create_mysql_table sj srv) schemas)
         (io_bind (io_map (\<lambda>s. transfer_pg_to_mysql sj srv (ps_table s) (ps_cols s) (pq_rows src (ps_table s))) schemas)
           (\<lambda>counts. ret (sum_list counts))))"

section \<open>Facts on copying\<close>

text \<open>The rows a statement has brought into the target, if it succeeded.\<close>

definition sent_rows :: "(stmt \<Rightarrow> string) \<Rightarrow> server \<Rightarrow> stmt list \<Rightarrow> stmt \<Rightarrow> (string \<times> cell list) list" where
  "sent_rows render srv h s =
     (case s of
        Insert t cols b \<Rightarrow> (if srv h (render s) = Inr () then map (\<lambda>r. (t, r)) b else [])
      | _ \<Rightarrow> [])"

definition stream_rows :: "(string + cell list) list \<Rightarrow> cell list list" where
  "stream_rows items = filter_map (\<lambda>i. case i of Inr r \<Rightarrow> Some r | Inl _ \<Rightarrow> None) items"

lemma emits_run_silent [emits_intros]:
  "(\<And>t cols b. s \<noteq> Insert t cols b) \<Longrightarrow> emits (sent_rows render srv) (run_sql render srv s) []"
  by (cases s) (auto simp: emits_def run_sql_def sent_rows_def)

lemma emits_try_silent [emits_intros]:
  "(\<And>t cols b. s \<noteq> Insert t cols b) \<Longrightarrow> emits (sent_rows render srv) (try_sql render srv s) []"
  unfolding try_sql_def by (intro emits_intros) simp_all

lemma emits_insert: "emits (sent_rows render srv) (insert_batch render srv t cols b) (map (\<lambda>r. (t, r)) b)"
proof (cases "b = []")
  case True
  then show ?thesis by (simp add: insert_batch_def emits_ret)
next
  case False
  show ?thesis
    unfolding emits_def
  proof
    fix h
    let ?s = "Insert t cols b"
    show "\<exists>ts r. snd (insert_batch render srv t cols b h) = h @ ts \<and>
        map (\<lambda>r. (t, r)) b = events (sent_rows render srv) h ts @ r \<and>
        ((\<exists>a. fst (insert_batch render srv t cols b h) = Inr a) \<longrightarrow> r = [])"
      using False
      by (cases "srv h (render ?s)"; intro exI[of _ "[?s]"]) (auto simp: insert_batch_def run_sql_def sent_rows_def)
  qed
qed

lemma emits_copy:
  "emits (sent_rows render srv) (copy_rows (insert_batch render srv t cols) items batch sofar)
     (map (\<lambda>r. (t, r)) (batch @ stream_rows items))"
proof (induction items arbitrary: batch sofar)
  case Nil
  then show ?case
    using emits_bind[OF emits_insert[of render srv t cols batch] emits_ret]
    by (auto simp: stream_rows_def emits_ret)
next
  case (Cons i items)
  show ?case
  proof (cases i)
    case (Inl e)
    show ?thesis unfolding Inl copy_rows.simps by (rule emits_bail)
  next
    case (Inr row)
    have rows: "batch @ stream_rows (i # items) = (batch @ [row]) @ stream_rows items"
      using Inr by (simp add: stream_rows_def)
    show ?thesis
    proof (cases "chunk_size \<le> length (batch @ [row])")
      case True
      have "emits (sent_rows render srv)
          (io_bind (insert_batch render srv t cols (batch @ [row])) (\<lambda>_. copy_rows (insert_batch render srv t cols) items [] (sofar + length (batch @ [row]))))
          (map (\<lambda>r. (t, r)) (batch @ [row]) @ map (\<lambda>r. (t, r)) ([] @ stream_rows items))"
        by (rule emits_bind[OF emits_insert Cons.IH])
      then show ?thesis unfolding rows using Inr True by (simp add: Let_def)
    next
      case False
      then show ?thesis unfolding rows using Inr Cons.IH[of "batch @ [row]" sofar] by (simp add: Let_def)
    qed
  qed
qed

lemma copy_count:
  "fst (copy_rows ins items batch sofar h) = Inr n \<Longrightarrow> n = sofar + length (batch @ stream_rows items)"
proof (induction items arbitrary: batch sofar h)
  case Nil
  then show ?case by (auto simp: io_bind_cases stream_rows_def split: if_splits sum.splits)
next
  case (Cons i items)
  show ?case
  proof (cases i)
    case (Inr row)
    have l: "length (batch @ [row]) + length (stream_rows items) = length (batch @ stream_rows (i # items))"
      using Inr by (simp add: stream_rows_def)
    show ?thesis
    proof (cases "chunk_size \<le> length (batch @ [row])")
      case True
      obtain h' where "fst (copy_rows ins items [] (sofar + length (batch @ [row])) h') = Inr n"
        using Cons.prems Inr True by (auto simp: Let_def io_bind_cases split: sum.splits)
      then show ?thesis using Cons.IH l by fastforce
    next
      case False
      then show ?thesis using Cons.IH[of "batch @ [row]" sofar h] Cons.prems Inr l by (simp add: Let_def)
    qed
  qed (use Cons.prems in simp)
qed

lemma copy_unbroken: "fst (copy_rows ins items batch n h) = Inr m \<Longrightarrow> \<forall>i\<in>set items. \<exists>r. i = Inr r"
proof (induction items arbitrary: batch n h)
  case (Cons i items)
  show ?case
  proof (cases i)
    case (Inr row)
    have "\<exists>b k h'. fst (copy_rows ins items b k h') = Inr m"
      using Cons.prems Inr by (auto simp: Let_def io_bind_cases split: if_splits sum.splits)
    then show ?thesis using Cons.IH Inr by auto
  qed (use Cons.prems in simp)
qed simp

lemma emits_maps:
  "(\<And>x. x \<in> set xs \<Longrightarrow> emits pick (f x) (g x)) \<Longrightarrow> emits pick (io_map f xs) (concat (map g xs))"
proof (induction xs)
  case Nil
  then show ?case by (simp only: io_map.simps list.map concat.simps emits_ret)
next
  case (Cons x xs)
  have "emits pick (io_map f (x # xs)) (g x @ concat (map g xs) @ [])"
    unfolding io_map.simps using Cons by (intro emits_bind) (simp_all add: emits_ret)
  then show ?case by simp
qed

definition table_rows :: "(8 word list \<Rightarrow> string) \<Rightarrow> mysql_source \<Rightarrow> mysql_schema \<Rightarrow> (string \<times> cell list) list" where
  "table_rows lossy src s =
     map (\<lambda>r. (ms_table s, row_cells (extract_mysql_cell lossy) (ms_cols s) r))
       (filter_map (\<lambda>i. case i of Inr r \<Rightarrow> Some r | Inl _ \<Rightarrow> None) (sq_rows src (ms_table s)))"

lemma stream_decode:
  "stream_rows (decode_rows f cols items)
    = map (row_cells f cols) (filter_map (\<lambda>i. case i of Inr r \<Rightarrow> Some r | Inl _ \<Rightarrow> None) items)"
  by (induction items) (auto simp: stream_rows_def decode_rows_def split: sum.splits)

lemma table_rows_stream:
  "table_rows lossy src s = map (\<lambda>r. (ms_table s, r)) (stream_rows (decode_rows (extract_mysql_cell lossy) (ms_cols s) (sq_rows src (ms_table s))))"
  unfolding table_rows_def stream_decode by simp

lemma transfer_emits: "emits (sent_rows (pg_text sj) srv) (transfer_table lossy sj srv src s) (table_rows lossy src s)"
proof -
  let ?items = "decode_rows (extract_mysql_cell lossy) (ms_cols s) (sq_rows src (ms_table s))"
  have "emits (sent_rows (pg_text sj) srv) (transfer_table lossy sj srv src s)
      ([] @ map (\<lambda>r. (ms_table s, r)) ([] @ stream_rows ?items))"
    unfolding transfer_table_def transfer_mysql_to_pg_def by (intro emits_seq emits_copy emits_intros) simp_all
  then show ?thesis by (simp add: table_rows_stream)
qed

lemma transfer_result:
  assumes "fst (transfer_table lossy sj srv src s h) = Inr n"
  shows "n = length (table_rows lossy src s) \<and> (\<forall>i\<in>set (sq_rows src (ms_table s)). \<exists>r. i = Inr r)"
proof -
  let ?items = "decode_rows (extract_mysql_cell lossy) (ms_cols s) (sq_rows src (ms_table s))"
  obtain h' where c: "fst (copy_rows (insert_batch (pg_text sj) srv (ms_table s) (map mc_name (ms_cols s))) ?items [] 0 h') = Inr n"
    using assms by (auto simp: transfer_table_def transfer_mysql_to_pg_def io_seq_def io_bind_cases split: sum.splits)
  have "\<forall>i\<in>set ?items. \<exists>r. i = Inr r" by (rule copy_unbroken[OF c])
  then have "\<forall>i\<in>set (sq_rows src (ms_table s)). \<exists>r. i = Inr r"
    by (auto simp: decode_rows_def) (metis obj_sumE map_sum.simps(1) Inr_not_Inl)
  then show ?thesis using copy_count[OF c] by (simp add: table_rows_stream)
qed

lemma emits_setup: "emits (sent_rows (pg_text sj) srv) (create_pg_table sj srv s) []"
proof (cases "build_pg_create_table (ms_table s) (ms_cols s) (ms_pk s)")
  case Panics
  show ?thesis unfolding create_pg_table_def of_exec_def Panics exec.case by (simp only: bind_bail emits_bail)
next
  case (Returns ddl)
  show ?thesis unfolding create_pg_table_def of_exec_def Returns exec.case bind_ret by (intro emits_intros) simp
qed

lemma emits_constraints [emits_intros]:
  "emits (sent_rows (pg_text sj) srv) (add_indexes sj srv s) []"
  "emits (sent_rows (pg_text sj) srv) (reset_sequences sj srv s) []"
  "emits (sent_rows (pg_text sj) srv) (add_fks sj srv s) []"
  unfolding add_indexes_def reset_sequences_def add_fks_def
  by (intro emits_intros; auto intro!: emits_intros)+

lemma migration_emits:
  assumes "mysql_schemas flt src = Inr schemas"
  shows "emits (sent_rows (pg_text sj) srv) (migrate_mysql_to_pg lossy sj srv src flt) (concat (map (table_rows lossy src) schemas))"
proof (cases "schemas = []")
  case True
  show ?thesis unfolding migrate_mysql_to_pg_def assms bind_result True by (simp only: if_True list.map concat.simps emits_ret simp_thms)
next
  case False
  let ?data = "concat (map (table_rows lossy src) schemas)"
  have "emits (sent_rows (pg_text sj) srv) (migrate_mysql_to_pg lossy sj srv src flt) ([] @ ?data @ [])"
    unfolding migrate_mysql_to_pg_def assms bind_result if_not_P[OF False]
    by (intro emits_seq emits_bind emits_silent_each emits_setup emits_maps transfer_emits emits_silent_seq emits_constraints emits_ret)
  then show ?thesis by simp
qed

lemma map_results:
  "fst (io_map f xs h) = Inr ys \<Longrightarrow> length ys = length xs \<and> (\<forall>i<length xs. \<exists>h'. fst (f (xs ! i) h') = Inr (ys ! i))"
proof (induction xs arbitrary: h ys)
  case (Cons x xs)
  obtain y h1 zs where y: "fst (f x h) = Inr y" "fst (io_map f xs h1) = Inr zs" "ys = y # zs"
    using Cons.prems by (auto simp: io_bind_cases split: sum.splits)
  then show ?case using Cons.IH[OF y(2)] by (auto simp: nth_Cons split: nat.split)
qed simp

lemma migration_result:
  assumes "fst (migrate_mysql_to_pg lossy sj srv src flt h) = Inr n"
  obtains schemas where "mysql_schemas flt src = Inr schemas"
    "n = length (concat (map (table_rows lossy src) schemas))"
    "\<forall>s\<in>set schemas. \<forall>i\<in>set (sq_rows src (ms_table s)). \<exists>r. i = Inr r"
proof -
  obtain schemas where s: "mysql_schemas flt src = Inr schemas"
    using assms by (cases "mysql_schemas flt src") (auto simp: migrate_mysql_to_pg_def)
  show ?thesis
  proof (cases "schemas = []")
    case True
    then show ?thesis using that s assms by (simp add: migrate_mysql_to_pg_def)
  next
    case False
    let ?tr = "transfer_table lossy sj srv src"
    obtain h1 ns where ns: "fst (io_map ?tr schemas h1) = Inr ns" "n = sum_list ns"
      using assms False s by (auto simp: migrate_mysql_to_pg_def io_seq_def io_bind_cases split: sum.splits)
    have each: "ns ! i = length (table_rows lossy src (schemas ! i))
        \<and> (\<forall>j\<in>set (sq_rows src (ms_table (schemas ! i))). \<exists>r. j = Inr r)" if "i < length schemas" for i
      using map_results[OF ns(1)] transfer_result that by blast
    have "ns = map (\<lambda>s. length (table_rows lossy src s)) schemas"
      using map_results[OF ns(1)] each by (simp add: list_eq_iff_nth_eq)
    then have "n = length (concat (map (table_rows lossy src) schemas))"
      using ns(2) by (simp add: length_concat comp_def)
    then show ?thesis using that s each by (metis in_set_conv_nth)
  qed
qed

section \<open>The order of statements\<close>

text \<open>Tables, data, indexes, sequences, foreign keys.\<close>

fun phase :: "stmt \<Rightarrow> nat" where
  "phase (Create _ _) = 0"
| "phase (Truncate _) = 1"
| "phase (Insert _ _ _) = 1"
| "phase (Fk_checks _) = 1"
| "phase (Index _ _) = 2"
| "phase (Set_sequence _ _) = 3"
| "phase (Add_fk _ _) = 4"

text \<open>A batch is never empty and never larger than the chunk.\<close>

definition batch_ok :: "stmt \<Rightarrow> bool" where
  "batch_ok s = (case s of Insert _ _ b \<Rightarrow> b \<noteq> [] \<and> length b \<le> chunk_size | _ \<Rightarrow> True)"

definition phased :: "nat \<Rightarrow> nat \<Rightarrow> (stmt, 'a) act \<Rightarrow> bool" where
  "phased lo hi m \<longleftrightarrow>
     (\<forall>h. \<exists>t. snd (m h) = h @ t \<and> sorted (map phase t) \<and> (\<forall>s\<in>set t. lo \<le> phase s \<and> phase s \<le> hi \<and> batch_ok s))"

named_theorems phased_intros

lemma phased_ret [phased_intros]: "phased lo hi (ret a)"
  by (simp add: phased_def)

lemma phased_bail [phased_intros]: "phased lo hi (bail e)"
  by (simp add: phased_def)

lemma phased_run: "phase s = n \<Longrightarrow> batch_ok s \<Longrightarrow> phased n n (run_sql render srv s)"
  by (simp add: phased_def run_sql_def)

lemma phased_attempt: "phased lo hi m \<Longrightarrow> phased lo hi (attempt m)"
  by (simp add: phased_def)

lemma phased_bind:
  assumes "phased a b m" "\<And>x. phased c d (f x)" "a \<le> b" "b \<le> c" "c \<le> d"
  shows "phased a d (io_bind m f)"
  unfolding phased_def
proof
  fix h
  obtain t where t: "snd (m h) = h @ t" "sorted (map phase t)" "\<forall>s\<in>set t. a \<le> phase s \<and> phase s \<le> b \<and> batch_ok s"
    using assms(1) unfolding phased_def by blast
  show "\<exists>t. snd (io_bind m f h) = h @ t \<and> sorted (map phase t) \<and> (\<forall>s\<in>set t. a \<le> phase s \<and> phase s \<le> d \<and> batch_ok s)"
  proof (cases "fst (m h)")
    case (Inl e)
    then show ?thesis using t assms(4,5) by (intro exI[of _ t]) (auto simp: io_bind_cases intro: le_trans)
  next
    case (Inr x)
    obtain u where u: "snd (f x (h @ t)) = (h @ t) @ u" "sorted (map phase u)" "\<forall>s\<in>set u. c \<le> phase s \<and> phase s \<le> d \<and> batch_ok s"
      using assms(2)[of x] unfolding phased_def by blast
    have "\<forall>s\<in>set t. \<forall>s'\<in>set u. phase s \<le> phase s'" using t(3) u(3) assms(4) by (meson le_trans)
    then show ?thesis using t u Inr assms(3,4,5)
      by (intro exI[of _ "t @ u"]) (auto simp: io_bind_cases sorted_append intro: le_trans)
  qed
qed

lemma phased_same: "phased n n m \<Longrightarrow> (\<And>x. phased n n (f x)) \<Longrightarrow> phased n n (io_bind m f)"
  by (rule phased_bind[OF _ _ order_refl order_refl order_refl])

lemma phased_seq: "phased a b m \<Longrightarrow> phased c d k \<Longrightarrow> a \<le> b \<Longrightarrow> b \<le> c \<Longrightarrow> c \<le> d \<Longrightarrow> phased a d (io_seq m k)"
  unfolding io_seq_def by (rule phased_bind)

lemma phased_each: "(\<And>x. phased n n (f x)) \<Longrightarrow> phased n n (io_each f xs)"
  by (induction xs) (auto intro: phased_ret phased_seq simp del: io_seq_simps)

lemma phased_map: "(\<And>x. phased n n (f x)) \<Longrightarrow> phased n n (io_map f xs)"
proof (induction xs)
  case (Cons x xs)
  show ?case unfolding io_map.simps by (intro phased_same Cons phased_ret)
qed (simp only: io_map.simps phased_ret)

lemma phased_try: "phase s = n \<Longrightarrow> batch_ok s \<Longrightarrow> phased n n (try_sql render srv s)"
  unfolding try_sql_def by (intro phased_same phased_attempt phased_run phased_ret)

lemma phased_batch: "length b \<le> chunk_size \<Longrightarrow> phased 1 1 (insert_batch render srv t cols b)"
  unfolding insert_batch_def by (simp add: phased_ret phased_run batch_ok_def)

lemma phased_copy:
  "length batch < chunk_size \<Longrightarrow> phased 1 1 (copy_rows (insert_batch render srv t cols) items batch n)"
proof (induction items arbitrary: batch n)
  case Nil
  then have "phased 1 1 (insert_batch render srv t cols batch)" by (simp only: phased_batch less_imp_le)
  then show ?case unfolding copy_rows.simps by (simp del: One_nat_def add: phased_same phased_ret)
next
  case (Cons x items)
  have full: "phased 1 1 (insert_batch render srv t cols (batch @ [row]))" for row
    using Cons.prems by (intro phased_batch) simp
  have empty: "length [] < chunk_size" by (simp add: chunk_size_def)
  show ?case
    by (cases x) (simp_all del: One_nat_def bail_apply add: Let_def phased_bail Cons.IH phased_same[OF full] Cons.IH[OF empty])
qed

lemma phased_create: "phased 0 0 (create_pg_table sj srv s)"
  unfolding create_pg_table_def of_exec_def
  by (cases "build_pg_create_table (ms_table s) (ms_cols s) (ms_pk s)")
    (auto intro!: phased_same phased_run phased_ret phased_bail simp: batch_ok_def)

lemma phased_transfer: "phased 1 1 (transfer_table lossy sj srv src s)"
  unfolding transfer_table_def transfer_mysql_to_pg_def io_seq_def
  by (intro phased_same phased_try phased_copy) (simp_all add: chunk_size_def batch_ok_def)

lemma phased_constraints:
  "phased 2 2 (add_indexes sj srv s)" "phased 3 3 (reset_sequences sj srv s)" "phased 4 4 (add_fks sj srv s)"
  unfolding add_indexes_def reset_sequences_def add_fks_def
  by (intro phased_each; auto intro!: phased_try phased_ret simp: batch_ok_def)+

lemma phased_migration: "phased 0 4 (migrate_mysql_to_pg lossy sj srv src flt)"
proof (cases "mysql_schemas flt src")
  case (Inl e)
  show ?thesis unfolding migrate_mysql_to_pg_def Inl bind_result by (rule phased_bail)
next
  case (Inr schemas)
  show ?thesis
  proof (cases "schemas = []")
    case True
    show ?thesis unfolding migrate_mysql_to_pg_def Inr bind_result if_P[OF True] by (rule phased_ret)
  next
    case False
    have end4: "phased 4 4 (io_seq (io_each (add_fks sj srv) schemas) (ret n))" for n :: nat
      by (rule phased_seq[of 4 4 _ 4 4]) (simp_all add: phased_each phased_constraints phased_ret)
    have end3: "phased 3 4 (io_seq (io_each (reset_sequences sj srv) schemas) (io_seq (io_each (add_fks sj srv) schemas) (ret n)))" for n :: nat
      by (rule phased_seq[of 3 3 _ 4 4]) (simp_all add: phased_each phased_constraints end4 del: io_seq_simps)
    have end2: "phased 2 4 (io_seq (io_each (add_indexes sj srv) schemas)
        (io_seq (io_each (reset_sequences sj srv) schemas) (io_seq (io_each (add_fks sj srv) schemas) (ret n))))" for n :: nat
      by (rule phased_seq[of 2 2 _ 3 4]) (simp_all add: phased_each phased_constraints end3 del: io_seq_simps)
    show ?thesis
      unfolding migrate_mysql_to_pg_def Inr bind_result if_not_P[OF False]
      by (rule phased_seq[of 0 0 _ 1 4], simp add: phased_each phased_create,
          rule phased_bind[of 1 1 _ 2 4], simp only: phased_map phased_transfer)
        (rule end2 | simp)+
  qed
qed

section \<open>Properties\<close>

text \<open>
  C9. A migration copies every row, once and in order: when it succeeds, the rows that reached the
  target in successful INSERTs are exactly those of the streams of all wanted tables, decoded
  column by column, no stream broke off, and the reported number is theirs. When it fails, the
  rows that reached the target are a prefix of them.
\<close>

theorem migrate_copies_every_row:
  "\<exists>t. snd (migrate_mysql_to_pg lossy sj srv src flt h) = h @ t \<and>
     (let arrived = events (sent_rows (pg_text sj) srv) h t in
      case fst (migrate_mysql_to_pg lossy sj srv src flt h) of
        Inr n \<Rightarrow>
          (\<exists>schemas. mysql_schemas flt src = Inr schemas \<and> arrived = concat (map (table_rows lossy src) schemas)
            \<and> n = length arrived \<and> list_all (\<lambda>s. list_all (\<lambda>i. \<exists>r. i = Inr r) (sq_rows src (ms_table s))) schemas)
      | Inl e \<Rightarrow>
          mysql_schemas flt src = Inl e \<and> t = []
          \<or> (\<exists>schemas rest. mysql_schemas flt src = Inr schemas \<and> concat (map (table_rows lossy src) schemas) = arrived @ rest))"
  (is "\<exists>t. ?done t")
proof (cases "mysql_schemas flt src")
  case (Inl e)
  then have "?done []" by (simp add: migrate_mysql_to_pg_def)
  then show ?thesis by blast
next
  case (Inr schemas)
  obtain t r where t: "snd (migrate_mysql_to_pg lossy sj srv src flt h) = h @ t"
      "concat (map (table_rows lossy src) schemas) = events (sent_rows (pg_text sj) srv) h t @ r"
      "(\<exists>a. fst (migrate_mysql_to_pg lossy sj srv src flt h) = Inr a) \<longrightarrow> r = []"
    using migration_emits[OF Inr, of sj srv lossy] unfolding emits_def by meson
  have "?done t"
  proof (cases "fst (migrate_mysql_to_pg lossy sj srv src flt h)")
    case fail: (Inl e)
    then show ?thesis using t Inr by (simp add: Let_def)
  next
    case ok: (Inr n)
    then have "r = []" using t(3) by blast
    then show ?thesis using t(1,2) Inr ok migration_result[OF ok] by (auto simp: Let_def list_all_iff)
  qed
  then show ?thesis by blast
qed

text \<open>
  C13. Constraints come after the data: whatever the target answers, a migration creates tables, then
  sends data, then indexes, sequences and foreign keys, in this order, and no INSERT is empty or
  larger than a chunk.
\<close>

theorem constraints_after_data:
  "\<exists>t. snd (migrate_mysql_to_pg lossy sj srv src flt h) = h @ t \<and> sorted (map phase t) \<and> list_all batch_ok t"
  using phased_migration[of lossy sj srv src flt] unfolding phased_def list_all_iff by blast

section \<open>A second run\<close>

text \<open>
  The tables of a PostgreSQL server: foreign keys between tables and rows. TRUNCATE with CASCADE
  also empties the tables that refer to its own.
\<close>

fun pg_apply :: "stmt \<Rightarrow> (string \<times> string) list \<times> (string \<times> cell list) list \<Rightarrow> (string \<times> string) list \<times> (string \<times> cell list) list" where
  "pg_apply (Add_fk t fk) (refs, rows) = ((t, fk_table fk) # refs, rows)"
| "pg_apply (Truncate t) (refs, rows) = (refs, filter (\<lambda>(u, _). u \<noteq> t \<and> (u, t) \<notin> set refs) rows)"
| "pg_apply (Insert t _ b) (refs, rows) = (refs, rows @ map (\<lambda>r. (t, r)) b)"
| "pg_apply _ st = st"

text \<open>Orders that refer to users, one row each.\<close>

definition shop :: mysql_source where
  "shop =
     \<lparr>sq_tables = Inr [''orders'', ''users''],
      sq_columns = \<lambda>_. Inr [(''id'', ''int'', ''NO'', [])],
      sq_pk = \<lambda>_. Inr [''id''],
      sq_indexes = \<lambda>_. Inr [],
      sq_fks = \<lambda>t. Inr (if t = ''orders'' then [\<lparr>fk_name = ''fk'', fk_column = ''id'', fk_table = ''users'', fk_ref = ''id''\<rparr>] else []),
      sq_rows = \<lambda>_. [Inr (\<lambda>_ _. Inr (Some (CInt 1)))]\<rparr>"

text \<open>The second migration into the same database reports two rows and leaves the child table empty.\<close>

theorem second_run_loses_rows:
  "let run = migrate_mysql_to_pg (\<lambda>_. []) (\<lambda>_. []) (\<lambda>_ _. Inr ()) shop None;
       h1 = snd (run []); h2 = snd (run h1) in
     fst (run []) = Inr 2 \<and> fst (run h1) = Inr 2
     \<and> map fst (snd (fold pg_apply h1 ([], []))) = [''orders'', ''users'']
     \<and> map fst (snd (fold pg_apply h2 ([], []))) = [''users'']"
  by code_simp

end
