(* ===== verification/Dip_Columns.thy ===== *)
theory Dip_Columns
  imports Dip_Migrate
begin

text \<open>
  The types of migrated columns (\<open>db/migrate.rs\<close>: \<open>mysql_type_to_pg\<close> and \<open>extract_mysql_cell\<close>): the cell
  read from a MySQL column is one that the PostgreSQL column created for it accepts. Which
  cells the driver yields for a Rust type, which numbers a MySQL column holds and which cells a
  PostgreSQL type accepts are documented behaviour of the three; lengths of texts and digits of
  decimals are copied with the type and not looked at.
\<close>

section \<open>What the driver yields and what a column accepts\<close>

definition mysql_bases :: "string list" where
  "mysql_bases =
     [''tinyint'', ''smallint'', ''mediumint'', ''int'', ''integer'', ''bigint'', ''float'', ''double'', ''real'', ''decimal'',
      ''numeric'', ''year'', ''json'', ''date'', ''datetime'', ''timestamp''] @ mysql_blob_types"

definition kind_cell :: "kind \<Rightarrow> cell \<Rightarrow> bool" where
  "kind_cell k c =
     (case c of
        CNull \<Rightarrow> False
      | CBool _ \<Rightarrow> k = Flag
      | CInt n \<Rightarrow>
          (case k of
             I8 \<Rightarrow> - (2 ^ 7) \<le> n \<and> n < 2 ^ 7
           | I16 \<Rightarrow> - (2 ^ 15) \<le> n \<and> n < 2 ^ 15
           | I32 \<Rightarrow> - (2 ^ 31) \<le> n \<and> n < 2 ^ 31
           | I64 \<Rightarrow> - (2 ^ 63) \<le> n \<and> n < 2 ^ 63
           | U16 \<Rightarrow> 0 \<le> n \<and> n < 2 ^ 16
           | U32 \<Rightarrow> 0 \<le> n \<and> n < 2 ^ 32
           | _ \<Rightarrow> False)
      | CUInt n \<Rightarrow> k = U64 \<and> n < 2 ^ 64
      | CFloat _ \<Rightarrow> k = F32 \<or> k = F64
      | CDecimal _ \<Rightarrow> k = Dec
      | CText _ \<Rightarrow> k = Txt
      | CBytes _ \<Rightarrow> k = Blob
      | CDate _ \<Rightarrow> k = Day
      | CTime _ \<Rightarrow> k = Clock
      | CDateTime _ _ \<Rightarrow> k = Stamp \<or> k = Stamp_tz
      | CJson _ \<Rightarrow> k = Json_value)"

text \<open>The numbers a MySQL column of the narrower types holds.\<close>

definition int_held :: "string \<Rightarrow> bool \<Rightarrow> cell \<Rightarrow> bool" where
  "int_held base uns c =
     (case c of
        CInt n \<Rightarrow>
          (if base = ''tinyint'' then (if uns then 0 \<le> n \<and> n < 256 else -128 \<le> n \<and> n < 128)
           else if base = ''mediumint'' then (if uns then 0 \<le> n \<and> n < 2 ^ 24 else - (2 ^ 23) \<le> n \<and> n < 2 ^ 23)
           else if base = ''year'' then 0 \<le> n \<and> n \<le> 2155
           else True)
      | _ \<Rightarrow> True)"

definition int_fits :: "string \<Rightarrow> int \<Rightarrow> bool" where
  "int_fits ty n \<longleftrightarrow>
     (ty = ''SMALLINT'' \<and> - (2 ^ 15) \<le> n \<and> n < 2 ^ 15)
     \<or> (ty \<in> {''INTEGER'', ''SERIAL''} \<and> - (2 ^ 31) \<le> n \<and> n < 2 ^ 31)
     \<or> (ty \<in> {''BIGINT'', ''BIGSERIAL''} \<and> - (2 ^ 63) \<le> n \<and> n < 2 ^ 63)
     \<or> (ty = ''NUMERIC(20,0)'' \<and> \<bar>n\<bar> < 10 ^ 20)"

definition pg_accepts :: "string \<Rightarrow> cell \<Rightarrow> bool" where
  "pg_accepts ty c =
     (case c of
        CNull \<Rightarrow> True
      | CBool _ \<Rightarrow> ty = ''BOOLEAN''
      | CInt n \<Rightarrow> int_fits ty n
      | CUInt n \<Rightarrow> int_fits ty (int n)
      | CFloat _ \<Rightarrow> ty \<in> {''REAL'', ''DOUBLE PRECISION''}
      | CDecimal _ \<Rightarrow> starts_with ''NUMERIC'' ty
      | CText _ \<Rightarrow> ty = ''TEXT'' \<or> starts_with ''CHAR'' ty \<or> starts_with ''VARCHAR'' ty
      | CBytes _ \<Rightarrow> ty = ''BYTEA''
      | CDate _ \<Rightarrow> ty = ''DATE''
      | CTime _ \<Rightarrow> ty = ''TIME''
      | CDateTime _ _ \<Rightarrow> ty \<in> {''TIMESTAMP'', ''TIMESTAMPTZ''}
      | CJson _ \<Rightarrow> ty = ''JSONB'')"

lemma mysql_kind_base: "mysql_kind base uns = Some k \<Longrightarrow> base \<in> set mysql_bases"
  by (rule ccontr) (simp add: mysql_kind_def mysql_bases_def)

lemma kind_table:
  assumes "mysql_kind base uns = Some k" "base \<noteq> ''bit''" "\<not> (base = ''smallint'' \<and> uns)"
  shows "k = I16 \<and> pg_type_of base uns p = ''SMALLINT''
    \<or> k = U16 \<and> base \<in> {''tinyint'', ''year''} \<and> (base = ''tinyint'' \<longrightarrow> uns) \<and> pg_type_of base uns p = ''SMALLINT''
    \<or> k = I32 \<and> pg_type_of base uns p = ''INTEGER'' \<or> k = U32 \<and> pg_type_of base uns p = ''BIGINT''
    \<or> k = I64 \<and> pg_type_of base uns p = ''BIGINT'' \<or> k = U64 \<and> pg_type_of base uns p = ''NUMERIC(20,0)''
    \<or> k = F32 \<and> pg_type_of base uns p = ''REAL'' \<or> k = F64 \<and> pg_type_of base uns p = ''DOUBLE PRECISION''
    \<or> k = Dec \<and> starts_with ''NUMERIC'' (pg_type_of base uns p) \<or> k = Json_value \<and> pg_type_of base uns p = ''JSONB''
    \<or> k = Blob \<and> pg_type_of base uns p = ''BYTEA'' \<or> k = Day \<and> pg_type_of base uns p = ''DATE''
    \<or> k = Stamp \<and> pg_type_of base uns p \<in> {''TIMESTAMP'', ''TIMESTAMPTZ''}"
  using mysql_kind_base[OF assms(1)] assms
  unfolding mysql_bases_def mysql_blob_types_def
  by (simp only: set_simps set_append Un_iff insert_iff empty_iff simp_thms append.simps)
    (elim disjE; hypsubst;
      simp add: mysql_kind_def mysql_blob_types_def pg_type_of_def with_paren_def starts_with_def split: if_splits option.splits)

lemma kind_fits:
  assumes "mysql_kind base uns = Some k" "kind_cell k c" "int_held base uns c"
    and "base \<noteq> ''bit''" "\<not> (base = ''smallint'' \<and> uns)"
  shows "pg_accepts (pg_type_of base uns p) c"
  using kind_table[OF assms(1,4,5), of p] assms(2,3)
  by (elim disjE conjE) (cases c; force simp: kind_cell_def pg_accepts_def int_fits_def int_held_def)+

section \<open>Serial columns\<close>

lemma split_acc_hd: "w \<noteq> [] \<Longrightarrow> \<exists>xs. split_ws_acc w s = (w @ takeWhile (\<lambda>c. \<not> is_ws c) s) # xs"
  by (induction w s rule: split_ws_acc.induct) auto

lemma first_word_eq: "first_word s = takeWhile (\<lambda>c. \<not> is_ws c) (trim_start s)"
  unfolding first_word_def split_ws_def trim_start_def
proof (induction s)
  case (Cons c s)
  then show ?case using split_acc_hd[of "[c]" s] by auto
qed simp

lemma first_word_infix: "first_word s \<noteq> [] \<Longrightarrow> \<exists>b. trim s = first_word s @ b"
proof -
  assume ne: "first_word s \<noteq> []"
  let ?t = "trim_start s" and ?x = "first_word s"
  obtain b where b: "?t = ?x @ b" unfolding first_word_eq by (metis takeWhile_dropWhile_id)
  have x: "\<forall>c\<in>set ?x. \<not> is_ws c" unfolding first_word_eq by (metis set_takeWhileD)
  obtain r where r: "?t = trim s @ r" "\<forall>c\<in>set r. is_ws c"
    using drop_end_while_prefix[of ?t is_ws] unfolding trim_def trim_end_def by metis
  have "\<exists>u. ?x @ u = trim s \<or> ?x = trim s @ u \<and> u @ b = r"
    using b r(1) by (metis append_eq_append_conv2)
  then obtain u where u: "?x @ u = trim s \<or> ?x = trim s @ u \<and> u @ b = r" by blast
  show ?thesis
  proof (cases "?x @ u = trim s")
    case False
    then have "u = []" using u x r(2) by (cases u) auto
    then show ?thesis using u False by auto
  qed metis
qed

lemma serial_bigint: "base_type ct = ''bigint'' \<Longrightarrow> serial_type ct = ''BIGSERIAL''"
proof -
  let ?s = "takeWhile (\<lambda>c. c \<noteq> CHR ''('') ct"
  assume b: "base_type ct = ''bigint''"
  then have "first_word ?s \<noteq> []" by (auto simp: base_type_def to_lower_def)
  then obtain r where "trim ?s = first_word ?s @ r" using first_word_infix by metis
  then have "to_lower (trim ?s) = ''bigint'' @ to_lower r" using b by (simp add: base_type_def to_lower_def)
  then have "contains_sub ''bigint'' (to_lower (trim ?s))" unfolding contains_sub_iff by (metis append_Nil)
  then show ?thesis by (simp add: serial_type_def)
qed

lemma serial_cases: "serial_type ct = ''SERIAL'' \<or> serial_type ct = ''BIGSERIAL''"
  by (simp add: serial_type_def)

definition driver_row :: "raw_row \<Rightarrow> nat \<Rightarrow> mysql_col \<Rightarrow> bool" where
  "driver_row get i col \<longleftrightarrow>
     (\<forall>k c. get i k = Inr (Some c) \<longrightarrow>
        kind_cell k c \<and> int_held (base_type (mc_type col)) (is_unsigned (mc_type col)) c)"

definition wide_enough :: "mysql_col \<Rightarrow> bool" where
  "wide_enough col =
     (let base = base_type (mc_type col); uns = is_unsigned (mc_type col) in
      if mc_auto col then
        base \<in> {''tinyint'', ''smallint'', ''mediumint''} \<or> base \<in> {''int'', ''integer'', ''bigint''} \<and> \<not> uns
      else base \<noteq> ''bit'' \<and> \<not> (base = ''smallint'' \<and> uns))"

lemma or_null_Inr: "or_null r = Inr c \<longleftrightarrow> r = Inr None \<and> c = CNull \<or> r = Inr (Some c)"
  by (auto simp: or_null_def split: sum.splits option.splits)

lemma null_on_error_Inr: "null_on_error r = Inr c \<Longrightarrow> c = CNull \<or> r = Inr (Some c)"
  by (auto simp: null_on_error_def split: sum.splits option.splits)

lemma accepts_null [simp]: "pg_accepts ty CNull"
  by (simp add: pg_accepts_def)

lemma auto_fits:
  assumes "mysql_kind base uns = Some k" "kind_cell k c" "int_held base uns c"
    and "base \<in> {''tinyint'', ''smallint'', ''mediumint''} \<or> base \<in> {''int'', ''integer'', ''bigint''} \<and> \<not> uns"
    and "ty = ''SERIAL'' \<or> ty = ''BIGSERIAL''" "base = ''bigint'' \<longrightarrow> ty = ''BIGSERIAL''"
  shows "pg_accepts ty c"
proof -
  have "k = I16 \<or> k = U16 \<or> k = I32 \<or> k = U32 \<and> base = ''mediumint'' \<and> uns \<or> k = I64 \<and> ty = ''BIGSERIAL''"
    using assms(1,4,6) by (simp only: insert_iff empty_iff simp_thms) (elim disjE conjE; hypsubst; cases uns; simp add: mysql_kind_def)
  then show ?thesis using assms(2,3,5)
    by (elim disjE conjE) (cases c; force simp: kind_cell_def pg_accepts_def int_fits_def int_held_def)+
qed

lemma text_fits:
  assumes "mysql_kind base uns = None" "base \<noteq> ''time''"
  shows "pg_accepts (pg_type_of base uns p) (CText s)"
  using assms unfolding mysql_kind_def
  by (simp split: if_splits) (simp add: pg_type_of_def pg_accepts_def with_paren_def starts_with_def mysql_blob_types_def split: option.split)

lemma cell_fits:
  assumes "driver_row get i col" "wide_enough col"
    and "mysql_type_to_pg col = Returns ty" "extract_mysql_cell lossy get i col = Inr c"
  shows "pg_accepts ty c"
proof -
  let ?ct = "mc_type col"
  let ?b = "base_type ?ct" and ?u = "is_unsigned ?ct"
  have row: "kind_cell k c' \<and> int_held ?b ?u c'" if "get i k = Inr (Some c')" for k c'
    using assms(1) that unfolding driver_row_def by blast
  show ?thesis
  proof (cases "?ct = ''tinyint(1)''")
    case True
    then obtain d where d: "or_null (get i I8) = Inr d" "c = int_as_bool d" "ty = ''BOOLEAN''"
      using assms(3,4) by (cases "or_null (get i I8)") (auto simp: extract_mysql_cell_def mysql_type_to_pg_def)
    then show ?thesis using row[of I8 d]
      by (cases d) (auto simp: or_null_Inr int_as_bool_def pg_accepts_def kind_cell_def)
  next
    case bool: False
    show ?thesis
    proof (cases "mysql_kind ?b ?u")
      case (Some k)
      have c: "c = CNull \<or> get i k = Inr (Some c)"
        using assms(4) bool Some by (auto simp: extract_mysql_cell_def Let_def or_null_Inr)
      show ?thesis
      proof (cases "mc_auto col")
        case True
        then have "ty = serial_type ?ct" using assms(3) bool by (simp add: mysql_type_to_pg_def Let_def)
        moreover have "?b \<in> {''tinyint'', ''smallint'', ''mediumint''} \<or> ?b \<in> {''int'', ''integer'', ''bigint''} \<and> \<not> ?u"
          using assms(2) True by (simp only: wide_enough_def Let_def if_True)
        ultimately have fit: "kind_cell k c \<Longrightarrow> int_held ?b ?u c \<Longrightarrow> pg_accepts ty c"
          using auto_fits[OF Some] serial_cases serial_bigint by simp
        from c show ?thesis using fit row by (elim disjE) (simp, blast)
      next
        case False
        then obtain p where "ty = pg_type_of ?b ?u p"
          using assms(3) bool by (cases "paren_part ?ct") (auto simp: mysql_type_to_pg_def Let_def)
        moreover have "?b \<noteq> ''bit'' \<and> \<not> (?b = ''smallint'' \<and> ?u)"
          using assms(2) False by (simp only: wide_enough_def Let_def if_False simp_thms)
        ultimately have fit: "kind_cell k c \<Longrightarrow> int_held ?b ?u c \<Longrightarrow> pg_accepts ty c"
          using kind_fits[OF Some] by simp
        from c show ?thesis using fit row by (elim disjE) (simp, blast)
      qed
    next
      case None
      have auto: "\<not> mc_auto col"
      proof
        assume a: "mc_auto col"
        then have "?b \<in> set [''tinyint'', ''smallint'', ''mediumint'', ''int'', ''integer'', ''bigint'']"
          using assms(2) by (simp only: wide_enough_def Let_def if_True set_simps insert_iff empty_iff) blast
        then show False using None
          by (simp only: set_simps insert_iff empty_iff) (elim disjE; simp add: mysql_kind_def; simp split: if_splits)
      qed
      then obtain p where ty: "ty = pg_type_of ?b ?u p"
        using assms(3) bool by (cases "paren_part ?ct") (auto simp: mysql_type_to_pg_def Let_def)
      show ?thesis
      proof (cases "?b = ''time''")
        case True
        then have "null_on_error (get i Clock) = Inr c"
          using assms(4) bool None by (simp add: extract_mysql_cell_def Let_def mysql_text_types_def)
        then have "c = CNull \<or> kind_cell Clock c" using null_on_error_Inr row by blast
        then show ?thesis using ty True
          by (cases c) (simp_all add: kind_cell_def pg_accepts_def pg_type_of_def)
      next
        case False
        have txt_cell: "c' = CNull \<or> (\<exists>s. c' = CText s)" if "c' = CNull \<or> get i Txt = Inr (Some c')" for c'
          using that row[of Txt c'] by (cases c') (auto simp: kind_cell_def)
        have blob_cell: "c' = CNull \<or> (\<exists>b. c' = CBytes b)" if "or_null (get i Blob) = Inr c'" for c'
          using that row[of Blob c'] by (cases c') (auto simp: kind_cell_def or_null_Inr)
        have "c = CNull \<or> (\<exists>s. c = CText s)"
        proof (cases "?b \<in> set mysql_text_types")
          case True
          show ?thesis
          proof (cases "get i Txt")
            case (Inl e)
            then obtain d where "or_null (get i Blob) = Inr d" "c = (case d of CBytes b \<Rightarrow> CText (lossy b) | _ \<Rightarrow> d)"
              using assms(4) bool None True by (cases "or_null (get i Blob)") (auto simp: extract_mysql_cell_def Let_def)
            then show ?thesis using blob_cell by (cases d) auto
          next
            case (Inr r)
            then show ?thesis using assms(4) bool None True txt_cell
              by (auto simp: extract_mysql_cell_def Let_def or_null_Inr)
          qed
        next
          case notext: False
          then show ?thesis using assms(4) bool None False txt_cell null_on_error_Inr[of "get i Txt" c]
            by (auto simp: extract_mysql_cell_def Let_def)
        qed
        then show ?thesis using text_fits[OF None False] ty accepts_null by blast
      qed
    qed
  qed
qed

section \<open>Properties\<close>

text \<open>
  C12. Migrated cells fit their columns: a cell read from a MySQL column by the decoder of its type
  is accepted by the PostgreSQL type that the column is created with, integers within its
  bounds, for every type except BIT, SMALLINT UNSIGNED and auto-increment columns of the unsigned
  types of 32 and 64 bits.
\<close>

theorem migrated_cells_fit:
  assumes "driver_row get i col" "wide_enough col"
    and "mysql_type_to_pg col = Returns ty" "extract_mysql_cell lossy get i col = Inr c"
  shows "pg_accepts ty c"
  by (rule cell_fits[OF assms])

definition biggest_row :: raw_row where
  "biggest_row i k =
     (case k of
        U32 \<Rightarrow> Inr (Some (CInt 4294967295))
      | U16 \<Rightarrow> Inr (Some (CInt 65535))
      | _ \<Rightarrow> Inl ''mismatched types'')"

theorem migrated_cells_fit_witness:
  "pg_accepts ''BIGINT'' (CInt 4294967295)"
proof (rule migrated_cells_fit[of biggest_row 0 "mysql_column ''n'' ''int unsigned'' ''NO'' []" "''BIGINT''" "\<lambda>_. []"])
  show "driver_row biggest_row 0 (mysql_column ''n'' ''int unsigned'' ''NO'' [])"
    unfolding driver_row_def
  proof (intro allI impI)
    fix k c
    have base: "base_type (mc_type (mysql_column ''n'' ''int unsigned'' ''NO'' [])) = ''int''" by code_simp
    assume "biggest_row 0 k = Inr (Some c)"
    then show "kind_cell k c \<and> int_held (base_type (mc_type (mysql_column ''n'' ''int unsigned'' ''NO'' [])))
        (is_unsigned (mc_type (mysql_column ''n'' ''int unsigned'' ''NO'' []))) c"
      unfolding base by (cases k) (auto simp: biggest_row_def kind_cell_def int_held_def)
  qed
  show "wide_enough (mysql_column ''n'' ''int unsigned'' ''NO'' [])" by code_simp
  show "mysql_type_to_pg (mysql_column ''n'' ''int unsigned'' ''NO'' []) = Returns ''BIGINT''" by code_simp
  show "extract_mysql_cell (\<lambda>_. []) biggest_row 0 (mysql_column ''n'' ''int unsigned'' ''NO'' []) = Inr (CInt 4294967295)" by code_simp
qed

section \<open>Where they do not fit\<close>

text \<open>The upper half of SMALLINT UNSIGNED is out of the range of SMALLINT.\<close>

theorem unsigned_smallint_overflows:
  "mysql_type_to_pg (mysql_column ''n'' ''smallint unsigned'' ''NO'' []) = Returns ''SMALLINT''
    \<and> extract_mysql_cell (\<lambda>_. []) biggest_row 0 (mysql_column ''n'' ''smallint unsigned'' ''NO'' []) = Inr (CInt 65535)
    \<and> \<not> pg_accepts ''SMALLINT'' (CInt 65535)"
  by code_simp

text \<open>An unsigned key becomes a signed serial column, although the plain column would have become BIGINT.\<close>

theorem unsigned_serial_overflows:
  "mysql_type_to_pg (mysql_column ''id'' ''int unsigned'' ''NO'' ''auto_increment'') = Returns ''SERIAL''
    \<and> extract_mysql_cell (\<lambda>_. []) biggest_row 0 (mysql_column ''id'' ''int unsigned'' ''NO'' ''auto_increment'') = Inr (CInt 4294967295)
    \<and> \<not> pg_accepts ''SERIAL'' (CInt 4294967295)"
  by code_simp

text \<open>A BIT column is created as BIT but filled with a bytea literal, which no BIT column accepts.\<close>

theorem bit_column_rejects_bytes:
  "mysql_type_to_pg (mysql_column ''b'' ''bit(8)'' ''NO'' []) = Returns ''BIT(8)''
    \<and> mysql_kind ''bit'' False = Some Blob
    \<and> cell_to_pg_literal show_json (CBytes [5]) = [squote, bslash] @ ''x05'' @ [squote]
    \<and> \<not> pg_accepts ''BIT(8)'' (CBytes [5])"
proof -
  have "cell_to_pg_literal show_json (CBytes [5]) = [squote, bslash] @ ''x05'' @ [squote]"
  proof -
    have "hex_encode [5] = ''05''" by code_simp
    then show ?thesis by (simp add: cell_to_pg_literal_def in_quotes_def)
  qed
  moreover have "mysql_type_to_pg (mysql_column ''b'' ''bit(8)'' ''NO'' []) = Returns ''BIT(8)''" by code_simp
  moreover have "mysql_kind ''bit'' False = Some Blob" by code_simp
  ultimately show ?thesis by (simp add: pg_accepts_def)
qed

text \<open>A cell that cannot be decoded is copied as NULL, and the migration reports success.\<close>

theorem undecodable_cell_becomes_null:
  "row_cells (extract_mysql_cell (\<lambda>_. [])) [mysql_column ''d'' ''decimal(65,30)'' ''YES'' []] (\<lambda>_ _. Inl ''out of range'') = [CNull]"
  by code_simp

end
