(* ===== verification/Dip_Runtime.thy ===== *)
theory Dip_Runtime
  imports Dip_Apple
begin

text \<open>
  The trait \<open>ContainerRuntime\<close> and the handle \<open>Runtime\<close> of \<open>runtime/mod.rs\<close>: the operations
  commands use, as a record of computations, with one value for each backend. The compose file
  of a project as the Apple backend loads it is the parameter \<open>load\<close>; \<open>show_cfg\<close> and \<open>show_rows\<close> are
  \<open>serde_json::to_string\<close> on the configuration and on the rows of \<open>ps\<close>.
\<close>

record container_runtime =
  rt_name :: string
  rt_check :: "unit io"
  rt_compose_run :: "project_config \<Rightarrow> string list \<Rightarrow> unit io"
  rt_compose_stream :: "project_config \<Rightarrow> string list \<Rightarrow> bool \<Rightarrow> int io"
  rt_compose_grep :: "project_config \<Rightarrow> string list \<Rightarrow> string list \<Rightarrow> string list io"
  rt_compose_capture :: "project_config \<Rightarrow> string list \<Rightarrow> string io"
  rt_raw_capture :: "string list \<Rightarrow> string io"
  rt_raw_stream :: "string list \<Rightarrow> unit io"
  rt_db_services :: "project_config \<Rightarrow> db_service list io"
  rt_containers :: "project_config \<Rightarrow> bool \<Rightarrow> project_container list io"
  rt_running_count :: "string \<Rightarrow> nat io"
  rt_container_ip :: "string \<Rightarrow> string io"
  rt_prune_plan :: "bool \<Rightarrow> bool \<Rightarrow> string list"
  rt_prune_system :: "bool \<Rightarrow> bool \<Rightarrow> unit io"

definition docker_runtime ::
    "cli \<Rightarrow> (string \<Rightarrow> json option) \<Rightarrow> (string \<Rightarrow> string list \<Rightarrow> (string + string) option) \<Rightarrow> container_runtime" where
  "docker_runtime cli decode try_ps =
     \<lparr>rt_name = ''docker'',
      rt_check = docker_check_daemon cli,
      rt_compose_run = docker_compose_run cli,
      rt_compose_stream = docker_compose_stream cli,
      rt_compose_grep = docker_compose_stream_grep cli,
      rt_compose_capture = docker_compose_capture cli try_ps,
      rt_raw_capture = docker_raw_capture cli,
      rt_raw_stream = docker_raw_stream cli,
      rt_db_services = docker_db_services cli decode,
      rt_containers = docker_project_containers cli decode,
      rt_running_count = docker_running_count_by_project cli,
      rt_container_ip = docker_container_ip cli decode,
      rt_prune_plan = prune_plan Docker,
      rt_prune_system = docker_prune_system cli\<rparr>"

definition apple_compose_capture ::
    "cli \<Rightarrow> (string \<Rightarrow> json option) \<Rightarrow> (compose_config \<Rightarrow> string) \<Rightarrow> (ps_row list \<Rightarrow> string)
      \<Rightarrow> project_config \<Rightarrow> string + compose_config \<Rightarrow> string list \<Rightarrow> string io" where
  "apple_compose_capture cli decode show_cfg show_rows p loaded args =
     (if args = [''config'', ''--format'', ''json''] then io_bind (of_result loaded) (\<lambda>cfg. ret (show_cfg cfg))
      else if args = [''config'', ''--services''] then
        io_bind (of_result loaded) (\<lambda>cfg. ret (join [nl] (map fst cfg) @ [nl]))
      else if args = [''ps'', ''-q'', ''-a''] then ps_quiet cli decode p loaded None True
      else if length args = 4 \<and> take 3 args = [''ps'', ''-q'', ''-a''] then ps_quiet cli decode p loaded (Some (args ! 3)) True
      else if args = [''ps'', ''-q''] then ps_quiet cli decode p loaded None False
      else if length args = 3 \<and> take 2 args = [''ps'', ''-q''] then ps_quiet cli decode p loaded (Some (args ! 2)) False
      else if args = [''ps'', ''-a'', ''--format'', ''json''] then
        io_bind (ps_json cli decode p loaded) (\<lambda>rows. ret (show_rows rows))
      else unsupported_compose args)"

definition apple_runtime ::
    "cli \<Rightarrow> (string \<Rightarrow> json option) \<Rightarrow> (compose_config \<Rightarrow> string) \<Rightarrow> (ps_row list \<Rightarrow> string)
      \<Rightarrow> (project_config \<Rightarrow> string + compose_config) \<Rightarrow> container_runtime" where
  "apple_runtime cli decode show_cfg show_rows load =
     \<lparr>rt_name = ''apple'',
      rt_check = apple_check_daemon cli,
      rt_compose_run = (\<lambda>p. apple_compose_run cli decode p (load p)),
      rt_compose_stream = (\<lambda>p. apple_compose_stream cli p (load p)),
      rt_compose_grep = (\<lambda>p. apple_compose_stream_grep cli p (load p)),
      rt_compose_capture = (\<lambda>p. apple_compose_capture cli decode show_cfg show_rows p (load p)),
      rt_raw_capture = apple_raw_capture cli decode,
      rt_raw_stream = apple_raw_stream cli,
      rt_db_services = apple_db_services cli decode,
      rt_containers = apple_project_containers cli decode,
      rt_running_count = apple_running_count_by_project cli decode,
      rt_container_ip = apple_container_ip cli decode,
      rt_prune_plan = prune_plan Apple,
      rt_prune_system = apple_prune_system cli\<rparr>"

text \<open>\<open>Runtime::get_container_id\<close>.\<close>

definition get_container_id :: "container_runtime \<Rightarrow> project_config \<Rightarrow> string \<Rightarrow> string io" where
  "get_container_id rt p service =
     io_bind (rt_compose_capture rt p [''ps'', ''-q'', service]) (\<lambda>raw.
       if trim raw = [] then bail (''No running container for service '' @ service @ ''. Is it started?'')
       else ret (trim raw))"

lemmas runtime_defs = docker_runtime_def apple_runtime_def

end
