(* ===== verification/Dip_Lifecycle.thy ===== *)
theory Dip_Lifecycle
  imports Dip_Runtime Dip_Routes
begin

text \<open>
  The lifecycle commands (\<open>commands/start.rs\<close>, \<open>stop.rs\<close>, \<open>restart.rs\<close>, \<open>reset.rs\<close>, \<open>remove.rs\<close>,
  \<open>cleanup.rs\<close>, \<open>build.rs\<close>, \<open>pull.rs\<close>, \<open>prune.rs\<close>, \<open>top.rs\<close>, \<open>stats.rs\<close>, \<open>use_runtime.rs\<close>). A command is a
  computation over the processes; the ones that touch the proxy take its state and return
  the new one, which is the old one when they fail. \<open>rt\<close> is \<open>Runtime::new\<close>, which chooses the backend
  from the environment of the project, \<open>found\<close> the outcome of \<open>ProjectConfig::load\<close>, \<open>exists\<close> asks for
  hook files, \<open>yes\<close> is the answer to a question.
\<close>

section \<open>Commands\<close>

definition up_args :: "string option \<Rightarrow> string list" where
  "up_args service = [''up'', ''-d''] @ (case service of Some s \<Rightarrow> [s] | None \<Rightarrow> [])"

definition stop_args :: "string option \<Rightarrow> string list" where
  "stop_args service = [''stop''] @ (case service of Some s \<Rightarrow> [s] | None \<Rightarrow> [])"

text \<open>Hooks run for the whole project only.\<close>

definition hook_unless :: "cli \<Rightarrow> (string \<Rightarrow> bool) \<Rightarrow> project_config \<Rightarrow> string option \<Rightarrow> string \<Rightarrow> unit io" where
  "hook_unless cli exists p service name = (if service = None then run_soft_hook cli exists p name else ret ())"

definition pre_start :: "cli \<Rightarrow> (string \<Rightarrow> bool) \<Rightarrow> project_config \<Rightarrow> string option \<Rightarrow> project_config io" where
  "pre_start cli exists p service = (if service = None then apply_pre_start cli exists p else ret p)"

text \<open>\<open>proxy::apply_sync\<close> lists the running containers, \<open>proxy::apply_unsync\<close> all of them.\<close>

definition sync_px :: "container_runtime \<Rightarrow> outside \<Rightarrow> project_config \<Rightarrow> proxy_state \<Rightarrow> proxy_state io" where
  "sync_px r o1 p px = io_bind (attempt (rt_containers r p False)) (\<lambda>cs. ret (apply_sync o1 cs px))"

definition unsync_px :: "container_runtime \<Rightarrow> outside \<Rightarrow> project_config \<Rightarrow> proxy_state \<Rightarrow> proxy_state io" where
  "unsync_px r o1 p px = io_bind (attempt (rt_containers r p True)) (\<lambda>cs. ret (apply_unsync o1 cs px))"

definition start_cmd ::
    "(project_config \<Rightarrow> container_runtime) \<Rightarrow> cli \<Rightarrow> (string \<Rightarrow> bool) \<Rightarrow> outside \<Rightarrow> string + project_config
      \<Rightarrow> string option \<Rightarrow> proxy_state \<Rightarrow> proxy_state io" where
  "start_cmd rt cli exists o1 found service px =
     io_bind (of_result found) (\<lambda>p.
     io_bind (pre_start cli exists p service) (\<lambda>p'.
     io_seq (rt_compose_run (rt p) p' (up_args service))
     (io_bind (sync_px (rt p') o1 p' px) (\<lambda>px'.
      io_seq (hook_unless cli exists p' service ''post-start'') (ret px')))))"

definition stop_cmd ::
    "(project_config \<Rightarrow> container_runtime) \<Rightarrow> cli \<Rightarrow> (string \<Rightarrow> bool) \<Rightarrow> outside \<Rightarrow> string + project_config
      \<Rightarrow> string option \<Rightarrow> proxy_state \<Rightarrow> proxy_state io" where
  "stop_cmd rt cli exists o1 found service px =
     io_bind (of_result found) (\<lambda>p.
     io_seq (hook_unless cli exists p service ''pre-stop'')
     (io_seq (rt_compose_run (rt p) p (stop_args service))
     (io_bind (unsync_px (rt p) o1 p px) (\<lambda>px'.
      io_seq (hook_unless cli exists p service ''post-stop'') (ret px')))))"

definition restart_cmd ::
    "(project_config \<Rightarrow> container_runtime) \<Rightarrow> cli \<Rightarrow> (string \<Rightarrow> bool) \<Rightarrow> outside \<Rightarrow> string + project_config
      \<Rightarrow> string option \<Rightarrow> proxy_state \<Rightarrow> proxy_state io" where
  "restart_cmd rt cli exists o1 found service px =
     io_bind (of_result found) (\<lambda>p.
     io_seq (hook_unless cli exists p service ''pre-stop'')
     (io_seq (rt_compose_run (rt p) p (stop_args service))
     (io_seq (hook_unless cli exists p service ''post-stop'')
     (io_bind (pre_start cli exists p service) (\<lambda>p'.
      io_seq (rt_compose_run (rt p) p' (up_args service))
      (io_bind (sync_px (rt p') o1 p' px) (\<lambda>px'.
       io_seq (hook_unless cli exists p' service ''post-start'') (ret px'))))))))"

definition reset_cmd :: "(project_config \<Rightarrow> container_runtime) \<Rightarrow> string + project_config \<Rightarrow> unit io" where
  "reset_cmd rt found =
     io_bind (of_result found) (\<lambda>p.
     io_seq (rt_compose_run (rt p) p [''stop''])
     (io_seq (rt_compose_run (rt p) p [''rm'', ''-f''])
     (rt_compose_run (rt p) p [''up'', ''-d''])))"

text \<open>The daemon that is checked is that of \<open>detect_for_current_dir\<close>, here \<open>current\<close>.\<close>

definition remove_cmd ::
    "container_runtime \<Rightarrow> (project_config \<Rightarrow> container_runtime) \<Rightarrow> string + project_config \<Rightarrow> string + bool \<Rightarrow> string option \<Rightarrow> unit io" where
  "remove_cmd current rt found yes service =
     io_seq (rt_check current)
     (io_bind (of_result yes) (\<lambda>y.
       if \<not> y then ret ()
       else io_bind (of_result found) (\<lambda>p.
         (case service of
            Some s \<Rightarrow> rt_compose_run (rt p) p [''rm'', ''-f'', ''-s'', s]
          | None \<Rightarrow> rt_compose_run (rt p) p [''down'', ''--remove-orphans'']))))"

definition cleanup_cmd :: "(project_config \<Rightarrow> container_runtime) \<Rightarrow> string + project_config \<Rightarrow> unit io" where
  "cleanup_cmd rt found =
     io_bind (of_result found) (\<lambda>p.
     io_seq (rt_compose_run (rt p) p [''rm'', ''-f'', ''--stop''])
     (rt_raw_stream (rt p) [''image'', ''prune'', ''-f'']))"

definition build_cmd :: "(project_config \<Rightarrow> container_runtime) \<Rightarrow> string + project_config \<Rightarrow> string option \<Rightarrow> unit io" where
  "build_cmd rt found service =
     io_bind (of_result found) (\<lambda>p.
       rt_compose_run (rt p) p ([''build''] @ (case service of Some s \<Rightarrow> [s] | None \<Rightarrow> [])))"

definition pull_cmd :: "(project_config \<Rightarrow> container_runtime) \<Rightarrow> string + project_config \<Rightarrow> unit io" where
  "pull_cmd rt found = io_bind (of_result found) (\<lambda>p. rt_compose_run (rt p) p [''pull''])"

definition prune_cmd :: "container_runtime \<Rightarrow> string + bool \<Rightarrow> bool \<Rightarrow> bool \<Rightarrow> unit io" where
  "prune_cmd current yes vols everything =
     io_seq (rt_check current)
     (io_bind (of_result yes) (\<lambda>y. if y then rt_prune_system current vols everything else ret ()))"

definition top_cmd :: "(project_config \<Rightarrow> container_runtime) \<Rightarrow> string + project_config \<Rightarrow> string option \<Rightarrow> unit io" where
  "top_cmd rt found service =
     io_bind (of_result found) (\<lambda>p.
     io_bind (rt_compose_stream (rt p) p ([''top''] @ (case service of Some s \<Rightarrow> [s] | None \<Rightarrow> [])) False) (\<lambda>_. ret ()))"

definition stats_format :: string where
  "stats_format =
     ''table {{.Name}}'' @ [tab] @ ''{{.CPUPerc}}'' @ [tab] @ ''{{.MemUsage}}'' @ [tab] @ ''{{.NetIO}}'' @ [tab] @ ''{{.BlockIO}}''"

text \<open>A stream of one service passes its error on, that of the project does not.\<close>

definition stats_cmd :: "(project_config \<Rightarrow> container_runtime) \<Rightarrow> string + project_config \<Rightarrow> string option \<Rightarrow> unit io" where
  "stats_cmd rt found service =
     io_bind (of_result found) (\<lambda>p.
       (case service of
          Some s \<Rightarrow>
            io_bind (rt_compose_capture (rt p) p [''ps'', ''-q'', s]) (\<lambda>raw.
              if id_lines raw = [] then ret ()
              else rt_raw_stream (rt p) ([''stats'', ''--format'', stats_format] @ id_lines raw))
        | None \<Rightarrow>
            io_bind (rt_raw_capture (rt p) [''ps'', ''-q'', ''--filter'', ''label=com.docker.compose.project='' @ project_name p]) (\<lambda>raw.
              if id_lines raw = [] then ret ()
              else io_bind (attempt (rt_raw_stream (rt p) ([''stats'', ''--format'', stats_format] @ id_lines raw))) (\<lambda>_. ret ()))))"

datatype runtime_choice = Choose_apple | Choose_docker | Choose_auto

definition choice_name :: "runtime_choice \<Rightarrow> string option" where
  "choice_name c = (case c of Choose_apple \<Rightarrow> Some ''apple'' | Choose_docker \<Rightarrow> Some ''docker'' | Choose_auto \<Rightarrow> None)"

text \<open>The two runtime files, of the project and global; the first one needs a project.\<close>

definition use_runtime_cmd ::
    "runtime_choice \<Rightarrow> bool \<Rightarrow> string + project_config \<Rightarrow> string option \<times> string option \<Rightarrow> string + (string option \<times> string option)" where
  "use_runtime_cmd c project found files =
     (case files of (pf, gf) \<Rightarrow>
        if project then
          and_then found (\<lambda>_. and_then (set_runtime_file (choice_name c) pf) (\<lambda>pf'. Inr (pf', gf)))
        else and_then (set_runtime_file (choice_name c) gf) (\<lambda>gf'. Inr (pf, gf')))"

section \<open>The sequence of a command\<close>

text \<open>What the outside sees of a command on the Docker backend: hooks and compose operations.\<close>

datatype life_event = Hook string | Compose "string list"

definition hook_names :: "string list" where
  "hook_names = [''pre-start'', ''post-start'', ''pre-stop'', ''post-stop'']"

definition life_events :: "project_config \<Rightarrow> hist \<Rightarrow> string list \<Rightarrow> life_event list" where
  "life_events p h argv =
     (if take 4 argv = compose_argv p [] then [Compose (drop 4 argv)]
      else case find (\<lambda>n. argv = [hook_path p n]) hook_names of Some n \<Rightarrow> [Hook n] | None \<Rightarrow> [])"

definition hook_event :: "(string \<Rightarrow> bool) \<Rightarrow> project_config \<Rightarrow> string option \<Rightarrow> string \<Rightarrow> life_event list" where
  "hook_event exists p service n = (if service = None \<and> exists (hook_path p n) then [Hook n] else [])"

lemma merge_env_fields [simp]:
  "compose_path (merge_env vars p) = compose_path p" "dip_dir (merge_env vars p) = dip_dir p"
  by (simp_all add: merge_env_def)

lemma merge_env_argv [simp]:
  "compose_argv (merge_env vars p) args = compose_argv p args" "hook_path (merge_env vars p) n = hook_path p n"
  by (simp_all add: compose_argv_def hook_path_def)

lemma pick_compose: "life_events p h (compose_argv p args) = [Compose args]"
  by (simp add: life_events_def compose_argv_def)

lemma hook_path_eq [simp]: "hook_path p m = hook_path p n \<longleftrightarrow> m = n"
  by (simp add: hook_path_def)

lemma pick_hook: "n \<in> set hook_names \<Longrightarrow> life_events p h [hook_path p n] = [Hook n]"
  by (auto simp: life_events_def compose_argv_def hook_names_def)

lemma pick_inspect: "life_events p h (''docker'' # ''inspect'' # ids) = []"
  by (simp add: life_events_def compose_argv_def hook_names_def)

lemma causes_compose_run: "causes (life_events p) (docker_compose_run cli p args) [Compose args]"
  unfolding docker_compose_run_def
  by (intro causes_bind causes_call pick_compose) (auto intro: causes_intros split: cli_out.split)

lemma causes_containers:
  "causes (life_events p) (docker_project_containers cli decode p stopped)
    [Compose ([''ps'', ''-q''] @ (if stopped then [''-a''] else []))]"
  unfolding docker_project_containers_def
proof (intro causes_bind causes_call pick_compose)
  fix out
  have inspect: "causes (life_events p) (io_bind (docker_inspect cli decode ids) f) []"
    if "\<And>a. causes (life_events p) (f a) []" for ids and f :: "json list \<Rightarrow> project_container list io"
    unfolding docker_inspect_def
    by (intro causes_bind causes_call pick_inspect that)
      (auto intro: causes_intros split: cli_out.split option.split)
  show "causes (life_events p)
      (case out of Spawn_error e \<Rightarrow> bail e
       | Exited c s so se \<Rightarrow>
           if id_lines so = [] then ret []
           else io_bind (docker_inspect cli decode (id_lines so))
             (\<lambda>cs. ret (map (\<lambda>x. \<lparr>clabels = jindex (jindex x ''Config'') ''Labels'', cip = docker_ip_of x\<rparr>) cs))) []"
    by (cases out) (simp_all add: causes_bail causes_ret inspect del: bail_apply ret_apply)
qed

lemma causes_named_hook:
  assumes "n \<in> set hook_names"
  shows "causes (life_events p) (run_named_hook cli exists p n) (hook_event exists p None n)"
proof (cases "exists (hook_path p n)")
  case True
  have "causes (life_events p) (run_hook cli (hook_path p n)) [Hook n]"
    unfolding run_hook_def
    by (intro causes_bind causes_call pick_hook assms) (auto intro: causes_intros split: cli_out.split)
  then show ?thesis using True by (simp add: run_named_hook_def hook_event_def)
next
  case False
  then show ?thesis by (simp add: run_named_hook_def hook_event_def causes_ret)
qed

lemma emits_hook_unless:
  assumes "n \<in> set hook_names"
  shows "emits (life_events p) (hook_unless cli exists p service n) (hook_event exists p service n)"
proof (cases "service = None")
  case True
  have "causes (life_events p) (run_soft_hook cli exists p n) (hook_event exists p None n)"
    unfolding run_soft_hook_def by (intro causes_bind causes_attempt causes_named_hook assms causes_ret)
  then show ?thesis using True by (simp add: hook_unless_def causes_emits)
next
  case False
  then show ?thesis by (simp only: hook_unless_def hook_event_def if_False simp_thms emits_ret)
qed

definition project_emits :: "project_config \<Rightarrow> project_config io \<Rightarrow> life_event list \<Rightarrow> bool" where
  "project_emits p m es \<longleftrightarrow> emits (life_events p) m es \<and> (\<forall>h q h'. m h = (Inr q, h') \<longrightarrow> (\<exists>vars. q = merge_env vars p))"

lemma merge_empty: "merge_env Map.empty p = p"
  by (simp add: merge_env_def)

lemma pre_start_emits: "project_emits p (pre_start cli exists p service) (hook_event exists p service ''pre-start'')"
proof (cases "service = None")
  case True
  have "emits (life_events p) (apply_pre_start cli exists p) (hook_event exists p None ''pre-start'')"
    unfolding apply_pre_start_def
    by (intro causes_emits causes_bind causes_named_hook causes_ret) (simp add: hook_names_def)
  moreover have "\<exists>vars. q = merge_env vars p" if "apply_pre_start cli exists p h = (Inr q, h')" for h q h'
    using that by (auto simp: apply_pre_start_def io_bind_def split: prod.splits sum.splits)
  ultimately show ?thesis using True by (simp add: project_emits_def pre_start_def)
next
  case False
  then have "pre_start cli exists p service = ret p" "hook_event exists p service ''pre-start'' = []"
    by (simp_all only: pre_start_def hook_event_def if_False simp_thms)
  moreover have "project_emits p (ret p) []"
    unfolding project_emits_def by (auto intro: emits_ret exI[of _ Map.empty] simp: merge_empty)
  ultimately show ?thesis by simp
qed

lemma emits_project_bind:
  assumes m: "project_emits p m es" and f: "\<And>vars. emits (life_events p) (f (merge_env vars p)) es'"
  shows "emits (life_events p) (io_bind m f) (es @ es')"
proof -
  let ?g = "\<lambda>q. if \<exists>vars. q = merge_env vars p then f q else bail []"
  have "io_bind m f h = io_bind m ?g h" for h
    using m unfolding project_emits_def io_bind_def by (auto split: prod.split sum.split)
  then have "io_bind m f = io_bind m ?g" by blast
  moreover have "emits (life_events p) (?g q) es'" for q
    using f by (cases "\<exists>vars. q = merge_env vars p") (auto simp del: bail_apply intro: emits_bail)
  moreover have "emits (life_events p) m es" using m unfolding project_emits_def by blast
  ultimately show ?thesis using emits_bind[of "life_events p" m es ?g es'] by simp
qed

lemma life_events_merge [simp]: "life_events (merge_env vars p) = life_events p"
  by (simp add: life_events_def fun_eq_iff)

lemma hook_event_merge [simp]: "hook_event exists (merge_env vars p) = hook_event exists p"
  by (simp add: hook_event_def fun_eq_iff)

lemma emits_sync:
  "emits (life_events p) (sync_px (docker_runtime cli decode try_ps) o1 p px) [Compose [''ps'', ''-q'']]"
  "emits (life_events p) (unsync_px (docker_runtime cli decode try_ps) o1 p px) [Compose [''ps'', ''-q'', ''-a'']]"
  unfolding sync_px_def unsync_px_def docker_runtime_def container_runtime.simps
  using causes_containers[of p cli decode False] causes_containers[of p cli decode True]
  by (auto intro!: causes_emits causes_bind causes_attempt causes_ret simp del: ret_apply)

lemma emits_compose_run:
  "emits (life_events p) (rt_compose_run (docker_runtime cli decode try_ps) p args) [Compose args]"
  by (simp add: docker_runtime_def causes_emits causes_compose_run)

lemma emits_last: "emits pick m es \<Longrightarrow> emits pick (io_seq m (ret a)) es"
  using emits_seq[of pick m es "ret a" "[]"] emits_ret[of pick a] by simp

text \<open>The parts a command is put together from, for the project and the project after its hook.\<close>

lemma emits_parts:
  assumes "n \<in> set hook_names"
  shows "emits (life_events p) (hook_unless cli exists (merge_env vars p) service n) (hook_event exists p service n)"
    "emits (life_events p) (rt_compose_run (docker_runtime cli decode try_ps) (merge_env vars p) args) [Compose args]"
    "emits (life_events p) (sync_px (docker_runtime cli decode try_ps) o1 (merge_env vars p) px) [Compose [''ps'', ''-q'']]"
  using emits_hook_unless[OF assms, of "merge_env vars p" cli exists service] emits_sync(1)[of "merge_env vars p"]
    emits_compose_run[of "merge_env vars p" cli decode try_ps args]
  by simp_all

lemma start_events:
  "emits (life_events p) (start_cmd (\<lambda>_. docker_runtime cli decode try_ps) cli exists o1 (Inr p) service px)
    (hook_event exists p service ''pre-start'' @ [Compose (up_args service)] @ [Compose [''ps'', ''-q'']]
      @ hook_event exists p service ''post-start'')"
  unfolding start_cmd_def bind_result
  by (intro emits_project_bind pre_start_emits emits_seq emits_bind emits_last emits_parts[of "''post-start''"])
    (simp_all add: hook_names_def)

lemma stop_events:
  "emits (life_events p) (stop_cmd (\<lambda>_. docker_runtime cli decode try_ps) cli exists o1 (Inr p) service px)
    (hook_event exists p service ''pre-stop'' @ [Compose (stop_args service)] @ [Compose [''ps'', ''-q'', ''-a'']]
      @ hook_event exists p service ''post-stop'')"
  unfolding stop_cmd_def bind_result
  by (intro emits_seq emits_bind emits_last emits_hook_unless emits_compose_run emits_sync) (simp_all add: hook_names_def)

lemma restart_events:
  "emits (life_events p) (restart_cmd (\<lambda>_. docker_runtime cli decode try_ps) cli exists o1 (Inr p) service px)
    (hook_event exists p service ''pre-stop'' @ [Compose (stop_args service)] @ hook_event exists p service ''post-stop''
      @ hook_event exists p service ''pre-start'' @ [Compose (up_args service)] @ [Compose [''ps'', ''-q'']]
      @ hook_event exists p service ''post-start'')"
  unfolding restart_cmd_def bind_result
  by (intro emits_seq emits_hook_unless emits_compose_run emits_project_bind pre_start_emits emits_bind emits_last
        emits_parts[of "''post-start''"]) (simp_all add: hook_names_def)

lemma reset_events:
  "emits (life_events p) (reset_cmd (\<lambda>_. docker_runtime cli decode try_ps) (Inr p))
    ([Compose [''stop'']] @ [Compose [''rm'', ''-f'']] @ [Compose [''up'', ''-d'']])"
  unfolding reset_cmd_def bind_result by (intro emits_seq emits_compose_run)

section \<open>Properties\<close>

text \<open>
  C28. Lifecycle commands do their steps in order: with any Docker engine and any hooks, \<open>dip restart\<close>
  runs the stop hooks around the stop, the start hooks around the start, and looks for the
  containers to route after the start; \<open>dip start\<close>, \<open>dip stop\<close> and \<open>dip reset\<close> likewise. A command that
  fails has done a prefix of its steps.
\<close>

theorem lifecycle_in_order:
  "emits (life_events p) (start_cmd (\<lambda>_. docker_runtime cli decode try_ps) cli exists o1 (Inr p) service px)
     (hook_event exists p service ''pre-start'' @ [Compose (up_args service)] @ [Compose [''ps'', ''-q'']]
       @ hook_event exists p service ''post-start'')
   \<and> emits (life_events p) (stop_cmd (\<lambda>_. docker_runtime cli decode try_ps) cli exists o1 (Inr p) service px)
     (hook_event exists p service ''pre-stop'' @ [Compose (stop_args service)] @ [Compose [''ps'', ''-q'', ''-a'']]
       @ hook_event exists p service ''post-stop'')
   \<and> emits (life_events p) (restart_cmd (\<lambda>_. docker_runtime cli decode try_ps) cli exists o1 (Inr p) service px)
     (hook_event exists p service ''pre-stop'' @ [Compose (stop_args service)] @ hook_event exists p service ''post-stop''
       @ hook_event exists p service ''pre-start'' @ [Compose (up_args service)] @ [Compose [''ps'', ''-q'']]
       @ hook_event exists p service ''post-start'')
   \<and> emits (life_events p) (reset_cmd (\<lambda>_. docker_runtime cli decode try_ps) (Inr p))
     ([Compose [''stop'']] @ [Compose [''rm'', ''-f'']] @ [Compose [''up'', ''-d'']])"
  by (intro conjI start_events stop_events restart_events reset_events)

section \<open>Where the commands surprise\<close>

text \<open>A backend on which everything works, with two routed services.\<close>

definition labelled :: "string \<Rightarrow> string \<Rightarrow> project_container" where
  "labelled d ip = \<lparr>clabels = JObj [(''dip.host'', JStr d)], cip = Some ip\<rparr>"

definition calm_runtime :: container_runtime where
  "calm_runtime =
     (docker_runtime (\<lambda>_ _. Exited (Some 0) None [] []) (\<lambda>_. None) (\<lambda>_ _. None))
       \<lparr>rt_containers := \<lambda>_ _. ret [labelled ''api.localhost'' ''10.0.0.2'', labelled ''web.localhost'' ''10.0.0.3'']\<rparr>"

text \<open>Stopping one service takes the routes of all services of the project away, which keep running.\<close>

definition two_routes :: proxy_state where
  "two_routes =
     fresh_proxy\<lparr>config_file := Inr (default_config\<lparr>routes :=
       [\<lparr>domain = ''api.localhost'', upstream = ''10.0.0.2:80''\<rparr>, \<lparr>domain = ''web.localhost'', upstream = ''10.0.0.3:80''\<rparr>]\<rparr>)\<rparr>"

theorem stop_one_unroutes_all:
  "map_sum id config_file
     (fst (stop_cmd (\<lambda>_. calm_runtime) (\<lambda>_ _. Exited (Some 0) None [] []) (\<lambda>_. False) calm
        (Inr (demo_project ''shop'')) (Some ''api'') two_routes []))
   = Inr (Inr (default_config\<lparr>routes := []\<rparr>))"
  by code_simp

text \<open>A failing hook other than pre-start does not abort its command, although \<open>hooks.rs\<close> says that hooks do.\<close>

definition hook_fails :: cli where
  "hook_fails h argv =
     (if argv = [hook_path (demo_project ''shop'') ''pre-stop''] then Exited (Some 1) None [] [] else Exited (Some 0) None [] [])"

theorem failing_stop_hook_ignored:
  "let r = stop_cmd (\<lambda>_. docker_runtime hook_fails (\<lambda>_. None) (\<lambda>_ _. None)) hook_fails (\<lambda>_. True) calm
       (Inr (demo_project ''shop'')) None fresh_proxy [] in
   map_sum id config_file (fst r) = Inr (Inr default_config)
     \<and> [hook_path (demo_project ''shop'') ''pre-stop''] \<in> set (snd r)
     \<and> compose_argv (demo_project ''shop'') [''stop''] \<in> set (snd r)"
  by code_simp

text \<open>On the Apple backend the whole project cannot be removed.\<close>

theorem apple_cannot_remove_project:
  "\<exists>e. fst (remove_cmd r (\<lambda>_. apple_runtime cli decode show_cfg show_rows load) (Inr p) (Inr True) None h) = Inl e"
  by (auto simp: remove_cmd_def apple_runtime_def apple_compose_run_def unsupported_compose_def io_seq_def io_bind_cases
      split: sum.split)

text \<open>\<open>dip cleanup\<close>, which is to remove stopped containers, tells the engine to stop the running ones first.\<close>

theorem cleanup_stops_running:
  "compose_argv p [''rm'', ''-f'', ''--stop''] \<in> set (snd (cleanup_cmd (\<lambda>_. docker_runtime cli decode try_ps) (Inr p) h))"
  by (simp add: cleanup_cmd_def docker_runtime_def docker_compose_run_def docker_raw_stream_def io_seq_def io_bind_cases
      split: cli_out.split)

end
