(* ===== verification/Dip_Db.thy ===== *)
theory Dip_Db
  imports Dip_Runtime Dip_Migrate
begin

text \<open>
  Databases of a project: the two backends (\<open>db/mysql.rs\<close>, \<open>db/postgres.rs\<close>), the helpers that run a
  dump or an import (\<open>db/mod.rs\<close>), the commands \<open>dip db\<close> (\<open>commands/db.rs\<close>) and the choice of the two
  services of a migration (\<open>run_migrate\<close> of \<open>db/migrate.rs\<close>). A command that runs in a container is
  its argv, as everywhere; the file a dump is written to is part of the state.
\<close>

section \<open>Backends\<close>

record db_config =
  cfg_name :: string
  cfg_password :: string
  cfg_user :: string

definition service_config_of :: "db_service \<Rightarrow> db_config" where
  "service_config_of d = \<lparr>cfg_name = db_name d, cfg_password = db_password d, cfg_user = db_user d\<rparr>"

definition backend_name :: "db_kind \<Rightarrow> string" where
  "backend_name k = (case k of MySql \<Rightarrow> ''mysql'' | Postgres \<Rightarrow> ''postgres'')"

definition console_cmd :: "db_kind \<Rightarrow> db_config \<Rightarrow> string list" where
  "console_cmd k c =
     (case k of
        MySql \<Rightarrow> [''mysql'', ''-u'', cfg_user c, cfg_name c]
      | Postgres \<Rightarrow> [''psql'', ''-U'', cfg_user c, ''-d'', cfg_name c])"

definition console_env :: "db_kind \<Rightarrow> db_config \<Rightarrow> (string \<times> string) list" where
  "console_env k c = [(case k of MySql \<Rightarrow> ''MYSQL_PWD'' | Postgres \<Rightarrow> ''PGPASSWORD'', cfg_password c)]"

text \<open>A shell script with its positional arguments.\<close>

definition sh_script :: "string \<Rightarrow> string list \<Rightarrow> string list" where
  "sh_script script args = [''sh'', ''-c'', script, ''sh''] @ args"

definition arg1 :: string where "arg1 = [dquote] @ ''$1'' @ [dquote]"
definition arg2 :: string where "arg2 = [dquote] @ ''$2'' @ [dquote]"
definition arg3 :: string where "arg3 = [dquote] @ ''$3'' @ [dquote]"

definition dump_args :: "db_kind \<Rightarrow> bool \<Rightarrow> db_config \<Rightarrow> string list" where
  "dump_args k gz c =
     (case k of
        MySql \<Rightarrow>
          (if gz then sh_script (''mysqldump -u'' @ arg1 @ '' '' @ arg2 @ '' | gzip'') [cfg_user c, cfg_name c]
           else [''mysqldump'', ''-u'' @ cfg_user c, cfg_name c])
      | Postgres \<Rightarrow>
          (if gz then sh_script (''pg_dump -U '' @ arg1 @ '' '' @ arg2 @ '' | gzip'') [cfg_user c, cfg_name c]
           else [''pg_dump'', ''-U'', cfg_user c, cfg_name c]))"

definition mysql_setup :: string where
  "mysql_setup =
     ''SET SESSION autocommit=0; SET SESSION unique_checks=0; SET SESSION foreign_key_checks=0; SET SESSION sql_log_bin=0;''"

definition mysql_import_script :: "string \<Rightarrow> string" where
  "mysql_import_script reader =
     ''{ printf '' @ [squote] @ ''%s'' @ [bslash] @ ''n'' @ [squote] @ '' '' @ arg3 @ ''; '' @ reader @ ''; printf '' @ [squote, bslash]
     @ ''nCOMMIT;'' @ [bslash] @ ''n'' @ [squote] @ ''; } | mysql -u'' @ arg1 @ '' '' @ arg2"

definition import_args :: "db_kind \<Rightarrow> bool \<Rightarrow> db_config \<Rightarrow> string list" where
  "import_args k gz c =
     (case k of
        MySql \<Rightarrow> sh_script (mysql_import_script (if gz then ''gunzip -c'' else ''cat'')) [cfg_user c, cfg_name c, mysql_setup]
      | Postgres \<Rightarrow>
          (if gz then sh_script (''gunzip -c | psql -U '' @ arg1 @ '' -d '' @ arg2) [cfg_user c, cfg_name c]
           else [''psql'', ''-U'', cfg_user c, ''-d'', cfg_name c]))"

section \<open>Dumps and imports\<close>

definition is_gzipped :: "string \<Rightarrow> bool" where
  "is_gzipped path = ends_with ''.gz'' path"

text \<open>
  \<open>exec_dump\<close>: the file at the output path, if any, before and after. It is created, and so
  emptied, before the command runs; \<open>creates\<close> says whether that succeeds.
\<close>

definition exec_dump :: "cli \<Rightarrow> bool \<Rightarrow> string list \<Rightarrow> string option \<Rightarrow> ((string + unit) \<times> string option) io" where
  "exec_dump cli creates argv file =
     (if \<not> creates then ret (Inl ''Cannot create output file'', file)
      else io_bind (call cli argv) (\<lambda>out.
        (case out of
           Spawn_error e \<Rightarrow> ret (Inl e, Some [])
         | Exited c s so se \<Rightarrow>
             (if c = Some 0 then ret (Inr (), Some so)
              else ret (Inl ''Database dump failed'', None)))))"

definition exec_import :: "cli \<Rightarrow> bool \<Rightarrow> string list \<Rightarrow> unit io" where
  "exec_import cli opens argv =
     (if \<not> opens then bail ''Cannot open import file''
      else io_bind (call cli argv) (\<lambda>out.
        (case out of
           Spawn_error e \<Rightarrow> bail e
         | Exited c s so se \<Rightarrow> (if c = Some 0 then ret () else bail ''Database import failed''))))"

definition db_dump :: "cli \<Rightarrow> bool \<Rightarrow> string \<Rightarrow> string \<Rightarrow> db_kind \<Rightarrow> db_config \<Rightarrow> string \<Rightarrow> string option \<Rightarrow> ((string + unit) \<times> string option) io" where
  "db_dump cli creates runtime container k c path file =
     exec_dump cli creates
       (container_exec_command runtime container (console_env k c) False (dump_args k (is_gzipped path) c)) file"

definition db_import :: "cli \<Rightarrow> bool \<Rightarrow> string \<Rightarrow> string \<Rightarrow> db_kind \<Rightarrow> db_config \<Rightarrow> string \<Rightarrow> unit io" where
  "db_import cli opens runtime container k c path =
     exec_import cli opens
       (container_exec_command runtime container (console_env k c) True (import_args k (is_gzipped path) c))"

section \<open>Choosing a service\<close>

text \<open>The database of the project's environment, when no container has a label.\<close>

definition detect_legacy :: "(string \<Rightarrow> string option) \<Rightarrow> string + db_kind \<times> db_config" where
  "detect_legacy env =
     (case (env ''MYSQL_DATABASE'', env ''MYSQL_ROOT_PASSWORD'') of
        (Some n, Some pw) \<Rightarrow> Inr (MySql, \<lparr>cfg_name = n, cfg_password = pw, cfg_user = ''root''\<rparr>)
      | _ \<Rightarrow>
          (case (or_key env ''POSTGRES_DB'' ''PGDATABASE'', or_key env ''POSTGRES_PASSWORD'' ''PGPASSWORD'') of
             (Some n, Some pw) \<Rightarrow>
               Inr (Postgres, \<lparr>cfg_name = n, cfg_password = pw,
                              cfg_user = value_or ''postgres'' (or_key env ''POSTGRES_USER'' ''PGUSER'')\<rparr>)
           | _ \<Rightarrow> Inl ''No database credentials found in .env''))"

text \<open>With one service the name asked for is not looked at.\<close>

definition resolve_service :: "db_service list \<Rightarrow> string option \<Rightarrow> string + db_service" where
  "resolve_service services service =
     (case services of
        [d] \<Rightarrow> Inr d
      | _ \<Rightarrow>
          (case service of
             Some name \<Rightarrow>
               (case find (\<lambda>d. svc_name d = name) services of
                  Some d \<Rightarrow> Inr d
                | None \<Rightarrow> Inl (''Service '' @ name @ '' not found. Available DB services: '' @ join '', '' (map svc_name services)))
           | None \<Rightarrow> Inl (''Multiple DB services found: '' @ join '', '' (map svc_name services))))"

text \<open>What a dump or an import works on: the backend, its configuration and the container.\<close>

definition db_target ::
    "container_runtime \<Rightarrow> project_config \<Rightarrow> string option \<Rightarrow> (db_kind \<times> db_config \<times> string) io" where
  "db_target rt p service =
     io_bind (rt_db_services rt p) (\<lambda>labeled.
       if labeled \<noteq> [] then
         io_bind (of_result (resolve_service labeled service)) (\<lambda>d.
           ret (backend d, service_config_of d, svc_container d))
       else
         io_bind (of_result (detect_legacy (penv p))) (\<lambda>(k, c).
         io_bind (get_container_id rt p ''db'') (\<lambda>i. ret (k, c, i))))"

definition run_dump ::
    "cli \<Rightarrow> bool \<Rightarrow> container_runtime \<Rightarrow> (project_config \<Rightarrow> container_runtime) \<Rightarrow> string + project_config
      \<Rightarrow> string \<Rightarrow> string option \<Rightarrow> string option \<Rightarrow> ((string + unit) \<times> string option) io" where
  "run_dump cli creates current rt found path service file =
     io_seq (rt_check current)
     (io_bind (of_result found) (\<lambda>p.
      io_bind (db_target (rt p) p service) (\<lambda>(k, c, i).
        db_dump cli creates (rt_name (rt p)) i k c path file)))"

definition run_import ::
    "cli \<Rightarrow> bool \<Rightarrow> bool \<Rightarrow> container_runtime \<Rightarrow> (project_config \<Rightarrow> container_runtime) \<Rightarrow> string + project_config
      \<Rightarrow> string \<Rightarrow> string option \<Rightarrow> unit io" where
  "run_import cli present opens current rt found path service =
     io_seq (rt_check current)
     (if \<not> present then bail (''File not found: '' @ path)
      else
       io_bind (of_result found) (\<lambda>p.
       io_bind (db_target (rt p) p service) (\<lambda>(k, c, i).
         db_import cli opens (rt_name (rt p)) i k c path)))"

definition console_args :: "db_service \<Rightarrow> string list" where
  "console_args d =
     [''exec''] @ concat (map (\<lambda>(k, v). [''-e'', k @ ''='' @ v]) (console_env (backend d) (service_config_of d)))
     @ [''-it'', svc_name d] @ console_cmd (backend d) (service_config_of d)"

definition run_console ::
    "container_runtime \<Rightarrow> (project_config \<Rightarrow> container_runtime) \<Rightarrow> string + project_config \<Rightarrow> string option \<Rightarrow> int io" where
  "run_console current rt found service =
     io_bind (of_result found) (\<lambda>p.
     io_seq (rt_check current)
     (io_bind (rt_db_services (rt p) p) (\<lambda>labeled.
       if labeled = [] then bail ''No dip.db labels found''
       else io_bind (of_result (resolve_service labeled service)) (\<lambda>d.
              rt_compose_stream (rt p) p (console_args d) False))))"

section \<open>The two services of a migration\<close>

definition position :: "('a \<Rightarrow> bool) \<Rightarrow> 'a list \<Rightarrow> nat option" where
  "position P xs = (if list_ex P xs then Some (length (takeWhile (\<lambda>x. \<not> P x) xs)) else None)"

text \<open>\<open>Vec::swap_remove\<close>: the last element takes the place of the removed one; out of range it panics.\<close>

definition swap_remove :: "nat \<Rightarrow> 'a list \<Rightarrow> ('a \<times> 'a list) exec" where
  "swap_remove i xs =
     (if i < length xs then Returns (xs ! i, butlast (xs[i := last xs])) else Panics)"

definition take_pair :: "nat \<Rightarrow> nat \<Rightarrow> 'a list \<Rightarrow> ('a \<times> 'a) exec" where
  "take_pair from_idx to_idx xs =
     (if to_idx < from_idx then
        bind_exec (swap_remove from_idx xs) (\<lambda>(f, ys). bind_exec (swap_remove to_idx ys) (\<lambda>(t, _). Returns (f, t)))
      else
        bind_exec (swap_remove to_idx xs) (\<lambda>(t, ys). bind_exec (swap_remove from_idx ys) (\<lambda>(f, _). Returns (f, t))))"

definition migrate_pair :: "db_service list \<Rightarrow> string \<Rightarrow> string \<Rightarrow> (string + db_service \<times> db_service) exec" where
  "migrate_pair services f t =
     (if services = [] then Returns (Inl ''No database services found'')
      else case position (\<lambda>d. svc_name d = f) services of
        None \<Rightarrow> Returns (Inl (''Service '' @ f @ '' not found''))
      | Some fi \<Rightarrow>
          (case position (\<lambda>d. svc_name d = t) services of
             None \<Rightarrow> Returns (Inl (''Service '' @ t @ '' not found''))
           | Some ti \<Rightarrow>
               (if fi = ti then Returns (Inl ''--from and --to must be different services'')
                else bind_exec (take_pair fi ti services) (\<lambda>p. Returns (Inr p)))))"

datatype direction = Mysql_to_pg | Pg_to_mysql

definition migrate_direction :: "db_service \<Rightarrow> db_service \<Rightarrow> string + direction" where
  "migrate_direction f t =
     (case (backend f, backend t) of
        (MySql, Postgres) \<Rightarrow> Inr Mysql_to_pg
      | (Postgres, MySql) \<Rightarrow> Inr Pg_to_mysql
      | (a, b) \<Rightarrow> Inl (''Unsupported direction: '' @ backend_name a @ '' -> '' @ backend_name b))"

record connect_options =
  co_host :: string
  co_port :: nat
  co_user :: string
  co_password :: string
  co_database :: string

definition connect_mysql :: "db_config \<Rightarrow> string \<Rightarrow> connect_options" where
  "connect_mysql c ip =
     \<lparr>co_host = ip, co_port = 3306, co_user = cfg_user c, co_password = cfg_password c, co_database = cfg_name c\<rparr>"

definition connect_pg :: "db_config \<Rightarrow> string \<Rightarrow> connect_options" where
  "connect_pg c ip =
     \<lparr>co_host = ip, co_port = 5432, co_user = cfg_user c, co_password = cfg_password c, co_database = cfg_name c\<rparr>"

text \<open>The plan of \<open>run_migrate\<close>: the direction and the options of the source and the target.\<close>

definition plan_migrate ::
    "container_runtime \<Rightarrow> project_config \<Rightarrow> string \<Rightarrow> string \<Rightarrow> (direction \<times> connect_options \<times> connect_options) io" where
  "plan_migrate rt p f t =
     io_bind (rt_db_services rt p) (\<lambda>services.
       (case migrate_pair services f t of
          Panics \<Rightarrow> bail ''panicked''
        | Returns r \<Rightarrow>
            io_bind (of_result r) (\<lambda>(from_svc, to_svc).
            io_bind (rt_container_ip rt (svc_container from_svc)) (\<lambda>from_ip.
            io_bind (rt_container_ip rt (svc_container to_svc)) (\<lambda>to_ip.
            io_bind (of_result (migrate_direction from_svc to_svc)) (\<lambda>d.
              (let fc = service_config_of from_svc; tc = service_config_of to_svc in
               case d of
                 Mysql_to_pg \<Rightarrow> ret (d, connect_mysql fc from_ip, connect_pg tc to_ip)
               | Pg_to_mysql \<Rightarrow> ret (d, connect_pg fc from_ip, connect_mysql tc to_ip))))))))"

section \<open>Facts\<close>

lemma position_Some: "position P xs = Some i \<Longrightarrow> i < length xs \<and> find P xs = Some (xs ! i)"
  by (induction xs arbitrary: i) (auto simp: position_def split: if_splits)

lemma position_None: "position P xs = None \<longleftrightarrow> find P xs = None"
  by (auto simp: position_def list_ex_iff find_None_iff)

lemma take_pair_correct:
  assumes "i \<noteq> j" "i < length xs" "j < length xs"
  shows "take_pair i j xs = Returns (xs ! i, xs ! j)"
proof -
  have lower: "butlast (xs[k := last xs]) ! l = xs ! l \<and> l < length xs - 1" if "l < k" "k < length xs" for k l
    using that by (simp add: nth_butlast)
  show ?thesis
    using assms lower[of i j] lower[of j i] by (cases "j < i") (auto simp: take_pair_def swap_remove_def)
qed

section \<open>Properties\<close>

text \<open>
  A migration runs between the two services that were named: taking them out of the list by
  index never panics, the source is the first service with the name given as \<open>--from\<close> and the
  target the first with that of \<open>--to\<close>, and it is refused exactly when there is none, or both
  names are the same.
\<close>

theorem migrate_pair_correct:
  "case migrate_pair services f t of
     Panics \<Rightarrow> False
   | Returns (Inr (a, b)) \<Rightarrow>
       find (\<lambda>d. svc_name d = f) services = Some a \<and> find (\<lambda>d. svc_name d = t) services = Some b \<and> f \<noteq> t
   | Returns (Inl e) \<Rightarrow>
       find (\<lambda>d. svc_name d = f) services = None \<or> find (\<lambda>d. svc_name d = t) services = None \<or> f = t"
proof -
  consider "services = []" | "position (\<lambda>d. svc_name d = f) services = None" | "position (\<lambda>d. svc_name d = t) services = None"
    | i j where "services \<noteq> []" "position (\<lambda>d. svc_name d = f) services = Some i" "position (\<lambda>d. svc_name d = t) services = Some j"
    by (cases "services = []"; cases "position (\<lambda>d. svc_name d = f) services"; cases "position (\<lambda>d. svc_name d = t) services") auto
  then show ?thesis
  proof cases
    case 4
    note i = position_Some[OF 4(2)] and j = position_Some[OF 4(3)]
    show ?thesis
    proof (cases "i = j")
      case True
      then have "f = t" using i j by (auto simp: find_Some_iff)
      then show ?thesis using 4 by (simp add: migrate_pair_def)
    next
      case False
      then have "f \<noteq> t" using 4 by auto
      have "take_pair i j services = Returns (services ! i, services ! j)" using take_pair_correct[OF False] i j by blast
      then show ?thesis using 4 i j False \<open>f \<noteq> t\<close> by (simp add: migrate_pair_def)
    qed
  qed (auto simp: migrate_pair_def position_None[symmetric] split: option.split)
qed

text \<open>
  What a user puts into names and passwords is never read by a shell: the script that a dump or
  an import hands to \<open>sh\<close> is the same for all configurations, and the words of the command in the
  container do not depend on the password at all.
\<close>

theorem scripts_are_constant:
  "take 3 (dump_args k True c) = take 3 (dump_args k True c')
   \<and> (let words = import_args k gz c; words' = import_args k gz c' in hd words = ''sh'' \<longrightarrow> take 3 words = take 3 words')
   \<and> dump_args k gz (c\<lparr>cfg_password := pw\<rparr>) = dump_args k gz c
   \<and> import_args k gz (c\<lparr>cfg_password := pw\<rparr>) = import_args k gz c
   \<and> console_cmd k (c\<lparr>cfg_password := pw\<rparr>) = console_cmd k c"
  by (cases k) (simp_all add: dump_args_def import_args_def console_cmd_def sh_script_def)

theorem scripts_are_constant_witness:
  "take 3 (import_args MySql True \<lparr>cfg_name = ''a; rm -rf /'', cfg_password = [], cfg_user = ''u''\<rparr>)
     = take 3 (import_args MySql True \<lparr>cfg_name = [], cfg_password = [], cfg_user = []\<rparr>)"
  using scripts_are_constant[of MySql "\<lparr>cfg_name = ''a; rm -rf /'', cfg_password = [], cfg_user = ''u''\<rparr>"
      "\<lparr>cfg_name = [], cfg_password = [], cfg_user = []\<rparr>" True "[]"]
  by (simp add: Let_def import_args_def sh_script_def)

section \<open>Where dumps and imports surprise\<close>

text \<open>The password is a word of the engine's command line on the host, where \<open>ps\<close> shows it.\<close>

theorem password_in_host_argv:
  "''MYSQL_PWD='' @ cfg_password c
     \<in> set (container_exec_command runtime container (console_env MySql c) False (dump_args MySql (is_gzipped path) c))"
  by (simp add: container_exec_command_def console_env_def)

text \<open>A dump that fails removes the older dump of the same name.\<close>

theorem failed_dump_deletes_older:
  "fst (exec_dump (\<lambda>_ _. Exited (Some 1) None [] []) True argv (Some older) h) = Inr (Inl ''Database dump failed'', None)"
  by (simp add: exec_dump_def)

text \<open>If the engine cannot be started an empty file stays behind.\<close>

theorem unstarted_dump_leaves_empty_file:
  "fst (exec_dump (\<lambda>_ _. Spawn_error e) True argv None h) = Inr (Inl e, Some [])"
  by (simp add: exec_dump_def)

text \<open>The service asked for is not the one that is used.\<close>

theorem wrong_service_accepted:
  "resolve_service [d] (Some ''no-such-service'') = Inr d"
  by (simp add: resolve_service_def)

end
