(* ===== verification/Dip_Proxy.thy ===== *)
theory Dip_Proxy
  imports Dip_Router "HOL-Library.Word"
begin

text \<open>
  One request through the proxy: \<open>proxy/handler.rs\<close>, \<open>proxy/upstream.rs\<close> and \<open>proxy/dialer.rs\<close>. HTTP is
  hyper's: a request is its parts, a header map the list of values of each lower-case name, and
  connections, the exchange over them and the parser of URIs are parameters (\<open>net\<close>). A handler
  returns its response with the requests it sent upstream. Each request dials: that the pooled
  client may use a connection it has kept is not modelled.
\<close>

section \<open>Messages\<close>

type_synonym headers = "string \<Rightarrow> string list"

record request =
  rq_method :: string
  rq_path :: "string option"
  rq_uri_host :: "string option"
  rq_headers :: headers
  rq_exact :: "nat option"
  rq_body :: string

record response =
  rs_status :: nat
  rs_headers :: headers
  rs_body :: string

record upstream_request =
  up_method :: string
  up_path :: string
  up_headers :: headers
  up_body :: string

definition no_headers :: headers where
  "no_headers = (\<lambda>_. [])"

definition insert_header :: "string \<Rightarrow> string \<Rightarrow> headers \<Rightarrow> headers" where
  "insert_header n v hs = hs(n := [v])"

definition remove_header :: "string \<Rightarrow> headers \<Rightarrow> headers" where
  "remove_header n hs = hs(n := [])"

text \<open>\<open>HeaderValue::to_str\<close> and \<open>from_str\<close> accept visible ASCII.\<close>

definition visible_char :: "char \<Rightarrow> bool" where
  "visible_char c \<longleftrightarrow> (32 \<le> (of_char c :: nat) \<and> (of_char c :: nat) < 127) \<or> c = tab"

definition header_text :: "string \<Rightarrow> string option" where
  "header_text v = (if list_all visible_char v then Some v else None)"

definition get_header :: "string \<Rightarrow> headers \<Rightarrow> string option" where
  "get_header n hs = (case hs n of v # _ \<Rightarrow> header_text v | [] \<Rightarrow> None)"

definition try_insert :: "string \<Rightarrow> string \<Rightarrow> headers \<Rightarrow> headers" where
  "try_insert n v hs = (case header_text v of Some w \<Rightarrow> insert_header n w hs | None \<Rightarrow> hs)"

definition path_of :: "request \<Rightarrow> string" where
  "path_of req = (case rq_path req of Some p \<Rightarrow> p | None \<Rightarrow> ''/'')"

definition extract_host :: "request \<Rightarrow> string" where
  "extract_host req =
     (case get_header ''host'' (rq_headers req) of
        Some h \<Rightarrow> hd (split_on CHR '':'' h)
      | None \<Rightarrow> (case rq_uri_host req of Some h \<Rightarrow> h | None \<Rightarrow> []))"

definition is_upgrade_request :: "request \<Rightarrow> bool" where
  "is_upgrade_request req =
     (case get_header ''connection'' (rq_headers req) of
        Some v \<Rightarrow> contains_sub ''upgrade'' (to_lower v)
      | None \<Rightarrow> False)"

definition redirect_to_https :: "nat \<Rightarrow> request \<Rightarrow> response" where
  "redirect_to_https port req =
     (let host = hd (split_on CHR '':'' (case get_header ''host'' (rq_headers req) of Some h \<Rightarrow> h | None \<Rightarrow> ''localhost''));
          location = (if port = 443 then ''https://'' @ host @ path_of req
                      else ''https://'' @ host @ '':'' @ show_nat port @ path_of req)
      in \<lparr>rs_status = 301, rs_headers = insert_header ''location'' location no_headers, rs_body = []\<rparr>)"

section \<open>Forwarding headers\<close>

definition hop_by_hop :: "string list" where
  "hop_by_hop =
     [''connection'', ''keep-alive'', ''proxy-connection'', ''transfer-encoding'', ''te'', ''upgrade'',
      ''proxy-authorization'', ''proxy-authenticate'', ''trailer'']"

definition forward_headers :: "headers \<Rightarrow> string \<Rightarrow> string \<Rightarrow> headers" where
  "forward_headers hs0 host client_ip =
     (let hs1 = fold remove_header hop_by_hop hs0;
          hs2 = (if hs1 ''host'' = [] then try_insert ''host'' host hs1 else hs1);
          xff = (case get_header ''x-forwarded-for'' hs2 of Some v \<Rightarrow> v @ '', '' @ client_ip | None \<Rightarrow> client_ip);
          hs3 = try_insert ''x-forwarded-for'' xff hs2;
          hs4 = try_insert ''x-real-ip'' client_ip hs3;
          hs5 = insert_header ''x-forwarded-proto'' ''https'' hs4
      in try_insert ''x-forwarded-host'' host hs5)"

section \<open>Errors\<close>

fun chain_parts :: "string list \<Rightarrow> string list \<Rightarrow> string list" where
  "chain_parts parts [] = parts"
| "chain_parts parts (e # es) = chain_parts (if e \<in> set parts then parts else parts @ [e]) es"

text \<open>An error is its text and those of its sources.\<close>

definition format_error_chain :: "string list \<Rightarrow> string" where
  "format_error_chain es = join '': '' (chain_parts (take 1 es) (drop 1 es))"

definition mentions :: "string list \<Rightarrow> string \<Rightarrow> bool" where
  "mentions ps s \<longleftrightarrow> list_ex (\<lambda>p. contains_sub p s) ps"

definition proxy_error_hint :: "string \<Rightarrow> string \<Rightarrow> string option" where
  "proxy_error_hint detail target =
     (let lower = to_lower detail in
      if mentions [''socks agent''] lower then
        Some (''the connection goes through whalet'' @ [squote] @ ''s SOCKS agent and it failed; check '' @ [btick]
          @ ''whalet status'' @ [btick] @ '' (or set DIP_SOCKS=off to force direct connects)'')
      else if mentions [''connection refused'', ''os error 61'', ''os error 111''] lower then
        Some (''upstream refused TCP connection; check that the service is running and listening on '' @ target
          @ '', then run '' @ [btick] @ ''dip proxy sync'' @ [btick] @ '' if the container IP changed'')
      else if mentions [''timed out'', ''timeout'', ''operation timed out''] lower then
        Some (''connection to '' @ target
          @ '' timed out; the container network may be unreachable or the service may be stuck accepting connections'')
      else if mentions [''no route to host'', ''network is unreachable'', ''host is down''] lower then
        Some (''cannot reach '' @ target @ ''; the route may point at a stale container IP, so try '' @ [btick]
          @ ''dip proxy sync'' @ [btick] @ '' or restart the project'')
      else if mentions [''invalid uri''] lower then
        Some (''proxy route target '' @ [btick] @ target @ [btick] @ '' is not a valid host:port upstream'')
      else None)"

definition error_body :: "string \<Rightarrow> string \<Rightarrow> string \<Rightarrow> string" where
  "error_body label detail target =
     ''dip-proxy: '' @ label @ '': '' @ detail @ [nl]
     @ (case proxy_error_hint detail target of Some h \<Rightarrow> ''hint: '' @ h @ [nl] | None \<Rightarrow> [])"

definition error_resp :: "nat \<Rightarrow> string \<Rightarrow> response" where
  "error_resp status body =
     \<lparr>rs_status = status, rs_headers = insert_header ''content-type'' ''text/plain'' no_headers, rs_body = body\<rparr>"

section \<open>Connections\<close>

datatype dialer = Direct | Socks5 string

datatype connection = Connected | Failed "string list" | No_answer

record net =
  tcp :: "string \<Rightarrow> connection"
  socks :: "string \<Rightarrow> string \<Rightarrow> connection"
  parse_uri :: "string \<Rightarrow> string list + (string option \<times> nat option)"
  exchange :: "string \<Rightarrow> upstream_request \<Rightarrow> string list + response"

definition dial :: "net \<Rightarrow> dialer \<Rightarrow> string \<Rightarrow> connection" where
  "dial n d target =
     (case d of
        Direct \<Rightarrow> tcp n target
      | Socks5 agent \<Rightarrow>
          (case socks n agent target of
             Failed (e # _) \<Rightarrow> Failed [''via SOCKS agent '' @ agent @ '': '' @ e]
           | r \<Rightarrow> r))"

definition connect_timeout :: nat where
  "connect_timeout = 5"

definition connect_upstream :: "net \<Rightarrow> dialer \<Rightarrow> string \<Rightarrow> string list + unit" where
  "connect_upstream n d target =
     (case dial n d target of
        Connected \<Rightarrow> Inr ()
      | Failed es \<Rightarrow> Inl es
      | No_answer \<Rightarrow>
          Inl [''connect to '' @ target @ '' timed out after '' @ show_nat connect_timeout @ ''s (container gone?)''])"

text \<open>The connector of the pooled client: host and port of the URI, 80 without a port.\<close>

definition connector_target :: "string option \<times> nat option \<Rightarrow> string list + string" where
  "connector_target uri =
     (case uri of
        (None, _) \<Rightarrow> Inl [''upstream URI missing host'']
      | (Some h, p) \<Rightarrow> Inr (h @ '':'' @ show_nat (case p of Some n \<Rightarrow> n | None \<Rightarrow> 80)))"

section \<open>A request\<close>

type_synonym sent = "(string \<times> upstream_request) list"

definition send_to :: "net \<Rightarrow> dialer \<Rightarrow> string \<Rightarrow> upstream_request \<Rightarrow> (string list + response) \<times> sent" where
  "send_to n d target q =
     (case connect_upstream n d target of
        Inl es \<Rightarrow> (Inl es, [])
      | Inr _ \<Rightarrow> (exchange n target q, [(target, q)]))"

definition max_buffered_body :: nat where
  "max_buffered_body = 16 * 1024 * 1024"

definition upstream_request_of :: "request \<Rightarrow> headers \<Rightarrow> upstream_request" where
  "upstream_request_of req hs = \<lparr>up_method = rq_method req, up_path = path_of req, up_headers = hs, up_body = rq_body req\<rparr>"

definition proxy_http :: "net \<Rightarrow> dialer \<Rightarrow> request \<Rightarrow> string \<Rightarrow> string \<Rightarrow> string \<Rightarrow> (string list + response) \<times> sent" where
  "proxy_http n d req up host client_ip =
     (let hs = forward_headers (rq_headers req) host client_ip; q = upstream_request_of req hs in
      if (case rq_exact req of None \<Rightarrow> True | Some len \<Rightarrow> max_buffered_body < len)
      then send_to n d up q
      else case parse_uri n (''http://'' @ up @ path_of req) of
        Inl es \<Rightarrow> (Inl es, [])
      | Inr uri \<Rightarrow>
          (case connector_target uri of
             Inl es \<Rightarrow> (Inl es, [])
           | Inr target \<Rightarrow> send_to n d target q))"

text \<open>An upgrade keeps all headers; the body of a 101 answer is the tunnel.\<close>

definition proxy_upgrade :: "net \<Rightarrow> dialer \<Rightarrow> request \<Rightarrow> string \<Rightarrow> (string list + response) \<times> sent" where
  "proxy_upgrade n d req up =
     (case send_to n d up (upstream_request_of req (rq_headers req)) of
        (Inr r, s) \<Rightarrow> (Inr (if rs_status r = 101 then r\<lparr>rs_body := []\<rparr> else r), s)
      | (Inl es, s) \<Rightarrow> (Inl es, s))"

definition handle_https :: "net \<Rightarrow> dialer \<Rightarrow> route list \<Rightarrow> string \<Rightarrow> request \<Rightarrow> response \<times> sent" where
  "handle_https n d rs client_ip req =
     (let host = extract_host req in
      case match_route host rs of
        None \<Rightarrow>
          (error_resp 404 (''dip-proxy: no route for '' @ [squote] @ host @ [squote, nl]), [])
      | Some r \<Rightarrow>
          (if is_upgrade_request req then
             (case proxy_upgrade n d req (upstream r) of
                (Inr resp, s) \<Rightarrow> (resp, s)
              | (Inl es, s) \<Rightarrow>
                  (error_resp 502 (error_body ''upgrade error'' (format_error_chain es) (upstream r)), s))
           else
             (case proxy_http n d req (upstream r) host client_ip of
                (Inr resp, s) \<Rightarrow> (resp, s)
              | (Inl es, s) \<Rightarrow>
                  (error_resp 502 (error_body ''upstream error'' (format_error_chain es) (upstream r)), s))))"

section \<open>The dialer\<close>

text \<open>
  What a check sees: \<open>reply\<close> is what an address answers to the SOCKS5 greeting in time, \<open>status\<close> the
  output of \<open>whalet status\<close> if it succeeds in time. \<open>parse_addr\<close> is the parser of socket addresses.
\<close>

record agent_world =
  reply :: "string \<Rightarrow> 8 word list option"
  whalet_status :: "string option"

datatype source = Forced string | Whalet

definition dialer_source :: "(string \<Rightarrow> string option) \<Rightarrow> bool \<Rightarrow> string option \<Rightarrow> source option" where
  "dialer_source parse_addr macos var =
     (case var of
        Some v \<Rightarrow>
          (if to_lower v \<in> {''off'', ''0'', ''false'', ''no''} then None
           else map_option Forced (parse_addr v))
      | None \<Rightarrow> (if macos then Some Whalet else None))"

definition probe :: "agent_world \<Rightarrow> string \<Rightarrow> bool" where
  "probe w a \<longleftrightarrow> reply w a = Some [0x05, 0x00]"

definition agent_key :: string where
  "agent_key = ''socks5 proxy:''"

definition agent_of_line :: "(string \<Rightarrow> string option) \<Rightarrow> string \<Rightarrow> string option" where
  "agent_of_line parse_addr line =
     (case split_sub agent_key (to_lower line) of
        None \<Rightarrow> None
      | Some (before, _) \<Rightarrow>
          (case split_ws (drop (length before + length agent_key) line) of
             w # _ \<Rightarrow> parse_addr w
           | [] \<Rightarrow> None))"

definition parse_agent_addr :: "(string \<Rightarrow> string option) \<Rightarrow> string \<Rightarrow> string option" where
  "parse_agent_addr parse_addr status =
     (case filter_map (agent_of_line parse_addr) (str_lines status) of a # _ \<Rightarrow> Some a | [] \<Rightarrow> None)"

definition discover :: "(string \<Rightarrow> string option) \<Rightarrow> agent_world \<Rightarrow> string option" where
  "discover parse_addr w = Option.bind (whalet_status w) (parse_agent_addr parse_addr)"

definition if_live :: "agent_world \<Rightarrow> string option \<Rightarrow> string option" where
  "if_live w a = (case a of Some x \<Rightarrow> if probe w x then Some x else None | None \<Rightarrow> None)"

definition refresh :: "(string \<Rightarrow> string option) \<Rightarrow> source \<Rightarrow> agent_world \<Rightarrow> string option \<Rightarrow> string option" where
  "refresh parse_addr src w known =
     (case src of
        Forced a \<Rightarrow> if_live w (Some a)
      | Whalet \<Rightarrow>
          (case if_live w known of
             Some a \<Rightarrow> Some a
           | None \<Rightarrow> if_live w (discover parse_addr w)))"

definition current_dialer :: "string option \<Rightarrow> dialer" where
  "current_dialer known = (case known of Some a \<Rightarrow> Socks5 a | None \<Rightarrow> Direct)"

text \<open>The checks so far; without a source there are none and the proxy dials directly.\<close>

definition dialer_after :: "(string \<Rightarrow> string option) \<Rightarrow> source option \<Rightarrow> agent_world list \<Rightarrow> dialer" where
  "dialer_after parse_addr src ws =
     (case src of
        None \<Rightarrow> Direct
      | Some s \<Rightarrow> current_dialer (fold (refresh parse_addr s) ws None))"

section \<open>Facts\<close>

lemma fold_remove: "fold remove_header ns hs = (\<lambda>n. if n \<in> set ns then [] else hs n)"
  by (induction ns arbitrary: hs) (auto simp: remove_header_def fun_eq_iff)

lemma try_insert_visible: "list_all visible_char v \<Longrightarrow> try_insert n v hs = hs(n := [v])"
  by (simp add: try_insert_def header_text_def insert_header_def)

lemma get_header_visible: "get_header n hs = Some v \<Longrightarrow> list_all visible_char v"
  by (auto simp: get_header_def header_text_def split: list.splits if_splits)

lemma get_header_cong: "hs n = hs' n \<Longrightarrow> get_header n hs = get_header n hs'"
  by (simp add: get_header_def)

text \<open>The headers the code sets, besides the ones it removes.\<close>

definition forwarding_names :: "string list" where
  "forwarding_names = [''host'', ''x-forwarded-for'', ''x-real-ip'', ''x-forwarded-proto'', ''x-forwarded-host'']"

lemma names_apart: "list_all (\<lambda>n. n \<notin> set hop_by_hop) forwarding_names" "distinct forwarding_names"
  by (simp_all add: forwarding_names_def hop_by_hop_def)

lemma visible_xff: "list_all visible_char v \<Longrightarrow> list_all visible_char ip \<Longrightarrow> list_all visible_char (v @ '', '' @ ip)"
  by (simp add: visible_char_def)

lemma forward_headers_eq:
  assumes "list_all visible_char host" "list_all visible_char client_ip"
  shows "forward_headers hs host client_ip =
    (\<lambda>n. if n \<in> set hop_by_hop then [] else hs n)
      (''host'' := (if hs ''host'' = [] then [host] else hs ''host''),
       ''x-forwarded-for'' := [case get_header ''x-forwarded-for'' hs of Some v \<Rightarrow> v @ '', '' @ client_ip | None \<Rightarrow> client_ip],
       ''x-real-ip'' := [client_ip], ''x-forwarded-proto'' := [''https''], ''x-forwarded-host'' := [host])"
proof -
  let ?kept = "\<lambda>n. if n \<in> set hop_by_hop then [] else hs n"
  let ?h2 = "if ?kept ''host'' = [] then try_insert ''host'' host ?kept else ?kept"
  have apart: "''host'' \<notin> set hop_by_hop" "''x-forwarded-for'' \<notin> set hop_by_hop"
    using names_apart(1) by (simp_all add: forwarding_names_def)
  have h2: "?h2 = ?kept(''host'' := (if hs ''host'' = [] then [host] else hs ''host''))"
    using apart(1) assms(1) by (auto simp: try_insert_visible fun_eq_iff)
  have xff: "get_header ''x-forwarded-for'' ?h2 = get_header ''x-forwarded-for'' hs"
    unfolding h2 using apart(2) by (intro get_header_cong) simp
  let ?v = "case get_header ''x-forwarded-for'' hs of Some v \<Rightarrow> v @ '', '' @ client_ip | None \<Rightarrow> client_ip"
  have v: "list_all visible_char ?v"
    using assms(2) by (cases "get_header ''x-forwarded-for'' hs") (simp_all only: option.case visible_xff get_header_visible)
  show ?thesis
    unfolding forward_headers_def Let_def fold_remove xff
    unfolding h2
    unfolding try_insert_visible[OF assms(1)] try_insert_visible[OF assms(2)] try_insert_visible[OF v] insert_header_def
    by (rule refl)
qed

lemma upstream_request_fields [simp]:
  "up_method (upstream_request_of req hs) = rq_method req" "up_path (upstream_request_of req hs) = path_of req"
  "up_headers (upstream_request_of req hs) = hs" "up_body (upstream_request_of req hs) = rq_body req"
  by (simp_all add: upstream_request_of_def)

lemma refresh_live: "refresh parse_addr src w known = Some a \<Longrightarrow> probe w a"
  by (auto simp: refresh_def if_live_def split: source.splits option.splits if_splits)

lemma refresh_direct:
  "refresh parse_addr (Forced a) w known = None \<Longrightarrow> \<not> probe w a"
  "refresh parse_addr Whalet w known = None \<Longrightarrow> discover parse_addr w = Some b \<Longrightarrow> \<not> probe w b"
  by (auto simp: refresh_def if_live_def split: option.splits if_splits)

text \<open>What a request with a route sends and answers.\<close>

lemma handle_routed:
  assumes Some: "match_route (extract_host req) rs = Some r"
  shows "case handle_https n d rs client_ip req of (resp, sent) \<Rightarrow>
          sent = [] \<and> rs_status resp = 502
          \<or> (\<exists>target q.
               sent = [(target, q)]
               \<and> (target = upstream r
                  \<or> (\<exists>uri. parse_uri n (''http://'' @ upstream r @ path_of req) = Inr uri \<and> connector_target uri = Inr target))
               \<and> up_method q = rq_method req \<and> up_path q = path_of req \<and> up_body q = rq_body req
               \<and> up_headers q = (if is_upgrade_request req then rq_headers req
                                 else forward_headers (rq_headers req) (extract_host req) client_ip)
               \<and> (case exchange n target q of
                    Inr answer \<Rightarrow> rs_status resp = rs_status answer \<and> rs_headers resp = rs_headers answer
                  | Inl _ \<Rightarrow> rs_status resp = 502))"
proof -
  have sent: "(\<exists>es. send_to n d target q = (Inl es, [])) \<or> send_to n d target q = (exchange n target q, [(target, q)])" for target q
    by (cases "connect_upstream n d target") (auto simp: send_to_def)
  show ?thesis
  proof (cases "is_upgrade_request req")
    case True
    let ?q = "upstream_request_of req (rq_headers req)"
    from sent[of "upstream r" ?q] show ?thesis
    proof (elim disjE exE)
      fix es
      assume "send_to n d (upstream r) ?q = (Inl es, [])"
      then show ?thesis using Some True by (simp add: handle_https_def proxy_upgrade_def error_resp_def)
    next
      assume "send_to n d (upstream r) ?q = (exchange n (upstream r) ?q, [(upstream r, ?q)])"
      then show ?thesis using Some True
        by (cases "exchange n (upstream r) ?q") (simp_all add: handle_https_def proxy_upgrade_def error_resp_def)
    qed
  next
    case False
    let ?q = "upstream_request_of req (forward_headers (rq_headers req) (extract_host req) client_ip)"
    have http: "(\<exists>es. proxy_http n d req (upstream r) (extract_host req) client_ip = (Inl es, []))
      \<or> (\<exists>target. proxy_http n d req (upstream r) (extract_host req) client_ip = (exchange n target ?q, [(target, ?q)])
          \<and> (target = upstream r
             \<or> (\<exists>uri. parse_uri n (''http://'' @ upstream r @ path_of req) = Inr uri \<and> connector_target uri = Inr target)))"
      using sent unfolding proxy_http_def Let_def
      by (fastforce split: option.split sum.split)
    then show ?thesis
    proof (elim disjE exE conjE)
      fix es
      assume "proxy_http n d req (upstream r) (extract_host req) client_ip = (Inl es, [])"
      then show ?thesis using Some False by (simp add: handle_https_def error_resp_def)
    next
      fix target
      assume p: "proxy_http n d req (upstream r) (extract_host req) client_ip = (exchange n target ?q, [(target, ?q)])"
        and t: "target = upstream r"
      show ?thesis using Some False p t
        by (cases "exchange n target ?q") (simp_all add: handle_https_def error_resp_def)
    next
      fix target uri
      assume p: "proxy_http n d req (upstream r) (extract_host req) client_ip = (exchange n target ?q, [(target, ?q)])"
        and t: "parse_uri n (''http://'' @ upstream r @ path_of req) = Inr uri" "connector_target uri = Inr target"
      show ?thesis using Some False p t
        by (cases "exchange n target ?q") (simp_all add: handle_https_def error_resp_def)
    qed
  qed
qed

section \<open>Properties\<close>


text \<open>
  C36. The forwarded headers tell the upstream the truth: no hop-by-hop header is left, Host is the
  client's or, if it had none, the routed one, the client's address is appended to a readable
  X-Forwarded-For and is the X-Real-IP, the scheme is https, and every other header is passed on
  unchanged.
\<close>

theorem forward_headers_correct:
  assumes "list_all visible_char host" "list_all visible_char client_ip"
  shows "let out = forward_headers hs host client_ip in
    list_all (\<lambda>n. out n = []) hop_by_hop
    \<and> out ''host'' = (if hs ''host'' = [] then [host] else hs ''host'')
    \<and> out ''x-forwarded-for'' = [case get_header ''x-forwarded-for'' hs of Some v \<Rightarrow> v @ '', '' @ client_ip | None \<Rightarrow> client_ip]
    \<and> out ''x-real-ip'' = [client_ip] \<and> out ''x-forwarded-proto'' = [''https''] \<and> out ''x-forwarded-host'' = [host]
    \<and> (n \<notin> set hop_by_hop \<union> set forwarding_names \<longrightarrow> out n = hs n)"
  unfolding Let_def forward_headers_eq[OF assms]
  by (simp add: forwarding_names_def) (simp add: hop_by_hop_def)

theorem forward_headers_correct_witness:
  "forward_headers (no_headers(''x-forwarded-for'' := [''10.1.1.1''], ''accept'' := [''a'', ''b''], ''te'' := [''gzip''])) ''shop.test'' ''127.0.0.1'' ''x-forwarded-for''
     = [''10.1.1.1, 127.0.0.1'']
   \<and> forward_headers (no_headers(''x-forwarded-for'' := [''10.1.1.1''], ''accept'' := [''a'', ''b''], ''te'' := [''gzip''])) ''shop.test'' ''127.0.0.1'' ''accept''
     = [''a'', ''b'']"
proof -
  let ?hs = "no_headers(''x-forwarded-for'' := [''10.1.1.1''], ''accept'' := [''a'', ''b''], ''te'' := [''gzip''])"
  have v: "list_all visible_char ''shop.test''" "list_all visible_char ''127.0.0.1''" by code_simp+
  have "get_header ''x-forwarded-for'' ?hs = Some ''10.1.1.1''" "?hs ''accept'' = [''a'', ''b'']" by code_simp+
  then show ?thesis
    using forward_headers_correct[OF v, of ?hs "''accept''"] by (simp add: Let_def hop_by_hop_def forwarding_names_def)
qed

text \<open>
  C37. The dialer follows the agent: after every check, whatever happened before, connections go
  through a SOCKS agent only if it answered the greeting in that check, and directly only if
  none is configured, or the configured or published one did not answer.
\<close>

theorem dialer_follows_agent:
  "case dialer_after parse_addr src (ws @ [w]) of
     Socks5 a \<Rightarrow> probe w a
   | Direct \<Rightarrow>
       (case src of
          None \<Rightarrow> True
        | Some (Forced a) \<Rightarrow> \<not> probe w a
        | Some Whalet \<Rightarrow> (case discover parse_addr w of None \<Rightarrow> True | Some a \<Rightarrow> \<not> probe w a))"
proof (cases src)
  case (Some s)
  let ?k = "fold (refresh parse_addr s) ws None"
  show ?thesis
  proof (cases "refresh parse_addr s w ?k")
    case None
    then show ?thesis
      using Some refresh_direct(1)[of parse_addr _ w ?k] refresh_direct(2)[of parse_addr w ?k]
      by (cases s) (auto simp: dialer_after_def current_dialer_def split: option.split)
  next
    case (Some a)
    then show ?thesis using \<open>src = Some s\<close> refresh_live[OF Some] by (simp add: dialer_after_def current_dialer_def)
  qed
qed (simp add: dialer_after_def)

section \<open>Where the proxy surprises\<close>

text \<open>A host is compared with its case: a browser lower-cases it, other clients get 404.\<close>

definition plain_get :: "headers \<Rightarrow> request" where
  "plain_get hs =
     \<lparr>rq_method = ''GET'', rq_path = Some ''/'', rq_uri_host = None, rq_headers = hs, rq_exact = Some 0, rq_body = []\<rparr>"

theorem host_case_matters:
  "rs_status (fst (handle_https n d [\<lparr>domain = ''shop.test'', upstream = ''10.0.0.2:80''\<rparr>] ip
     (plain_get (no_headers(''host'' := [''Shop.test'']))))) = 404"
proof -
  have "extract_host (plain_get (no_headers(''host'' := [''Shop.test'']))) = ''Shop.test''" by code_simp
  moreover have "match_route ''Shop.test'' [\<lparr>domain = ''shop.test'', upstream = ''10.0.0.2:80''\<rparr>] = None" by code_simp
  ultimately show ?thesis by (simp add: handle_https_def error_resp_def)
qed

text \<open>The redirect cuts an IPv6 host at its first colon.\<close>

theorem redirect_breaks_ipv6:
  "rs_headers (redirect_to_https 443 (plain_get (no_headers(''host'' := [''[::1]'']))) ) ''location'' = [''https://[/'']"
  by code_simp

text \<open>Of several X-Forwarded-For lines only the first is kept.\<close>

theorem later_forwarded_for_lost:
  "forward_headers (no_headers(''x-forwarded-for'' := [''10.1.1.1'', ''10.2.2.2''])) ''shop.test'' ''127.0.0.1'' ''x-forwarded-for''
     = [''10.1.1.1, 127.0.0.1'']"
  by code_simp

text \<open>A header that Connection names as hop-by-hop (RFC 7230, 6.1) is passed on.\<close>

theorem nominated_header_forwarded:
  "forward_headers (no_headers(''connection'' := [''x-internal''], ''x-internal'' := [''1''])) ''shop.test'' ''127.0.0.1'' ''x-internal'' = [''1'']"
  by code_simp

text \<open>An upstream without a port works for small bodies only: the pooled client adds port 80.\<close>

theorem portless_upstream_differs:
  assumes "parse_uri n (''http://'' @ up @ path_of req) = Inr (Some up, None)"
  shows "proxy_http n d (req\<lparr>rq_exact := Some 0\<rparr>) up host ip
      = send_to n d (up @ '':80'') (upstream_request_of req (forward_headers (rq_headers req) host ip))
    \<and> proxy_http n d (req\<lparr>rq_exact := None\<rparr>) up host ip
      = send_to n d up (upstream_request_of req (forward_headers (rq_headers req) host ip))"
proof -
  have "show_nat 80 = ''80''" by code_simp
  then show ?thesis using assms by (simp add: proxy_http_def connector_target_def path_of_def upstream_request_of_def)
qed

text \<open>
  An agent that moved is not noticed while anything that speaks SOCKS5 answers on its old address,
  although only the address whalet publishes is to be dialled.
\<close>

definition moved_world :: agent_world where
  "moved_world =
     \<lparr>reply = (\<lambda>_. Some [0x05, 0x00]), whalet_status = Some ''socks5 proxy: 127.0.0.1:52341''\<rparr>"

theorem stale_agent_kept:
  "discover Some moved_world = Some ''127.0.0.1:52341''
   \<and> refresh Some Whalet moved_world (Some ''127.0.0.1:1080'') = Some ''127.0.0.1:1080''"
  by code_simp

end
