(* ===== verification/Dip_Socket.thy ===== *)
theory Dip_Socket
  imports Dip_Docker "HOL-Library.Product_Lexorder"
begin

text \<open>
  The fast path of \<open>ps\<close> queries, \<open>runtime/docker_api.rs\<close>: the query as a request to the Engine API over
  its socket, and the answer as the text \<open>docker compose ps\<close> would print. \<open>pj\<close> and \<open>decode\<close> print and
  parse JSON, \<open>api\<close> is one GET over a socket. What the engine makes of the request is given by its
  documented filters (\<open>engine_list\<close>).
\<close>

section \<open>Queries\<close>

datatype ps_output = Json_rows | Ids

record ps_query =
  q_all :: bool
  q_service :: "string option"
  q_output :: ps_output

definition ps_query_of :: "string list \<Rightarrow> ps_query option" where
  "ps_query_of args =
     (if args = [''ps'', ''-a'', ''--format'', ''json''] then Some \<lparr>q_all = True, q_service = None, q_output = Json_rows\<rparr>
      else if args = [''ps'', ''-q'', ''-a''] then Some \<lparr>q_all = True, q_service = None, q_output = Ids\<rparr>
      else if length args = 4 \<and> take 3 args = [''ps'', ''-q'', ''-a''] then
        Some \<lparr>q_all = True, q_service = Some (args ! 3), q_output = Ids\<rparr>
      else if args = [''ps'', ''-q''] then Some \<lparr>q_all = False, q_service = None, q_output = Ids\<rparr>
      else if length args = 3 \<and> take 2 args = [''ps'', ''-q''] then
        Some \<lparr>q_all = False, q_service = Some (args ! 2), q_output = Ids\<rparr>
      else None)"

definition hex_upper :: "nat \<Rightarrow> char" where
  "hex_upper n = (if n < 10 then char_of (48 + n) else char_of (55 + n))"

definition unreserved :: "char \<Rightarrow> bool" where
  "unreserved c \<longleftrightarrow> is_alnum c \<or> c \<in> set ''-_.~''"

definition percent_encode :: "string \<Rightarrow> string" where
  "percent_encode s =
     concat (map (\<lambda>c. if unreserved c then [c]
       else [CHR ''%'', hex_upper (of_char c div 16), hex_upper (of_char c mod 16)]) s)"

definition project_label :: "string \<Rightarrow> string" where
  "project_label name = ''com.docker.compose.project='' @ to_lower name"

definition ps_filters :: "string \<Rightarrow> ps_query \<Rightarrow> json" where
  "ps_filters name q =
     JObj ((''label'', JArr (JStr (project_label name)
              # (case q_service q of Some s \<Rightarrow> [JStr (''com.docker.compose.service='' @ s)] | None \<Rightarrow> [])))
           # (if q_all q then [] else [(''status'', JArr [JStr ''running''])]))"

definition to_path :: "(json \<Rightarrow> string) \<Rightarrow> string \<Rightarrow> ps_query \<Rightarrow> string" where
  "to_path pj name q =
     ''/containers/json?all='' @ (if q_all q then ''true'' else ''false'') @ ''&filters=''
     @ percent_encode (pj (ps_filters name q))"

section \<open>The socket\<close>

definition socket_candidates :: "string option \<Rightarrow> string option \<Rightarrow> string list" where
  "socket_candidates docker_host home =
     (case Option.bind docker_host (strip_prefix ''unix://'') of
        Some path \<Rightarrow> [path]
      | None \<Rightarrow>
          ''/var/run/docker.sock''
          # (case home of
               Some h \<Rightarrow> [h @ ''/.orbstack/run/docker.sock'', h @ ''/.docker/run/docker.sock'', h @ ''/.colima/default/docker.sock'']
             | None \<Rightarrow> []))"

definition find_socket :: "(string \<Rightarrow> bool) \<Rightarrow> string option \<Rightarrow> string option \<Rightarrow> string option" where
  "find_socket exists docker_host home = find exists (socket_candidates docker_host home)"

section \<open>Answers\<close>

definition service_of :: "json \<Rightarrow> string option" where
  "service_of c = as_str (jindex (jindex c ''Labels'') ''com.docker.compose.service'')"

definition str_or_empty :: "json \<Rightarrow> string" where
  "str_or_empty v = value_or [] (as_str v)"

definition health_from_status :: "string \<Rightarrow> string" where
  "health_from_status status =
     (if contains_sub ''(healthy)'' status then ''healthy''
      else if contains_sub ''(unhealthy)'' status then ''unhealthy''
      else if contains_sub ''(health: starting)'' status then ''starting''
      else [])"

definition as_u64 :: "json \<Rightarrow> nat option" where
  "as_u64 v = (case v of JNum (JInt i) \<Rightarrow> (if 0 \<le> i \<and> i < 2 ^ 64 then Some (nat i) else None) | _ \<Rightarrow> None)"

type_synonym port_triple = "nat \<times> nat option \<times> string"

definition port_key :: "json \<Rightarrow> port_triple" where
  "port_key p =
     ((case as_u64 (jindex p ''PrivatePort'') of Some n \<Rightarrow> n | None \<Rightarrow> 0), as_u64 (jindex p ''PublicPort''),
      value_or ''tcp'' (as_str (jindex p ''Type'')))"

definition port_text :: "json \<Rightarrow> string" where
  "port_text p =
     (case port_key p of (private, public, proto) \<Rightarrow>
        (case public of
           Some n \<Rightarrow> value_or ''0.0.0.0'' (as_str (jindex p ''IP'')) @ '':'' @ show_nat n @ ''->'' @ show_nat private @ ''/'' @ proto
         | None \<Rightarrow> show_nat private @ ''/'' @ proto))"

fun ports_from :: "port_triple list \<Rightarrow> json list \<Rightarrow> string list" where
  "ports_from seen [] = []"
| "ports_from seen (p # ps) =
     (if port_key p \<in> set seen then ports_from seen ps
      else port_text p # ports_from (seen @ [port_key p]) ps)"

definition format_ports :: "json \<Rightarrow> string" where
  "format_ports v = (case as_array v of None \<Rightarrow> [] | Some items \<Rightarrow> join '', '' (ports_from [] items))"

definition row_json :: "json \<Rightarrow> string \<Rightarrow> json" where
  "row_json c service =
     JObj [(''Health'', JStr (health_from_status (str_or_empty (jindex c ''Status'')))),
           (''Ports'', JStr (format_ports (jindex c ''Ports''))),
           (''Service'', JStr service),
           (''State'', JStr (str_or_empty (jindex c ''State''))),
           (''Status'', JStr (str_or_empty (jindex c ''Status'')))]"

definition render_rows :: "(json \<Rightarrow> string) \<Rightarrow> json list \<Rightarrow> string" where
  "render_rows pj cs =
     concat (map (\<lambda>r. snd r @ [nl])
       (sort (filter_map (\<lambda>c. map_option (\<lambda>s. (s, pj (row_json c s))) (service_of c)) cs)))"

definition render_ids :: "json list \<Rightarrow> string" where
  "render_ids cs =
     concat (map (\<lambda>i. i @ [nl]) (filter_map (\<lambda>c. as_str (jindex c ''Id'')) (filter (\<lambda>c. service_of c \<noteq> None) cs)))"

definition run_query ::
    "(json \<Rightarrow> string) \<Rightarrow> (string \<Rightarrow> json option) \<Rightarrow> (string \<Rightarrow> string \<Rightarrow> string + string) \<Rightarrow> string \<Rightarrow> string \<Rightarrow> ps_query \<Rightarrow> string + string" where
  "run_query pj decode api socket name q =
     and_then (api socket (to_path pj name q)) (\<lambda>body.
       (case decode body of
          Some (JArr cs) \<Rightarrow> Inr (case q_output q of Json_rows \<Rightarrow> render_rows pj cs | Ids \<Rightarrow> render_ids cs)
        | _ \<Rightarrow> Inl ''docker API response''))"

definition try_ps ::
    "(json \<Rightarrow> string) \<Rightarrow> (string \<Rightarrow> json option) \<Rightarrow> (string \<Rightarrow> string \<Rightarrow> string + string) \<Rightarrow> string option
      \<Rightarrow> string \<Rightarrow> string list \<Rightarrow> (string + string) option" where
  "try_ps pj decode api socket name args =
     (case ps_query_of args of
        None \<Rightarrow> None
      | Some q \<Rightarrow>
          (case socket of
             None \<Rightarrow> Some (Inl ''no docker socket found'')
           | Some s \<Rightarrow> Some (run_query pj decode api s name q)))"

section \<open>What the engine reads\<close>

definition hex_value :: "char \<Rightarrow> nat option" where
  "hex_value c =
     (if is_digit c then Some (of_char c - 48)
      else if 65 \<le> (of_char c :: nat) \<and> (of_char c :: nat) \<le> 70 then Some (of_char c - 55) else None)"

fun percent_decode :: "string \<Rightarrow> string option" where
  "percent_decode [] = Some []"
| "percent_decode (c # s) =
     (if c = CHR ''%'' then
        (case s of
           a # b # r \<Rightarrow>
             (case (hex_value a, hex_value b) of
                (Some x, Some y) \<Rightarrow> map_option (\<lambda>t. char_of (16 * x + y) # t) (percent_decode r)
              | _ \<Rightarrow> None)
         | _ \<Rightarrow> None)
      else map_option (\<lambda>t. c # t) (percent_decode s))"

text \<open>The two parameters of the request: all containers or the running ones, and the filters.\<close>

definition read_query :: "(string \<Rightarrow> json option) \<Rightarrow> string \<Rightarrow> (bool \<times> json) option" where
  "read_query decode path =
     Option.bind (strip_prefix ''/containers/json?all='' path) (\<lambda>rest.
     Option.bind (split_once CHR ''&'' rest) (\<lambda>(everything, f).
     Option.bind (strip_prefix ''filters='' f) (\<lambda>enc.
     Option.bind (percent_decode enc) (\<lambda>txt.
     Option.bind (decode txt) (\<lambda>filters. Some (everything = ''true'', filters))))))"

definition label_holds :: "json \<Rightarrow> json \<Rightarrow> bool" where
  "label_holds c l =
     (case Option.bind (as_str l) (split_once CHR ''='') of
        Some (k, v) \<Rightarrow> as_str (jindex (jindex c ''Labels'') k) = Some v
      | None \<Rightarrow> False)"

definition filters_hold :: "json \<Rightarrow> json \<Rightarrow> bool" where
  "filters_hold f c \<longleftrightarrow>
     (case as_array (jindex f ''label'') of Some ls \<Rightarrow> list_all (label_holds c) ls | None \<Rightarrow> True)
     \<and> (case as_array (jindex f ''status'') of Some ss \<Rightarrow> jindex c ''State'' \<in> set ss | None \<Rightarrow> True)"

definition engine_list :: "(string \<Rightarrow> json option) \<Rightarrow> json list \<Rightarrow> string \<Rightarrow> json list" where
  "engine_list decode cs path =
     (case read_query decode path of
        None \<Rightarrow> []
      | Some (everything, f) \<Rightarrow>
          filter (\<lambda>c. (everything \<or> jindex c ''State'' = JStr ''running'') \<and> filters_hold f c) cs)"

text \<open>The containers a query is about.\<close>

definition wanted :: "string \<Rightarrow> ps_query \<Rightarrow> json \<Rightarrow> bool" where
  "wanted name q c \<longleftrightarrow>
     as_str (jindex (jindex c ''Labels'') ''com.docker.compose.project'') = Some (to_lower name)
     \<and> (case q_service q of Some s \<Rightarrow> service_of c = Some s | None \<Rightarrow> True)
     \<and> (q_all q \<or> jindex c ''State'' = JStr ''running'')"

section \<open>Facts\<close>

lemma hex_value_upper: "n < 16 \<Longrightarrow> hex_value (hex_upper n) = Some n"
  by (auto simp: hex_value_def hex_upper_def is_digit_def)

lemma percent_of_byte: "16 * (of_char c div 16) + of_char c mod 16 = (of_char c :: nat)"
  by simp

lemma percent_back: "percent_decode (percent_encode s) = Some s"
proof (induction s)
  case (Cons c s)
  have b: "of_char c div 16 < (16 :: nat)" by (simp add: div_less_iff_less_mult)
  have pc: "\<not> unreserved CHR ''%''" by code_simp
  show ?case
    using Cons pc hex_value_upper[OF b] hex_value_upper[of "of_char c mod 16"]
    by (auto simp: percent_encode_def)
qed (simp add: percent_encode_def)

lemma no_amp: "CHR ''&'' \<notin> set (if b then ''true'' else ''false'')"
  by simp

lemma read_query_back:
  assumes "decode (pj (ps_filters name q)) = Some (ps_filters name q)"
  shows "read_query decode (to_path pj name q) = Some (q_all q, ps_filters name q)"
proof -
  have t: "split_once CHR ''&'' ((if q_all q then ''true'' else ''false'') @ CHR ''&'' # ''filters='' @ x)
      = Some ((if q_all q then ''true'' else ''false''), ''filters='' @ x)" for x
    by simp
  show ?thesis
    unfolding read_query_def to_path_def
    using t[of "percent_encode (pj (ps_filters name q))"] assms percent_back
    by (cases "q_all q") simp_all
qed

lemma label_back:
  assumes "CHR ''='' \<notin> set k"
  shows "label_holds c (JStr (k @ CHR ''='' # v)) \<longleftrightarrow> as_str (jindex (jindex c ''Labels'') k) = Some v"
proof -
  have "split_once CHR ''='' (k @ CHR ''='' # v) = Some (k, v)" using assms by simp
  then show ?thesis unfolding label_holds_def as_str.simps by (simp del: split_once_Some)
qed

lemma project_back:
  "label_holds c (JStr (project_label name))
    \<longleftrightarrow> as_str (jindex (jindex c ''Labels'') ''com.docker.compose.project'') = Some (to_lower name)"
  using label_back[of "''com.docker.compose.project''" c "to_lower name"] by (simp add: project_label_def)

lemma service_back:
  "label_holds c (JStr (''com.docker.compose.service='' @ s)) \<longleftrightarrow> service_of c = Some s"
  using label_back[of "''com.docker.compose.service''" c s] by (simp add: service_of_def)

lemma filters_wanted:
  "(q_all q \<or> jindex c ''State'' = JStr ''running'') \<and> filters_hold (ps_filters name q) c \<longleftrightarrow> wanted name q c"
proof -
  have l: "as_array (jindex (ps_filters name q) ''label'')
      = Some (JStr (project_label name) # (case q_service q of Some s \<Rightarrow> [JStr (''com.docker.compose.service='' @ s)] | None \<Rightarrow> []))"
    by (simp add: ps_filters_def jindex_def)
  have st: "as_array (jindex (ps_filters name q) ''status'') = (if q_all q then None else Some [JStr ''running''])"
    by (simp add: ps_filters_def jindex_def)
  show ?thesis
    unfolding filters_hold_def l st wanted_def option.case list.pred_inject project_back
    by (cases "q_service q") (auto simp only: option.case list.pred_inject service_back if_True if_False list.set
        insert_iff empty_iff simp_thms split: if_splits)
qed

lemma engine_lists_wanted:
  assumes "decode (pj (ps_filters name q)) = Some (ps_filters name q)"
  shows "engine_list decode cs (to_path pj name q) = filter (wanted name q) cs"
  unfolding engine_list_def read_query_back[of decode pj, OF assms] by (simp add: filters_wanted)

section \<open>Properties\<close>


text \<open>Two containers of a project of which one runs, printed and parsed by a table.\<close>

definition shop_container :: "string \<Rightarrow> string \<Rightarrow> json" where
  "shop_container i state =
     JObj [(''Id'', JStr i),
           (''Labels'', JObj [(''com.docker.compose.project'', JStr ''shop''), (''com.docker.compose.service'', JStr ''web'')]),
           (''State'', JStr state)]"

definition shop_query :: ps_query where
  "shop_query = \<lparr>q_all = False, q_service = Some ''web'', q_output = Ids\<rparr>"

definition table_print :: "json \<Rightarrow> string" where
  "table_print v = (if v = ps_filters ''Shop'' shop_query then ''F'' else ''L'')"

definition table_parse :: "string \<Rightarrow> json option" where
  "table_parse s =
     (if s = ''F'' then Some (ps_filters ''Shop'' shop_query)
      else if s = ''L'' then Some (JArr [shop_container ''a1'' ''running'']) else None)"


section \<open>Where the fast path surprises\<close>

text \<open>
  A DOCKER_HOST that is not a local socket is ignored, although the code calls the variable
  authoritative: the query is answered by the local engine, every other command by the remote one.
\<close>

theorem remote_docker_host_ignored:
  "socket_candidates (Some ''tcp://10.1.1.1:2375'') home = socket_candidates None home"
proof -
  have "strip_prefix ''unix://'' ''tcp://10.1.1.1:2375'' = None" by code_simp
  then show ?thesis unfolding socket_candidates_def Option.bind.simps by (simp only: bind_simps option.case)
qed

end
