(* ===== verification/Dip_Disk.thy ===== *)
theory Dip_Disk
  imports Dip_Compose Dip_Effects
begin

text \<open>
  The file system as a state, for the commands that look at files and change them: the bytes of
  every regular file, the directories, what else exists, the permissions. Whether an operation the
  permissions do not decide succeeds is part of the state too: \<open>writable\<close> and \<open>creatable\<close>. A path is
  its text, taken apart as \<open>std::path\<close> does.
\<close>

record disk =
  contents :: "string \<Rightarrow> string option"
  dirs :: "string \<Rightarrow> bool"
  others :: "string \<Rightarrow> bool"
  readable :: "string \<Rightarrow> bool"
  writable :: "string \<Rightarrow> bool"
  creatable :: "string \<Rightarrow> bool"
  executable :: "string \<Rightarrow> bool"

type_synonym 'a on_disk = "(disk, 'a) st"

section \<open>Text\<close>

text \<open>\<open>str::from_utf8\<close> accepts exactly the well-formed sequences, without surrogates and overlong forms.\<close>

definition continuation :: "char \<Rightarrow> bool" where
  "continuation c \<longleftrightarrow> 128 \<le> (of_char c :: nat) \<and> (of_char c :: nat) < 192"

definition second_of_three :: "nat \<Rightarrow> char \<Rightarrow> bool" where
  "second_of_three n c \<longleftrightarrow>
     continuation c \<and> (n \<noteq> 224 \<or> 160 \<le> (of_char c :: nat)) \<and> (n \<noteq> 237 \<or> (of_char c :: nat) < 160)"

definition second_of_four :: "nat \<Rightarrow> char \<Rightarrow> bool" where
  "second_of_four n c \<longleftrightarrow>
     continuation c \<and> (n \<noteq> 240 \<or> 144 \<le> (of_char c :: nat)) \<and> (n \<noteq> 244 \<or> (of_char c :: nat) < 144)"

text \<open>The bytes that have to follow a first byte, and what follows the first character.\<close>

definition utf8_tail :: "nat \<Rightarrow> (char \<Rightarrow> bool) list option" where
  "utf8_tail n =
     (if n < 128 then Some []
      else if 194 \<le> n \<and> n < 224 then Some [continuation]
      else if 224 \<le> n \<and> n < 240 then Some [second_of_three n, continuation]
      else if 240 \<le> n \<and> n < 245 then Some [second_of_four n, continuation, continuation]
      else None)"

fun consume :: "(char \<Rightarrow> bool) list \<Rightarrow> string \<Rightarrow> string option" where
  "consume [] s = Some s"
| "consume (P # Ps) [] = None"
| "consume (P # Ps) (c # s) = (if P c then consume Ps s else None)"

definition utf8_rest :: "string \<Rightarrow> string option" where
  "utf8_rest s = (case s of [] \<Rightarrow> None | a # r \<Rightarrow> Option.bind (utf8_tail (of_char a)) (\<lambda>Ps. consume Ps r))"

lemma consume_shorter: "consume Ps s = Some t \<Longrightarrow> length t \<le> length s"
  by (induction Ps s rule: consume.induct) (auto split: if_splits)

lemma utf8_rest_shorter: "utf8_rest s = Some t \<Longrightarrow> length t < length s"
  by (auto simp: utf8_rest_def bind_eq_Some_conv split: list.splits dest: consume_shorter)

function is_utf8 :: "string \<Rightarrow> bool" where
  "is_utf8 s \<longleftrightarrow> s = [] \<or> (case utf8_rest s of Some t \<Rightarrow> is_utf8 t | None \<Rightarrow> False)"
  by pat_completeness auto
termination
  by (relation "measure length") (auto dest: utf8_rest_shorter)

declare is_utf8.simps [simp del]

definition ascii :: "char \<Rightarrow> bool" where
  "ascii c \<longleftrightarrow> (of_char c :: nat) < 128"

section \<open>Files\<close>

definition is_file :: "disk \<Rightarrow> string \<Rightarrow> bool" where
  "is_file d p \<longleftrightarrow> contents d p \<noteq> None"

definition path_exists :: "disk \<Rightarrow> string \<Rightarrow> bool" where
  "path_exists d p \<longleftrightarrow> is_file d p \<or> dirs d p \<or> others d p"

definition read_bytes :: "disk \<Rightarrow> string \<Rightarrow> string option" where
  "read_bytes d p = (if readable d p then contents d p else None)"

definition read_to_string :: "disk \<Rightarrow> string \<Rightarrow> string option" where
  "read_to_string d p = Option.bind (read_bytes d p) (\<lambda>s. if is_utf8 s then Some s else None)"

definition write_file :: "string \<Rightarrow> string \<Rightarrow> unit on_disk" where
  "write_file p s d =
     (if writable d p then (Inr (), d\<lparr>contents := (contents d)(p \<mapsto> s)\<rparr>) else (Inl ''write failed'', d))"

definition append_file :: "string \<Rightarrow> string \<Rightarrow> unit on_disk" where
  "append_file p s d = write_file p ((case contents d p of Some c \<Rightarrow> c | None \<Rightarrow> []) @ s) d"

text \<open>\<open>fs::copy\<close> carries the permissions over.\<close>

definition copy_file :: "string \<Rightarrow> string \<Rightarrow> unit on_disk" where
  "copy_file p q d =
     (case read_bytes d p of
        None \<Rightarrow> (Inl ''copy failed'', d)
      | Some s \<Rightarrow>
          (if writable d q
           then (Inr (), d\<lparr>contents := (contents d)(q \<mapsto> s), executable := (executable d)(q := executable d p)\<rparr>)
           else (Inl ''copy failed'', d)))"

definition remove_file :: "string \<Rightarrow> unit on_disk" where
  "remove_file p d =
     (if is_file d p \<and> writable d p then (Inr (), d\<lparr>contents := (contents d)(p := None)\<rparr>) else (Inl ''remove failed'', d))"

text \<open>\<open>fs::rename\<close> replaces its target in one step or does nothing.\<close>

definition rename_file :: "string \<Rightarrow> string \<Rightarrow> unit on_disk" where
  "rename_file p q d =
     (if is_file d p \<and> writable d p \<and> writable d q
      then (Inr (), d\<lparr>contents := (contents d)(q := contents d p, p := (if p = q then contents d p else None)),
                      executable := (executable d)(q := executable d p)\<rparr>)
      else (Inl ''rename failed'', d))"

definition at_or_above :: "string \<Rightarrow> string \<Rightarrow> bool" where
  "at_or_above q p \<longleftrightarrow> q = p \<or> starts_with (q @ ''/'') p"

definition create_dir_all :: "string \<Rightarrow> unit on_disk" where
  "create_dir_all p d =
     (if creatable d p then (Inr (), d\<lparr>dirs := (\<lambda>q. dirs d q \<or> at_or_above q p)\<rparr>) else (Inl ''cannot create directory'', d))"

definition set_executable :: "string \<Rightarrow> unit on_disk" where
  "set_executable p d =
     (if writable d p then (Inr (), d\<lparr>executable := (executable d)(p := True)\<rparr>) else (Inl ''cannot set permissions'', d))"

section \<open>Paths\<close>

text \<open>\<open>Path::components\<close>: the root and every component but empty ones and dots behind the first.\<close>

definition inert :: "string \<Rightarrow> bool" where
  "inert c \<longleftrightarrow> c = [] \<or> c = ''.''"

definition path_components :: "string \<Rightarrow> string list" where
  "path_components p =
     (case split_on CHR ''/'' p of
        [] \<Rightarrow> []
      | h # t \<Rightarrow> (if h \<noteq> [] then [h] else if p = [] then [] else [''/'']) @ filter (\<lambda>c. \<not> inert c) t)"

text \<open>\<open>Path::parent\<close>, as text: without the last component and the separators before it.\<close>

definition path_parent :: "string \<Rightarrow> string option" where
  "path_parent p =
     (case split_on CHR ''/'' p of
        [] \<Rightarrow> None
      | h # t \<Rightarrow>
          (let t' = drop_end_while inert t in
           if t' = [] then (if h = [] then None else Some [])
           else let up = h # drop_end_while inert (butlast t')
                in Some (if up = [[]] then ''/'' else join ''/'' up)))"

text \<open>\<open>Path::file_name\<close>: the last component, if it is a name.\<close>

definition file_name :: "string \<Rightarrow> string option" where
  "file_name p =
     (case rev (path_components p) of
        c # _ \<Rightarrow> (if c = ''/'' \<or> c = ''.'' \<or> c = ''..'' then None else Some c)
      | [] \<Rightarrow> None)"

text \<open>A disk with some files on which everything is allowed.\<close>

definition open_disk :: "(string \<times> string) list \<Rightarrow> disk" where
  "open_disk fs =
     \<lparr>contents = map_of fs, dirs = (\<lambda>_. False), others = (\<lambda>_. False), readable = (\<lambda>_. True), writable = (\<lambda>_. True),
      creatable = (\<lambda>_. True), executable = (\<lambda>_. False)\<rparr>"

section \<open>Facts\<close>

lemma disk_ops [simp]:
  "snd (write_file p s d) = (if writable d p then d\<lparr>contents := (contents d)(p \<mapsto> s)\<rparr> else d)"
  "fst (write_file p s d) = Inr u \<longleftrightarrow> writable d p"
  by (simp_all add: write_file_def)

lemma consume_append: "consume Ps s = Some t \<Longrightarrow> consume Ps (s @ b) = Some (t @ b)"
  by (induction Ps s rule: consume.induct) (auto split: if_splits)

lemma consume_stuck: "consume Ps s = None \<Longrightarrow> list_all (\<lambda>P. \<not> P x) Ps \<Longrightarrow> consume Ps (s @ x # b) = None"
  by (induction Ps s rule: consume.induct) (auto split: if_splits)

lemma utf8_rest_append: "utf8_rest s = Some t \<Longrightarrow> utf8_rest (s @ b) = Some (t @ b)"
  by (auto simp: utf8_rest_def bind_eq_Some_conv consume_append split: list.splits)

lemma utf8_tail_ascii: "ascii x \<Longrightarrow> utf8_tail n = Some Ps \<Longrightarrow> list_all (\<lambda>P. \<not> P x) Ps"
  by (auto simp: utf8_tail_def ascii_def continuation_def second_of_three_def second_of_four_def split: if_splits)

lemma utf8_rest_ascii:
  assumes "ascii x" "s \<noteq> []" "utf8_rest s = None"
  shows "utf8_rest (s @ x # b) = None"
proof -
  obtain a r where s: "s = a # r" using assms(2) by (cases s) auto
  show ?thesis
    using assms(3) consume_stuck[OF _ utf8_tail_ascii[OF assms(1)]] unfolding s
    by (cases "utf8_tail (of_char a)") (simp_all add: utf8_rest_def)
qed

lemma is_utf8_Nil [simp]: "is_utf8 []"
  by (simp add: is_utf8.simps)

lemma is_utf8_Cons_ascii [simp]: "ascii x \<Longrightarrow> is_utf8 (x # s) \<longleftrightarrow> is_utf8 s"
  by (subst is_utf8.simps) (simp add: utf8_rest_def utf8_tail_def ascii_def)

lemma is_utf8_ascii: "ascii x \<Longrightarrow> is_utf8 (a @ x # b) \<longleftrightarrow> is_utf8 a \<and> is_utf8 b"
proof (induction a rule: is_utf8.induct)
  case (1 a)
  show ?case
  proof (cases "a = []")
    case False
    show ?thesis
    proof (cases "utf8_rest a")
      case None
      then show ?thesis
        using utf8_rest_ascii[OF "1.prems" False] by (simp add: is_utf8.simps[of a] is_utf8.simps[of "a @ x # b"] False)
    next
      case (Some t)
      then show ?thesis
        using utf8_rest_append[OF Some] "1.IH"[OF Some "1.prems"]
        by (simp add: is_utf8.simps[of a] is_utf8.simps[of "a @ x # b"] False)
    qed
  qed (use 1 in simp)
qed

lemma is_utf8_append: "is_utf8 a \<Longrightarrow> is_utf8 (a @ b) \<longleftrightarrow> is_utf8 b"
proof (induction a rule: is_utf8.induct)
  case (1 a)
  show ?case
  proof (cases "a = []")
    case False
    then obtain t where t: "utf8_rest a = Some t" "is_utf8 t"
      using "1.prems" by (subst (asm) is_utf8.simps) (auto split: option.splits)
    show ?thesis
      using utf8_rest_append[OF t(1)] "1.IH"[OF t] False by (simp add: is_utf8.simps[of "a @ b"])
  qed simp
qed

lemma is_utf8_ascii_end: "list_all ascii r \<Longrightarrow> is_utf8 (a @ r) \<longleftrightarrow> is_utf8 a"
proof (induction r arbitrary: a)
  case (Cons x r)
  have "is_utf8 r" using Cons.IH[of "[]"] Cons.prems by simp
  then show ?case using is_utf8_ascii[of x a r] Cons.prems by simp
qed simp

lemma is_utf8_all_ascii: "list_all ascii s \<Longrightarrow> is_utf8 s"
  using is_utf8_ascii_end[of s "[]"] by simp

lemma is_utf8_join: "is_utf8 (join [nl] ls) \<longleftrightarrow> list_all is_utf8 ls"
proof (induction ls)
  case (Cons l ls)
  have "ascii nl" by (simp add: ascii_def)
  then show ?case using Cons is_utf8_ascii[of nl l "join [nl] ls"] by (cases ls) simp_all
qed simp

lemma is_ws_ascii: "is_ws c \<Longrightarrow> ascii c"
  by (auto simp: is_ws_def ascii_def)

lemma is_utf8_trim_end: "is_utf8 (trim_end s) \<longleftrightarrow> is_utf8 s"
proof -
  obtain r where r: "s = trim_end s @ r" "\<forall>c\<in>set r. is_ws c"
    using drop_end_while_prefix[of s is_ws] by (auto simp: trim_end_def)
  then have "list_all ascii r" by (simp add: list_all_iff is_ws_ascii)
  then show ?thesis using is_utf8_ascii_end r(1) by metis
qed

lemma is_utf8_lines: "is_utf8 s \<Longrightarrow> list_all is_utf8 (str_lines s)"
proof -
  assume s: "is_utf8 s"
  have n: "list_all ascii (if ends_with [nl] s then [nl] else [])" by (simp add: ascii_def)
  have "is_utf8 (join [nl] (raw_lines s) @ (if ends_with [nl] s then [nl] else []))"
    using s by (simp only: join_raw_lines)
  then have raw: "list_all is_utf8 (raw_lines s)" using is_utf8_ascii_end[OF n] is_utf8_join by blast
  have "is_utf8 (strip_cr l)" if "is_utf8 l" for l
  proof -
    have "ascii cr" by (simp add: ascii_def)
    then show ?thesis using that is_utf8_ascii_end[of "[cr]"] by (auto simp: strip_cr_def split: option.split)
  qed
  with raw show ?thesis by (simp add: str_lines_def list_all_iff)
qed

end
