(* ===== verification/Dip_Validate.thy ===== *)
theory Dip_Validate
  imports Dip_Runtime Dip_Routes Dip_Disk
begin

text \<open>
  The checks of \<open>dip validate\<close> and its fixes (\<open>commands/validate.rs\<close>, \<open>commands/compose_config.rs\<close>).
  The disk is that of \<open>Dip_Disk\<close>. \<open>decode_config\<close> is the decoder \<open>serde_json\<close> derives for a compose
  configuration; the backend \<open>rt\<close> depends on the disk because it reads the compose file.
\<close>

section \<open>Checks\<close>

datatype level = Passed | Warned | Failed

text \<open>The levels are ordered by how bad they are.\<close>

fun severity :: "level \<Rightarrow> nat" where
  "severity Passed = 0"
| "severity Warned = 1"
| "severity Failed = 2"

instantiation level :: linorder
begin

definition less_eq_level :: "level \<Rightarrow> level \<Rightarrow> bool" where
  "less_eq_level a b \<longleftrightarrow> severity a \<le> severity b"

definition less_level :: "level \<Rightarrow> level \<Rightarrow> bool" where
  "less_level a b \<longleftrightarrow> severity a < severity b"

instance
proof
  fix a b :: level
  show "a \<le> b \<Longrightarrow> b \<le> a \<Longrightarrow> a = b" by (cases a; cases b) (simp_all add: less_eq_level_def)
qed (auto simp: less_eq_level_def less_level_def)

end

record check =
  ck_level :: level
  ck_label :: string
  ck_message :: string
  ck_hint :: "string option"

definition check_ok :: "string \<Rightarrow> string \<Rightarrow> check" where
  "check_ok label message = \<lparr>ck_level = Passed, ck_label = label, ck_message = message, ck_hint = None\<rparr>"

definition check_warn :: "string \<Rightarrow> string \<Rightarrow> string option \<Rightarrow> check" where
  "check_warn label message hint = \<lparr>ck_level = Warned, ck_label = label, ck_message = message, ck_hint = hint\<rparr>"

definition check_fail :: "string \<Rightarrow> string \<Rightarrow> string option \<Rightarrow> check" where
  "check_fail label message hint = \<lparr>ck_level = Failed, ck_label = label, ck_message = message, ck_hint = hint\<rparr>"

lemmas check_defs = check_ok_def check_warn_def check_fail_def

definition check_file :: "disk \<Rightarrow> string \<Rightarrow> string \<Rightarrow> check" where
  "check_file d label p =
     (if is_file d p then check_ok label (p @ '' exists'') else check_fail label (p @ '' is missing'') None)"

definition dockerfile_hint :: "disk \<Rightarrow> project_config \<Rightarrow> string \<Rightarrow> string option" where
  "dockerfile_hint d p missing_path =
     (let dip_dockerfile = path_join (dip_dir p) ''Dockerfile'';
          parent = (case path_parent missing_path of Some q \<Rightarrow> q | None \<Rightarrow> ''.'');
          nearby = path_join (path_join parent ''.dip'') ''Dockerfile''
      in if is_file d dip_dockerfile then
           Some (''found '' @ dip_dockerfile @ ''; if this compose file lives in .dip, use '' @ [btick] @ ''context: .''
             @ [btick] @ '' and '' @ [btick] @ ''dockerfile: Dockerfile'' @ [btick])
         else if is_file d nearby then Some (''found '' @ nearby @ ''; update build.dockerfile or build.context'')
         else None)"

definition context_check :: "disk \<Rightarrow> string \<Rightarrow> build_config \<Rightarrow> check" where
  "context_check d s b =
     (case context_dir b of
        Some path \<Rightarrow>
          (if dirs d path then check_ok (s @ ''.build.context'') (path @ '' exists'')
           else check_fail (s @ ''.build.context'') (path @ '' is missing'') None)
      | None \<Rightarrow> check_fail (s @ ''.build.context'') ''build context is missing'' None)"

definition dockerfile_check :: "disk \<Rightarrow> project_config \<Rightarrow> string \<Rightarrow> build_config \<Rightarrow> check" where
  "dockerfile_check d p s b =
     (case dockerfile_path b of
        Some path \<Rightarrow>
          (if is_file d path then check_ok (s @ ''.build.dockerfile'') (path @ '' exists'')
           else check_fail (s @ ''.build.dockerfile'') (path @ '' is missing'') (dockerfile_hint d p path))
      | None \<Rightarrow> check_fail (s @ ''.build.dockerfile'') ''dockerfile path could not be resolved'' None)"

definition target_check :: "disk \<Rightarrow> string \<Rightarrow> build_config \<Rightarrow> string \<Rightarrow> check" where
  "target_check d s b target =
     (case Option.bind (dockerfile_path b) (read_to_string d) of
        Some content \<Rightarrow>
          (let stages = dockerfile_stages content;
               known = (if stages = [] then ''no named stages found'' else ''known stages: '' @ join '', '' stages)
           in if target \<in> set stages then check_ok (s @ ''.build.target'') (''stage '' @ [squote] @ target @ [squote] @ '' exists'')
              else check_fail (s @ ''.build.target'')
                (''stage '' @ [squote] @ target @ [squote] @ '' is missing ('' @ known @ '')'')
                (Some (''remove build.target or add '' @ [btick] @ ''AS <target>'' @ [btick] @ '' to the Dockerfile'')))
      | None \<Rightarrow> check_warn (s @ ''.build.target'')
          (''cannot verify target '' @ [squote] @ target @ [squote] @ '' because Dockerfile is missing'') None)"

definition build_checks :: "disk \<Rightarrow> project_config \<Rightarrow> string \<Rightarrow> build_config \<Rightarrow> check list" where
  "build_checks d p s b =
     [context_check d s b, dockerfile_check d p s b]
     @ (case build_target b of Some target \<Rightarrow> [target_check d s b target] | None \<Rightarrow> [])"

definition validate_host_label :: "string \<Rightarrow> string + string \<times> nat" where
  "validate_host_label raw0 =
     (let raw = trim (trim_matches squote (trim_matches dquote (trim raw0))) in
      if raw = [] then Inl ''empty dip.host label''
      else and_then
        (case rsplit_once CHR '':'' raw of
           Some (host, port) \<Rightarrow>
             (case parse_u16 port of
                Some n \<Rightarrow> Inr (trim host, n)
              | None \<Rightarrow> Inl (''invalid port in dip.host label: '' @ raw))
         | None \<Rightarrow> Inr (raw, 80))
        (\<lambda>(host, n). if host = [] then Inl ''empty domain in dip.host label'' else Inr (host, n)))"

definition label_check :: "string \<Rightarrow> string \<times> string \<Rightarrow> check option" where
  "label_check s kv =
     (if \<not> is_host_label (fst kv) then None
      else Some (case validate_host_label (snd kv) of
        Inr (host, port) \<Rightarrow> check_ok (s @ ''.'' @ fst kv) (host @ '':'' @ show_nat port)
      | Inl message \<Rightarrow> check_fail (s @ ''.'' @ fst kv) message (Some ''expected format: domain.test:80'')))"

definition label_checks :: "string \<Rightarrow> (string \<times> string) list \<Rightarrow> check list" where
  "label_checks s ls = filter_map (label_check s) ls"

definition volume_check :: "disk \<Rightarrow> string \<Rightarrow> volume_config \<Rightarrow> check option" where
  "volume_check d s v =
     (if vkind v \<noteq> Some ''bind'' then None
      else case vsource v of
        None \<Rightarrow> None
      | Some src \<Rightarrow>
          (if src = [] then Some (check_fail (s @ ''.volumes'') ''bind mount has an empty source path'' None)
           else if \<not> path_exists d src then
             Some (check_warn (s @ ''.volumes'')
               (src @ '' does not exist'' @ (case vtarget v of Some t \<Rightarrow> '' (mounted at '' @ t @ '')'' | None \<Rightarrow> [])) None)
           else None))"

definition service_checks :: "disk \<Rightarrow> project_config \<Rightarrow> string \<times> service_config \<Rightarrow> check list" where
  "service_checks d p sv =
     (case build (snd sv) of
        Some b \<Rightarrow> build_checks d p (fst sv) b
      | None \<Rightarrow>
          (if image (snd sv) = None then [check_warn (fst sv @ ''.image'') ''service has neither image nor build'' None] else []))
     @ filter_map (volume_check d (fst sv)) (volumes (snd sv))
     @ label_checks (fst sv) (label_entries (snd sv))"

definition project_checks :: "disk \<Rightarrow> project_config \<Rightarrow> compose_config \<Rightarrow> check list" where
  "project_checks d p cfg =
     [check_file d ''compose file'' (compose_path p), check_file d ''env file'' (env_path p),
      check_file d ''default env'' (path_join (dip_dir p) ''default.env'')]
     @ (if cfg = [] then [check_fail ''compose services'' ''no services defined'' None] else [])
     @ concat (map (service_checks d p) cfg)"

section \<open>Fixes of the compose file\<close>

definition skipped_line :: "string \<Rightarrow> bool" where
  "skipped_line trimmed \<longleftrightarrow> trimmed = [] \<or> starts_with ''#'' trimmed"

definition not_a_key :: "string \<Rightarrow> bool" where
  "not_a_key key \<longleftrightarrow> key = [] \<or> starts_with ''-'' key \<or> list_ex (\<lambda>c. c \<in> set '' {}[]'') key"

definition yaml_key :: "string \<Rightarrow> (nat \<times> string \<times> string) option" where
  "yaml_key line =
     (let trimmed = trim_start line in
      if skipped_line trimmed then None
      else Option.bind (split_once CHR '':'' trimmed) (\<lambda>(k, v).
        let key = trim k in
        if not_a_key key then None
        else Some (length line - length trimmed, trim_matches squote (trim_matches dquote key), v)))"

definition replace_yaml_scalar :: "string \<Rightarrow> string \<Rightarrow> string" where
  "replace_yaml_scalar line new_value =
     (case split_once CHR '':'' line of
        None \<Rightarrow> line
      | Some (left, right) \<Rightarrow>
          (case split_once CHR ''#'' right of
             Some (_, c) \<Rightarrow> left @ '': '' @ new_value @ ''  '' @ trim_end (''#'' @ c)
           | None \<Rightarrow> left @ '': '' @ new_value))"

text \<open>Where the loop over the lines is: in which service, below which \<open>build\<close>.\<close>

record fix_state =
  services_indent :: "nat option"
  service_indent :: "nat option"
  current_service :: "(string \<times> nat) option"
  build_indent :: "nat option"

definition outside_services :: fix_state where
  "outside_services = \<lparr>services_indent = None, service_indent = None, current_service = None, build_indent = None\<rparr>"

definition fix_line ::
    "(string \<Rightarrow> string option) \<Rightarrow> fix_state \<Rightarrow> string \<Rightarrow> string \<times> bool \<times> fix_state" where
  "fix_line fixes st line =
     (case yaml_key line of
        None \<Rightarrow> (line, False, st)
      | Some (ind, key, val) \<Rightarrow>
          if key = ''services'' \<and> trim val = [] then
            (line, False, outside_services\<lparr>services_indent := Some ind\<rparr>)
          else (case services_indent st of
            None \<Rightarrow> (line, False, st)
          | Some active_services \<Rightarrow>
              if ind \<le> active_services then (line, False, outside_services)
              else
                let active_service = (case service_indent st of Some i \<Rightarrow> i | None \<Rightarrow> ind);
                    left = (case current_service st of Some (_, i) \<Rightarrow> ind \<le> i | None \<Rightarrow> False);
                    cur = (if left then None else current_service st);
                    bld = Option.bind (if left then None else build_indent st) (\<lambda>i. if ind \<le> i then None else Some i);
                    st' = st\<lparr>service_indent := Some active_service, current_service := cur, build_indent := bld\<rparr>
                in if ind = active_service then
                     (line, False, st'\<lparr>current_service := map_option (\<lambda>_. (key, ind)) (fixes key), build_indent := None\<rparr>)
                   else if cur \<noteq> None \<and> key = ''build'' \<and> trim val = [] then
                     (line, False, st'\<lparr>build_indent := Some ind\<rparr>)
                   else if bld \<noteq> None \<and> key = ''context'' then
                     (case Option.bind cur (\<lambda>(s, _). fixes s) of
                        Some new_context \<Rightarrow>
                          (if trim val \<noteq> new_context then (replace_yaml_scalar line new_context, True, st') else (line, False, st'))
                      | None \<Rightarrow> (line, False, st'))
                   else (line, False, st')))"

fun fix_lines :: "(string \<Rightarrow> string option) \<Rightarrow> fix_state \<Rightarrow> string list \<Rightarrow> string list \<times> bool" where
  "fix_lines fixes st [] = ([], False)"
| "fix_lines fixes st (l # ls) =
     (case fix_line fixes st l of (l', c, st') \<Rightarrow>
        (case fix_lines fixes st' ls of (ls', cs) \<Rightarrow> (l' # ls', c \<or> cs)))"

text \<open>The lines joined again, with a final newline if there was one.\<close>

definition rejoin :: "string \<Rightarrow> string list \<Rightarrow> string" where
  "rejoin content ls = join [nl] ls @ (if ends_with [nl] content then [nl] else [])"

definition apply_compose_context_fixes :: "string \<Rightarrow> (string \<times> string) list \<Rightarrow> string \<times> bool" where
  "apply_compose_context_fixes content fixes =
     (case fix_lines (map_of (rev fixes)) outside_services (str_lines content) of
        (ls, c) \<Rightarrow> (rejoin content ls, c))"

definition context_fix_of :: "disk \<Rightarrow> project_config \<Rightarrow> string \<times> service_config \<Rightarrow> (string \<times> string) option" where
  "context_fix_of d p sv =
     Option.bind (build (snd sv)) (\<lambda>b.
       if dockerfile_name b \<noteq> ''Dockerfile'' then None
       else Option.bind (dockerfile_path b) (\<lambda>path.
         if is_file d path then None
         else if (case rev (path_components path) of c # _ \<Rightarrow> c \<noteq> ''Dockerfile'' | [] \<Rightarrow> True)
              \<or> map_option path_components (path_parent path) \<noteq> Some (path_components (root_dir p)) then None
         else Some (fst sv, ''.'')))"

definition collect_compose_context_fixes :: "disk \<Rightarrow> project_config \<Rightarrow> compose_config \<Rightarrow> (string \<times> string) list" where
  "collect_compose_context_fixes d p cfg =
     (if is_file d (path_join (dip_dir p) ''Dockerfile'') then filter_map (context_fix_of d p) cfg else [])"

section \<open>Fixes of Dockerfiles\<close>

definition is_safe_stage_name :: "string \<Rightarrow> bool" where
  "is_safe_stage_name target \<longleftrightarrow> target \<noteq> [] \<and> list_all (\<lambda>c. is_alnum c \<or> c \<in> set ''_-.'') target"

fun has_alias_parts :: "string list \<Rightarrow> bool" where
  "has_alias_parts [] = False"
| "has_alias_parts (p # ps) =
     (if starts_with ''#'' p then False
      else if eq_ignore_case p ''AS'' then ps \<noteq> []
      else has_alias_parts ps)"

definition line_has_from_alias :: "string \<Rightarrow> bool" where
  "line_has_from_alias line = has_alias_parts (split_ws line)"

definition add_alias_before_comment :: "string \<Rightarrow> string \<Rightarrow> string" where
  "add_alias_before_comment line target =
     (case split_sub '' #'' line of
        Some (before', after) \<Rightarrow> trim_end before' @ '' AS '' @ target @ '' #'' @ after
      | None \<Rightarrow> trim_end line @ '' AS '' @ target)"

text \<open>The lines with an alias at the first FROM; \<open>None\<close> if there is none or it has one.\<close>

fun alias_first_from :: "string \<Rightarrow> string list \<Rightarrow> string list option" where
  "alias_first_from target [] = None"
| "alias_first_from target (l # ls) =
     (let trimmed = trim_start l in
      if skipped_line trimmed \<or> \<not> eq_ignore_case (hd (split_ws trimmed)) ''FROM''
      then map_option (\<lambda>ls'. l # ls') (alias_first_from target ls)
      else if line_has_from_alias trimmed then None
      else Some (add_alias_before_comment l target # ls))"

definition add_stage_alias_to_first_from :: "string \<Rightarrow> string \<Rightarrow> string option" where
  "add_stage_alias_to_first_from content target =
     map_option (rejoin content) (alias_first_from target (str_lines content))"

section \<open>The command\<close>

definition load_compose :: "container_runtime \<Rightarrow> (string \<Rightarrow> string + compose_config) \<Rightarrow> project_config \<Rightarrow> compose_config io" where
  "load_compose rt decode_config p =
     io_bind (rt_compose_capture rt p [''config'', ''--format'', ''json'']) (\<lambda>raw. of_result (decode_config raw))"

definition fix_contexts :: "project_config \<Rightarrow> compose_config \<Rightarrow> disk \<Rightarrow> (string + string list) \<times> disk" where
  "fix_contexts p cfg d =
     (let actions = collect_compose_context_fixes d p cfg in
      if actions = [] then (Inr [], d)
      else case read_to_string d (compose_path p) of
        None \<Rightarrow> (Inl ''read failed'', d)
      | Some content \<Rightarrow>
          (case apply_compose_context_fixes content actions of (updated, any) \<Rightarrow>
             if \<not> any then (Inr [], d)
             else case write_file (compose_path p) updated d of
               (Inl e, d') \<Rightarrow> (Inl e, d')
             | (Inr _, d') \<Rightarrow>
                 (Inr (map (\<lambda>(s, c). s @ '': set build.context to '' @ [btick] @ c @ [btick]) actions), d')))"

text \<open>The Dockerfile of a service and its text with the wanted stage, if it is safe to add.\<close>

definition stage_fix_of :: "disk \<Rightarrow> service_config \<Rightarrow> (string \<times> string \<times> string) option" where
  "stage_fix_of d s =
     Option.bind (build s) (\<lambda>b.
     Option.bind (build_target b) (\<lambda>target.
     Option.bind (dockerfile_path b) (\<lambda>path.
     Option.bind (read_to_string d path) (\<lambda>content.
       (let stages = dockerfile_stages content in
        if target \<in> set stages \<or> stages \<noteq> [] \<or> \<not> is_safe_stage_name target then None
        else map_option (\<lambda>updated. (target, path, updated)) (add_stage_alias_to_first_from content target))))))"

fun fix_stages :: "compose_config \<Rightarrow> string list \<Rightarrow> disk \<Rightarrow> (string + string list) \<times> disk" where
  "fix_stages [] applied d = (Inr applied, d)"
| "fix_stages ((name, s) # cfg) applied d =
     (case stage_fix_of d s of
        None \<Rightarrow> fix_stages cfg applied d
      | Some (target, path, updated) \<Rightarrow>
          (case write_file path updated d of
             (Inl e, d') \<Rightarrow> (Inl e, d')
           | (Inr _, d') \<Rightarrow>
               fix_stages cfg (applied @ [name @ '': added '' @ [btick] @ ''AS '' @ target @ [btick] @ '' to '' @ path]) d'))"

definition apply_fixes ::
    "(disk \<Rightarrow> project_config \<Rightarrow> container_runtime) \<Rightarrow> (string \<Rightarrow> string + compose_config)
      \<Rightarrow> project_config \<Rightarrow> disk \<Rightarrow> ((string + string list) \<times> disk) io" where
  "apply_fixes rt decode_config p d =
     io_bind (attempt (load_compose (rt d p) decode_config p)) (\<lambda>r.
       (case r of
          Inl e \<Rightarrow> ret (Inl e, d)
        | Inr cfg \<Rightarrow>
            (case fix_contexts p cfg d of
               (Inl e, d1) \<Rightarrow> ret (Inl e, d1)
             | (Inr applied, d1) \<Rightarrow>
                 io_bind (attempt (load_compose (rt d1 p) decode_config p)) (\<lambda>r'.
                   (case r' of
                      Inl e \<Rightarrow> ret (Inl e, d1)
                    | Inr cfg' \<Rightarrow> ret (fix_stages cfg' applied d1))))))"

definition validate_cmd ::
    "(disk \<Rightarrow> project_config \<Rightarrow> container_runtime) \<Rightarrow> (string \<Rightarrow> string + compose_config)
      \<Rightarrow> string + project_config \<Rightarrow> bool \<Rightarrow> disk \<Rightarrow> ((string + unit) \<times> disk) io" where
  "validate_cmd rt decode_config found fix_it d =
     (case found of
        Inl e \<Rightarrow> ret (Inl e, d)
      | Inr p \<Rightarrow>
          io_bind (if fix_it then apply_fixes rt decode_config p d else ret (Inr [], d)) (\<lambda>(applied, d1).
            (case applied of
               Inl e \<Rightarrow> ret (Inl e, d1)
             | Inr _ \<Rightarrow>
                 io_bind (attempt (load_compose (rt d1 p) decode_config p)) (\<lambda>r.
                   (case r of
                      Inl e \<Rightarrow> ret (Inl e, d1)
                    | Inr cfg \<Rightarrow>
                        ret (if list_ex (\<lambda>c. ck_level c = Failed) (project_checks d1 p cfg)
                             then Inl ''validation failed'' else Inr (), d1))))))"

section \<open>Facts on lines and words\<close>

lemma filter_map_raw_lines:
  assumes "list_all (\<lambda>l. nl \<notin> set l) ls" "f [] = None" "e = [] \<or> e = [nl]"
  shows "filter_map f (raw_lines (join [nl] ls @ e)) = filter_map f ls"
  using assms(1)
proof (induction ls)
  case (Cons l ls)
  show ?case
  proof (cases ls)
    case Nil
    then show ?thesis using Cons.prems assms(2,3) raw_lines_cons[of l "[]"] by (auto simp: raw_lines_single)
  next
    case (Cons m ms)
    have "raw_lines (join [nl] (l # ls) @ e) = l # raw_lines (join [nl] ls @ e)"
      using Cons.prems raw_lines_cons[of l "join [nl] ls @ e"] by (simp add: Cons)
    then show ?thesis using Cons.IH Cons.prems by (simp del: join.simps split: option.split)
  qed
qed (use assms in \<open>auto simp: raw_lines.simps\<close>)

lemma split_ws_skip: "is_ws c \<Longrightarrow> split_ws (c # s) = split_ws s"
  by (simp add: split_ws_def)

lemma split_ws_trim_start [simp]: "split_ws (trim_start s) = split_ws s"
  unfolding trim_start_def by (induction s) (auto simp: split_ws_skip)

lemma split_ws_snoc: "is_ws c \<Longrightarrow> split_ws (s @ [c]) = split_ws s"
  using split_ws_append[of c s "[]"] by (simp add: split_ws_def)

lemma split_ws_drop_end: "(\<And>c. P c \<Longrightarrow> is_ws c) \<Longrightarrow> split_ws (drop_end_while P s) = split_ws s"
  by (induction s rule: rev_induct) (auto simp: drop_end_while_def split_ws_snoc)

lemma split_ws_trim_end [simp]: "split_ws (trim_end s) = split_ws s"
  unfolding trim_end_def by (rule split_ws_drop_end)

lemma split_ws_strip_cr [simp]: "split_ws (strip_cr l) = split_ws l"
proof -
  have "is_ws cr" by (simp add: is_ws_def)
  then show ?thesis by (auto simp: strip_cr_def split_ws_snoc split: option.split)
qed

lemma split_ws_acc_first: "w \<noteq> [] \<Longrightarrow> \<exists>r ps. split_ws_acc w s = (w @ r) # ps"
proof (induction s arbitrary: w)
  case (Cons c s)
  show ?case
  proof (cases "is_ws c")
    case False
    then show ?thesis using Cons.IH[of "w @ [c]"] by auto
  qed (use Cons.prems in auto)
qed simp

lemma first_word_char:
  assumes "trim_start s \<noteq> []"
  obtains r ps where "split_ws s = (hd (trim_start s) # r) # ps"
proof -
  let ?t = "trim_start s"
  have "\<not> is_ws (hd ?t)" using assms hd_dropWhile[of is_ws s] by (simp add: trim_start_def)
  moreover have "?t = hd ?t # tl ?t" using assms by simp
  ultimately have "split_ws ?t = split_ws_acc [hd ?t] (tl ?t)"
    unfolding split_ws_def by (metis append_Nil split_ws_acc.simps(2))
  then show ?thesis using split_ws_acc_first[of "[hd ?t]" "tl ?t"] that by auto
qed


lemma hash_not_from: "\<not> eq_ignore_case (CHR ''#'' # r) ''FROM''"
proof -
  have "lower_char CHR ''#'' = CHR ''#''" "lower_char CHR ''F'' = CHR ''f''" by code_simp+
  then show ?thesis by (simp add: eq_ignore_case_def to_lower_def)
qed

lemma stage_of_line_words:
  "stage_of_line raw =
     (case split_ws raw of
        [] \<Rightarrow> None
      | first # parts \<Rightarrow> (if eq_ignore_case first ''FROM'' then stage_of_parts parts else None))"
proof (cases "starts_with ''#'' (trim_start raw)")
  case True
  then have ne: "trim_start raw \<noteq> []" and h: "hd (trim_start raw) = CHR ''#''" by (auto simp: starts_with_iff)
  obtain r ps where "split_ws raw = (CHR ''#'' # r) # ps" using first_word_char[OF ne] h by metis
  then show ?thesis using True hash_not_from by (simp add: stage_of_line_def)
qed (simp add: stage_of_line_def Let_def)

lemma stage_of_line_strip_cr [simp]: "stage_of_line (strip_cr l) = stage_of_line l"
  by (simp add: stage_of_line_words)

lemma stages_of_raw_lines: "filter_map stage_of_line (str_lines s) = filter_map stage_of_line (raw_lines s)"
  unfolding str_lines_def by (induction "raw_lines s" rule: list.induct) (auto simp: filter_map_def comp_def)

lemma set_strip_cr: "set (strip_cr l) \<subseteq> set l"
  by (auto simp: strip_cr_def split: option.splits)

lemma str_lines_no_nl: "list_all (\<lambda>l. nl \<notin> set l) (str_lines s)"
  using raw_lines_no_nl set_strip_cr by (fastforce simp: str_lines_def list_all_iff)

text \<open>The stages of rejoined lines are those of the lines.\<close>

lemma stages_rejoin:
  assumes "list_all (\<lambda>l. nl \<notin> set l) ls"
  shows "filter_map stage_of_line (str_lines (rejoin content ls)) = filter_map stage_of_line ls"
proof -
  have "stage_of_line [] = None" by (simp add: stage_of_line_words split_ws_def)
  then show ?thesis
    using filter_map_raw_lines[OF assms, of stage_of_line "[nl]"] filter_map_raw_lines[OF assms, of stage_of_line "[]"]
    unfolding stages_of_raw_lines rejoin_def by simp
qed

definition dangling_as :: "string \<Rightarrow> bool" where
  "dangling_as line \<longleftrightarrow> (case split_ws line of [] \<Rightarrow> False | ws \<Rightarrow> eq_ignore_case (last ws) ''AS'')"

lemma stage_of_parts_None:
  "stage_of_parts ps = None \<Longrightarrow> ps = [] \<or> \<not> eq_ignore_case (last ps) ''AS'' \<Longrightarrow> list_all (\<lambda>p. \<not> eq_ignore_case p ''AS'') ps"
  by (induction ps) (auto split: if_splits list.splits)

lemma stage_of_parts_alias:
  "list_all (\<lambda>p. \<not> eq_ignore_case p ''AS'') ps \<Longrightarrow> stage_of_parts (ps @ ''AS'' # t # r) = Some (strip_stage_quotes t)"
  by (induction ps) (auto simp: eq_ignore_case_def)

lemma safe_stage_chars:
  assumes "is_safe_stage_name t" "c \<in> set t"
  shows "\<not> is_ws c" "c \<noteq> dquote" "c \<noteq> squote" "c \<noteq> cr" "c \<noteq> nl"
proof -
  have c: "is_alnum c \<or> c \<in> {CHR ''_'', CHR ''-'', CHR ''.''}" using assms by (auto simp: is_safe_stage_name_def list_all_iff)
  have d: "\<not> is_alnum spc" "\<not> is_alnum tab" "\<not> is_alnum nl" "\<not> is_alnum CHR 0x0B" "\<not> is_alnum CHR 0x0C"
    "\<not> is_alnum cr" "\<not> is_alnum dquote" "\<not> is_alnum squote"
    by (simp_all add: is_alnum_def is_digit_def is_upper_def is_lower_def)
  show "\<not> is_ws c" "c \<noteq> dquote" "c \<noteq> squote" "c \<noteq> cr" "c \<noteq> nl" using c d by (auto simp: is_ws_def)
qed

lemma strip_stage_quotes_safe: "is_safe_stage_name t \<Longrightarrow> strip_stage_quotes t = t"
proof -
  assume s: "is_safe_stage_name t"
  have "dquote \<notin> set t" "squote \<notin> set t" using safe_stage_chars[OF s] by blast+
  moreover have "t = [] \<or> last t \<noteq> cr" using safe_stage_chars(4)[OF s, of "last t"] by (cases "t = []") auto
  ultimately show ?thesis by (simp add: strip_stage_quotes_def no_quotes_trim_matches drop_end_while_id)
qed

lemma split_ws_aliased:
  assumes "is_safe_stage_name t"
  shows "split_ws (s @ '' AS '' @ t @ spc # r) = split_ws s @ ''AS'' # t # split_ws r"
    "split_ws (s @ '' AS '' @ t) = split_ws s @ [''AS'', t]"
proof -
  have w: "is_ws spc" by (simp add: is_ws_def)
  have t: "split_ws t = [t]" using assms safe_stage_chars(1)[OF assms] by (intro split_ws_word) (auto simp: is_safe_stage_name_def)
  have a: "split_ws ''AS'' = [''AS'']" by (rule split_ws_word) (auto simp: is_ws_def)
  have "split_ws (s @ spc # ''AS'' @ spc # u) = split_ws s @ ''AS'' # split_ws u" for u
    using split_ws_append[OF w, of s "''AS'' @ spc # u"] split_ws_append[OF w, of "''AS''" u] a by simp
  note this[of "t @ spc # r"] this[of t]
  then show "split_ws (s @ '' AS '' @ t @ spc # r) = split_ws s @ ''AS'' # t # split_ws r"
    "split_ws (s @ '' AS '' @ t) = split_ws s @ [''AS'', t]"
    using split_ws_append[OF w, of t r] t by simp_all
qed

text \<open>The changed line names the target, and nothing before it was a name.\<close>

lemma alias_line:
  assumes safe: "is_safe_stage_name t" and none: "stage_of_line l = None" and d: "\<not> dangling_as l"
    and w: "split_ws l = first # parts" "eq_ignore_case first ''FROM''"
  shows "stage_of_line (add_alias_before_comment l t) = Some t"
proof -
  have last: "parts = [] \<or> \<not> eq_ignore_case (last parts) ''AS''" using d w by (auto simp: dangling_as_def)
  have as: "list_all (\<lambda>p. \<not> eq_ignore_case p ''AS'') parts"
    using none w last by (intro stage_of_parts_None) (auto simp: stage_of_line_words)
  show ?thesis
  proof (cases "split_sub '' #'' l")
    case None
    then show ?thesis
      using split_ws_aliased(2)[OF safe, of "trim_end l"] w as
      by (simp add: add_alias_before_comment_def stage_of_line_words stage_of_parts_alias strip_stage_quotes_safe[OF safe])
  next
    case (Some ba)
    obtain b a where ba: "ba = (b, a)" by (cases ba)
    have l: "l = b @ spc # CHR ''#'' # a" using Some ba split_sub_Some[of "'' #''" l b a] by simp
    have sw: "is_ws spc" by (simp add: is_ws_def)
    have ws: "split_ws l = split_ws b @ split_ws (CHR ''#'' # a)" using split_ws_append[OF sw, of b "CHR ''#'' # a"] l by simp
    have "trim_start (CHR ''#'' # a) = CHR ''#'' # a" by (simp add: trim_start_def is_ws_def)
    then obtain r ps where c: "split_ws (CHR ''#'' # a) = (CHR ''#'' # r) # ps"
      using first_word_char[of "CHR ''#'' # a"] by auto
    obtain bs where b: "split_ws b = first # bs" using w ws c hash_not_from by (cases "split_ws b") auto
    have "list_all (\<lambda>p. \<not> eq_ignore_case p ''AS'') bs" using as ws b w(1) by simp
    then show ?thesis
      using split_ws_aliased(1)[OF safe, of "trim_end b" "CHR ''#'' # a"] Some ba b w(2)
      by (simp add: add_alias_before_comment_def stage_of_line_words stage_of_parts_alias strip_stage_quotes_safe[OF safe])
  qed
qed


lemma alias_first_from_Some:
  "alias_first_from t ls = Some ls' \<Longrightarrow>
     \<exists>a l b first parts. ls = a @ l # b \<and> ls' = a @ add_alias_before_comment l t # b
       \<and> split_ws l = first # parts \<and> eq_ignore_case first ''FROM''"
proof (induction t ls arbitrary: ls' rule: alias_first_from.induct)
  case (2 t l ls)
  let ?skip = "skipped_line (trim_start l) \<or> \<not> eq_ignore_case (hd (split_ws (trim_start l))) ''FROM''"
  show ?case
  proof (cases ?skip)
    case True
    then obtain ls1 where r: "alias_first_from t ls = Some ls1" "ls' = l # ls1" using "2.prems" by (auto simp: Let_def)
    with True obtain a m b first parts where "ls = a @ m # b" "ls1 = a @ add_alias_before_comment m t # b"
        "split_ws m = first # parts" "eq_ignore_case first ''FROM''"
      using "2.IH"[OF refl True] by blast
    then show ?thesis using r by (intro exI[of _ "l # a"]) auto
  next
    case False
    then obtain r ps where w: "split_ws l = (hd (trim_start l) # r) # ps"
      using first_word_char[of l] by (metis skipped_line_def)
    then have "ls' = add_alias_before_comment l t # ls" "eq_ignore_case (hd (trim_start l) # r) ''FROM''"
      using False "2.prems" by (auto simp: Let_def split: if_splits)
    with w show ?thesis
      by (intro exI[of _ "[]"] exI[of _ l] exI[of _ ls] exI[of _ "hd (trim_start l) # r"] exI[of _ ps]) simp
  qed
qed simp

lemma dockerfile_stages_Nil: "dockerfile_stages content = [] \<longleftrightarrow> filter_map stage_of_line (str_lines content) = []"
  using set_sextend[of "[]" "filter_map stage_of_line (str_lines content)"]
  by (auto simp: dockerfile_stages_def sextend_def)

lemma alias_adds_stage:
  assumes none: "dockerfile_stages content = []" and safe: "is_safe_stage_name t"
    and d: "list_all (\<lambda>l. \<not> dangling_as l) (str_lines content)"
    and s: "add_stage_alias_to_first_from content t = Some updated"
  shows "dockerfile_stages updated = [t]
    \<and> (\<exists>a l b. str_lines content = a @ l # b \<and> updated = rejoin content (a @ add_alias_before_comment l t # b))"
proof -
  from s obtain ls' where ls: "alias_first_from t (str_lines content) = Some ls'" "updated = rejoin content ls'"
    by (auto simp: add_stage_alias_to_first_from_def)
  obtain a l b first parts where ab: "str_lines content = a @ l # b" "ls' = a @ add_alias_before_comment l t # b"
      "split_ws l = first # parts" "eq_ignore_case first ''FROM''"
    using alias_first_from_Some[OF ls(1)] by blast
  have n: "filter_map stage_of_line a = []" "stage_of_line l = None" "filter_map stage_of_line b = []"
    using none ab(1) by (auto simp: dockerfile_stages_Nil filter_map_append split: option.splits)
  have "\<not> dangling_as l" using d ab(1) by simp
  then have al: "stage_of_line (add_alias_before_comment l t) = Some t" using alias_line[OF safe n(2) _ ab(3,4)] by blast
  have "nl \<notin> set (add_alias_before_comment l t)"
  proof -
    have "nl \<notin> set l" using str_lines_no_nl[of content] ab(1) by simp
    moreover have "nl \<notin> set t" using safe_stage_chars(5)[OF safe] by blast
    moreover have "nl \<notin> set (trim_end u)" if "nl \<notin> set u" for u using that set_trim_end[of u] by blast
    ultimately show ?thesis by (simp add: add_alias_before_comment_def split: option.split prod.split) (metis split_sub_Some Un_iff set_append)
  qed
  then have "list_all (\<lambda>l. nl \<notin> set l) ls'" using str_lines_no_nl[of content] ab(1,2) by simp
  then have "filter_map stage_of_line (str_lines updated) = [t]"
    using stages_rejoin[of ls' content] ls(2) ab(2) n(1,3) al by (simp add: filter_map_append)
  then have "dockerfile_stages updated = [t]" by (simp add: dockerfile_stages_def sextend_def sinsert_def)
  then show ?thesis using ab(1,2) ls(2) by blast
qed

section \<open>The lines of the compose file\<close>

lemma yaml_key_Some:
  assumes "yaml_key l = Some (i, k, v)"
  obtains ws r where "l = ws @ r @ CHR '':'' # v" "r \<noteq> []" "\<not> is_ws (hd r)" "CHR '':'' \<notin> set ws" "CHR '':'' \<notin> set r"
    "i = length ws" "list_all is_ws ws"
proof -
  let ?ws = "takeWhile is_ws l" and ?t = "trim_start l"
  obtain r where r: "split_once CHR '':'' ?t = Some (r, v)" "trim r \<noteq> []" "i = length l - length ?t"
  proof (cases "split_once CHR '':'' ?t")
    case None
    then have "yaml_key l = None" unfolding yaml_key_def Let_def by (simp del: split_once_None)
    with assms show ?thesis by simp
  next
    case (Some p)
    obtain r u where p: "p = (r, u)" by (cases p)
    have v: "\<not> not_a_key (trim r)" "u = v" "i = length l - length ?t"
      using assms Some p unfolding yaml_key_def Let_def
      by (cases "skipped_line ?t"; cases "not_a_key (trim r)"; simp del: split_once_Some)+
    have "trim r \<noteq> []"
    proof
      assume "trim r = []"
      with v(1) show False by (simp add: not_a_key_def)
    qed
    moreover have "split_once CHR '':'' ?t = Some (r, v)" unfolding Some p v(2) ..
    ultimately show ?thesis using that v(3) by blast
  qed
  have t: "?t = r @ CHR '':'' # v" "CHR '':'' \<notin> set r" using r(1) by simp_all
  have l: "l = ?ws @ ?t" by (simp add: trim_start_def)
  have "trim [] = []" by code_simp
  then have ne: "r \<noteq> []" using r(2) by (intro notI) (simp only: simp_thms)
  have ws: "list_all is_ws ?ws" by (auto simp: list_all_iff dest: set_takeWhileD)
  have "\<not> is_ws CHR '':''" by code_simp
  then have "CHR '':'' \<notin> set ?ws" using ws unfolding list_all_iff by blast
  moreover have "\<not> is_ws (hd r)"
    using ne t hd_dropWhile[of is_ws l] by (cases r) (auto simp: trim_start_def)
  moreover have "i = length ?ws" using r(3) l by (metis add_diff_cancel_right' length_append)
  ultimately show ?thesis using that[of ?ws r] l t ne ws by metis
qed

lemma yaml_key_same_left:
  assumes "yaml_key (ws @ r @ CHR '':'' # v) = Some (i, k, v)" "CHR '':'' \<notin> set r" "list_all is_ws ws" "r \<noteq> []" "\<not> is_ws (hd r)"
  shows "yaml_key (ws @ r @ CHR '':'' # v') = Some (i, k, v')"
proof -
  have t: "trim_start (ws @ r @ CHR '':'' # u) = r @ CHR '':'' # u" for u
    using assms(3,4,5) unfolding trim_start_def by (cases r) (auto simp: dropWhile_append list_all_iff)
  have s: "split_once CHR '':'' (r @ CHR '':'' # u) = Some (r, u)" for u using assms(2) by simp
  show ?thesis
    using assms(1,4) unfolding yaml_key_def Let_def t s by (cases r) (auto simp: skipped_line_def split: if_splits)
qed

lemma split_left:
  "CHR '':'' \<notin> set ws \<Longrightarrow> CHR '':'' \<notin> set r \<Longrightarrow> split_once CHR '':'' (ws @ r @ CHR '':'' # v) = Some (ws @ r, v)"
  by simp

lemma trim_end_trim_end [simp]: "trim_end (trim_end s) = trim_end s"
  unfolding trim_end_def by (rule drop_end_while_id) (use drop_end_while_last in blast)

lemma trim_end_hash: "\<exists>u. trim_end (CHR ''#'' # c) = CHR ''#'' # u"
proof -
  have "trim_end (CHR ''#'' # c) \<noteq> []"
    by (auto simp: trim_end_def drop_end_while_def is_ws_def)
  moreover obtain r where "CHR ''#'' # c = trim_end (CHR ''#'' # c) @ r"
    using drop_end_while_prefix[of "CHR ''#'' # c" is_ws] by (auto simp: trim_end_def)
  ultimately show ?thesis by (metis hd_append2 list.collapse list.sel(1))
qed

text \<open>A replaced line has its key, at its place, and is not changed by being replaced again.\<close>

lemma replaced_line:
  assumes "yaml_key l = Some (i, k, v)" "CHR ''#'' \<notin> set new"
  shows "(\<exists>v'. yaml_key (replace_yaml_scalar l new) = Some (i, k, v') \<and> (v' = spc # new \<or> starts_with (spc # new @ ''  #'') v'))
    \<and> replace_yaml_scalar (replace_yaml_scalar l new) new = replace_yaml_scalar l new"
proof -
  obtain ws r where l: "l = ws @ r @ CHR '':'' # v" "r \<noteq> []" "\<not> is_ws (hd r)" "CHR '':'' \<notin> set ws" "CHR '':'' \<notin> set r"
      "list_all is_ws ws"
    using yaml_key_Some[OF assms(1)] by metis
  let ?rep = "\<lambda>right. (case split_once CHR ''#'' right of Some (_, c) \<Rightarrow> spc # new @ ''  '' @ trim_end (''#'' @ c) | None \<Rightarrow> spc # new)"
  have rep: "replace_yaml_scalar (ws @ r @ CHR '':'' # u) new = ws @ r @ CHR '':'' # ?rep u" for u
    unfolding replace_yaml_scalar_def split_left[OF l(4,5)] by (simp split: option.split del: split_once_None split_once_Some)
  have same: "?rep (?rep v) = ?rep v"
  proof (cases "split_once CHR ''#'' v")
    case None
    then show ?thesis using assms(2) split_once_None[of "CHR ''#''" "spc # new"] by (simp del: split_once_Some split_once_None)
  next
    case (Some p)
    obtain c0 c where p: "p = (c0, c)" by (cases p)
    obtain u where u: "trim_end (''#'' @ c) = CHR ''#'' # u" using trim_end_hash[of c] by auto
    have "split_once CHR ''#'' (spc # new @ ''  '' @ CHR ''#'' # u) = Some (spc # new @ ''  '', u)" using assms(2) by simp
    moreover have "trim_end (''#'' @ u) = CHR ''#'' # u" using u trim_end_trim_end[of "''#'' @ c"] by simp
    ultimately show ?thesis using Some p u by (simp del: split_once_Some split_once_None)
  qed
  have "?rep v = spc # new \<or> starts_with (spc # new @ ''  #'') (?rep v)"
  proof (cases "split_once CHR ''#'' v")
    case (Some p)
    obtain u where u: "trim_end (''#'' @ snd p) = CHR ''#'' # u" using trim_end_hash[of "snd p"] by auto
    have "starts_with (spc # new @ ''  #'') (spc # new @ ''  '' @ CHR ''#'' # u)" by (simp add: starts_with_iff)
    then show ?thesis using u Some by (simp add: case_prod_beta' del: split_once_Some)
  qed (simp del: split_once_None)
  then show ?thesis
    using yaml_key_same_left[OF _ l(5,6,2,3)] assms(1) same unfolding l(1) rep by blast
qed


lemma fix_line_local:
  assumes "fix_line fixes st l = (l', c, st')"
  shows "l' = l \<and> \<not> c
    \<or> c \<and> (\<exists>i v s new. yaml_key l = Some (i, ''context'', v) \<and> fixes s = Some new \<and> l' = replace_yaml_scalar l new)"
  using assms unfolding fix_line_def Let_def
  by (auto split: option.splits prod.splits if_splits simp: bind_eq_Some_conv)

lemma fix_line_again:
  assumes f: "fix_line fixes st l = (l', c, st')" and ok: "\<forall>s new. fixes s = Some new \<longrightarrow> CHR ''#'' \<notin> set new"
  shows "\<exists>c'. fix_line fixes st l' = (l', c', st')"
proof (cases c)
  case True
  then obtain i v s new where k: "yaml_key l = Some (i, ''context'', v)" "fixes s = Some new" "l' = replace_yaml_scalar l new"
    using fix_line_local[OF f] by blast
  obtain v' where k': "yaml_key l' = Some (i, ''context'', v')"
    using replaced_line[OF k(1), of new] ok k(2,3) by blast
  have r: "\<forall>a n. fixes a = Some n \<longrightarrow> replace_yaml_scalar l n = l' \<longrightarrow> replace_yaml_scalar l' n = l'"
    using replaced_line[OF k(1)] ok by blast
  have "fixes a = Some n \<Longrightarrow> replace_yaml_scalar l n = l' \<Longrightarrow> replace_yaml_scalar l' n = l'" for a n
    using r by blast
  then show ?thesis using f True unfolding fix_line_def k(1) k' Let_def
    by (auto simp: bind_eq_Some_conv split: option.splits prod.splits if_splits)
qed (use fix_line_local[OF f] f in auto)


text \<open>A line as it was, or a context line that now says \<open>.\<close>.\<close>

definition kept_or_context :: "string \<Rightarrow> string \<Rightarrow> bool" where
  "kept_or_context l l' \<longleftrightarrow>
     l' = l
     \<or> (\<exists>i v v'. yaml_key l = Some (i, ''context'', v) \<and> yaml_key l' = Some (i, ''context'', v')
          \<and> (v' = '' .'' \<or> starts_with '' .  #'' v'))"

lemma fix_lines_local:
  assumes "\<forall>s new. fixes s = Some new \<longrightarrow> new = ''.''"
  shows "list_all2 kept_or_context ls (fst (fix_lines fixes st ls)) \<and> (snd (fix_lines fixes st ls) \<or> fst (fix_lines fixes st ls) = ls)"
proof (induction ls arbitrary: st)
  case (Cons l ls)
  obtain l' c st' where f: "fix_line fixes st l = (l', c, st')" using prod_cases3 by blast
  consider "l' = l" "\<not> c" | i v where "c" "yaml_key l = Some (i, ''context'', v)" "l' = replace_yaml_scalar l ''.''"
    using fix_line_local[OF f] assms by blast
  then have "kept_or_context l l' \<and> (c \<or> l' = l)"
  proof cases
    case 2
    have "CHR ''#'' \<notin> set ''.''" by simp
    from replaced_line[OF 2(2) this] 2 show ?thesis by (auto simp: kept_or_context_def)
  qed (simp add: kept_or_context_def)
  then show ?case using Cons.IH[of st'] f by (auto split: prod.split)
qed simp

lemma fix_lines_again:
  assumes "\<forall>s new. fixes s = Some new \<longrightarrow> CHR ''#'' \<notin> set new"
  shows "fst (fix_lines fixes st (fst (fix_lines fixes st ls))) = fst (fix_lines fixes st ls)"
proof (induction ls arbitrary: st)
  case (Cons l ls)
  obtain l' c st' where f: "fix_line fixes st l = (l', c, st')" using prod_cases3 by blast
  obtain c' where "fix_line fixes st l' = (l', c', st')" using fix_line_again[OF f] assms by blast
  then show ?case using Cons.IH[of st'] f by (auto split: prod.split)
qed simp

lemma last_raw_line: "s \<noteq> [] \<Longrightarrow> \<not> ends_with [nl] s \<Longrightarrow> last (raw_lines s) \<noteq> []"
proof (induction s rule: raw_lines.induct)
  case (2 c s)
  show ?case
  proof (cases "s = []")
    case False
    then have "last (raw_lines s) \<noteq> []" using 2 by (auto simp: ends_with_single split: if_splits)
    with False show ?thesis by (cases "raw_lines s") (auto split: if_splits)
  qed (use 2 in \<open>auto simp: ends_with_single\<close>)
qed simp

lemma ends_with_join:
  assumes "list_all (\<lambda>l. nl \<notin> set l) ls" "ls \<noteq> []" "last ls \<noteq> []"
  shows "\<not> ends_with [nl] (join [nl] ls)"
  using assms
proof (induction ls)
  case (Cons l ls)
  have n: "join [nl] ls \<noteq> []" if "ls \<noteq> []" "last ls \<noteq> []"
    using that by (induction ls) (auto simp: join_Cons split: if_splits)
  show ?case
  proof (cases "ls = []")
    case True
    have "last l \<noteq> nl" using Cons.prems True last_in_set[of l] by (intro notI) simp
    then show ?thesis using True by (simp add: ends_with_single)
  next
    case False
    with Cons n show ?thesis by (auto simp: ends_with_single join_Cons)
  qed
qed simp

lemma replaced_chars: "set (replace_yaml_scalar l n) \<subseteq> set l \<union> set n \<union> set '': #''"
proof (cases "split_once CHR '':'' l")
  case (Some p)
  obtain left right where p: "p = (left, right)" by (cases p)
  have l: "set left \<subseteq> set l" "set right \<subseteq> set l" using Some p by auto
  show ?thesis
  proof (cases "split_once CHR ''#'' right")
    case (Some q)
    obtain q1 q2 where q: "q = (q1, q2)" by (cases q)
    have "set q2 \<subseteq> set right" using Some q by auto
    then have "set (trim_end (''#'' @ q2)) \<subseteq> set l \<union> {CHR ''#''}" using set_trim_end[of "''#'' @ q2"] l(2) by auto
    then show ?thesis
      using l(1) \<open>split_once CHR '':'' l = Some p\<close> p Some q
      by (auto simp: replace_yaml_scalar_def simp del: split_once_Some)
  qed (use l Some p in \<open>auto simp: replace_yaml_scalar_def simp del: split_once_Some split_once_None\<close>)
next
  case None
  then have "replace_yaml_scalar l n = l" by (simp add: replace_yaml_scalar_def del: split_once_None)
  then show ?thesis by auto
qed

lemma fix_lines_chars:
  assumes "\<forall>s new. fixes s = Some new \<longrightarrow> new = ''.''" "x \<notin> set '': #.''" "list_all (\<lambda>l. x \<notin> set l) ls"
  shows "list_all (\<lambda>l. x \<notin> set l) (fst (fix_lines fixes st ls))"
  using assms(3)
proof (induction ls arbitrary: st)
  case (Cons l ls)
  obtain l' c st' where f: "fix_line fixes st l = (l', c, st')" using prod_cases3 by blast
  have "l' = l \<or> l' = replace_yaml_scalar l ''.''" using fix_line_local[OF f] assms(1) by blast
  then have "x \<notin> set l'" using replaced_chars[of l "''.''"] assms(2) Cons.prems by auto
  then show ?case using Cons.IH[of st'] Cons.prems f by (cases "fix_lines fixes st' ls") auto
qed simp

lemma kept_or_context_nonempty: "kept_or_context l l' \<Longrightarrow> l \<noteq> [] \<Longrightarrow> l' \<noteq> []"
proof -
  have "yaml_key [] = None" by code_simp
  then show "kept_or_context l l' \<Longrightarrow> l \<noteq> [] \<Longrightarrow> l' \<noteq> []" by (auto simp: kept_or_context_def)
qed

lemma list_all2_last: "list_all2 P xs ys \<Longrightarrow> ys \<noteq> [] \<Longrightarrow> P (last xs) (last ys)"
  by (induction rule: list_all2_induct) auto

text \<open>Rejoined lines are read back as lines, by a file without carriage returns.\<close>

lemma lines_rejoin:
  assumes "cr \<notin> set content" "list_all2 kept_or_context (str_lines content) ls"
    and "list_all (\<lambda>l. nl \<notin> set l) ls" "list_all (\<lambda>l. cr \<notin> set l) ls"
  shows "str_lines (rejoin content ls) = ls \<and> ends_with [nl] (rejoin content ls) = ends_with [nl] content"
proof (cases "content = []")
  case True
  then show ?thesis using assms(2) by (simp add: rejoin_def str_lines_def ends_with_single)
next
  case False
  have raw: "str_lines content = raw_lines content" using assms(1) by (rule str_lines_no_cr)
  then have ne: "ls \<noteq> []" using assms(2) False by auto
  let ?e = "if ends_with [nl] content then [nl] else []"
  have last: "last ls \<noteq> []" if "\<not> ends_with [nl] content"
  proof -
    have "kept_or_context (last (str_lines content)) (last ls)"
      using assms(2) ne by (rule list_all2_last)
    then show ?thesis using last_raw_line[OF False that] raw kept_or_context_nonempty by metis
  qed
  have r: "raw_lines (rejoin content ls) = ls"
    unfolding rejoin_def by (rule raw_lines_join[OF assms(3) ne]) (use last in auto)
  have "list_all (\<lambda>l. strip_cr l = l) ls" using assms(4) by (auto simp: list_all_iff strip_cr_id)
  then have "str_lines (rejoin content ls) = ls" unfolding str_lines_def r by (auto simp: list_all_iff intro: map_idI)
  moreover have "ends_with [nl] (rejoin content ls) = ends_with [nl] content"
    using ends_with_join[OF assms(3) ne last] by (auto simp: rejoin_def ends_with_single)
  ultimately show ?thesis ..
qed

text \<open>
  Rewriting the build contexts of a compose file is safe: line by line the file is as it was,
  apart from \<open>context\<close> keys that keep their place and now say \<open>.\<close>, with the comment behind them; if
  nothing is reported as changed nothing is, and a second run changes nothing more.
\<close>

theorem context_fix_safe:
  assumes "cr \<notin> set content" "list_all (\<lambda>(_, v). v = ''.'') actions"
  shows "case apply_compose_context_fixes content actions of (out, any) \<Rightarrow>
    list_all2 kept_or_context (str_lines content) (str_lines out)
    \<and> (any \<or> out = content)
    \<and> fst (apply_compose_context_fixes out actions) = out"
proof -
  let ?f = "map_of (rev actions)"
  let ?r = "fix_lines ?f outside_services (str_lines content)"
  have dot: "\<forall>s new. ?f s = Some new \<longrightarrow> new = ''.''"
    using assms(2) map_of_SomeD[of "rev actions"] by (fastforce simp: list_all_iff)
  have "CHR ''#'' \<notin> set ''.''" by code_simp
  with dot have hash: "\<forall>s new. ?f s = Some new \<longrightarrow> CHR ''#'' \<notin> set new" by metis
  have loc: "list_all2 kept_or_context (str_lines content) (fst ?r)" "snd ?r \<or> fst ?r = str_lines content"
    using fix_lines_local[of ?f, OF dot] by blast+
  have raw: "str_lines content = raw_lines content" using assms(1) by (rule str_lines_no_cr)
  have "list_all (\<lambda>l. cr \<notin> set l) (str_lines content)" using assms(1) set_raw_lines unfolding raw list_all_iff by blast
  then have chars: "list_all (\<lambda>l. nl \<notin> set l) (fst ?r)" "list_all (\<lambda>l. cr \<notin> set l) (fst ?r)"
    using str_lines_no_nl[of content] by (intro fix_lines_chars[of ?f, OF dot]; simp)+
  let ?out = "rejoin content (fst ?r)"
  have app: "apply_compose_context_fixes content actions = (?out, snd ?r)"
    by (simp add: apply_compose_context_fixes_def split: prod.split)
  note out = lines_rejoin[OF assms(1) loc(1) chars]
  have "apply_compose_context_fixes ?out actions = (rejoin ?out (fst (fix_lines ?f outside_services (fst ?r))), snd (fix_lines ?f outside_services (fst ?r)))"
    using out by (simp add: apply_compose_context_fixes_def split: prod.split)
  then have "fst (apply_compose_context_fixes ?out actions) = rejoin ?out (fst ?r)"
    using fix_lines_again[of ?f, OF hash] by simp
  also have "\<dots> = ?out" using out by (simp add: rejoin_def)
  finally have again: "fst (apply_compose_context_fixes ?out actions) = ?out" .
  have "snd ?r \<or> ?out = content"
    using loc(2) join_raw_lines[of content] raw by (auto simp: rejoin_def)
  then show ?thesis using app loc(1) out again by simp
qed


section \<open>What validation means\<close>

definition passes :: "check list \<Rightarrow> bool" where
  "passes cs \<longleftrightarrow> list_all (\<lambda>c. ck_level c < Failed) cs"

lemma passes_simps [simp]:
  "passes []" "passes (c # cs) \<longleftrightarrow> ck_level c < Failed \<and> passes cs" "passes (cs @ ds) \<longleftrightarrow> passes cs \<and> passes ds"
  by (simp_all add: passes_def)

lemma passes_concat: "passes (concat (map f xs)) \<longleftrightarrow> (\<forall>x\<in>set xs. passes (f x))"
  by (induction xs) auto

lemma passes_filter_map: "passes (filter_map f xs) \<longleftrightarrow> (\<forall>x\<in>set xs. case f x of Some c \<Rightarrow> ck_level c < Failed | None \<Rightarrow> True)"
  by (induction xs) (auto split: option.split)

lemma level_less [simp]: "Passed < Failed" "Warned < Failed" "\<not> Failed < Failed"
  by (simp_all add: less_level_def)

lemma not_passes: "list_ex (\<lambda>c. ck_level c = Failed) cs \<longleftrightarrow> \<not> passes cs"
proof -
  have "l = Failed \<longleftrightarrow> \<not> l < Failed" for l by (cases l) simp_all
  then show ?thesis by (induction cs) auto
qed

lemma check_levels [simp]:
  "ck_level (check_ok a b) = Passed" "ck_level (check_warn a b c) = Warned" "ck_level (check_fail a b c) = Failed"
  by (simp_all add: check_defs)

definition build_valid :: "disk \<Rightarrow> build_config \<Rightarrow> bool" where
  "build_valid d b \<longleftrightarrow>
     (\<exists>ctx path. context_dir b = Some ctx \<and> dirs d ctx \<and> dockerfile_path b = Some path \<and> is_file d path
       \<and> (\<forall>t content. build_target b = Some t \<longrightarrow> read_to_string d path = Some content \<longrightarrow> t \<in> set (dockerfile_stages content)))"

definition service_valid :: "disk \<Rightarrow> service_config \<Rightarrow> bool" where
  "service_valid d s \<longleftrightarrow>
     (\<forall>b. build s = Some b \<longrightarrow> build_valid d b)
     \<and> (\<forall>v\<in>set (volumes s). vkind v = Some ''bind'' \<longrightarrow> vsource v \<noteq> Some [])
     \<and> (\<forall>(k, v)\<in>set (label_entries s). is_host_label k \<longrightarrow> (\<exists>h. validate_host_label v = Inr h))"

definition project_valid :: "disk \<Rightarrow> project_config \<Rightarrow> compose_config \<Rightarrow> bool" where
  "project_valid d p cfg \<longleftrightarrow>
     is_file d (compose_path p) \<and> is_file d (env_path p) \<and> is_file d (path_join (dip_dir p) ''default.env'')
     \<and> cfg \<noteq> [] \<and> (\<forall>(_, s)\<in>set cfg. service_valid d s)"

lemma passes_target: "ck_level (target_check d s b t) < Failed \<longleftrightarrow>
    (\<forall>content. Option.bind (dockerfile_path b) (read_to_string d) = Some content \<longrightarrow> t \<in> set (dockerfile_stages content))"
  by (simp add: target_check_def Let_def split: option.split)

lemma passes_build: "passes (build_checks d p s b) \<longleftrightarrow> build_valid d b"
  by (cases "build_target b"; cases "context_dir b"; cases "dockerfile_path b")
    (simp_all add: build_checks_def build_valid_def context_check_def dockerfile_check_def passes_target)

lemma passes_volumes:
  "passes (filter_map (volume_check d s) vs) \<longleftrightarrow> (\<forall>v\<in>set vs. vkind v = Some ''bind'' \<longrightarrow> vsource v \<noteq> Some [])"
  unfolding passes_filter_map
  by (rule ball_cong[OF refl]) (simp add: volume_check_def split: option.split)

lemma passes_labels:
  "passes (label_checks s ls) \<longleftrightarrow> (\<forall>(k, v)\<in>set ls. is_host_label k \<longrightarrow> (\<exists>h. validate_host_label v = Inr h))"
  unfolding label_checks_def passes_filter_map
  by (rule ball_cong[OF refl]) (auto simp: label_check_def split: sum.split)

lemma passes_service: "passes (service_checks d p (n, s)) \<longleftrightarrow> service_valid d s"
  by (cases "build s") (simp_all add: service_checks_def service_valid_def passes_build passes_volumes passes_labels)

lemma passes_project: "passes (project_checks d p cfg) \<longleftrightarrow> project_valid d p cfg"
proof -
  have "(\<forall>x\<in>set cfg. passes (service_checks d p x)) \<longleftrightarrow> (\<forall>(_, s)\<in>set cfg. service_valid d s)"
    using passes_service by fast
  then show ?thesis by (simp add: project_checks_def project_valid_def passes_concat check_file_def)
qed


lemma is_utf8_rejoin: "is_utf8 (rejoin content ls) \<longleftrightarrow> list_all is_utf8 ls"
  using is_utf8_ascii_end[of "[nl]" "join [nl] ls"] by (simp add: rejoin_def is_utf8_join ascii_def)

lemma safe_stage_ascii: "is_safe_stage_name t \<Longrightarrow> list_all ascii t"
  by (auto simp: is_safe_stage_name_def list_all_iff is_alnum_def is_digit_def is_upper_def is_lower_def ascii_def)

lemma is_utf8_alias:
  assumes "is_utf8 l" "list_all ascii t"
  shows "is_utf8 (add_alias_before_comment l t)"
proof -
  have as: "list_all ascii ('' AS '' @ t)" using assms(2) by (simp add: ascii_def)
  have n: "is_utf8 (u @ '' AS '' @ t)" if "is_utf8 u" for u using that is_utf8_ascii_end[OF as] by blast
  show ?thesis
  proof (cases "split_sub '' #'' l")
    case None
    then show ?thesis using n[of "trim_end l"] assms(1) by (simp add: add_alias_before_comment_def is_utf8_trim_end)
  next
    case (Some ba)
    obtain b a where ba: "ba = (b, a)" by (cases ba)
    have sp: "ascii spc" "ascii CHR ''#''" by (simp_all add: ascii_def)
    have l: "l = b @ spc # CHR ''#'' # a" using Some ba split_sub_Some[of "'' #''" l b a] by simp
    have u: "is_utf8 b" "is_utf8 a" using assms(1) is_utf8_ascii[OF sp(1), of b "CHR ''#'' # a"] sp(2) unfolding l by simp_all
    have "is_utf8 ((trim_end b @ '' AS '' @ t) @ spc # CHR ''#'' # a)"
      using is_utf8_ascii[OF sp(1), of "trim_end b @ '' AS '' @ t" "CHR ''#'' # a"] n[of "trim_end b"] u sp(2)
      by (simp add: is_utf8_trim_end)
    then show ?thesis using Some ba by (simp add: add_alias_before_comment_def)
  qed
qed

text \<open>
  C31. The fix of a Dockerfile repairs what the check reports: for a service whose target is not a
  stage, if the fix applies, the check of the written file passes, and the target is its only
  stage. A FROM line that ends in a bare \<open>AS\<close> is excluded.
\<close>

theorem stage_fix_passes_check:
  assumes b: "build s = Some b" and sf: "stage_fix_of d s = Some (target, path, updated)" and w: "writable d path"
    and dang: "list_all (\<lambda>l. \<not> dangling_as l) (str_lines (case contents d path of Some c \<Rightarrow> c | None \<Rightarrow> []))"
  shows "\<not> ck_level (target_check d name b target) < Failed
    \<and> (case write_file path updated d of (r, d') \<Rightarrow> r = Inr () \<and> ck_level (target_check d' name b target) = Passed)
    \<and> dockerfile_stages updated = [target]"
proof -
  obtain content where c: "dockerfile_path b = Some path" "read_to_string d path = Some content"
      "dockerfile_stages content = []" "is_safe_stage_name target" "add_stage_alias_to_first_from content target = Some updated"
    using b sf by (auto simp: stage_fix_of_def Let_def bind_eq_Some_conv split: if_splits)
  then have cc: "contents d path = Some content" "readable d path" "is_utf8 content"
    by (auto simp: read_to_string_def read_bytes_def bind_eq_Some_conv split: if_splits)
  have al: "dockerfile_stages updated = [target]
      \<and> (\<exists>a l b. str_lines content = a @ l # b \<and> updated = rejoin content (a @ add_alias_before_comment l target # b))"
    using alias_adds_stage[OF c(3,4) _ c(5)] dang cc(1) by simp
  then have st: "dockerfile_stages updated = [target]" ..
  from al have u: "is_utf8 updated"
    using is_utf8_lines[OF cc(3)] is_utf8_alias[OF _ safe_stage_ascii[OF c(4)]] by (auto simp: is_utf8_rejoin)
  have "\<not> ck_level (target_check d name b target) < Failed" using c(1,2,3) by (simp add: passes_target)
  moreover have "ck_level (target_check (snd (write_file path updated d)) name b target) = Passed"
    using w c(1) cc(2) st u by (simp add: write_file_def target_check_def read_to_string_def read_bytes_def)
  ultimately show ?thesis using st w by (simp add: write_file_def)
qed

lemma clean_label: "clean_host_value (JStr v) = trim (trim_matches squote (trim_matches dquote (trim v)))"
  by (simp add: clean_host_value_def)

lemma parse_uint_chars: "parse_uint m s = Some n \<Longrightarrow> trim s = s"
proof -
  assume a: "parse_uint m s = Some n"
  have d: "\<not> is_ws c" if "is_digit c" for c using that is_digit_neq(6) by blast
  have "\<not> is_ws CHR ''+''" by code_simp
  then have "list_all (\<lambda>c. \<not> is_ws c) s"
    using a d by (cases s) (auto simp: parse_uint_def Let_def all_digits_def list_all_iff split: if_splits)
  then have "tidy s" by (cases s) (auto simp: tidy_def list_all_iff)
  then show ?thesis by (rule trim_tidy)
qed

lemma count_list_trim: "count_list (trim s) c \<le> count_list s c"
proof -
  obtain r where "trim_start s = trim s @ r" using drop_end_while_prefix[of "trim_start s" is_ws] by (auto simp: trim_def trim_end_def)
  moreover have "s = takeWhile is_ws s @ trim_start s" by (simp add: trim_start_def)
  ultimately show ?thesis by (metis count_list_append le_add1 le_add2 le_trans)
qed

text \<open>
  A host label that validation accepts is routed as reported: if it has no quotes and at most
  one colon, the sync reads the same domain from it, and its port is the same number.
\<close>

theorem validated_label_is_routed:
  assumes "validate_host_label v = Inr (host, n)" "is_host_label k"
    and "dquote \<notin> set v" "squote \<notin> set v" "count_list v CHR '':'' \<le> 1"
  shows "\<exists>port. host_entry (k, JStr v) = Some (host, port) \<and> parse_u16 port = Some n"
proof -
  let ?raw = "trim v"
  have q: "trim_matches squote (trim_matches dquote w) = w" if "set w \<subseteq> set v" for w
    using that assms(3,4) no_quotes_trim_matches by (metis subsetD)
  have raw: "trim (trim_matches squote (trim_matches dquote (trim v))) = ?raw" using q[OF set_trim] by simp
  then have c: "clean_host_value (JStr v) = ?raw" by (simp add: clean_label)
  have ne: "?raw \<noteq> []" using assms(1) unfolding validate_host_label_def Let_def raw by (auto split: if_splits)
  show ?thesis
  proof (cases "rsplit_once CHR '':'' ?raw")
    case None
    then have s: "split_once CHR '':'' ?raw = None" by simp
    have "host = ?raw" "n = 80" using assms(1) ne None unfolding validate_host_label_def Let_def raw by (auto simp del: rsplit_once_None split: if_splits)
    moreover have "parse_u16 ''80'' = Some 80" by (simp add: parse_u16_def parse_uint_def all_digits_def is_digit_def digits_val_def digit_val_def)
    ultimately show ?thesis using ne assms(2) s by (simp add: host_entry_def c del: split_once_None)
  next
    case (Some dp)
    obtain h p where dp: "dp = (h, p)" by (cases dp)
    have r: "?raw = h @ CHR '':'' # p" using Some dp by simp
    have pr: "parse_u16 p = Some n" "host = trim h" "host \<noteq> []"
      using assms(1) ne Some dp unfolding validate_host_label_def Let_def raw
      by (auto simp del: rsplit_once_Some split: if_splits option.splits)
    have "CHR '':'' \<notin> set h"
    proof -
      have "count_list ?raw CHR '':'' \<le> count_list v CHR '':''" by (rule count_list_trim)
      then have "count_list h CHR '':'' = 0" using r assms(5) by simp
      then show ?thesis by (simp add: count_list_0_iff)
    qed
    then have s: "split_once CHR '':'' ?raw = Some (h, p)" using r by simp
    have "set (trim h) \<subseteq> set v" using set_trim[of h] set_trim[of v] r by auto
    moreover have "trim p = p" using pr(1) unfolding parse_u16_def by (rule parse_uint_chars)
    ultimately show ?thesis using q ne assms(2) s pr by (simp add: host_entry_def c del: split_once_Some)
  qed
qed


text \<open>A project in \<open>/srv/app\<close> with a Dockerfile without stages.\<close>

definition plain_service :: "build_config option \<Rightarrow> service_config" where
  "plain_service b =
     \<lparr>build = b, image = None, labels = JNull, volumes = [], ports = JNull, environment = JNull, env_file = JNull,
      command = JNull, entrypoint = JNull, working_dir = None, depends_on = [], healthcheck = JNull\<rparr>"

definition built_from :: "string \<Rightarrow> string option \<Rightarrow> service_config" where
  "built_from ctx target =
     plain_service (Some \<lparr>context_dir = Some ctx, dockerfile = None, build_target = target, build_args = []\<rparr>)"

theorem stage_fix_passes_check_witness:
  "ck_level (target_check (snd (write_file ''/srv/app/Dockerfile'' ''FROM php:8.4 AS dev'' (open_disk [(''/srv/app/Dockerfile'', ''FROM php:8.4'')])))
     ''web'' \<lparr>context_dir = Some ''/srv/app'', dockerfile = None, build_target = Some ''dev'', build_args = []\<rparr> ''dev'') = Passed"
proof -
  let ?d = "open_disk [(''/srv/app/Dockerfile'', ''FROM php:8.4'')]"
  have b: "build (built_from ''/srv/app'' (Some ''dev'')) = Some \<lparr>context_dir = Some ''/srv/app'', dockerfile = None, build_target = Some ''dev'', build_args = []\<rparr>"
    by (simp add: built_from_def plain_service_def)
  have f: "stage_fix_of ?d (built_from ''/srv/app'' (Some ''dev'')) = Some (''dev'', ''/srv/app/Dockerfile'', ''FROM php:8.4 AS dev'')"
    by code_simp
  have w: "writable ?d ''/srv/app/Dockerfile''" by (simp add: open_disk_def)
  have a: "list_all (\<lambda>l. \<not> dangling_as l) (str_lines (case contents ?d ''/srv/app/Dockerfile'' of Some c \<Rightarrow> c | None \<Rightarrow> []))"
    by code_simp
  show ?thesis using stage_fix_passes_check[OF b f w a, of "''web''"] by (simp only: case_prod_beta')
qed

definition compose_text :: string where
  "compose_text =
     join [nl] [''services:'', ''  web:'', ''    build:'', ''      context: ..  # root'', ''  api:'', ''    build: ..'', ''  db:'',
       ''    build:'', ''      context: ..''] @ [nl]"

theorem context_fix_safe_witness:
  "fst (apply_compose_context_fixes compose_text [(''web'', ''.'')])
     = join [nl] [''services:'', ''  web:'', ''    build:'', ''      context: .  # root'', ''  api:'', ''    build: ..'', ''  db:'',
         ''    build:'', ''      context: ..''] @ [nl]
   \<and> fst (apply_compose_context_fixes (fst (apply_compose_context_fixes compose_text [(''web'', ''.'')])) [(''web'', ''.'')])
     = fst (apply_compose_context_fixes compose_text [(''web'', ''.'')])"
proof -
  have c: "cr \<notin> set compose_text" "list_all (\<lambda>(_, v). v = ''.'') [(''web'', ''.'')]" by code_simp+
  have "fst (apply_compose_context_fixes compose_text [(''web'', ''.'')])
     = join [nl] [''services:'', ''  web:'', ''    build:'', ''      context: .  # root'', ''  api:'', ''    build: ..'', ''  db:'',
         ''    build:'', ''      context: ..''] @ [nl]" by code_simp
  then show ?thesis using context_fix_safe[OF c] by (simp only: case_prod_beta' simp_thms)
qed

theorem validated_label_is_routed_witness:
  "host_entry (''dip.host'', JStr '' api.test '') = Some (''api.test'', ''80'') \<and> parse_u16 ''80'' = Some 80"
proof -
  have v: "validate_host_label '' api.test '' = Inr (''api.test'', 80)" by code_simp
  have c: "is_host_label ''dip.host''" "dquote \<notin> set '' api.test ''" "squote \<notin> set '' api.test ''" by code_simp+
  have n: "count_list '' api.test '' CHR '':'' \<le> 1" by simp
  obtain port where "host_entry (''dip.host'', JStr '' api.test '') = Some (''api.test'', port)" "parse_u16 port = Some 80"
    using validated_label_is_routed[OF v c n] by blast
  moreover have "host_entry (''dip.host'', JStr '' api.test '') = Some (''api.test'', ''80'')" by code_simp
  ultimately show ?thesis by simp
qed

section \<open>Where the checks and fixes surprise\<close>

text \<open>
  The check splits a label at its last colon and reads the port as a number, the sync splits it at
  the first and keeps the text: labels that pass are routed otherwise than reported.
\<close>

lemma parse_u16_80: "parse_u16 ''80'' = Some 80" "parse_u16 ''+80'' = Some 80"
  by (simp_all add: parse_u16_def parse_uint_def all_digits_def is_digit_def digits_val_def digit_val_def)

theorem validated_label_misrouted:
  "validate_host_label ''a.test:b:80'' = Inr (''a.test:b'', 80) \<and> host_entry (''dip.host'', JStr ''a.test:b:80'') = Some (''a.test'', ''b:80'')
   \<and> validate_host_label ''a.test:+80'' = Inr (''a.test'', 80) \<and> host_entry (''dip.host'', JStr ''a.test:+80'') = Some (''a.test'', ''+80'')"
proof -
  have "trim (trim_matches squote (trim_matches dquote (trim s))) = s" if "s \<in> {''a.test:b:80'', ''a.test:+80''}" for s
    using that by (elim insertE emptyE) (simp_all only:, code_simp+)
  moreover have "rsplit_once CHR '':'' ''a.test:b:80'' = Some (''a.test:b'', ''80'')" "rsplit_once CHR '':'' ''a.test:+80'' = Some (''a.test'', ''+80'')"
    "trim ''a.test:b'' = ''a.test:b''" "trim ''a.test'' = ''a.test''" by code_simp+
  ultimately have "validate_host_label ''a.test:b:80'' = Inr (''a.test:b'', 80)" "validate_host_label ''a.test:+80'' = Inr (''a.test'', 80)"
    by (simp_all add: validate_host_label_def parse_u16_80 del: rsplit_once_Some)
  moreover have "host_entry (''dip.host'', JStr ''a.test:b:80'') = Some (''a.test'', ''b:80'')"
    "host_entry (''dip.host'', JStr ''a.test:+80'') = Some (''a.test'', ''+80'')" by code_simp+
  ultimately show ?thesis by simp
qed

text \<open>A FROM that is continued on the next line counts as unnamed, and the fix breaks it.\<close>

theorem continued_from_broken:
  "dockerfile_stages (join [nl] [''FROM php:8.4 '' @ [bslash], ''  AS dev'']) = []
   \<and> add_stage_alias_to_first_from (join [nl] [''FROM php:8.4 '' @ [bslash], ''  AS dev'']) ''dev''
     = Some (join [nl] [''FROM php:8.4 '' @ [bslash] @ '' AS dev'', ''  AS dev''])"
  by code_simp

text \<open>A short \<open>build\<close> is not rewritten, but reported as fixed when another service is.\<close>

theorem unfixed_service_reported:
  "fst (fix_contexts (demo_project ''shop''\<lparr>root_dir := ''/srv/app'', dip_dir := ''/srv/app/.dip'', compose_path := ''c.yml''\<rparr>)
     [(''api'', built_from ''/srv/app'' None), (''web'', built_from ''/srv/app'' None)]
     (open_disk [(''c.yml'', compose_text), (''/srv/app/.dip/Dockerfile'', ''FROM php'')]))
   = Inr [''api: set build.context to '' @ [btick] @ ''.'' @ [btick], ''web: set build.context to '' @ [btick] @ ''.'' @ [btick]]
   \<and> fst (apply_compose_context_fixes compose_text [(''api'', ''.''), (''web'', ''.'')])
     = fst (apply_compose_context_fixes compose_text [(''web'', ''.'')])"
  by code_simp

text \<open>Carriage returns are lost on every line, also on those that are not fixed.\<close>

theorem carriage_returns_lost:
  "add_stage_alias_to_first_from (''FROM php'' @ [cr, nl] @ ''RUN true'' @ [cr, nl]) ''dev''
     = Some (''FROM php AS dev'' @ [nl] @ ''RUN true'' @ [nl])"
  by code_simp

end
