(* ===== verification/Dip_Scaffold.thy ===== *)
theory Dip_Scaffold
  imports Dip_Disk Dip_Env
begin

text \<open>
  Projects from templates: \<open>dip init\<close> (\<open>commands/init.rs\<close>, \<open>templates/mod.rs\<close>) and \<open>dip update-commands\<close>
  (\<open>commands/update_commands.rs\<close>). A template is a directory embedded by the \<open>include_dir\<close> crate: its
  entries, and the directory the crate finds under the path \<open>commands\<close>. \<open>embedded\<close> maps the name
  of a directory of \<open>src/templates\<close> to it. The lines a user types are arguments.
\<close>

section \<open>Templates\<close>

datatype entry = Dir_entry string "entry list" | File_entry string string

record embedded_dir =
  ed_entries :: "entry list"
  ed_commands :: "entry list option"

record template_meta =
  tm_name :: string
  tm_description :: string
  tm_dir :: embedded_dir

definition template_table :: "(string \<times> string) list" where
  "template_table =
     [(''nestjs'', ''NestJS + PostgreSQL + Valkey''),
      (''nextjs'', ''Next.js + PostgreSQL + Valkey + Prisma''),
      (''nuxt'', ''Nuxt 3 + PostgreSQL + Valkey + Prisma''),
      (''sveltekit'', ''SvelteKit + PostgreSQL + Prisma''),
      (''react'', ''React + Vite (TypeScript)''),
      (''angular'', ''Angular CLI (TypeScript)''),
      (''express'', ''Express 5 + PostgreSQL''),
      (''node'', ''Node.js (bare, bring your own stack)''),
      (''node-multi'', ''Node.js multi-app workspace + PostgreSQL''),
      (''django'', ''Django + PostgreSQL + Valkey + Celery''),
      (''fastapi'', ''FastAPI + PostgreSQL + Valkey + Alembic''),
      (''laravel'', ''Laravel + MySQL + Valkey + nginx''),
      (''wordpress'', ''WordPress + MySQL + nginx + WP-CLI''),
      (''drupal'', ''Drupal + MySQL + nginx + Drush''),
      (''rails'', ''Ruby on Rails + PostgreSQL + Valkey + Sidekiq''),
      (''go'', ''Go + PostgreSQL + Air (hot-reload)''),
      (''rust'', ''Axum + PostgreSQL + sqlx + cargo-watch'')]"

definition templates :: "(string \<Rightarrow> embedded_dir) \<Rightarrow> template_meta list" where
  "templates embedded =
     map (\<lambda>(n, descr). \<lparr>tm_name = n, tm_description = descr, tm_dir = embedded n\<rparr>) template_table"

definition find_template :: "(string \<Rightarrow> embedded_dir) \<Rightarrow> string \<Rightarrow> string + template_meta" where
  "find_template embedded name =
     (case find (\<lambda>t. tm_name t = name) (templates embedded) of
        Some t \<Rightarrow> Inr t
      | None \<Rightarrow> Inl (''Unknown template '' @ name @ ''. Available: '' @ join '', '' (map tm_name (templates embedded))))"

section \<open>Copying a template\<close>

text \<open>\<open>str::replace\<close>: every occurrence of a text that is not empty, from the left.\<close>

function replace_sub :: "string \<Rightarrow> string \<Rightarrow> string \<Rightarrow> string" where
  "replace_sub p r s =
     (if p = [] then s
      else case split_sub p s of None \<Rightarrow> s | Some (a, b) \<Rightarrow> a @ r @ replace_sub p r b)"
  by pat_completeness auto
termination
  by (relation "measure (\<lambda>(_, _, s). length s)") (auto dest: split_sub_shorter)

declare replace_sub.simps [simp del]

definition substitute :: "string \<Rightarrow> (string \<times> string) list \<Rightarrow> string" where
  "substitute s vars = fold (\<lambda>(k, v) out. replace_sub k v out) vars s"

definition file_content :: "(string \<times> string) list \<Rightarrow> string \<Rightarrow> string \<Rightarrow> string" where
  "file_content vars path raw =
     (let is_env_file = (case file_name path of Some n \<Rightarrow> ends_with ''.env'' n | None \<Rightarrow> False)
      in if is_utf8 raw \<and> is_env_file then substitute raw vars else raw)"

definition create_parent :: "string \<Rightarrow> unit on_disk" where
  "create_parent dest = (case path_parent dest of Some q \<Rightarrow> create_dir_all q | None \<Rightarrow> ret ())"

definition copy_one :: "string \<Rightarrow> (string \<times> string) list \<Rightarrow> string \<Rightarrow> string \<Rightarrow> unit on_disk" where
  "copy_one target vars path raw =
     (let dest = path_join target path; content = file_content vars path raw in
      io_seq (create_parent dest)
      (io_seq (write_file dest content)
      (if starts_with ''#!'' content then set_executable dest else ret ())))"

fun copy_dir :: "string \<Rightarrow> (string \<times> string) list \<Rightarrow> entry list \<Rightarrow> unit on_disk" where
  "copy_dir target vars [] = ret ()"
| "copy_dir target vars (Dir_entry p es # rest) = io_seq (copy_dir target vars es) (copy_dir target vars rest)"
| "copy_dir target vars (File_entry p raw # rest) = io_seq (copy_one target vars p raw) (copy_dir target vars rest)"

definition update_gitignore :: "string \<Rightarrow> unit on_disk" where
  "update_gitignore root d =
     (let path = path_join root ''.gitignore'';
          existing = (case read_to_string d path of Some s \<Rightarrow> s | None \<Rightarrow> [])
      in if list_ex (\<lambda>l. trim l = ''.env'') (str_lines existing) then ret () d
         else io_seq (if existing \<noteq> [] \<and> \<not> ends_with [nl] existing then append_file path [nl] else ret ())
           (append_file path (''.env'' @ [nl])) d)"

definition read_text :: "string \<Rightarrow> string on_disk" where
  "read_text p d = (case read_to_string d p of Some s \<Rightarrow> (Inr s, d) | None \<Rightarrow> (Inl ''read failed'', d))"

definition apply_template :: "embedded_dir \<Rightarrow> string \<Rightarrow> embedded_dir option \<Rightarrow> string \<Rightarrow> string \<Rightarrow> unit on_disk" where
  "apply_template shared root tmpl proj site =
     (let vars = [(''{PROJECT_NAME}'', proj), (''{DOMAIN}'', site)] in
      io_seq (copy_dir root vars (ed_entries shared))
      (io_seq (case tmpl of Some t \<Rightarrow> copy_dir root vars (ed_entries t) | None \<Rightarrow> ret ())
      (io_bind (read_text (path_join root ''default.env'')) (\<lambda>content.
        io_seq (write_file (path_join root ''.env'') content)
        (update_gitignore root)))))"

text \<open>A prompt with a default, and the choice of a template by number or name.\<close>

definition prompt_answer :: "string \<Rightarrow> string \<Rightarrow> string" where
  "prompt_answer line dflt = (if trim line = [] then dflt else trim line)"

definition choose_template :: "(string \<Rightarrow> embedded_dir) \<Rightarrow> string \<Rightarrow> string + template_meta option" where
  "choose_template embedded line =
     (let input = trim (prompt_answer line ''0''); all = templates embedded in
      case parse_uint (2 ^ 64 - 1) input of
        Some n \<Rightarrow>
          (if n = 0 then Inr None
           else if n - 1 < length all then Inr (Some (all ! (n - 1)))
           else Inl (''Invalid choice: '' @ show_nat n))
      | None \<Rightarrow>
          (if input = [] \<or> input = ''none'' then Inr None else map_sum id Some (find_template embedded input)))"

definition template_marker :: string where
  "template_marker = ''.template''"

definition run_init ::
    "embedded_dir \<Rightarrow> (string \<Rightarrow> embedded_dir) \<Rightarrow> string \<Rightarrow> string option \<Rightarrow> string \<Rightarrow> string \<Rightarrow> string \<Rightarrow> unit on_disk" where
  "run_init shared embedded cwd template choice_line name_line domain_line d =
     (let root = path_join cwd ''.dip'' in
      if path_exists d root then bail ''.dip/ already exists in this directory'' d
      else io_bind (of_result (case template of
             Some n \<Rightarrow> map_sum id Some (find_template embedded n)
           | None \<Rightarrow> choose_template embedded choice_line)) (\<lambda>tmpl.
        let name = prompt_answer name_line (case file_name cwd of Some n \<Rightarrow> n | None \<Rightarrow> ''my-project'');
            site = prompt_answer domain_line (name @ ''.test'')
        in io_seq (apply_template shared root (map_option tm_dir tmpl) name site)
          (case tmpl of Some t \<Rightarrow> write_file (path_join root template_marker) (tm_name t) | None \<Rightarrow> ret ())) d)"

section \<open>Updating the scripts\<close>

text \<open>The files of a directory, in the order of its entries.\<close>

fun files_of :: "entry list \<Rightarrow> (string \<times> string) list" where
  "files_of [] = []"
| "files_of (Dir_entry p es # rest) = files_of es @ files_of rest"
| "files_of (File_entry p raw # rest) = (p, raw) # files_of rest"

definition collect_command_files :: "embedded_dir \<Rightarrow> (string \<times> string) list \<Rightarrow> (string \<times> string) list" where
  "collect_command_files dir m = (case ed_commands dir of None \<Rightarrow> m | Some es \<Rightarrow> kextend m (files_of es))"

definition command_files :: "template_meta \<Rightarrow> (string \<times> string) list" where
  "command_files t = collect_command_files (tm_dir t) []"

definition template_score :: "disk \<Rightarrow> string \<Rightarrow> template_meta \<Rightarrow> nat" where
  "template_score d dip t = length (filter (\<lambda>rel. path_exists d (path_join dip rel)) (map fst (command_files t)))"

fun best_templates :: "(template_meta \<Rightarrow> nat) \<Rightarrow> template_meta list \<Rightarrow> template_meta list \<Rightarrow> nat \<Rightarrow> template_meta list" where
  "best_templates score [] best best_score = best"
| "best_templates score (t # ts) best best_score =
     (if score t = 0 then best_templates score ts best best_score
      else if best_score < score t then best_templates score ts [t] (score t)
      else if score t = best_score then best_templates score ts (best @ [t]) best_score
      else best_templates score ts best best_score)"

definition detect_templates :: "(string \<Rightarrow> embedded_dir) \<Rightarrow> disk \<Rightarrow> string \<Rightarrow> template_meta list" where
  "detect_templates embedded d dip = best_templates (template_score d dip) (templates embedded) [] 0"

definition pick_template :: "template_meta list \<Rightarrow> string + template_meta option" where
  "pick_template candidates =
     (case candidates of
        [] \<Rightarrow> Inr None
      | [t] \<Rightarrow> Inr (Some t)
      | t # _ \<Rightarrow>
          (if list_all (\<lambda>u. command_files u = command_files t) candidates then Inr (Some t)
           else Inl (''Multiple templates match this project ('' @ join '', '' (map tm_name candidates) @ '')'')))"

definition resolve_template :: "(string \<Rightarrow> embedded_dir) \<Rightarrow> disk \<Rightarrow> string \<Rightarrow> string option \<Rightarrow> string + template_meta option" where
  "resolve_template embedded d dip template =
     (case template of
        Some name \<Rightarrow> map_sum id Some (find_template embedded name)
      | None \<Rightarrow>
          (case Option.bind (read_to_string d (path_join dip template_marker))
                  (\<lambda>name. case find_template embedded (trim name) of Inr t \<Rightarrow> Some t | Inl _ \<Rightarrow> None) of
             Some t \<Rightarrow> Inr (Some t)
           | None \<Rightarrow> pick_template (detect_templates embedded d dip)))"

definition write_script :: "string \<Rightarrow> string \<Rightarrow> unit on_disk" where
  "write_script dest content =
     io_seq (create_parent dest)
     (io_seq (write_file dest content)
     (if starts_with ''#!'' content then set_executable dest else ret ()))"

record summary =
  added :: "string list"
  updated :: "string list"
  unchanged :: nat

definition no_changes :: summary where
  "no_changes = \<lparr>added = [], updated = [], unchanged = 0\<rparr>"

definition strip_commands :: "string \<Rightarrow> string" where
  "strip_commands rel =
     (case strip_prefix ''commands/'' rel of Some r \<Rightarrow> r | None \<Rightarrow> if rel = ''commands'' then [] else rel)"

definition backup_path :: "string \<Rightarrow> string \<Rightarrow> string" where
  "backup_path dip rel = path_join (path_join dip ''commands.bak'') (strip_commands rel)"

definition replace_script :: "string \<Rightarrow> string \<Rightarrow> string \<Rightarrow> unit on_disk" where
  "replace_script dip rel content =
     (let dest = path_join dip rel; backup = backup_path dip rel in
      io_seq (create_parent backup) (io_seq (copy_file dest backup) (write_script dest content)))"

fun update_files :: "string \<Rightarrow> bool \<Rightarrow> (string \<times> string) list \<Rightarrow> summary \<Rightarrow> summary on_disk" where
  "update_files dip dry_run [] s = ret s"
| "update_files dip dry_run ((rel, content) # rest) s = (\<lambda>d.
     case read_bytes d (path_join dip rel) of
       Some old \<Rightarrow>
         (if old = content then update_files dip dry_run rest (s\<lparr>unchanged := unchanged s + 1\<rparr>) d
          else io_seq (if dry_run then ret () else replace_script dip rel content)
                 (update_files dip dry_run rest (s\<lparr>updated := updated s @ [rel]\<rparr>)) d)
     | None \<Rightarrow>
         io_seq (if dry_run then ret () else write_script (path_join dip rel) content)
           (update_files dip dry_run rest (s\<lparr>added := added s @ [rel]\<rparr>)) d)"

definition desired_files :: "embedded_dir \<Rightarrow> template_meta option \<Rightarrow> (string \<times> string) list" where
  "desired_files shared tmpl =
     (let m = collect_command_files shared [] in
      case tmpl of Some t \<Rightarrow> collect_command_files (tm_dir t) m | None \<Rightarrow> m)"

definition update_in ::
    "embedded_dir \<Rightarrow> (string \<Rightarrow> embedded_dir) \<Rightarrow> string \<Rightarrow> string option \<Rightarrow> bool \<Rightarrow> summary on_disk" where
  "update_in shared embedded dip template dry_run d =
     io_bind (of_result (resolve_template embedded d dip template)) (\<lambda>tmpl.
     io_bind (update_files dip dry_run (desired_files shared tmpl) no_changes) (\<lambda>s.
     io_seq (case tmpl of
         Some t \<Rightarrow> (if dry_run then ret () else write_file (path_join dip template_marker) (tm_name t))
       | None \<Rightarrow> ret ())
     (ret s))) d"

section \<open>Facts on paths\<close>

definition path_base :: "string \<Rightarrow> string" where
  "path_base dip = (if dip = [] \<or> ends_with ''/'' dip then dip else dip @ ''/'')"

lemma path_join_rel: "\<not> is_absolute r \<Longrightarrow> path_join dip r = path_base dip @ r"
  by (simp add: path_join_def path_base_def)

text \<open>The path of a script in the embedded directory.\<close>

definition script_path :: "string \<Rightarrow> bool" where
  "script_path r \<longleftrightarrow> (case strip_prefix ''commands/'' r of Some x \<Rightarrow> x \<noteq> [] \<and> \<not> is_absolute x | None \<Rightarrow> False)"

lemma script_pathE:
  assumes "script_path r"
  obtains x where "r = ''commands/'' @ x" "\<not> is_absolute x" "strip_commands r = x"
  using assms by (auto simp: script_path_def strip_commands_def split: option.splits)

lemma script_paths:
  assumes "script_path r"
  shows "path_join dip r = path_base dip @ r"
    "\<exists>x. r = ''commands/'' @ x \<and> backup_path dip r = path_base dip @ ''commands.bak/'' @ x"
proof -
  obtain x where x: "r = ''commands/'' @ x" "\<not> is_absolute x" "strip_commands r = x" by (rule script_pathE[OF assms])
  have "\<not> is_absolute r" using x(1) by (simp add: is_absolute_def)
  then show "path_join dip r = path_base dip @ r" by (rule path_join_rel)
  have n: "\<not> is_absolute ''commands.bak''" by (simp add: is_absolute_def)
  have "\<not> ends_with ''/'' (path_base dip @ ''commands.bak'')" by (simp add: ends_with_single)
  then have "path_base (path_base dip @ ''commands.bak'') = path_base dip @ ''commands.bak/''"
    by (simp add: path_base_def[of "path_base dip @ ''commands.bak''"])
  then have "backup_path dip r = path_base dip @ ''commands.bak/'' @ x"
    using path_join_rel[OF n, of dip] path_join_rel[OF x(2), of "path_base dip @ ''commands.bak''"] x(3)
    by (simp add: backup_path_def)
  with x(1) show "\<exists>x. r = ''commands/'' @ x \<and> backup_path dip r = path_base dip @ ''commands.bak/'' @ x" by blast
qed

lemma paths_apart:
  assumes "script_path r" "script_path r'"
  shows "path_join dip r = path_join dip r' \<longleftrightarrow> r = r'" "backup_path dip r = backup_path dip r' \<longleftrightarrow> r = r'"
    "path_join dip r \<noteq> backup_path dip r'" "path_join dip template_marker \<noteq> path_join dip r"
    "path_join dip template_marker \<noteq> backup_path dip r"
proof -
  obtain x where x: "r = ''commands/'' @ x" "backup_path dip r = path_base dip @ ''commands.bak/'' @ x"
    using script_paths(2)[OF assms(1)] by blast
  obtain y where y: "r' = ''commands/'' @ y" "backup_path dip r' = path_base dip @ ''commands.bak/'' @ y"
    using script_paths(2)[OF assms(2)] by blast
  have m: "path_join dip template_marker = path_base dip @ template_marker"
    by (rule path_join_rel) (simp add: template_marker_def is_absolute_def)
  note j = script_paths(1)[OF assms(1)] script_paths(1)[OF assms(2)]
  show "path_join dip r = path_join dip r' \<longleftrightarrow> r = r'" by (simp add: j)
  show "backup_path dip r = backup_path dip r' \<longleftrightarrow> r = r'" unfolding x(2) y(2) unfolding x(1) y(1) by simp
  show "path_join dip r \<noteq> backup_path dip r'" unfolding j y(2) unfolding x(1) by simp
  show "path_join dip template_marker \<noteq> path_join dip r" unfolding m j unfolding x(1) template_marker_def by simp
  show "path_join dip template_marker \<noteq> backup_path dip r" unfolding m x(2) unfolding template_marker_def by simp
qed

section \<open>What the operations leave on disk\<close>

text \<open>\<open>leaves m d f d'\<close>: \<open>m\<close> succeeds, changes the contents by \<open>f\<close> and no permission to read or write.\<close>

definition leaves :: "'a on_disk \<Rightarrow> disk \<Rightarrow> ((string \<Rightarrow> string option) \<Rightarrow> string \<Rightarrow> string option) \<Rightarrow> disk \<Rightarrow> bool" where
  "leaves m d f d' \<longleftrightarrow> (\<exists>a. m d = (Inr a, d')) \<and> contents d' = f (contents d) \<and> readable d' = readable d \<and> writable d' = writable d"

lemma create_parent_leaves: "create_parent p d = (Inr u, d') \<Longrightarrow> leaves (create_parent p) d (\<lambda>c. c) d'"
  by (auto simp: leaves_def create_parent_def create_dir_all_def split: option.splits if_splits)

lemma set_executable_leaves: "set_executable p d = (Inr u, d') \<Longrightarrow> leaves (set_executable p) d (\<lambda>c. c) d'"
  by (auto simp: leaves_def set_executable_def split: if_splits)

lemma write_file_leaves: "write_file p s d = (Inr u, d') \<Longrightarrow> leaves (write_file p s) d (\<lambda>c. c(p \<mapsto> s)) d'"
  by (auto simp: leaves_def write_file_def split: if_splits)

lemma copy_file_leaves:
  "copy_file p q d = (Inr u, d') \<Longrightarrow> \<exists>s. read_bytes d p = Some s \<and> leaves (copy_file p q) d (\<lambda>c. c(q \<mapsto> s)) d'"
  by (auto simp: leaves_def copy_file_def split: option.splits if_splits)

lemma write_script_leaves:
  assumes "write_script p s d = (Inr u, d')"
  shows "leaves (write_script p s) d (\<lambda>c. c(p \<mapsto> s)) d'"
proof -
  obtain a d1 b d2 where s: "create_parent p d = (Inr a, d1)" "write_file p s d1 = (Inr b, d2)"
      "(if starts_with ''#!'' s then set_executable p else ret ()) d2 = (Inr u, d')"
    using assms unfolding write_script_def seq_Inr by blast
  have "leaves (if starts_with ''#!'' s then set_executable p else ret ()) d2 (\<lambda>c. c) d'"
    using s(3) by (cases "starts_with ''#!'' s") (simp_all only: if_True if_False set_executable_leaves, simp add: leaves_def)
  then show ?thesis using create_parent_leaves[OF s(1)] write_file_leaves[OF s(2)] assms by (auto simp: leaves_def)
qed

lemma replace_script_leaves:
  assumes "replace_script dip r s d = (Inr u, d')" "script_path r"
  shows "\<exists>old. read_bytes d (path_join dip r) = Some old
    \<and> leaves (replace_script dip r s) d (\<lambda>c. c(backup_path dip r \<mapsto> old, path_join dip r \<mapsto> s)) d'"
proof -
  let ?D = "path_join dip r" and ?B = "backup_path dip r"
  obtain a d1 b d2 where s: "create_parent ?B d = (Inr a, d1)" "copy_file ?D ?B d1 = (Inr b, d2)" "write_script ?D s d2 = (Inr u, d')"
    using assms(1) unfolding replace_script_def Let_def seq_Inr by blast
  obtain old where o: "read_bytes d1 ?D = Some old" "leaves (copy_file ?D ?B) d1 (\<lambda>c. c(?B \<mapsto> old)) d2"
    using copy_file_leaves[OF s(2)] by blast
  have "read_bytes d ?D = Some old" using o(1) create_parent_leaves[OF s(1)] by (simp add: leaves_def read_bytes_def split: if_splits)
  moreover have "leaves (replace_script dip r s) d (\<lambda>c. c(?B \<mapsto> old, ?D \<mapsto> s)) d'"
    using create_parent_leaves[OF s(1)] o(2) write_script_leaves[OF s(3)] assms(1) by (auto simp: leaves_def)
  ultimately show ?thesis by blast
qed

section \<open>The update loop\<close>

text \<open>What a script is on disk before the update: missing, the wanted one, another one.\<close>

definition which :: "(string option \<Rightarrow> string \<Rightarrow> bool) \<Rightarrow> disk \<Rightarrow> string \<Rightarrow> (string \<times> string) list \<Rightarrow> string list" where
  "which Q d dip files = map fst (filter (\<lambda>(r, c). Q (read_bytes d (path_join dip r)) c) files)"

definition is_missing :: "string option \<Rightarrow> string \<Rightarrow> bool" where "is_missing f c \<longleftrightarrow> f = None"
definition is_wanted :: "string option \<Rightarrow> string \<Rightarrow> bool" where "is_wanted f c \<longleftrightarrow> f = Some c"
definition is_other :: "string option \<Rightarrow> string \<Rightarrow> bool" where "is_other f c \<longleftrightarrow> f \<noteq> None \<and> f \<noteq> Some c"

lemma which_simps [simp]:
  "which Q d dip [] = []"
  "which Q d dip ((r, c) # files) = (if Q (read_bytes d (path_join dip r)) c then [r] else []) @ which Q d dip files"
  by (simp_all add: which_def)

lemma which_cong:
  "(\<And>r. r \<in> fst ` set files \<Longrightarrow> read_bytes d (path_join dip r) = read_bytes d' (path_join dip r))
   \<Longrightarrow> which Q d dip files = which Q d' dip files"
  by (induction files) auto

text \<open>The step on one file.\<close>

lemma update_step:
  assumes run: "update_files dip False ((r, c) # files) s d = (Inr s', d')" and sp: "script_path r"
  shows "\<exists>s1 d1. update_files dip False files s1 d1 = (Inr s', d') \<and> readable d1 = readable d \<and> writable d1 = writable d
      \<and> contents d1 = (if is_wanted (read_bytes d (path_join dip r)) c then contents d
          else if is_missing (read_bytes d (path_join dip r)) c then (contents d)(path_join dip r \<mapsto> c)
          else (contents d)(backup_path dip r := contents d (path_join dip r), path_join dip r \<mapsto> c))
      \<and> added s1 = added s @ (if is_missing (read_bytes d (path_join dip r)) c then [r] else [])
      \<and> updated s1 = updated s @ (if is_other (read_bytes d (path_join dip r)) c then [r] else [])
      \<and> unchanged s1 = unchanged s + (if is_wanted (read_bytes d (path_join dip r)) c then 1 else 0)"
proof (cases "read_bytes d (path_join dip r)")
  case None
  then obtain u d1 where "write_script (path_join dip r) c d = (Inr u, d1)" "update_files dip False files (s\<lparr>added := added s @ [r]\<rparr>) d1 = (Inr s', d')"
    using run by (auto simp: seq_Inr)
  then show ?thesis using write_script_leaves None
    by (intro exI[of _ "s\<lparr>added := added s @ [r]\<rparr>"] exI[of _ d1]) (fastforce simp: leaves_def is_wanted_def is_missing_def is_other_def)
next
  case (Some old)
  show ?thesis
  proof (cases "old = c")
    case True
    then show ?thesis using Some run
      by (intro exI[of _ "s\<lparr>unchanged := unchanged s + 1\<rparr>"] exI[of _ d]) (simp add: is_wanted_def is_missing_def is_other_def)
  next
    case False
    then obtain u d1 where a: "replace_script dip r c d = (Inr u, d1)" "update_files dip False files (s\<lparr>updated := updated s @ [r]\<rparr>) d1 = (Inr s', d')"
      using run Some by (auto simp: seq_Inr)
    obtain old' where o: "read_bytes d (path_join dip r) = Some old'" "leaves (replace_script dip r c) d (\<lambda>c0. c0((backup_path dip r) \<mapsto> old', (path_join dip r) \<mapsto> c)) d1"
      using replace_script_leaves[OF a(1) sp] by blast
    have "contents d (path_join dip r) = Some old'" using o(1) by (auto simp: read_bytes_def split: if_splits)
    then show ?thesis using a(2) o False Some
      by (intro exI[of _ "s\<lparr>updated := updated s @ [r]\<rparr>"] exI[of _ d1]) (simp add: leaves_def is_wanted_def is_missing_def is_other_def)
  qed
qed

lemma update_files_correct:
  assumes "update_files dip False files s d = (Inr s', d')" "distinct (map fst files)" "list_all script_path (map fst files)"
  shows "added s' = added s @ which is_missing d dip files \<and> updated s' = updated s @ which is_other d dip files
    \<and> unchanged s' = unchanged s + length (which is_wanted d dip files)
    \<and> readable d' = readable d \<and> writable d' = writable d
    \<and> (\<forall>(r, c)\<in>set files. contents d' (path_join dip r) = (if is_wanted (read_bytes d (path_join dip r)) c then contents d (path_join dip r) else Some c))
    \<and> (\<forall>r\<in>set (which is_other d dip files). contents d' (backup_path dip r) = contents d (path_join dip r))
    \<and> (\<forall>q. q \<notin> path_join dip ` fst ` set files \<union> backup_path dip ` set (which is_other d dip files) \<longrightarrow> contents d' q = contents d q)"
  using assms
proof (induction files arbitrary: s d)
  case Nil
  then show ?case by simp
next
  case (Cons rc files)
  obtain r c where rc: "rc = (r, c)" by (cases rc)
  let ?D = "path_join dip r" and ?B = "backup_path dip r"
  have sp: "script_path r" "\<And>x. x \<in> fst ` set files \<Longrightarrow> script_path x" using Cons.prems(3) rc by (auto simp: list_all_iff)
  have nr: "r \<notin> fst ` set files" using Cons.prems(2) rc by auto
  have prems: "distinct (map fst files)" "list_all script_path (map fst files)" using Cons.prems(2,3) by simp_all
  obtain s1 d1 where st: "update_files dip False files s1 d1 = (Inr s', d')" "readable d1 = readable d" "writable d1 = writable d"
      "contents d1 = (if is_wanted (read_bytes d ?D) c then contents d
          else if is_missing (read_bytes d ?D) c then (contents d)(?D \<mapsto> c)
          else (contents d)(?B := contents d ?D, ?D \<mapsto> c))"
      "added s1 = added s @ (if is_missing (read_bytes d ?D) c then [r] else [])"
      "updated s1 = updated s @ (if is_other (read_bytes d ?D) c then [r] else [])"
      "unchanged s1 = unchanged s + (if is_wanted (read_bytes d ?D) c then 1 else 0)"
    using update_step[OF Cons.prems(1)[unfolded rc] sp(1)] by blast
  have same: "contents d1 (path_join dip x) = contents d (path_join dip x)" "contents d1 (backup_path dip x) = contents d (backup_path dip x)"
    if "x \<in> fst ` set files" for x
    using st(4) paths_apart[OF sp(1) sp(2)[OF that], of dip] paths_apart(3)[OF sp(2)[OF that] sp(1), of dip] nr that by auto
  then have rb: "read_bytes d1 (path_join dip x) = read_bytes d (path_join dip x)" if "x \<in> fst ` set files" for x
    using that st(2) by (simp add: read_bytes_def)
  then have wh: "which Q d1 dip files = which Q d dip files" for Q by (rule which_cong)
  note ih = Cons.IH[OF st(1) prems, unfolded wh]
  have sub: "set (which is_other d dip files) \<subseteq> fst ` set files" by (auto simp: which_def)
  have frame: "contents d' q = contents d1 q" if "q \<notin> path_join dip ` fst ` set files" "q \<notin> backup_path dip ` set (which is_other d dip files)" for q
    using ih that by blast
  have apart: "?D \<noteq> path_join dip x \<and> ?D \<noteq> backup_path dip x \<and> ?B \<noteq> path_join dip x \<and> ?B \<noteq> backup_path dip x"
    if "x \<in> fst ` set files" for x
    using paths_apart[OF sp(1) sp(2)[OF that], of dip] paths_apart(3)[OF sp(2)[OF that] sp(1), of dip] nr that by metis
  have D: "?D \<notin> path_join dip ` fst ` set files" "?D \<notin> backup_path dip ` set (which is_other d dip files)"
    using apart sub by blast+
  have B: "?B \<notin> path_join dip ` fst ` set files" "?B \<notin> backup_path dip ` set (which is_other d dip files)"
    using apart sub by blast+
  have BD: "?B \<noteq> ?D" using paths_apart(3)[OF sp(1) sp(1), of dip] by simp
  have head: "contents d' ?D = (if is_wanted (read_bytes d ?D) c then contents d ?D else Some c)"
    using frame[OF D] st(4) by simp
  have tail: "\<forall>(x, cx)\<in>set files. contents d' (path_join dip x) =
      (if is_wanted (read_bytes d (path_join dip x)) cx then contents d (path_join dip x) else Some cx)"
  proof clarify
    fix x cx assume x: "(x, cx) \<in> set files"
    then have m: "x \<in> fst ` set files" by force
    have "contents d' (path_join dip x) = (if is_wanted (read_bytes d1 (path_join dip x)) cx then contents d1 (path_join dip x) else Some cx)"
      using ih x by blast
    then show "contents d' (path_join dip x) = (if is_wanted (read_bytes d (path_join dip x)) cx then contents d (path_join dip x) else Some cx)"
      by (simp only: rb[OF m] same(1)[OF m])
  qed
  have kept: "contents d' (backup_path dip x) = contents d (path_join dip x)" if "x \<in> set (which is_other d dip files)" for x
    using ih that same(1)[of x] sub by auto
  have khead: "contents d' ?B = contents d ?D" if "is_other (read_bytes d ?D) c"
    using frame[OF B] st(4) that BD by (auto simp: is_other_def is_wanted_def is_missing_def)
  have rest: "contents d' q = contents d q"
    if "q \<notin> path_join dip ` fst ` set (rc # files) \<union> backup_path dip ` set (which is_other d dip (rc # files))" for q
  proof -
    have "contents d1 q = contents d q" using that st(4) rc
      by (auto simp: is_other_def is_wanted_def is_missing_def split: if_splits)
    then show ?thesis using frame[of q] that rc by auto
  qed
  show ?case
  proof (intro conjI)
    show "added s' = added s @ which is_missing d dip (rc # files)" using ih st(5) rc by simp
    show "updated s' = updated s @ which is_other d dip (rc # files)" using ih st(6) rc by simp
    show "unchanged s' = unchanged s + length (which is_wanted d dip (rc # files))" using ih st(7) rc by simp
    show "readable d' = readable d" "writable d' = writable d" using ih st(2,3) by simp_all
    show "\<forall>(r, c)\<in>set (rc # files). contents d' (path_join dip r) =
        (if is_wanted (read_bytes d (path_join dip r)) c then contents d (path_join dip r) else Some c)"
      using head tail rc by simp
    show "\<forall>r\<in>set (which is_other d dip (rc # files)). contents d' (backup_path dip r) = contents d (path_join dip r)"
      using kept khead rc by auto
    show "\<forall>q. q \<notin> path_join dip ` fst ` set (rc # files) \<union> backup_path dip ` set (which is_other d dip (rc # files))
        \<longrightarrow> contents d' q = contents d q" using rest by blast
  qed
qed


section \<open>Finding templates\<close>

lemma find_template_self:
  assumes "t \<in> set (templates embedded)"
  shows "find_template embedded (tm_name t) = Inr t \<and> trim (tm_name t) = tm_name t \<and> is_utf8 (tm_name t)"
proof -
  have names: "map tm_name (templates embedded) = map fst template_table" by (simp add: templates_def case_prod_beta' comp_def)
  have d: "distinct (map fst template_table)" "list_all (\<lambda>n. trim n = n \<and> list_all ascii n) (map fst template_table)" by code_simp+
  have "find (\<lambda>u. tm_name u = tm_name t) ts = Some t" if "t \<in> set ts" "distinct (map tm_name ts)" for ts
    using that by (induction ts) auto
  then have "find_template embedded (tm_name t) = Inr t" using assms d(1) names by (simp add: find_template_def)
  moreover have "tm_name t \<in> set (map fst template_table)" using assms names by (metis image_eqI set_map)
  ultimately show ?thesis using d(2) is_utf8_all_ascii unfolding list_all_iff by blast
qed

lemma find_template_in: "find_template embedded n = Inr t \<Longrightarrow> t \<in> set (templates embedded) \<and> tm_name t = n"
  by (auto simp: find_template_def find_Some_iff split: option.splits)

lemma best_templates_in: "set (best_templates score ts best n) \<subseteq> set ts \<union> set best"
  by (induction score ts best n rule: best_templates.induct) (auto split: if_splits)

lemma pick_template_in: "pick_template ts = Inr (Some t) \<Longrightarrow> t \<in> set ts"
  by (auto simp: pick_template_def split: list.splits if_splits)

lemma resolve_template_in:
  assumes "resolve_template embedded d dip tm = Inr (Some t)"
  shows "t \<in> set (templates embedded)"
proof (cases tm)
  case (Some n)
  then have "find_template embedded n = Inr t" using assms by (cases "find_template embedded n") (auto simp: resolve_template_def)
  then show ?thesis using find_template_in by blast
next
  case None
  let ?m = "Option.bind (read_to_string d (path_join dip template_marker))
      (\<lambda>name. case find_template embedded (trim name) of Inr t \<Rightarrow> Some t | Inl _ \<Rightarrow> None)"
  show ?thesis
  proof (cases ?m)
    case (Some t')
    then obtain name where "(case find_template embedded (trim name) of Inr t \<Rightarrow> Some t | Inl _ \<Rightarrow> None) = Some t'"
      by (auto simp: bind_eq_Some_conv)
    then have "find_template embedded (trim name) = Inr t'" by (cases "find_template embedded (trim name)") simp_all
    moreover have "t' = t" using assms None Some by (simp add: resolve_template_def)
    ultimately show ?thesis using find_template_in by blast
  next
    case m: None
    then have "pick_template (detect_templates embedded d dip) = Inr (Some t)" using assms None by (simp add: resolve_template_def)
    then show ?thesis
      using pick_template_in best_templates_in[of "template_score d dip" "templates embedded" "[]" 0] by (auto simp: detect_templates_def)
  qed
qed

text \<open>What \<open>include_dir\<close> answers: the files below \<open>commands\<close>, by their paths from the template; none is an environment file.\<close>

definition is_env_path :: "string \<Rightarrow> bool" where
  "is_env_path p \<longleftrightarrow> (case file_name p of Some n \<Rightarrow> ends_with ''.env'' n | None \<Rightarrow> False)"

definition command_entries :: "embedded_dir \<Rightarrow> (string \<times> string) list" where
  "command_entries dir = (case ed_commands dir of Some es \<Rightarrow> files_of es | None \<Rightarrow> [])"

definition embedded_ok :: "embedded_dir \<Rightarrow> bool" where
  "embedded_ok dir \<longleftrightarrow>
     command_entries dir = filter (\<lambda>(p, _). starts_with ''commands/'' p) (files_of (ed_entries dir))
     \<and> list_all (\<lambda>(p, _). script_path p \<and> \<not> is_env_path p) (command_entries dir)
     \<and> list_all (\<lambda>(p, _). \<not> is_absolute p) (files_of (ed_entries dir))"

lemma collect_commands: "collect_command_files dir m = kextend m (command_entries dir)"
  by (simp add: collect_command_files_def command_entries_def kextend_def split: option.split)

lemma keys_kextend: "fst ` set (kextend m kvs) = fst ` set m \<union> fst ` set kvs"
  unfolding kextend_def
proof (induction kvs arbitrary: m)
  case (Cons kv kvs)
  then show ?case using keys_kinsert[of "fst kv" "snd kv" m] by (auto simp: case_prod_beta')
qed simp

lemma desired_ok:
  assumes "embedded_ok shared" "case tmpl of Some t \<Rightarrow> embedded_ok (tm_dir t) | None \<Rightarrow> True"
  shows "distinct (map fst (desired_files shared tmpl)) \<and> list_all script_path (map fst (desired_files shared tmpl))
    \<and> list_all (\<lambda>p. \<not> is_env_path p) (map fst (desired_files shared tmpl))
    \<and> map_of (desired_files shared tmpl)
      = map_of (rev (command_entries shared)) ++ (case tmpl of Some t \<Rightarrow> map_of (rev (command_entries (tm_dir t))) | None \<Rightarrow> Map.empty)"
proof -
  have k: "ksorted (desired_files shared tmpl)"
    by (auto simp: desired_files_def collect_commands Let_def ksorted_kextend split: option.split)
  have "fst ` set (desired_files shared tmpl) = fst ` set (command_entries shared)
      \<union> (case tmpl of Some t \<Rightarrow> fst ` set (command_entries (tm_dir t)) | None \<Rightarrow> {})"
    by (cases tmpl) (simp_all add: desired_files_def collect_commands keys_kextend)
  moreover have "script_path p \<and> \<not> is_env_path p" if "embedded_ok dir" "p \<in> fst ` set (command_entries dir)" for p dir
  proof -
    have "list_all (\<lambda>(p, _). script_path p \<and> \<not> is_env_path p) (command_entries dir)" using that(1) unfolding embedded_ok_def by blast
    moreover from that(2) obtain c where "(p, c) \<in> set (command_entries dir)" by force
    ultimately show ?thesis by (simp add: list_all_iff split_beta) (metis fst_conv)
  qed
  ultimately have "\<forall>p\<in>fst ` set (desired_files shared tmpl). script_path p \<and> \<not> is_env_path p"
    using assms by (cases tmpl) (simp_all only: option.case Un_iff empty_iff, blast+)
  then show ?thesis using ksorted_distinct[OF k]
    by (cases tmpl) (simp_all add: list_all_iff desired_files_def collect_commands map_of_kextend)
qed



section \<open>New projects\<close>

lemma io_seq_assoc: "io_seq (io_seq m n) k = io_seq m (io_seq n k)"
  by (auto simp: io_seq_def io_bind_def fun_eq_iff split: prod.split sum.split)

lemma io_each_append: "io_each f (xs @ ys) = io_seq (io_each f xs) (io_each f ys)"
  by (induction xs) (simp_all add: io_seq_assoc del: ret_apply)

text \<open>Copying a directory is copying its files.\<close>

lemma copy_dir_each: "copy_dir target vars es = io_each (\<lambda>(p, raw). copy_one target vars p raw) (files_of es)"
  by (induction target vars es rule: copy_dir.induct) (simp_all add: io_each_append)

lemma copy_one_leaves:
  assumes "copy_one target vars p raw d = (Inr u, d')"
  shows "leaves (copy_one target vars p raw) d (\<lambda>c. c(path_join target p \<mapsto> file_content vars p raw)) d'"
proof -
  have "write_script (path_join target p) (file_content vars p raw) d = (Inr u, d')"
    using assms by (simp add: copy_one_def write_script_def Let_def)
  from write_script_leaves[OF this] assms show ?thesis by (simp add: leaves_def)
qed

lemma copies_leave:
  assumes "io_each (\<lambda>(p, raw). copy_one target vars p raw) fs d = (Inr u, d')" "list_all (\<lambda>(p, _). \<not> is_absolute p) fs"
  shows "readable d' = readable d \<and> writable d' = writable d
    \<and> (\<forall>r. \<not> is_absolute r \<longrightarrow> contents d' (path_join target r)
         = (case map_of (rev fs) r of Some raw \<Rightarrow> Some (file_content vars r raw) | None \<Rightarrow> contents d (path_join target r)))"
  using assms
proof (induction fs arbitrary: d)
  case (Cons pr fs)
  obtain p raw where pr: "pr = (p, raw)" by (cases pr)
  obtain a d1 where s: "copy_one target vars p raw d = (Inr a, d1)" "io_each (\<lambda>(p, raw). copy_one target vars p raw) fs d1 = (Inr u, d')"
    using Cons.prems(1) pr by (auto simp: seq_Inr)
  have p: "\<not> is_absolute p" and fs: "list_all (\<lambda>(p, _). \<not> is_absolute p) fs" using Cons.prems(2) pr by simp_all
  have l: "contents d1 = (contents d)(path_join target p \<mapsto> file_content vars p raw)" "readable d1 = readable d" "writable d1 = writable d"
    using copy_one_leaves[OF s(1)] by (simp_all add: leaves_def)
  have "path_join target r = path_join target p \<longleftrightarrow> r = p" if "\<not> is_absolute r" for r
    using path_join_rel[OF p, of target] path_join_rel[OF that, of target] by simp
  then show ?case using Cons.IH[OF s(2) fs] l pr by (auto split: option.splits)
qed simp

lemma map_of_filter_keys: "P r \<Longrightarrow> map_of (filter (\<lambda>(p, _). P p) xs) r = map_of xs r"
  by (induction xs) auto

lemma command_lookup:
  assumes "embedded_ok dir" "script_path r"
  shows "map_of (rev (command_entries dir)) r = map_of (rev (files_of (ed_entries dir))) r"
proof -
  have c: "command_entries dir = filter (\<lambda>(p, _). starts_with ''commands/'' p) (files_of (ed_entries dir))"
    using assms(1) unfolding embedded_ok_def by blast
  have "starts_with ''commands/'' r" using assms(2) by (auto simp: script_path_def starts_with_iff split: option.splits)
  then show ?thesis
    using map_of_filter_keys[of "starts_with ''commands/''" r "rev (files_of (ed_entries dir))"] unfolding c rev_filter by blast
qed

lemma script_not_dotfile:
  assumes "script_path r"
  shows "path_join root r \<noteq> path_join root ''.env''" "path_join root r \<noteq> path_join root ''.gitignore''"
proof -
  obtain x where x: "r = ''commands/'' @ x" using script_pathE[OF assms] by blast
  have n: "\<not> is_absolute ''.env''" "\<not> is_absolute ''.gitignore''" by (simp_all add: is_absolute_def)
  show "path_join root r \<noteq> path_join root ''.env''" "path_join root r \<noteq> path_join root ''.gitignore''"
    using script_paths(1)[OF assms, of root] unfolding path_join_rel[OF n(1)] path_join_rel[OF n(2)] by (simp_all add: x)
qed

lemma update_gitignore_leaves:
  assumes "update_gitignore root d = (Inr u, d')" "q \<noteq> path_join root ''.gitignore''"
  shows "contents d' q = contents d q \<and> readable d' = readable d \<and> writable d' = writable d"
proof -
  have app: "contents e' q = contents e q \<and> readable e' = readable e \<and> writable e' = writable e"
    if "append_file (path_join root ''.gitignore'') s e = (Inr v, e')" for s e e' v
    using that assms(2) by (auto simp: append_file_def write_file_def split: if_splits)
  show ?thesis
  proof (cases "list_ex (\<lambda>l. trim l = ''.env'') (str_lines (case read_to_string d (path_join root ''.gitignore'') of Some s \<Rightarrow> s | None \<Rightarrow> []))")
    case True
    then show ?thesis using assms(1) by (simp add: update_gitignore_def Let_def)
  next
    case False
    then obtain b where "io_seq (if b then append_file (path_join root ''.gitignore'') [nl] else ret ())
        (append_file (path_join root ''.gitignore'') (''.env'' @ [nl])) d = (Inr u, d')"
      using assms(1) unfolding update_gitignore_def Let_def by (simp only: if_False)
    then obtain a d1 where "(if b then append_file (path_join root ''.gitignore'') [nl] else ret ()) d = (Inr a, d1)"
        "append_file (path_join root ''.gitignore'') (''.env'' @ [nl]) d1 = (Inr u, d')"
      unfolding seq_Inr by blast
    then show ?thesis using app by (auto split: if_splits)
  qed
qed


lemma apply_template_scripts:
  assumes run: "apply_template shared root (Some (tm_dir t)) proj site d = (Inr u, d')"
    and ok: "embedded_ok shared" "embedded_ok (tm_dir t)"
  shows "readable d' = readable d \<and> writable d' = writable d
    \<and> list_all (\<lambda>(r, c). contents d' (path_join root r) = Some c) (desired_files shared (Some t))"
proof -
  let ?vars = "[(''{PROJECT_NAME}'', proj), (''{DOMAIN}'', site)]"
  let ?each = "\<lambda>dir. io_each (\<lambda>(p, raw). copy_one root ?vars p raw) (files_of (ed_entries dir))"
  obtain u1 d1 u2 d2 content u3 d3 where s: "?each shared d = (Inr u1, d1)" "?each (tm_dir t) d1 = (Inr u2, d2)"
      "read_text (path_join root ''default.env'') d2 = (Inr content, d2)" "write_file (path_join root ''.env'') content d2 = (Inr u3, d3)"
      "update_gitignore root d3 = (Inr u, d')"
    using run unfolding apply_template_def Let_def option.case seq_Inr bind_Inr copy_dir_each
    by (auto simp: read_text_def split: option.splits)
  have rel: "list_all (\<lambda>(p, _). \<not> is_absolute p) (files_of (ed_entries dir))" if "embedded_ok dir" for dir
    using that unfolding embedded_ok_def by blast
  note c1 = copies_leave[OF s(1) rel[OF ok(1)]] and c2 = copies_leave[OF s(2) rel[OF ok(2)]]
  note w = write_file_leaves[OF s(4)] and g = update_gitignore_leaves[OF s(5)]
  note dok = desired_ok[of shared "Some t", OF ok(1), unfolded option.case, OF ok(2)]
  have script: "contents d' (path_join root r) = Some c" if m: "(r, c) \<in> set (desired_files shared (Some t))" for r c
  proof -
    have r: "script_path r" "\<not> is_env_path r" using dok m by (auto simp: list_all_iff)
    have abs: "\<not> is_absolute r" using r(1) by (auto elim!: script_pathE simp: is_absolute_def)
    have raw: "file_content ?vars r raw = raw" for raw using r(2) by (simp add: file_content_def is_env_path_def)
    have "map_of (desired_files shared (Some t)) r = Some c" using map_of_is_SomeI[OF conjunct1[OF dok] m] .
    then have "(case map_of (rev (command_entries (tm_dir t))) r of Some x \<Rightarrow> Some x | None \<Rightarrow> map_of (rev (command_entries shared)) r) = Some c"
      using dok by (simp add: map_add_def)
    then have "contents d2 (path_join root r) = Some c"
      using c1 c2 abs raw command_lookup[OF ok(1) r(1)] command_lookup[OF ok(2) r(1)] by (auto split: option.splits)
    then show ?thesis using w g script_not_dotfile[OF r(1), of root] by (simp add: leaves_def)
  qed
  have n: "\<not> is_absolute ''.env''" "\<not> is_absolute ''.gitignore''" by (simp_all add: is_absolute_def)
  have "path_join root ''.env'' \<noteq> path_join root ''.gitignore''" unfolding path_join_rel[OF n(1)] path_join_rel[OF n(2)] by simp
  then have "readable d' = readable d \<and> writable d' = writable d"
    using c1 c2 w g[of "path_join root ''.env''"] by (simp add: leaves_def)
  then show ?thesis using script by (auto simp: list_all_iff)
qed

lemma update_files_wanted:
  "list_all (\<lambda>(r, c). read_bytes d (path_join dip r) = Some c) files \<Longrightarrow>
     update_files dip dry files s d = (Inr (s\<lparr>unchanged := unchanged s + length files\<rparr>), d)"
  by (induction files arbitrary: s) auto

text \<open>
  A new project is up to date: after \<open>dip init\<close> with a template, \<open>dip update-commands\<close> finds the
  template again, adds and replaces nothing and leaves all files as they are.
\<close>

theorem fresh_project_up_to_date:
  assumes run: "run_init shared embedded cwd (Some n) choice name_line domain_line d = (Inr u, d')"
    and rd: "readable d = (\<lambda>_. True)"
    and ok: "embedded_ok shared" "list_all (\<lambda>t. embedded_ok (tm_dir t)) (templates embedded)"
  shows "\<exists>t d''. find_template embedded n = Inr t
    \<and> update_in shared embedded (path_join cwd ''.dip'') None False d'
      = (Inr \<lparr>added = [], updated = [], unchanged = length (desired_files shared (Some t))\<rparr>, d'')
    \<and> contents d'' = contents d'"
proof -
  let ?root = "path_join cwd ''.dip''" and ?M = "path_join (path_join cwd ''.dip'') template_marker"
  obtain t where t: "find_template embedded n = Inr t"
    using run by (cases "find_template embedded n") (auto simp: run_init_def Let_def split: if_splits)
  obtain proj site a d1 where s: "apply_template shared ?root (Some (tm_dir t)) proj site d = (Inr a, d1)"
      "write_file ?M (tm_name t) d1 = (Inr u, d')"
    using run t by (auto simp: run_init_def Let_def seq_Inr split: if_splits)
  have tt: "t \<in> set (templates embedded)" using find_template_in[OF t] by blast
  then have "embedded_ok (tm_dir t)" using ok(2) by (simp add: list_all_iff)
  note ap = apply_template_scripts[OF s(1) ok(1) this] and self = find_template_self[OF tt] and w = write_file_leaves[OF s(2)]
  note dok = desired_ok[of shared "Some t", OF ok(1), unfolded option.case, OF \<open>embedded_ok (tm_dir t)\<close>]
  have rd': "readable d' = (\<lambda>_. True)" and wr: "writable d' ?M" using ap w rd s(2) by (auto simp: leaves_def write_file_def split: if_splits)
  have "read_to_string d' ?M = Some (tm_name t)"
    unfolding read_to_string_def read_bytes_def rd' using w self by (simp add: leaves_def)
  then have res: "resolve_template embedded d' ?root None = Inr (Some t)"
    using self by (simp add: resolve_template_def)
  have "read_bytes d' (path_join ?root r) = Some c" if m: "(r, c) \<in> set (desired_files shared (Some t))" for r c
  proof -
    have "script_path r" using dok m by (auto simp: list_all_iff)
    then have "path_join ?root r \<noteq> ?M" using paths_apart(4)[of r r ?root] by metis
    moreover have "contents d1 (path_join ?root r) = Some c" using ap m by (auto simp: list_all_iff)
    ultimately show ?thesis unfolding read_bytes_def rd' using w by (simp add: leaves_def)
  qed
  then have "list_all (\<lambda>(r, c). read_bytes d' (path_join ?root r) = Some c) (desired_files shared (Some t))" by (auto simp: list_all_iff)
  from update_files_wanted[OF this]
  have "update_in shared embedded ?root None False d'
      = (Inr \<lparr>added = [], updated = [], unchanged = length (desired_files shared (Some t))\<rparr>,
         d'\<lparr>contents := (contents d')(?M \<mapsto> tm_name t)\<rparr>)"
    using res wr by (simp add: update_in_def of_result_def io_bind_def io_seq_def write_file_def no_changes_def)
  moreover have "(contents d')(?M \<mapsto> tm_name t) = contents d'" using w by (simp add: leaves_def)
  ultimately show ?thesis using t by simp
qed

section \<open>Examples and surprises\<close>

definition tiny_dir :: embedded_dir where
  "tiny_dir =
     \<lparr>ed_entries =
        [Dir_entry ''commands'' [File_entry ''commands/hello'' ''echo hello''],
         File_entry ''default.env'' (''PROJECT_NAME={PROJECT_NAME}'' @ [nl])],
      ed_commands = Some [File_entry ''commands/hello'' ''echo hello'']\<rparr>"

lemma tiny_ok: "embedded_ok tiny_dir"
  by code_simp

lemma tiny_all_ok: "list_all (\<lambda>t. embedded_ok (tm_dir t)) (templates (\<lambda>_. tiny_dir))"
  by (simp add: templates_def template_table_def tiny_ok)

theorem fresh_project_up_to_date_witness:
  "\<exists>d''. update_in tiny_dir (\<lambda>_. tiny_dir) ''/w/.dip'' None False
      (snd (run_init tiny_dir (\<lambda>_. tiny_dir) ''/w'' (Some ''go'') [] [] [] (open_disk [])))
    = (Inr \<lparr>added = [], updated = [], unchanged = 1\<rparr>, d'')"
proof -
  let ?r = "run_init tiny_dir (\<lambda>_. tiny_dir) ''/w'' (Some ''go'') [] [] [] (open_disk [])"
  have "fst ?r = Inr ()" by code_simp
  then have r: "?r = (Inr (), snd ?r)" by (metis prod.collapse)
  have rd: "readable (open_disk []) = (\<lambda>_. True)" by (simp add: open_disk_def)
  have root: "path_join ''/w'' ''.dip'' = ''/w/.dip''" by code_simp
  obtain t d'' where t: "find_template (\<lambda>_. tiny_dir) ''go'' = Inr t"
      "update_in tiny_dir (\<lambda>_. tiny_dir) ''/w/.dip'' None False (snd ?r)
        = (Inr \<lparr>added = [], updated = [], unchanged = length (desired_files tiny_dir (Some t))\<rparr>, d'')"
    using fresh_project_up_to_date[OF r rd tiny_ok tiny_all_ok] unfolding root by blast
  have "tm_dir t = tiny_dir" using find_template_in[OF t(1)] by (auto simp: templates_def)
  then have "desired_files tiny_dir (Some t) = collect_command_files tiny_dir (collect_command_files tiny_dir [])"
    by (simp add: desired_files_def)
  moreover have "length (collect_command_files tiny_dir (collect_command_files tiny_dir [])) = 1" by code_simp
  ultimately show ?thesis using t(2) by auto
qed



text \<open>A script that cannot be read is overwritten without a backup and counted as added.\<close>

theorem unreadable_script_overwritten:
  "let r = update_in tiny_dir (\<lambda>_. tiny_dir) ''/w/.dip'' (Some ''go'') False
       (open_disk [(''/w/.dip/commands/hello'', ''mine'')]\<lparr>readable := (\<lambda>_. False)\<rparr>) in
   map_sum id added (fst r) = Inr [''commands/hello''] \<and> contents (snd r) ''/w/.dip/commands/hello'' = Some ''echo hello''
   \<and> contents (snd r) ''/w/.dip/commands.bak/hello'' = None"
  by code_simp

text \<open>Only environment files are substituted, and a Dockerfile of a template ends up below \<open>.dip\<close>.\<close>

theorem placeholder_kept_in_compose:
  "file_content [(''{DOMAIN}'', ''shop.test'')] ''docker-compose.yml'' ''host: {DOMAIN}'' = ''host: {DOMAIN}''
   \<and> path_join (path_join ''/w'' ''.dip'') ''Dockerfile'' = ''/w/.dip/Dockerfile''"
  by code_simp

text \<open>Values are substituted one after the other: a placeholder in the project's name is replaced too.\<close>

theorem placeholder_in_name_replaced:
  "substitute ''NAME={PROJECT_NAME}'' [(''{PROJECT_NAME}'', ''{DOMAIN}''), (''{DOMAIN}'', ''x.test'')] = ''NAME=x.test''"
  by code_simp

text \<open>The name is written unquoted: a directory name with quotes is read back as another name.\<close>

theorem quoted_name_lost:
  "parse_env_str (substitute ''PROJECT_NAME={PROJECT_NAME}'' [(''{PROJECT_NAME}'', [squote] @ ''shop'' @ [squote])]) ''PROJECT_NAME'' = Some ''shop''"
  by code_simp

end
