(* ===== verification/Dip_Projects.thy ===== *)
theory Dip_Projects
  imports Dip_Lifecycle Dip_Disk "HOL-Library.Product_Lexorder" "HOL-Library.Multiset"
begin

text \<open>
  The commands that find projects, routes and scripts: \<open>dip ls\<close> (\<open>commands/ls.rs\<close>), \<open>dip open\<close>
  (\<open>commands/open.rs\<close>), \<open>dip share\<close> (\<open>commands/share.rs\<close>), \<open>dip run\<close> (\<open>commands/run.rs\<close>) and \<open>dip logs\<close>
  (\<open>commands/logs.rs\<close>). A directory is read by \<open>rd\<close>, which yields the names of its entries with
  whether each is a directory and not a link, or nothing when it cannot be read.
\<close>

section \<open>The search for projects\<close>

record dip_project =
  proj_name :: string
  proj_root :: string

record project_status =
  listed :: dip_project
  running :: nat

type_synonym dir_reader = "string \<Rightarrow> (string \<times> bool) list option"

definition prune_names :: "string list" where
  "prune_names =
     [''node_modules'', ''vendor'', ''target'', ''.cargo'', ''.rustup'', ''go'', ''.npm'', ''.yarn'', ''.pnpm-store'',
      ''.git'', ''.svn'', ''Library'', ''Applications'', ''Music'', ''Pictures'', ''Movies'', ''Desktop'', ''Downloads'',
      ''Public'', ''.cache'', ''.local'', ''.docker'', ''.orbstack'', ''OrbStack'']"

definition max_depth :: nat where
  "max_depth = 7"

definition dip_project_at :: "disk \<Rightarrow> string \<Rightarrow> bool" where
  "dip_project_at d dir \<longleftrightarrow>
     dirs d (path_join dir ''.dip'') \<and> path_exists d (path_join (path_join dir ''.dip'') ''docker-compose.yml'')"

definition project_name_line :: "string \<Rightarrow> string option" where
  "project_name_line line =
     Option.bind (strip_prefix ''PROJECT_NAME='' (trim line)) (\<lambda>rest.
       let name = trim_matches squote (trim_matches dquote (trim rest))
       in if name = [] then None else Some name)"

definition read_project_name :: "disk \<Rightarrow> string \<Rightarrow> string option" where
  "read_project_name d dip =
     (case concat (map (\<lambda>f. case read_to_string d (path_join dip f) of
                              None \<Rightarrow> []
                            | Some content \<Rightarrow> filter_map project_name_line (str_lines content))
                       [''.env'', ''default.env'']) of
        [] \<Rightarrow> None
      | name # _ \<Rightarrow> Some name)"

definition load_listed :: "disk \<Rightarrow> string \<Rightarrow> string \<Rightarrow> dip_project" where
  "load_listed d dir dip =
     \<lparr>proj_name = value_or (value_or ''unknown'' (file_name dir)) (read_project_name d dip), proj_root = dir\<rparr>"

definition descends :: "string \<times> bool \<Rightarrow> bool" where
  "descends e \<longleftrightarrow> snd e \<and> \<not> starts_with ''.'' (fst e) \<and> fst e \<notin> set prune_names"

definition scan_children :: "dir_reader \<Rightarrow> string \<Rightarrow> string list" where
  "scan_children rd dir =
     (case rd dir of
        None \<Rightarrow> []
      | Some entries \<Rightarrow> map (path_join dir) (sort (map fst (filter descends entries))))"

function scan_dir :: "disk \<Rightarrow> dir_reader \<Rightarrow> string \<Rightarrow> dip_project list \<Rightarrow> nat \<Rightarrow> dip_project list" where
  "scan_dir d rd dir found depth =
     (if max_depth < depth then found
      else if dip_project_at d dir then found @ [load_listed d dir (path_join dir ''.dip'')]
      else fold (\<lambda>child acc. scan_dir d rd child acc (depth + 1)) (scan_children rd dir) found)"
  by pat_completeness auto
termination
  by (relation "measure (\<lambda>(d, rd, dir, found, depth). Suc max_depth - depth)") auto

declare scan_dir.simps [simp del]

definition scan :: "disk \<Rightarrow> dir_reader \<Rightarrow> string \<Rightarrow> dip_project list" where
  "scan d rd root = scan_dir d rd root [] 0"

text \<open>
  The threads that ask the engine are taken in the order of their projects. \<open>current\<close> is the
  backend of \<open>active_backend\<close>.
\<close>

definition check_status :: "container_runtime \<Rightarrow> dip_project \<Rightarrow> project_status io" where
  "check_status current p =
     io_bind (rt_running_count current (proj_name p)) (\<lambda>n. ret \<lparr>listed = p, running = n\<rparr>)"

definition sort_statuses :: "project_status list \<Rightarrow> project_status list" where
  "sort_statuses = sort_key (\<lambda>s. (- int (running s), proj_name (listed s)))"

definition ls_cmd :: "container_runtime \<Rightarrow> disk \<Rightarrow> dir_reader \<Rightarrow> string option \<Rightarrow> string option \<Rightarrow> project_status list io" where
  "ls_cmd current d rd home root =
     (let projects = scan d rd (case root of Some r \<Rightarrow> r | None \<Rightarrow> value_or ''/'' home)
      in if projects = [] then ret []
         else io_bind (io_map (check_status current) projects) (\<lambda>sts. ret (sort_statuses sts)))"

text \<open>\<open>Path::strip_prefix\<close> on the text of the two paths, and the row that is printed.\<close>

fun strip_pieces :: "string list \<Rightarrow> string list \<Rightarrow> string list option" where
  "strip_pieces [] ps = Some (drop_end_while inert (dropWhile inert ps))"
| "strip_pieces (c # cs) ps =
     (case dropWhile inert ps of
        [] \<Rightarrow> None
      | p # ps' \<Rightarrow> (if p = c then strip_pieces cs ps' else None))"

definition path_strip_prefix :: "string \<Rightarrow> string \<Rightarrow> string option" where
  "path_strip_prefix base p =
     (case (path_components base, split_on CHR ''/'' p) of
        ([], h # t) \<Rightarrow> (let up = h # drop_end_while inert t in Some (if up = [[]] \<and> p \<noteq> [] then ''/'' else join ''/'' up))
      | (c # cs, h # t) \<Rightarrow>
          (if p \<noteq> [] \<and> c = (if h = [] then ''/'' else h) then map_option (join ''/'') (strip_pieces cs t) else None)
      | _ \<Rightarrow> None)"

record ls_row =
  row_name :: string
  row_path :: string
  row_status :: string
  row_running :: bool

definition ls_row_of :: "string \<Rightarrow> project_status \<Rightarrow> ls_row" where
  "ls_row_of home s =
     \<lparr>row_name = proj_name (listed s),
      row_path = (case path_strip_prefix home (proj_root (listed s)) of
                    Some p \<Rightarrow> ''~/'' @ p
                  | None \<Rightarrow> proj_root (listed s)),
      row_status = (if 0 < running s then show_nat (running s) @ '' container'' @ (if running s = 1 then [] else ''s'')
                    else ''stopped''),
      row_running = (0 < running s)\<rparr>"

section \<open>Facts about the search\<close>

text \<open>
  The directories below the root that can be reached without entering a project, a hidden or a
  pruned directory, or a link, with their depth.
\<close>

inductive reaches :: "disk \<Rightarrow> dir_reader \<Rightarrow> string \<Rightarrow> nat \<Rightarrow> string \<Rightarrow> bool" for d rd root where
  here: "reaches d rd root 0 root"
| below: "reaches d rd root n dir \<Longrightarrow> \<not> dip_project_at d dir \<Longrightarrow> rd dir = Some es \<Longrightarrow> (name, True) \<in> set es
     \<Longrightarrow> \<not> starts_with ''.'' name \<Longrightarrow> name \<notin> set prune_names \<Longrightarrow> reaches d rd root (Suc n) (path_join dir name)"

lemma set_scan_children:
  "set (scan_children rd dir) = {path_join dir name | name es. rd dir = Some es \<and> (name, True) \<in> set es \<and>
     \<not> starts_with ''.'' name \<and> name \<notin> set prune_names}"
  by (cases "rd dir") (force simp: scan_children_def descends_def)+

lemma reaches_down:
  assumes "child \<in> set (scan_children rd dir)" "\<not> dip_project_at d dir" "reaches d rd child n x"
  shows "reaches d rd dir (Suc n) x"
  using assms(3)
proof induction
  case here
  then show ?case using below[OF reaches.here assms(2)] assms(1) by (auto simp: set_scan_children)
qed (auto intro: below)

lemma reaches_first:
  assumes "reaches d rd dir n x"
  shows "n = 0 \<and> x = dir \<or>
    (\<exists>m child. n = Suc m \<and> \<not> dip_project_at d dir \<and> child \<in> set (scan_children rd dir) \<and> reaches d rd child m x)"
  using assms
proof induction
  case (below n x es name)
  then have c: "path_join x name \<in> set (scan_children rd x)" by (auto simp: set_scan_children)
  from below.IH show ?case
  proof (elim disjE)
    assume "n = 0 \<and> x = dir"
    with c below.hyps show ?thesis using reaches.here by metis
  next
    assume "\<exists>m child. n = Suc m \<and> \<not> dip_project_at d dir \<and> child \<in> set (scan_children rd dir) \<and> reaches d rd child m x"
    then obtain m child where m: "n = Suc m" "\<not> dip_project_at d dir" "child \<in> set (scan_children rd dir)" "reaches d rd child m x"
      by blast
    have "reaches d rd child (Suc m) (path_join x name)" by (rule reaches.below[OF m(4) below.hyps(2-6)])
    with m show ?thesis by blast
  qed
qed simp

definition found_below :: "disk \<Rightarrow> dir_reader \<Rightarrow> string \<Rightarrow> nat \<Rightarrow> dip_project set" where
  "found_below d rd dir k =
     {load_listed d x (path_join x ''.dip'') | x n. reaches d rd dir n x \<and> n \<le> k \<and> dip_project_at d x}"

lemma found_below_project: "dip_project_at d dir \<Longrightarrow> found_below d rd dir k = {load_listed d dir (path_join dir ''.dip'')}"
  unfolding found_below_def by (auto dest: reaches_first intro: reaches.here)

lemma found_below_dir:
  assumes "\<not> dip_project_at d dir"
  shows "found_below d rd dir (Suc k) = (\<Union>c\<in>set (scan_children rd dir). found_below d rd c k)"
proof -
  have "(\<exists>n. reaches d rd dir n x \<and> n \<le> Suc k \<and> dip_project_at d x)
      \<longleftrightarrow> (\<exists>c\<in>set (scan_children rd dir). \<exists>n. reaches d rd c n x \<and> n \<le> k \<and> dip_project_at d x)" for x
    using assms reaches_first[of d rd dir _ x] reaches_down[OF _ assms, of _ rd _ x]
    by (metis Suc_le_mono)
  then show ?thesis unfolding found_below_def by blast
qed

lemma found_below_0: "\<not> dip_project_at d dir \<Longrightarrow> found_below d rd dir 0 = {}"
  unfolding found_below_def by (auto dest: reaches_first)

lemma fold_sets:
  assumes "\<forall>c\<in>set cs. \<forall>acc. set (f c acc) = set acc \<union> S c"
  shows "set (fold f cs acc) = set acc \<union> (\<Union>c\<in>set cs. S c)"
  using assms by (induction cs arbitrary: acc) auto

lemma set_scan_dir:
  "depth \<le> Suc max_depth \<Longrightarrow>
   set (scan_dir d rd dir found depth) = set found \<union> (if depth = Suc max_depth then {} else found_below d rd dir (max_depth - depth))"
proof (induction d rd dir found depth rule: scan_dir.induct)
  case (1 d rd dir found depth)
  consider "depth = Suc max_depth" | (p) "depth \<le> max_depth" "dip_project_at d dir" | (dd) "depth \<le> max_depth" "\<not> dip_project_at d dir"
    using "1.prems" by linarith
  then show ?case
  proof cases
    case dd
    let ?S = "\<lambda>c. if depth = max_depth then {} else found_below d rd c (max_depth - Suc depth)"
    have "\<forall>c\<in>set (scan_children rd dir). \<forall>acc. set (scan_dir d rd c acc (depth + 1)) = set acc \<union> ?S c"
      using "1.IH" dd by simp
    from fold_sets[OF this]
    have f: "set (scan_dir d rd dir found depth) = set found \<union> (\<Union>c\<in>set (scan_children rd dir). ?S c)"
      using dd by (subst scan_dir.simps) simp
    show ?thesis
    proof (cases "depth = max_depth")
      case True
      then show ?thesis using f dd(2) by (simp add: found_below_0)
    next
      case False
      then have "max_depth - depth = Suc (max_depth - Suc depth)" using dd by simp
      then show ?thesis using f dd False by (simp add: found_below_dir)
    qed
  qed (subst scan_dir.simps, simp add: found_below_project)+
qed

lemma set_scan: "set (scan d rd root) = found_below d rd root max_depth"
  using set_scan_dir[of 0 d rd root "[]"] by (simp add: scan_def)

definition answers_count :: "container_runtime \<Rightarrow> bool" where
  "answers_count r \<longleftrightarrow> (\<forall>name h. \<exists>n. fst (rt_running_count r name h) = Inr n)"

lemma backends_answer: "answers_count (docker_runtime cli decode try_ps)" "answers_count (apple_runtime cli decode show_cfg show_rows load)"
  by (auto simp: answers_count_def runtime_defs docker_running_count_by_project_def apple_running_count_by_project_def io_bind_attempt)

lemma check_all:
  assumes "answers_count r"
  shows "\<exists>sts. fst (io_map (check_status r) ps h) = Inr sts \<and> map listed sts = ps \<and>
    (\<forall>s\<in>set sts. \<exists>h'. fst (rt_running_count r (proj_name (listed s)) h') = Inr (running s))"
proof (induction ps arbitrary: h)
  case (Cons p ps)
  obtain n h' where n: "rt_running_count r (proj_name p) h = (Inr n, h')"
    using assms unfolding answers_count_def by (metis prod.collapse)
  obtain sts h'' where i: "io_map (check_status r) ps h' = (Inr sts, h'')" "map listed sts = ps"
    "\<forall>s\<in>set sts. \<exists>h'. fst (rt_running_count r (proj_name (listed s)) h') = Inr (running s)"
    using Cons.IH[of h'] by (metis prod.collapse)
  have "\<exists>h'. fst (rt_running_count r (proj_name p) h') = Inr n" using n by (metis fst_conv)
  moreover have "check_status r p h = (Inr \<lparr>listed = p, running = n\<rparr>, h')"
    using n by (simp add: check_status_def io_bind_def)
  ultimately show ?case using i by (simp add: io_bind_def)
qed simp

lemma mset_sort_statuses: "mset (sort_statuses sts) = mset sts"
  by (simp add: sort_statuses_def)

lemma sorted_statuses:
  "sorted_wrt (\<lambda>a b. running b < running a \<or> running a = running b \<and> proj_name (listed a) \<le> proj_name (listed b)) (sort_statuses sts)"
proof -
  have "sorted (map (\<lambda>s. (- int (running s), proj_name (listed s))) (sort_statuses sts))"
    unfolding sort_statuses_def by (rule sorted_sort_key)
  then show ?thesis
    by (simp add: sorted_map) (rule sorted_wrt_mono_rel, auto)
qed

definition lists_projects :: "container_runtime \<Rightarrow> disk \<Rightarrow> dir_reader \<Rightarrow> string \<Rightarrow> project_status list \<Rightarrow> bool" where
  "lists_projects r d rd root sts \<longleftrightarrow>
     mset (map listed sts) = mset (scan d rd root) \<and>
     set (map listed sts) =
       {load_listed d dir (path_join dir ''.dip'') | dir n. reaches d rd root n dir \<and> n \<le> 7 \<and> dip_project_at d dir} \<and>
     (\<forall>s\<in>set sts. \<exists>h. fst (rt_running_count r (proj_name (listed s)) h) = Inr (running s)) \<and>
     sorted_wrt (\<lambda>a b. running b < running a \<or> running a = running b \<and> proj_name (listed a) \<le> proj_name (listed b)) sts"

lemma ls_lists:
  assumes "answers_count r"
  shows "\<exists>sts. fst (ls_cmd r d rd home (Some root) h) = Inr sts \<and> lists_projects r d rd root sts"
proof -
  obtain sts h' where s: "io_map (check_status r) (scan d rd root) h = (Inr sts, h')" "map listed sts = scan d rd root"
    "\<forall>s\<in>set sts. \<exists>h'. fst (rt_running_count r (proj_name (listed s)) h') = Inr (running s)"
    using check_all[OF assms] by (metis prod.collapse)
  have r: "fst (ls_cmd r d rd home (Some root) h) = Inr (sort_statuses sts)"
    using s(1,2) by (cases "scan d rd root = []") (simp_all add: ls_cmd_def io_bind_def sort_statuses_def)
  have m: "set (sort_statuses sts) = set sts" "mset (map listed (sort_statuses sts)) = mset (scan d rd root)"
    using mset_sort_statuses s(2) by (metis set_mset_mset) (metis mset_map mset_sort_statuses s(2))
  have "set (map listed (sort_statuses sts)) = found_below d rd root max_depth"
    using m(2) set_scan by (metis set_mset_mset)
  then show ?thesis
    unfolding r lists_projects_def using m s(3) sorted_statuses[of sts]
    by (simp add: found_below_def max_depth_def)
qed

text \<open>
  C23. \<open>dip ls\<close> always answers, on either backend. It lists every project that is reachable from the
  directory in at most seven steps without entering a project, a hidden or a pruned directory or
  a link, and nothing else, each as often as the search meets it; the number of each is what the
  engine answers for its name, and the list is sorted by that number, then by name.
\<close>

theorem ls_lists_projects:
  "(\<exists>sts. fst (ls_cmd (docker_runtime cli decode try_ps) d rd home (Some root) h) = Inr sts \<and>
      lists_projects (docker_runtime cli decode try_ps) d rd root sts) \<and>
   (\<exists>sts. fst (ls_cmd (apple_runtime cli decode show_cfg show_rows load) d rd home (Some root) h) = Inr sts \<and>
      lists_projects (apple_runtime cli decode show_cfg show_rows load) d rd root sts)"
  by (intro conjI ls_lists backends_answer)

text \<open>
  The engine knows a project by its name in lower case, the query asks for the name as it is
  written: a running project with a capital letter is listed as stopped.
\<close>

definition shop_engine :: cli where
  "shop_engine h argv =
     Exited (Some 0) None (if list_ex (\<lambda>a. a = ''label=com.docker.compose.project=shop'') argv then ''4f1c'' @ [nl] else []) []"

theorem capital_project_listed_stopped:
  "fst (docker_running_count_by_project shop_engine ''Shop'' []) = Inr 0
   \<and> fst (docker_running_count_by_project shop_engine (to_lower ''Shop'') []) = Inr 1"
  by code_simp

text \<open>A name that is exported in the environment file is read by every other command.\<close>

theorem exported_name_not_listed:
  "project_name_line ''export PROJECT_NAME=shop'' = None
   \<and> parse_env_line ''export PROJECT_NAME=shop'' = Some (''PROJECT_NAME'', ''shop'')"
  by code_simp

section \<open>The choice of a route\<close>

text \<open>\<open>Iterator::min_by_key\<close>: the first of the elements with a minimal key.\<close>

fun min_by_key :: "('a \<Rightarrow> nat) \<Rightarrow> 'a list \<Rightarrow> 'a option" where
  "min_by_key f [] = None"
| "min_by_key f (x # xs) =
     (case min_by_key f xs of
        None \<Rightarrow> Some x
      | Some y \<Rightarrow> (if f y < f x then Some y else Some x))"

definition https :: "string \<Rightarrow> string" where
  "https host = ''https://'' @ host"

definition url_for_service :: "string + proxy_config \<Rightarrow> string \<Rightarrow> string + string" where
  "url_for_service loaded svc =
     and_then loaded (\<lambda>cfg.
       (case find (\<lambda>r. domain r = svc) (routes cfg) of
          Some r \<Rightarrow> Inr (https (domain r))
        | None \<Rightarrow>
            (case min_by_key (\<lambda>r. length (domain r)) (filter (\<lambda>r. contains_sub svc (domain r)) (routes cfg)) of
               None \<Rightarrow> Inl (''No proxy route matching '' @ [squote] @ svc @ [squote] @ '' - run `dip proxy routes` to see all'')
             | Some r \<Rightarrow> Inr (https (domain r)))))"

text \<open>The routes of a project: its domain and what lies below it.\<close>

definition under_domain :: "string \<Rightarrow> route \<Rightarrow> bool" where
  "under_domain d r \<longleftrightarrow> domain r = d \<or> ends_with (''.'' @ d) (domain r)"

definition routes_or_none :: "string + proxy_config \<Rightarrow> route list" where
  "routes_or_none loaded = (case loaded of Inl _ \<Rightarrow> [] | Inr cfg \<Rightarrow> routes cfg)"

definition project_domain :: "project_config \<Rightarrow> string" where
  "project_domain p = value_or [] (penv p ''DOMAIN'')"

text \<open>
  \<open>open_url\<close>: \<open>opener\<close> is the command of the platform, if it has one. \<open>line\<close> is the answer of the user
  to the numbered list, or the error of reading it.
\<close>

definition open_url :: "cli \<Rightarrow> string option \<Rightarrow> string \<Rightarrow> unit io" where
  "open_url cli opener url =
     (case opener of
        None \<Rightarrow> ret ()
      | Some cmd \<Rightarrow>
          io_bind (call cli [cmd, url]) (\<lambda>out.
            (case out of
               Spawn_error e \<Rightarrow> bail (''Failed to open browser: '' @ e)
             | Exited c s so se \<Rightarrow> (if c = Some 0 then ret () else bail ''Browser launch failed''))))"

definition pick_url :: "string + string \<Rightarrow> route list \<Rightarrow> string + string" where
  "pick_url line rs =
     and_then line (\<lambda>l.
       let n = (case parse_uint 18446744073709551615 (trim l) of Some n \<Rightarrow> n | None \<Rightarrow> 0)
       in if n = 0 \<or> length rs < n then Inl ''Invalid selection'' else Inr (https (domain (rs ! (n - 1)))))"

definition project_url :: "string + string \<Rightarrow> string + proxy_config \<Rightarrow> string \<Rightarrow> string + string" where
  "project_url line loaded d =
     (case filter (under_domain d) (routes_or_none loaded) of
        [] \<Rightarrow> (if d = [] then Inl ''DOMAIN not set - run inside a dip project'' else Inr (https d))
      | [r] \<Rightarrow> Inr (https (domain r))
      | rs \<Rightarrow> pick_url line rs)"

definition open_cmd ::
    "cli \<Rightarrow> string option \<Rightarrow> string + string \<Rightarrow> string + proxy_config \<Rightarrow> string + project_config \<Rightarrow> string option \<Rightarrow> unit io" where
  "open_cmd cli opener line loaded found service =
     io_bind (of_result found) (\<lambda>p.
     io_bind (of_result (case service of
                           Some svc \<Rightarrow> url_for_service loaded svc
                         | None \<Rightarrow> project_url line loaded (project_domain p)))
       (open_url cli opener))"

text \<open>\<open>dip share\<close> up to the tunnel: the upstream and the label it is shown with.\<close>

definition detect_upstream ::
    "string + proxy_config \<Rightarrow> string + project_config \<Rightarrow> string option \<Rightarrow> string + (string \<times> string)" where
  "detect_upstream loaded found service =
     and_then found (\<lambda>p.
       let d = project_domain p; rs = routes_or_none loaded in
       if rs = [] then
         Inl ''No proxy routes found - run `dip start` first, or use --port to specify the port manually''
       else
         (case filter (\<lambda>r. case service of Some svc \<Rightarrow> contains_sub svc (domain r) | None \<Rightarrow> under_domain d r) rs of
            [] \<Rightarrow> Inl (''No proxy route for '' @ [squote] @ d @ [squote] @ '' - run `dip start` first, or use --port'')
          | [r] \<Rightarrow> Inr (upstream r, domain r)
          | ms \<Rightarrow>
              (case find (\<lambda>r. domain r = d) ms of
                 Some r \<Rightarrow> Inr (upstream r, domain r)
               | None \<Rightarrow>
                   (case min_by_key (\<lambda>r. length (domain r)) ms of
                      Some r \<Rightarrow> Inr (upstream r, domain r)
                    | None \<Rightarrow> Inl []))))"

definition share_target ::
    "string + proxy_config \<Rightarrow> string + project_config \<Rightarrow> 16 word option \<Rightarrow> string option \<Rightarrow> string + (string \<times> string)" where
  "share_target loaded found port service =
     (case port of
        Some n \<Rightarrow> Inr (''127.0.0.1:'' @ show_nat (unat n), ''localhost:'' @ show_nat (unat n))
      | None \<Rightarrow> detect_upstream loaded found service)"

lemma min_by_key_None [simp]: "min_by_key f xs = None \<longleftrightarrow> xs = []"
  by (cases xs) (auto split: option.splits)

lemma min_by_key_Some: "min_by_key f xs = Some m \<Longrightarrow> m \<in> set xs \<and> (\<forall>x\<in>set xs. f m \<le> f x)"
  by (induction xs arbitrary: m) (fastforce split: option.splits if_splits)+

text \<open>What the caller names: a service is any part of the domain, otherwise the project's domain.\<close>

definition wanted_route :: "string option \<Rightarrow> string \<Rightarrow> route \<Rightarrow> bool" where
  "wanted_route service d r \<longleftrightarrow> (case service of Some svc \<Rightarrow> (\<exists>a b. domain r = a @ svc @ b) | None \<Rightarrow> (\<exists>a. domain r = d \<or> domain r = a @ ''.'' @ d))"

lemma wanted_code:
  "wanted_route service d r \<longleftrightarrow> (case service of Some svc \<Rightarrow> contains_sub svc (domain r) | None \<Rightarrow> under_domain d r)"
  by (auto simp: wanted_route_def under_domain_def contains_sub_iff ends_with_iff split: option.split)

text \<open>The pick among several: the preferred domain if it is there, else a shortest.\<close>

definition best_route :: "string \<Rightarrow> (route \<Rightarrow> bool) \<Rightarrow> route list \<Rightarrow> route \<Rightarrow> bool" where
  "best_route d ok rs r \<longleftrightarrow> r \<in> set rs \<and> ok r \<and>
     (domain r = d \<or> (\<forall>q\<in>set rs. ok q \<longrightarrow> domain q \<noteq> d \<and> length (domain r) \<le> length (domain q)))"

lemma min_best:
  assumes "min_by_key (\<lambda>r. length (domain r)) (filter ok rs) = Some r" "find (\<lambda>r. domain r = d) (filter ok rs) = None"
  shows "best_route d ok rs r"
  using min_by_key_Some[OF assms(1)] assms(2) by (auto simp: best_route_def find_None_iff)

lemma find_best: "find (\<lambda>r. domain r = d) (filter ok rs) = Some r \<Longrightarrow> best_route d ok rs r"
  by (auto simp: find_Some_iff best_route_def set_filter[symmetric] dest: nth_mem simp del: set_filter) (auto dest!: nth_mem)

lemma single_best: "filter ok rs = [r] \<Longrightarrow> best_route d ok rs r"
proof -
  assume f: "filter ok rs = [r]"
  have "set (filter ok rs) = {r}" by (simp add: f)
  then have "r \<in> set rs" "ok r" "\<forall>q\<in>set rs. ok q \<longrightarrow> q = r" by auto
  then show ?thesis unfolding best_route_def by blast
qed

lemma exact_is_wanted: "find (\<lambda>r. domain r = svc) rs = find (\<lambda>r. domain r = svc) (filter (wanted_route (Some svc) d) rs)"
proof -
  have "domain r = svc \<Longrightarrow> wanted_route (Some svc) d r" for r
    unfolding wanted_route_def option.case by (intro exI[of _ "[]"]) simp
  then show ?thesis by (induction rs) auto
qed

lemma url_for_service_best:
  "case url_for_service (Inr cfg) svc of
     Inl _ \<Rightarrow> filter (wanted_route (Some svc) []) (routes cfg) = []
   | Inr url \<Rightarrow> \<exists>r. url = https (domain r) \<and> best_route svc (wanted_route (Some svc) []) (routes cfg) r"
proof -
  let ?ok = "wanted_route (Some svc) []" and ?rs = "routes cfg"
  have c: "filter (\<lambda>r. contains_sub svc (domain r)) ?rs = filter ?ok ?rs"
    by (rule filter_cong) (simp_all add: wanted_code)
  have u: "url_for_service (Inr cfg) svc =
    (case find (\<lambda>r. domain r = svc) (filter ?ok ?rs) of
       Some r \<Rightarrow> Inr (https (domain r))
     | None \<Rightarrow>
         (case min_by_key (\<lambda>r. length (domain r)) (filter ?ok ?rs) of
            None \<Rightarrow> Inl (''No proxy route matching '' @ [squote] @ svc @ [squote] @ '' - run `dip proxy routes` to see all'')
          | Some r \<Rightarrow> Inr (https (domain r))))"
    unfolding url_for_service_def and_then_simps c by (simp only: exact_is_wanted[symmetric])
  show ?thesis
  proof (cases "find (\<lambda>r. domain r = svc) (filter ?ok ?rs)")
    case None
    then show ?thesis
      using min_best[OF _ None] unfolding u None option.case
      by (cases "min_by_key (\<lambda>r. length (domain r)) (filter ?ok ?rs)") (simp, simp, blast)
  next
    case (Some r)
    show ?thesis
      using find_best[OF Some] unfolding u Some option.case sum.case by blast
  qed
qed

lemma detect_best:
  "case detect_upstream (Inr cfg) (Inr p) service of
     Inl _ \<Rightarrow> filter (wanted_route service (project_domain p)) (routes cfg) = []
   | Inr (u, d) \<Rightarrow> \<exists>r. u = upstream r \<and> d = domain r \<and>
       best_route (project_domain p) (wanted_route service (project_domain p)) (routes cfg) r"
proof (cases "routes cfg = []")
  case False
  let ?d = "project_domain p" and ?rs = "routes cfg"
  let ?ok = "wanted_route service ?d"
  have c: "(\<lambda>r. case service of None \<Rightarrow> under_domain ?d r | Some svc \<Rightarrow> contains_sub svc (domain r)) = ?ok"
    by (simp add: wanted_code fun_eq_iff)
  have e: "detect_upstream (Inr cfg) (Inr p) service =
     (case filter ?ok ?rs of
            [] \<Rightarrow> Inl (''No proxy route for '' @ [squote] @ ?d @ [squote] @ '' - run `dip start` first, or use --port'')
          | [r] \<Rightarrow> Inr (upstream r, domain r)
          | ms \<Rightarrow>
              (case find (\<lambda>r. domain r = ?d) ms of
                 Some r \<Rightarrow> Inr (upstream r, domain r)
               | None \<Rightarrow>
                   (case min_by_key (\<lambda>r. length (domain r)) ms of
                      Some r \<Rightarrow> Inr (upstream r, domain r)
                    | None \<Rightarrow> Inl [])))"
    unfolding detect_upstream_def and_then_simps Let_def routes_or_none_def sum.case c using False by (simp only: if_False)
  consider "filter ?ok ?rs = []" | r where "filter ?ok ?rs = [r]" | q r ms where "filter ?ok ?rs = q # r # ms"
    by (metis list.exhaust)
  then show ?thesis
  proof cases
    case 2
    then show ?thesis using single_best[OF 2] unfolding e by auto
  next
    case 3
    show ?thesis
    proof (cases "find (\<lambda>r. domain r = ?d) (q # r # ms)")
      case None
      then obtain m where m: "min_by_key (\<lambda>r. length (domain r)) (q # r # ms) = Some m"
        by (metis min_by_key_None list.discI option.exhaust)
      have "best_route ?d ?ok ?rs m" using min_best[of ?ok ?rs m ?d] m None 3 by simp
      then show ?thesis unfolding e 3 list.case None m option.case sum.case prod.case by blast
    next
      case (Some m)
      have "best_route ?d ?ok ?rs m" using find_best[of ?d ?ok ?rs m] Some 3 by simp
      then show ?thesis unfolding e 3 list.case Some option.case sum.case prod.case by blast
    qed
  qed (simp add: e)
qed (simp add: detect_upstream_def routes_or_none_def)

lemma pick_url_in: "pick_url line rs = Inr url \<Longrightarrow> \<exists>r\<in>set rs. url = https (domain r)"
  by (auto simp: pick_url_def and_then_Inr Let_def split: if_splits intro!: bexI[OF _ nth_mem])

lemma project_url_in:
  assumes "project_url line (Inr cfg) d = Inr url"
  shows "(\<exists>r\<in>set (routes cfg). url = https (domain r) \<and> wanted_route None d r) \<or>
     filter (wanted_route None d) (routes cfg) = [] \<and> d \<noteq> [] \<and> url = https d"
proof -
  have c: "filter (under_domain d) (routes cfg) = filter (wanted_route None d) (routes cfg)"
    by (rule filter_cong) (simp_all add: wanted_code)
  show ?thesis
  proof (cases "filter (wanted_route None d) (routes cfg)")
    case Nil
    then show ?thesis
      using assms unfolding project_url_def routes_or_none_def sum.case c by (simp split: if_splits)
  next
    case (Cons x xs)
    have "\<exists>r\<in>set (x # xs). url = https (domain r)"
      using assms pick_url_in[of line "x # xs" url] unfolding project_url_def routes_or_none_def sum.case c Cons
      by (cases xs) auto
    moreover have "set (x # xs) = {r \<in> set (routes cfg). wanted_route None d r}"
      unfolding Cons[symmetric] by simp
    ultimately show ?thesis by blast
  qed
qed

definition opened :: "string option \<Rightarrow> hist \<Rightarrow> hist \<Rightarrow> string \<Rightarrow> bool" where
  "opened opener h h' host \<longleftrightarrow> h' = h @ (case opener of None \<Rightarrow> [] | Some cmd \<Rightarrow> [[cmd, https host]])"

lemma opens: "opened opener h (snd (open_url cli opener (https host) h)) host"
  by (cases opener) (auto simp: opened_def open_url_def split: cli_out.split)


text \<open>A wildcard route is opened as it is written; its host is no name.\<close>

theorem wildcard_route_opened:
  "fst (open_cmd (\<lambda>_ _. Exited (Some 0) None [] []) (Some ''open'') (Inr []) (Inr (default_config\<lparr>routes := [\<lparr>domain = ''*.shop.test'', upstream = ''u:1''\<rparr>]\<rparr>))
      (Inr p) (Some ''shop'') []) = Inr ()
   \<and> snd (open_cmd (\<lambda>_ _. Exited (Some 0) None [] []) (Some ''open'') (Inr []) (Inr (default_config\<lparr>routes := [\<lparr>domain = ''*.shop.test'', upstream = ''u:1''\<rparr>]\<rparr>))
      (Inr p) (Some ''shop'') []) = [[''open'', ''https://*.shop.test'']]"
  by code_simp

text \<open>The error of a service without a route names the domain of the project.\<close>

definition shop_project :: project_config where
  "shop_project =
     \<lparr>root_dir = ''/shop'', dip_dir = ''/shop/.dip'', env_path = ''/shop/.dip/.env'', compose_path = ''/shop/.dip/docker-compose.yml'',
      project_name = ''shop'', penv = [''DOMAIN'' \<mapsto> ''shop.test'']\<rparr>"

theorem share_error_names_domain:
  "detect_upstream (Inr (default_config\<lparr>routes := [\<lparr>domain = ''shop.test'', upstream = ''u:1''\<rparr>]\<rparr>)) (Inr shop_project) (Some ''api'')
     = Inl (''No proxy route for '' @ [squote] @ ''shop.test'' @ [squote] @ '' - run `dip start` first, or use --port'')"
  by code_simp

section \<open>Scripts of a project\<close>

record script_info =
  script_name :: string
  description :: "string option"

definition description_line :: "string \<Rightarrow> string option" where
  "description_line line =
     (let t = trim line in
      Option.bind (case strip_prefix ''# Description:'' t of Some r \<Rightarrow> Some r | None \<Rightarrow> strip_prefix ''#Description:'' t)
        (\<lambda>rest. if trim rest = [] then None else Some (trim rest)))"

definition read_description :: "disk \<Rightarrow> string \<Rightarrow> string option" where
  "read_description d path =
     Option.bind (read_bytes d path) (\<lambda>content.
       case filter_map description_line (filter is_utf8 (take 10 (str_lines content))) of
         [] \<Rightarrow> None
       | x # _ \<Rightarrow> Some x)"

text \<open>Here \<open>rf\<close> reads a directory and says of each entry whether it is a regular file.\<close>

definition list_scripts :: "disk \<Rightarrow> dir_reader \<Rightarrow> string \<Rightarrow> script_info list" where
  "list_scripts d rf dir =
     (case rf dir of
        None \<Rightarrow> []
      | Some entries \<Rightarrow>
          sort_key script_name
            (map (\<lambda>e. \<lparr>script_name = fst e, description = read_description d (path_join dir (fst e))\<rparr>)
              (filter (\<lambda>e. snd e \<and> is_utf8 (fst e) \<and> \<not> starts_with ''.'' (fst e)) entries)))"

text \<open>\<open>utils::ensure_executable\<close>.\<close>

definition ensure_executable :: "string \<Rightarrow> unit on_disk" where
  "ensure_executable path d =
     (if \<not> path_exists d path then (Inl ''No such file or directory'', d)
      else if executable d path then (Inr (), d)
      else set_executable path d)"

definition path_within :: "string \<Rightarrow> string \<Rightarrow> bool" where
  "path_within dir p \<longleftrightarrow> take (length (path_components dir)) (path_components p) = path_components dir"

text \<open>
  \<open>dip run <script>\<close>: \<open>canon\<close> is \<open>Path::canonicalize\<close>, the result the exit code of the script, which runs
  with the environment of the project.
\<close>

definition run_script ::
    "cli \<Rightarrow> (string \<Rightarrow> string option) \<Rightarrow> dir_reader \<Rightarrow> string + project_config \<Rightarrow> string \<Rightarrow> string list
      \<Rightarrow> disk \<Rightarrow> hist \<Rightarrow> (string + int) \<times> disk \<times> hist" where
  "run_script cli canon rf found script args d h =
     (case found of
        Inl e \<Rightarrow> (Inl e, d, h)
      | Inr p \<Rightarrow>
          (let dir = path_join (dip_dir p) ''commands''; path = path_join dir script in
           if \<not> path_exists d path then
             (Inl (let names = map script_name (list_scripts d rf dir) in
                   ''Script '' @ [squote] @ script @ [squote] @ '' not found''
                   @ (if names = [] then ''. No scripts in '' @ dir
                      else '' in '' @ dir @ ''.'' @ [nl] @ ''Available: '' @ join '', '' names)), d, h)
           else
             (case canon path of
                None \<Rightarrow> (Inl (''Script '' @ [squote] @ script @ [squote] @ '' not found''), d, h)
              | Some c \<Rightarrow>
                  (if \<not> path_within (value_or dir (canon dir)) c then
                     (Inl (''Script '' @ [squote] @ script @ [squote] @ '' is outside the commands directory''), d, h)
                   else
                     (case ensure_executable c d of
                        (Inl e, d') \<Rightarrow> (Inl e, d', h)
                      | (Inr _, d') \<Rightarrow>
                          (case cli h (c # args) of
                             Spawn_error e \<Rightarrow> (Inl e, d', h @ [c # args])
                           | Exited x s so se \<Rightarrow> (Inr (if x = Some 0 then 0 else exit_code x s), d', h @ [c # args])))))))"

text \<open>A canonical path is absolute and made of names only.\<close>

definition names_path :: "string list \<Rightarrow> string" where
  "names_path cs = ''/'' @ join ''/'' cs"

definition canonical :: "(string \<Rightarrow> string option) \<Rightarrow> bool" where
  "canonical canon \<longleftrightarrow> (\<forall>p c. canon p = Some c \<longrightarrow> (\<exists>cs. c = names_path cs \<and> list_all clean_component cs))"

lemma names_path_components:
  assumes "list_all clean_component cs"
  shows "path_components (names_path cs) = ''/'' # cs"
proof (cases cs)
  case Nil
  then show ?thesis by (simp add: names_path_def path_components_def inert_def)
next
  case (Cons x xs)
  have s: "split_on CHR ''/'' (join ''/'' cs) = cs"
    using assms Cons by (intro split_on_join) (auto simp: list_all_iff clean_component_def)
  have "filter (\<lambda>c. \<not> inert c) cs = cs"
    using assms by (simp add: list_all_iff inert_def clean_component_def filter_id_conv)
  then show ?thesis by (simp add: names_path_def path_components_def s)
qed

lemma inside_names:
  assumes "canonical canon" "canon path = Some c" "canon dir = Some cd" "path_within cd c"
  shows "\<exists>base more. cd = names_path base \<and> c = names_path (base @ more) \<and> list_all clean_component more"
proof -
  obtain base where b: "cd = names_path base" "list_all clean_component base"
    using assms(1,3) unfolding canonical_def by blast
  obtain cs where c: "c = names_path cs" "list_all clean_component cs"
    using assms(1,2) unfolding canonical_def by blast
  have "take (length base) cs = base"
    using assms(4) unfolding path_within_def b(1) c(1) names_path_components[OF b(2)] names_path_components[OF c(2)] by simp
  then have "cs = base @ drop (length base) cs" by (metis append_take_drop_id)
  moreover have "list_all clean_component (drop (length base) cs)"
    using c(2) by (auto simp: list_all_iff dest: in_set_dropD)
  ultimately show ?thesis using b c by metis
qed

lemma ensure_executable_only:
  "ensure_executable c d = (r, d') \<Longrightarrow> d' = d \<or> d' = d\<lparr>executable := (executable d)(c := True)\<rparr>"
  by (auto simp: ensure_executable_def set_executable_def split: if_splits)

text \<open>What ran, if something ran: one command, a file of names inside the directory.\<close>

definition ran_inside :: "string \<Rightarrow> string list \<Rightarrow> disk \<Rightarrow> hist \<Rightarrow> disk \<Rightarrow> hist \<Rightarrow> bool" where
  "ran_inside cd args d h d' h' \<longleftrightarrow>
     (\<exists>base more. cd = names_path base \<and> list_all clean_component more \<and>
        (let c = names_path (base @ more) in
         (d' = d \<or> d' = d\<lparr>executable := (executable d)(c := True)\<rparr>) \<and> (h' = h \<or> h' = h @ [c # args])))"

text \<open>
  C21. \<open>dip run\<close> executes at most one command, and only a file that lies in the directory of the
  project's scripts after links and dots are resolved, with the words of the caller behind it;
  apart from making that file executable it leaves the disk as it is.
\<close>

theorem run_stays_inside:
  assumes "canonical canon" "canon (path_join (dip_dir p) ''commands'') = Some cd"
    "run_script cli canon rf (Inr p) script args d h = (r, d', h')"
  shows "d' = d \<and> h' = h \<or> ran_inside cd args d h d' h'"
proof -
  let ?dir = "path_join (dip_dir p) ''commands''"
  consider "d' = d" "h' = h"
    | c where "canon (path_join ?dir script) = Some c" "path_within cd c"
        "d' = d \<or> d' = d\<lparr>executable := (executable d)(c := True)\<rparr>" "h' = h \<or> h' = h @ [c # args]"
    using assms(3) ensure_executable_only[of _ d] unfolding run_script_def Let_def sum.case assms(2) value_or_def option.case
    by (auto split: if_splits option.splits prod.splits sum.splits cli_out.splits)
  then show ?thesis
  proof cases
    case 2
    from inside_names[OF assms(1) 2(1) assms(2) 2(2)] show ?thesis
      using 2(3,4) unfolding ran_inside_def Let_def by blast
  qed simp
qed

definition hello_canon :: "string \<Rightarrow> string option" where
  "hello_canon p =
     (if p = ''/shop/.dip/commands/hello'' then Some (names_path [''shop'', ''.dip'', ''commands'', ''hello''])
      else if p = ''/shop/.dip/commands'' then Some (names_path [''shop'', ''.dip'', ''commands'']) else None)"

definition hello_disk :: disk where
  "hello_disk = open_disk [(''/shop/.dip/commands/hello'', ''echo hello'')]"

lemma hello_canonical: "canonical hello_canon"
proof -
  have "list_all clean_component [''shop'', ''.dip'', ''commands'', ''hello'']"
    "list_all clean_component [''shop'', ''.dip'', ''commands'']" by code_simp+
  then show ?thesis unfolding canonical_def hello_canon_def by (metis option.inject option.distinct(1))
qed

theorem run_stays_inside_witness:
  "case run_script (\<lambda>_ _. Exited (Some 0) None [] []) hello_canon (\<lambda>_. None) (Inr shop_project) ''hello'' [''you''] hello_disk [] of
     (r, d', h') \<Rightarrow> r = Inr 0 \<and> h' = [[''/shop/.dip/commands/hello'', ''you'']]
       \<and> ran_inside ''/shop/.dip/commands'' [''you''] hello_disk [] d' h'"
proof -
  obtain r d' h' where e: "run_script (\<lambda>_ _. Exited (Some 0) None [] []) hello_canon (\<lambda>_. None) (Inr shop_project) ''hello'' [''you''] hello_disk [] = (r, d', h')"
    by (metis prod_cases3)
  have rh: "fst (run_script (\<lambda>_ _. Exited (Some 0) None [] []) hello_canon (\<lambda>_. None) (Inr shop_project) ''hello'' [''you''] hello_disk []) = Inr 0"
    "snd (snd (run_script (\<lambda>_ _. Exited (Some 0) None [] []) hello_canon (\<lambda>_. None) (Inr shop_project) ''hello'' [''you''] hello_disk [])) = [[''/shop/.dip/commands/hello'', ''you'']]"
    by code_simp+
  have c: "hello_canon (path_join (dip_dir shop_project) ''commands'') = Some ''/shop/.dip/commands''" by code_simp
  show ?thesis using run_stays_inside[OF hello_canonical c e] rh unfolding e by simp
qed

section \<open>Logs\<close>

record log_filters =
  grep :: "string option"
  errors :: bool
  warn :: bool
  sql :: bool
  http :: bool
  slow :: bool

definition error_words :: "string list" where
  "error_words = [''error'', ''exception'', ''fatal'', ''panic'', ''critical'']"

definition warn_words :: "string list" where
  "warn_words = [''warn'', ''warning'']"

definition sql_words :: "string list" where
  "sql_words = [''select '', ''insert '', ''update '', ''delete '', ''query '']"

definition http_words :: "string list" where
  "http_words =
     [''get /'', ''post /'', ''put /'', ''delete /'', ''patch /'', '' 200 '', '' 201 '', '' 204 '', '' 301 '', '' 302 '',
      '' 400 '', '' 401 '', '' 403 '', '' 404 '', '' 422 '', '' 500 '', '' 502 '', '' 503 '']"

definition slow_words :: "string list" where
  "slow_words = [''slow'', ''timeout'', ''exceeded'', ''deadline'', ''timed out'']"

definition resolve_keywords :: "log_filters \<Rightarrow> string list option" where
  "resolve_keywords f =
     (let kws = (case grep f of Some p \<Rightarrow> [to_lower p] | None \<Rightarrow> [])
              @ (if errors f then error_words else []) @ (if warn f then warn_words else [])
              @ (if sql f then sql_words else []) @ (if http f then http_words else [])
              @ (if slow f then slow_words else [])
      in if kws = [] then None else Some kws)"

definition active_label :: "log_filters \<Rightarrow> string" where
  "active_label f =
     join '' + '' ((case grep f of Some p \<Rightarrow> [[dquote] @ p @ [dquote]] | None \<Rightarrow> [])
       @ (if errors f then [''--errors''] else []) @ (if warn f then [''--warn''] else [])
       @ (if sql f then [''--sql''] else []) @ (if http f then [''--http''] else [])
       @ (if slow f then [''--slow''] else []))"

definition logs_args :: "string option \<Rightarrow> string option \<Rightarrow> string list" where
  "logs_args since service =
     [''logs'', ''-f'', ''--tail=100''] @ (case since of Some s \<Rightarrow> [''--since='' @ s] | None \<Rightarrow> [])
     @ (case service of Some s \<Rightarrow> [s] | None \<Rightarrow> [])"

text \<open>The lines are those of the filtered stream; an unfiltered one prints what the backend prints.\<close>

definition logs_cmd ::
    "(project_config \<Rightarrow> container_runtime) \<Rightarrow> string + project_config \<Rightarrow> string option \<Rightarrow> string option \<Rightarrow> log_filters
      \<Rightarrow> bool \<Rightarrow> string list option io" where
  "logs_cmd rt found service since f no_color =
     io_bind (of_result found) (\<lambda>p.
     io_bind (if service = None \<and> \<not> no_color then attempt (rt_compose_capture (rt p) p [''config'', ''--services'']) else ret (Inl []))
       (\<lambda>_. case resolve_keywords f of
              Some kws \<Rightarrow> io_bind (rt_compose_grep (rt p) p (logs_args since service) kws) (\<lambda>ls. ret (Some ls))
            | None \<Rightarrow> io_bind (rt_compose_stream (rt p) p (logs_args since service) False) (\<lambda>_. ret None)))"

text \<open>The Apple backend takes the tail and the service from the arguments and never looks at the start time.\<close>

theorem since_ignored_by_apple:
  "apple_compose_stream cli p loaded (logs_args (Some s) service) False = apple_compose_stream cli p loaded (logs_args None service) False"
proof -
  have l: "log_service cfg (logs_args (Some s) service) = log_service cfg (logs_args None service)" for cfg
    by (cases service) (simp_all add: log_service_def logs_args_def)
  have t: "tail_options (logs_args (Some s) service) = tail_options (logs_args None service)"
    by (cases service) (simp_all add: tail_options_def logs_args_def)
  have f: "''-f'' \<in> set (logs_args x service)" for x by (simp add: logs_args_def)
  have g: "logs_argv q fl (logs_args (Some s) service) tg = logs_argv q fl (logs_args None service) tg" for q fl tg
    by (simp only: logs_argv_def t)
  have "stream_logs cli p loaded (logs_args (Some s) service) [] = stream_logs cli p loaded (logs_args None service) []"
    unfolding stream_logs_def stream_multi_logs_def log_targets_def l g using f by simp
  then show ?thesis
    by (simp add: apple_compose_stream_def logs_args_def)
qed
text \<open>A service that is not in the compose file selects all services there, where \<open>docker compose\<close> refuses it.\<close>

theorem unknown_service_logs_all:
  assumes "map_of cfg service = None"
  shows "log_targets cfg (logs_args since (Some service)) = log_targets cfg (logs_args since None)"
proof -
  have "log_service cfg (logs_args since (Some service)) = log_service cfg (logs_args since None)"
    using assms by (cases since) (simp_all add: log_service_def logs_args_def)
  then show ?thesis by (simp add: log_targets_def)
qed

end
