(* ===== verification/Dip_Update.thy ===== *)
theory Dip_Update
  imports Dip_Disk
begin

text \<open>
  \<open>dip update\<close> (\<open>commands/update.rs\<close>): the newest release is asked for with \<open>curl\<close>, its binary for this
  platform downloaded beside the running one and renamed over it. What \<open>curl -o\<close> has written
  when it ends is the parameter \<open>wrote\<close>; \<open>decode\<close> parses JSON.
\<close>

section \<open>The command\<close>

definition detect_target :: "string \<Rightarrow> string \<Rightarrow> string + string" where
  "detect_target os arch =
     (if os = ''macos'' \<and> arch = ''aarch64'' then Inr ''aarch64-apple-darwin''
      else if os = ''macos'' \<and> arch = ''x86_64'' then Inr ''x86_64-apple-darwin''
      else if os = ''linux'' \<and> arch = ''aarch64'' then Inr ''aarch64-unknown-linux-musl''
      else if os = ''linux'' \<and> arch = ''x86_64'' then Inr ''x86_64-unknown-linux-musl''
      else Inl (''Unsupported platform: '' @ os @ ''/'' @ arch))"

definition latest_url :: string where
  "latest_url = ''https://api.github.com/repos/syntlyx/dip-rust/releases/latest''"

definition curl_get_argv :: "string \<Rightarrow> string \<Rightarrow> string list" where
  "curl_get_argv version url = [''curl'', ''-fsSL'', ''--user-agent'', ''dip/'' @ version, url]"

definition curl_get :: "cli \<Rightarrow> string \<Rightarrow> string \<Rightarrow> string io" where
  "curl_get cli version url =
     io_bind (call cli (curl_get_argv version url)) (\<lambda>out.
       (case out of
          Spawn_error e \<Rightarrow> bail (''curl not found: '' @ e)
        | Exited c s so se \<Rightarrow> (if c = Some 0 then ret so else bail (''curl failed: '' @ trim se))))"

definition download_argv :: "string \<Rightarrow> string \<Rightarrow> string \<Rightarrow> string list" where
  "download_argv version url dest =
     [''curl'', ''-fSL'', ''--progress-bar'', ''--user-agent'', ''dip/'' @ version, ''-o'', dest, url]"

text \<open>From here on the state is the disk with the history of processes.\<close>

definition curl_download ::
    "cli \<Rightarrow> (string list \<Rightarrow> string option) \<Rightarrow> string \<Rightarrow> string \<Rightarrow> string \<Rightarrow> (disk \<times> hist, unit) st" where
  "curl_download cli wrote version url dest = (\<lambda>(d, h).
     if \<not> is_utf8 dest then (Inl (''Download path is not valid UTF-8: '' @ dest), d, h)
     else
       let argv = download_argv version url dest in
       (case cli h argv of
          Spawn_error e \<Rightarrow> (Inl (''curl not found: '' @ e), d, h @ [argv])
        | Exited c s so se \<Rightarrow>
            let d' = (case wrote argv of Some b \<Rightarrow> snd (write_file dest b d) | None \<Rightarrow> d) in
            (if c = Some 0 then Inr () else Inl ''Download failed'', d', h @ [argv])))"

definition on_files :: "'a on_disk \<Rightarrow> (disk \<times> hist, 'a) st" where
  "on_files m = (\<lambda>(d, h). case m d of (r, d') \<Rightarrow> (r, d', h))"

definition on_history :: "'a io \<Rightarrow> (disk \<times> hist, 'a) st" where
  "on_history m = (\<lambda>(d, h). case m h of (r, h') \<Rightarrow> (r, d, h'))"

text \<open>\<open>Path::with_extension\<close>, for the path of a file.\<close>

definition file_stem_of :: "string \<Rightarrow> string" where
  "file_stem_of n = (case rsplit_once CHR ''.'' n of Some (a, _) \<Rightarrow> (if a = [] then n else a) | None \<Rightarrow> n)"

definition with_extension :: "string \<Rightarrow> string \<Rightarrow> string" where
  "with_extension p e =
     (case rsplit_once CHR ''/'' p of
        Some (a, n) \<Rightarrow> a @ ''/'' @ file_stem_of n @ ''.'' @ e
      | None \<Rightarrow> file_stem_of p @ ''.'' @ e)"

definition latest_version :: "json \<Rightarrow> string option" where
  "latest_version release = map_option (dropWhile (\<lambda>c. c = CHR ''v'')) (as_str (jindex release ''tag_name''))"

definition asset_url :: "json \<Rightarrow> string \<Rightarrow> string option" where
  "asset_url release asset =
     Option.bind (as_array (jindex release ''assets'')) (\<lambda>assets.
     Option.bind (find (\<lambda>a. as_str (jindex a ''name'') = Some asset) assets) (\<lambda>a.
       as_str (jindex a ''browser_download_url'')))"

definition replace_binary :: "string \<Rightarrow> string \<Rightarrow> unit on_disk" where
  "replace_binary tmp exe d =
     (case rename_file tmp exe d of
        (Inr _, d') \<Rightarrow> (Inr (), d')
      | (Inl e, d') \<Rightarrow> (Inl (''Failed to replace binary at '' @ exe @ '': '' @ e), snd (remove_file tmp d')))"

text \<open>The result is the version installed, or nothing when there was nothing to do.\<close>

definition update_cmd ::
    "cli \<Rightarrow> (string list \<Rightarrow> string option) \<Rightarrow> (string \<Rightarrow> json option) \<Rightarrow> string \<Rightarrow> string \<Rightarrow> string \<Rightarrow> string + string
      \<Rightarrow> bool \<Rightarrow> (disk \<times> hist, string option) st" where
  "update_cmd cli wrote decode os arch version exe force =
     io_bind (of_result (detect_target os arch)) (\<lambda>target.
     io_bind (on_history (curl_get cli version latest_url)) (\<lambda>resp.
     io_bind (of_result (case decode resp of None \<Rightarrow> Inl ''Failed to parse GitHub API response'' | Some j \<Rightarrow> Inr j)) (\<lambda>release.
     io_bind (of_result (case latest_version release of
                           None \<Rightarrow> Inl ''No tag_name in GitHub response - is this a public repo with releases?''
                         | Some v \<Rightarrow> Inr v)) (\<lambda>latest.
       if latest = version \<and> \<not> force then ret None
       else
         io_bind (of_result (case asset_url release (''dip-'' @ target) of
                               None \<Rightarrow> Inl (''No release asset dip-'' @ target @ '' found for this platform.'')
                             | Some u \<Rightarrow> Inr u)) (\<lambda>url.
         io_bind (of_result exe) (\<lambda>path.
         let tmp = with_extension path ''tmp'' in
         io_seq (curl_download cli wrote version url tmp)
         (io_seq (on_files (set_executable tmp))
         (io_seq (on_files (replace_binary tmp path))
         (ret (Some latest))))))))))"

section \<open>Facts\<close>

text \<open>\<open>curl\<close> ends with 0 only when it has written the whole body behind the URL.\<close>

definition complete_downloads :: "cli \<Rightarrow> (string list \<Rightarrow> string option) \<Rightarrow> (string \<Rightarrow> string) \<Rightarrow> bool" where
  "complete_downloads cli wrote body \<longleftrightarrow>
     (\<forall>h version url dest s so se. cli h (download_argv version url dest) = Exited (Some 0) s so se
        \<longrightarrow> wrote (download_argv version url dest) = Some (body url))"

definition install :: "cli \<Rightarrow> (string list \<Rightarrow> string option) \<Rightarrow> string \<Rightarrow> string \<Rightarrow> string \<Rightarrow> (disk \<times> hist, unit) st" where
  "install cli wrote version url path =
     (let tmp = with_extension path ''tmp'' in
      io_seq (curl_download cli wrote version url tmp)
      (io_seq (on_files (set_executable tmp)) (on_files (replace_binary tmp path))))"

lemma with_extension_ends: "ends_with (''.'' @ e) (with_extension p e)"
  by (auto simp: with_extension_def ends_with_iff split: option.split)

text \<open>Either the new binary is in place, complete and executable, or the old one is as it was.\<close>

definition installed :: "string \<Rightarrow> string \<Rightarrow> disk \<Rightarrow> disk \<Rightarrow> bool" where
  "installed path new d d' \<longleftrightarrow>
     contents d' path = Some new \<and> executable d' path \<and> contents d' (with_extension path ''tmp'') = None"

definition spared :: "string \<Rightarrow> disk \<Rightarrow> disk \<Rightarrow> bool" where
  "spared path d d' \<longleftrightarrow> contents d' path = contents d path \<and> executable d' path = executable d path"

definition only_beside :: "string \<Rightarrow> disk \<Rightarrow> disk \<Rightarrow> bool" where
  "only_beside path d d' \<longleftrightarrow>
     (\<forall>q. q = path \<or> q = with_extension path ''tmp'' \<or> contents d' q = contents d q \<and> executable d' q = executable d q)"

lemma install_correct:
  assumes "\<not> ends_with ''.tmp'' path" "complete_downloads cli wrote body"
    and "install cli wrote version url path (d, h) = (r, d', h')"
  shows "only_beside path d d' \<and> (case r of Inr _ \<Rightarrow> installed path (body url) d d' | Inl _ \<Rightarrow> spared path d d')"
proof -
  let ?t = "with_extension path ''tmp''"
  have t: "?t \<noteq> path" using assms(1) with_extension_ends[of "''tmp''" path] by auto
  obtain r1 d1 h1 where c: "curl_download cli wrote version url ?t (d, h) = (r1, d1, h1)" by (metis prod_cases3)
  have k: "cli h (download_argv version url ?t) = Exited (Some 0) s so se \<Longrightarrow> wrote (download_argv version url ?t) = Some (body url)" for s so se
    using assms(2) unfolding complete_downloads_def by blast
  have w: "d1 = d \<or> (\<exists>b. writable d ?t \<and> d1 = d\<lparr>contents := (contents d)(?t \<mapsto> b)\<rparr>)"
    "r1 = Inr () \<longrightarrow> writable d ?t \<longrightarrow> contents d1 ?t = Some (body url)"
    using c k unfolding curl_download_def Let_def by (auto split: if_splits cli_out.splits option.splits)
  have same: "only_beside path d d1" "spared path d d1" "writable d1 = writable d"
    using w(1) t by (auto simp: only_beside_def spared_def)
  show ?thesis
  proof (cases r1)
    case (Inl e)
    then show ?thesis using assms(3) c same unfolding install_def Let_def io_seq_def io_bind_def by auto
  next
    case (Inr u)
    obtain r2 d2 where s: "set_executable ?t d1 = (r2, d2)" by (metis prod.collapse)
    have same2: "only_beside path d d2" "spared path d d2" "contents d2 = contents d1" "writable d2 = writable d"
      "r2 = Inr () \<longrightarrow> writable d ?t \<and> executable d2 ?t"
      using s same t by (auto simp: set_executable_def only_beside_def spared_def split: if_splits)
    show ?thesis
    proof (cases r2)
      case (Inl e)
      then show ?thesis using assms(3) c s \<open>r1 = Inr u\<close> same2 unfolding install_def Let_def io_seq_def io_bind_def on_files_def by auto
    next
      case (Inr u')
      have e: "replace_binary ?t path d2 = (r, d')"
        using assms(3) c s \<open>r1 = Inr u\<close> Inr unfolding install_def Let_def io_seq_def io_bind_def on_files_def
        by (auto split: prod.splits)
      have "writable d ?t" "executable d2 ?t" using Inr same2(5) by auto
      moreover have "contents d2 ?t = Some (body url)" using w(2) \<open>r1 = Inr u\<close> same2(3) \<open>writable d ?t\<close> by simp
      ultimately show ?thesis
        using e t same2(1,2,4) unfolding replace_binary_def rename_file_def remove_file_def is_file_def
        by (auto simp: only_beside_def spared_def installed_def split: if_splits)
    qed
  qed
qed

lemma update_steps:
  "update_cmd cli wrote decode os arch version (Inr path) force (d, h) =
    (case detect_target os arch of Inl e \<Rightarrow> (Inl e, d, h)
     | Inr target \<Rightarrow>
       (case curl_get cli version latest_url h of (Inl e, h1) \<Rightarrow> (Inl e, d, h1)
        | (Inr resp, h1) \<Rightarrow>
          (case decode resp of None \<Rightarrow> (Inl ''Failed to parse GitHub API response'', d, h1)
           | Some release \<Rightarrow>
             (case latest_version release of None \<Rightarrow> (Inl ''No tag_name in GitHub response - is this a public repo with releases?'', d, h1)
              | Some latest \<Rightarrow>
                (if latest = version \<and> \<not> force then (Inr None, d, h1)
                 else (case asset_url release (''dip-'' @ target) of
                         None \<Rightarrow> (Inl (''No release asset dip-'' @ target @ '' found for this platform.''), d, h1)
                       | Some url \<Rightarrow>
                         (case install cli wrote version url path (d, h1) of
                            (Inl e, s) \<Rightarrow> (Inl e, s) | (Inr _, s) \<Rightarrow> (Inr (Some latest), s))))))))"
  unfolding update_cmd_def install_def io_seq_def io_bind_def of_result_def on_history_def ret_def Let_def
  by (simp split: sum.split prod.split option.split)

text \<open>What \<open>GitHub\<close> offers for this platform.\<close>

definition offered :: "(string \<Rightarrow> json option) \<Rightarrow> string \<Rightarrow> string \<Rightarrow> string \<Rightarrow> string \<Rightarrow> string \<Rightarrow> bool" where
  "offered decode resp os arch v url \<longleftrightarrow>
     (\<exists>target release. detect_target os arch = Inr target \<and> decode resp = Some release \<and>
        latest_version release = Some v \<and> asset_url release (''dip-'' @ target) = Some url)"

lemma curl_get_Inr: "curl_get cli version u h = (Inr resp, h1) \<Longrightarrow> \<exists>s se. cli h (curl_get_argv version u) = Exited (Some 0) s resp se"
  by (auto simp: curl_get_def split: cli_out.splits if_splits)

text \<open>
  C22. An update replaces the binary by the complete asset of its own platform in the release that
  was asked for, executable, or leaves it as it was; it reports a version only in the first case.
  Apart from the temporary file beside it no other file changes, and after a success that is gone.
\<close>

theorem update_replaces_whole:
  assumes "\<not> ends_with ''.tmp'' path" "complete_downloads cli wrote body"
    and "update_cmd cli wrote decode os arch version (Inr path) force (d, h) = (r, d', h')"
  shows "only_beside path d d' \<and>
    (case r of
       Inr (Some v) \<Rightarrow> \<exists>s resp se url. cli h (curl_get_argv version latest_url) = Exited (Some 0) s resp se \<and>
         offered decode resp os arch v url \<and> (v \<noteq> version \<or> force) \<and> installed path (body url) d d'
     | _ \<Rightarrow> spared path d d')"
proof -
  have same: "only_beside path d d" "spared path d d" by (simp_all add: only_beside_def spared_def)
  consider (no) "d' = d" "\<forall>v. r \<noteq> Inr (Some v)"
    | (go) target resp h1 release v url ri where "detect_target os arch = Inr target" "curl_get cli version latest_url h = (Inr resp, h1)"
        "decode resp = Some release" "latest_version release = Some v" "asset_url release (''dip-'' @ target) = Some url"
        "v \<noteq> version \<or> force" "install cli wrote version url path (d, h1) = (ri, d', h')"
        "r = (case ri of Inl e \<Rightarrow> Inl e | Inr _ \<Rightarrow> Inr (Some v))"
    using assms(3) unfolding update_steps by (auto split: sum.splits option.splits if_splits prod.splits)
  then show ?thesis
  proof cases
    case no
    then show ?thesis using same by (auto split: sum.split option.split)
  next
    case go
    have i: "only_beside path d d'" "case ri of Inr _ \<Rightarrow> installed path (body url) d d' | Inl _ \<Rightarrow> spared path d d'"
      using install_correct[OF assms(1,2) go(7)] by simp_all
    have "offered decode resp os arch v url" using go unfolding offered_def by blast
    then show ?thesis
      using i go(6,8) curl_get_Inr[OF go(2)] by (cases ri) auto
  qed
qed

definition demo_release :: json where
  "demo_release =
     JObj [(''assets'', JArr [JObj [(''browser_download_url'', JStr ''https://x/dip''), (''name'', JStr ''dip-x86_64-unknown-linux-musl'')]]),
           (''tag_name'', JStr ''v1.0.0'')]"

definition demo_curl :: "int \<Rightarrow> cli" where
  "demo_curl x h argv = (if h = [] then Exited (Some 0) None ''release'' [] else Exited (Some x) None [] [])"

definition demo_decode :: "string \<Rightarrow> json option" where
  "demo_decode s = (if s = ''release'' then Some demo_release else None)"

definition run_demo :: "int \<Rightarrow> string \<Rightarrow> (string + string option) \<times> disk \<times> hist" where
  "run_demo x version =
     update_cmd (demo_curl x) (\<lambda>_. Some ''new'') demo_decode ''linux'' ''x86_64'' version (Inr ''/bin/dip'') False
       (open_disk [(''/bin/dip'', ''old'')], [])"

theorem update_replaces_whole_witness:
  "fst (run_demo 0 ''0.9.0'') = Inr (Some ''1.0.0'')
   \<and> installed ''/bin/dip'' ''new'' (open_disk [(''/bin/dip'', ''old'')]) (fst (snd (run_demo 0 ''0.9.0'')))"
proof -
  have n: "\<not> ends_with ''.tmp'' ''/bin/dip''" by code_simp
  have w: "complete_downloads (demo_curl 0) (\<lambda>_. Some ''new'') (\<lambda>_. ''new'')" by (simp add: complete_downloads_def)
  have f: "fst (run_demo 0 ''0.9.0'') = Inr (Some ''1.0.0'')" by code_simp
  obtain d' h' where e: "run_demo 0 ''0.9.0'' = (Inr (Some ''1.0.0''), d', h')" using f by (metis prod.collapse)
  show ?thesis
    using update_replaces_whole[OF n w e[unfolded run_demo_def]] unfolding e by auto
qed

text \<open>A release that is older than the binary counts as a new version.\<close>

theorem older_release_installed: "fst (run_demo 0 ''2.0.0'') = Inr (Some ''1.0.0'')"
  by code_simp

text \<open>A download that breaks off leaves its temporary file behind.\<close>

theorem failed_download_stays:
  "fst (run_demo 22 ''0.9.0'') = Inl ''Download failed''
   \<and> contents (fst (snd (run_demo 22 ''0.9.0''))) ''/bin/dip.tmp'' = Some ''new''"
  by code_simp

end
