(* ===== verification/Dip_Daemon.thy ===== *)
theory Dip_Daemon
  imports Dip_Routes
begin

text \<open>
  The process of the proxy daemon (\<open>commands/proxy/daemon.rs\<close>): the pid
  file, the process table that \<open>kill\<close> asks and changes, starting and stopping with its waits. The
  state is what the kernel and the file hold; the abstract daemon of \<open>Dip_Routes\<close>, a flag and a
  list of events, is its view.
\<close>

section \<open>Processes\<close>

text \<open>
  \<open>ttl\<close> counts the ticks of 100 ms after which a process is gone, if it is ending. Entry 0 stands for
  the process group of the caller, which is what \<open>kill\<close> means by it.
\<close>

record process =
  owner :: nat
  is_proxy :: bool
  ttl :: "nat option"

record system =
  procs :: "nat \<Rightarrow> process option"
  pid_file :: "string option"
  signals :: "daemon_event list"

text \<open>\<open>kill\<close> succeeds on a process that exists and belongs to the caller; root may signal all.\<close>

definition may_signal :: "nat \<Rightarrow> system \<Rightarrow> nat \<Rightarrow> bool" where
  "may_signal uid s pid \<longleftrightarrow> (case procs s pid of None \<Rightarrow> False | Some p \<Rightarrow> uid = 0 \<or> owner p = uid)"

definition age :: "process \<Rightarrow> process option" where
  "age p = (case ttl p of None \<Rightarrow> Some p | Some 0 \<Rightarrow> None | Some (Suc n) \<Rightarrow> Some (p\<lparr>ttl := Some n\<rparr>))"

definition tick :: "system \<Rightarrow> system" where
  "tick s = s\<lparr>procs := (\<lambda>pid. Option.bind (procs s pid) age)\<rparr>"

definition parse_u32 :: "string \<Rightarrow> nat option" where
  "parse_u32 = parse_uint 4294967295"

definition daemon_pid :: "nat \<Rightarrow> system \<Rightarrow> nat option" where
  "daemon_pid uid s =
     Option.bind (pid_file s) (\<lambda>content.
     Option.bind (parse_u32 (trim content)) (\<lambda>pid.
       if may_signal uid s pid then Some pid else None))"

definition sighup :: "nat \<Rightarrow> system \<Rightarrow> system" where
  "sighup uid s = (case daemon_pid uid s of Some _ \<Rightarrow> s\<lparr>signals := signals s @ [Hup]\<rparr> | None \<Rightarrow> s)"

section \<open>Stopping\<close>

text \<open>A process that gets the signal ends \<open>lag\<close> ticks later.\<close>

definition terminate :: "nat \<Rightarrow> nat \<Rightarrow> system \<Rightarrow> system" where
  "terminate lag pid s =
     s\<lparr>procs := (procs s)(pid := map_option (\<lambda>p. p\<lparr>ttl := Some lag\<rparr>) (procs s pid)), signals := signals s @ [Stop]\<rparr>"

fun wait_gone :: "nat \<Rightarrow> nat \<Rightarrow> system \<Rightarrow> system" where
  "wait_gone 0 uid s = s"
| "wait_gone (Suc n) uid s =
     (let s1 = tick s in if daemon_pid uid s1 = None then s1 else wait_gone n uid s1)"

definition stop_checks :: nat where
  "stop_checks = 20"

definition remove_pid_file :: "system \<Rightarrow> system" where
  "remove_pid_file s = s\<lparr>pid_file := None\<rparr>"

definition run_stop :: "nat \<Rightarrow> nat \<Rightarrow> system \<Rightarrow> system" where
  "run_stop uid lag s =
     (case daemon_pid uid s of
        None \<Rightarrow> s
      | Some pid \<Rightarrow> remove_pid_file (wait_gone stop_checks uid (terminate lag pid s)))"

section \<open>Starting\<close>

text \<open>
  What the start of the daemon meets: failures of the log directory, of the log, of the child and of
  the pid file, the pid the kernel gives, and after how many ticks the child is gone, if it ends.
\<close>

record spawning =
  log_dir_fails :: "string option"
  log_fails :: "string option"
  child_fails :: "string option"
  pid_file_fails :: "string option"
  new_pid :: nat
  new_ttl :: "nat option"

definition first_error :: "string option list \<Rightarrow> string option" where
  "first_error es = (case filter (\<lambda>e. e \<noteq> None) es of [] \<Rightarrow> None | e # _ \<Rightarrow> e)"

definition wait_400ms :: "system \<Rightarrow> system" where
  "wait_400ms s = tick (tick (tick (tick s)))"

text \<open>Whether the child still runs after the wait is only printed.\<close>

definition spawn :: "nat \<Rightarrow> spawning \<Rightarrow> system \<Rightarrow> (string + unit) \<times> system" where
  "spawn uid sp s =
     (case first_error [log_dir_fails sp, log_fails sp, child_fails sp] of
        Some e \<Rightarrow> (Inl e, s)
      | None \<Rightarrow>
          (let s1 = s\<lparr>procs := (procs s)(new_pid sp \<mapsto> \<lparr>owner = uid, is_proxy = True, ttl = new_ttl sp\<rparr>),
                      signals := signals s @ [Spawn]\<rparr>
           in case pid_file_fails sp of
                Some e \<Rightarrow> (Inl e, s1)
              | None \<Rightarrow> (Inr (), wait_400ms (s1\<lparr>pid_file := Some (show_nat (new_pid sp))\<rparr>))))"

text \<open>\<open>port_in_use\<close>: the fields of \<open>lsof -F cpn\<close>; the scan stops when it has both.\<close>

fun lsof_fields :: "string list \<Rightarrow> string \<times> string \<Rightarrow> string \<times> string" where
  "lsof_fields [] r = r"
| "lsof_fields (l # ls) (pid, cmd) =
     (let r = (case l of
                 [] \<Rightarrow> (pid, cmd)
               | c # t \<Rightarrow> (if c = CHR ''p'' then (t, cmd) else if c = CHR ''c'' then (pid, t) else (pid, cmd)))
      in if fst r \<noteq> [] \<and> snd r \<noteq> [] then r else lsof_fields ls r)"

definition lsof_argv :: "nat \<Rightarrow> string \<Rightarrow> string list" where
  "lsof_argv port proto =
     [''lsof'', ''-i'', proto @ '':'' @ show_nat port, ''-n'', ''-P'', ''-F'', ''cpn'']
     @ (if proto = ''tcp'' then [''-sTCP:LISTEN''] else [])"

definition port_in_use :: "cli \<Rightarrow> nat \<Rightarrow> string \<Rightarrow> string option io" where
  "port_in_use cli port proto =
     io_bind (call cli (lsof_argv port proto)) (\<lambda>out.
       ret (case out of
              Spawn_error _ \<Rightarrow> None
            | Exited c s so se \<Rightarrow>
                (if c \<noteq> Some 0 \<or> so = [] then None
                 else (case lsof_fields (str_lines so) ([], []) of
                         (pid, cmd) \<Rightarrow>
                           (if cmd = [] then None
                            else Some (if pid = [] then cmd else cmd @ '' (PID '' @ pid @ '')''))))))"

text \<open>\<open>check_port_conflicts\<close>: the HTTP and HTTPS ports are required, a busy DNS port is only a warning.\<close>

definition blocking_line :: "nat \<times> string \<Rightarrow> string" where
  "blocking_line b = [nl] @ ''  :'' @ show_nat (fst b) @ '' is used by '' @ snd b"

definition conflict_message :: "(nat \<times> string) list \<Rightarrow> string" where
  "conflict_message blocking =
     ''Port conflict - cannot start proxy:'' @ [nl] @ concat (map blocking_line blocking)
     @ [nl, nl] @ ''Options:'' @ [nl] @ ''  * Stop the conflicting process and retry''
     @ [nl] @ ''  * Or run with sudo if another dip/nginx is holding the port''"

definition check_port_conflicts :: "cli \<Rightarrow> proxy_config \<Rightarrow> unit io" where
  "check_port_conflicts cli cfg =
     io_bind (port_in_use cli (unat (http_port cfg)) ''tcp'') (\<lambda>h.
     io_bind (port_in_use cli (unat (https_port cfg)) ''tcp'') (\<lambda>hs.
     io_bind (port_in_use cli (unat (dns_port cfg)) ''udp'') (\<lambda>_.
       (let blocking = collect_opts [map_option (Pair (unat (http_port cfg))) h, map_option (Pair (unat (https_port cfg))) hs]
        in if blocking = [] then ret () else bail (conflict_message blocking)))))"

text \<open>
  \<open>run_start\<close> after its questions: \<open>conflicts\<close> is the outcome of the check of the ports, \<open>certified\<close> says
  whether there is a server certificate, \<open>init\<close> is \<open>dip proxy init\<close>.
\<close>

definition run_start :: "nat \<Rightarrow> string + unit \<Rightarrow> bool \<Rightarrow> string + unit \<Rightarrow> spawning \<Rightarrow> system \<Rightarrow> (string + unit) \<times> system" where
  "run_start uid conflicts certified init sp s =
     (case daemon_pid uid s of
        Some _ \<Rightarrow> (Inr (), s)
      | None \<Rightarrow>
          (case conflicts of
             Inl e \<Rightarrow> (Inl e, s)
           | Inr _ \<Rightarrow>
               (case if certified then Inr () else init of
                  Inl e \<Rightarrow> (Inl e, s)
                | Inr _ \<Rightarrow> spawn uid sp s)))"

section \<open>Logs\<close>

definition run_logs :: "cli \<Rightarrow> bool \<Rightarrow> string \<Rightarrow> nat \<Rightarrow> unit io" where
  "run_logs cli exists log lines =
     (if \<not> exists then ret ()
      else io_bind (call cli [''tail'', ''-n'', show_nat lines, ''-f'', log]) (\<lambda>out.
        (case out of
           Spawn_error e \<Rightarrow> bail (''failed to run tail: '' @ e)
         | Exited c s so se \<Rightarrow> (if c = Some 130 \<or> c = Some 0 then ret () else bail ''tail exited with an error''))))"

section \<open>One daemon, and the file names it\<close>

text \<open>Every living proxy is the caller's and the one in the pid file; so there is at most one.\<close>

definition tracked :: "nat \<Rightarrow> system \<Rightarrow> bool" where
  "tracked uid s \<longleftrightarrow>
     (\<forall>pid p. procs s pid = Some p \<and> is_proxy p \<longrightarrow>
        owner p = uid \<and> pid \<le> 4294967295 \<and> pid_file s = Some (show_nat pid))"

inductive daemon_step :: "nat \<Rightarrow> system \<Rightarrow> system \<Rightarrow> bool" for uid where
  start: "procs s (new_pid sp) = None \<Longrightarrow> new_pid sp \<le> 4294967295 \<Longrightarrow> pid_file_fails sp = None
     \<Longrightarrow> run_start uid conflicts certified init sp s = (r, s') \<Longrightarrow> daemon_step uid s s'"
| stop: "lag < stop_checks \<Longrightarrow> daemon_step uid s (run_stop uid lag s)"
| reload: "daemon_step uid s (sighup uid s)"
| pass: "daemon_step uid s (tick s)"
| other: "procs s pid = None \<Longrightarrow> \<not> is_proxy p \<Longrightarrow> daemon_step uid s (s\<lparr>procs := (procs s)(pid \<mapsto> p)\<rparr>)"
| crash: "daemon_step uid s (s\<lparr>procs := (procs s)(pid := None)\<rparr>)"

lemma trim_show_nat [simp]: "trim (show_nat n) = show_nat n"
proof -
  have d: "is_digit (hd (show_nat n))" "is_digit (last (show_nat n))"
    using show_nat_digit show_nat_nonempty by (meson hd_in_set last_in_set)+
  have "\<not> is_ws c" if "is_digit c" for c
    using is_digit_neq[OF that] that by (auto simp: is_ws_def is_digit_def)
  with d show ?thesis by (simp add: trim_tidy tidy_def)
qed

lemma age_back: "age p = Some p' \<Longrightarrow> is_proxy p' = is_proxy p \<and> owner p' = owner p"
  by (auto simp: age_def split: option.splits nat.splits)

lemma daemon_pid_file:
  "pid_file s = Some (show_nat pid) \<Longrightarrow> pid \<le> 4294967295 \<Longrightarrow>
   daemon_pid uid s = (if may_signal uid s pid then Some pid else None)"
  by (simp add: daemon_pid_def parse_u32_def parse_uint_show_nat)

lemma daemon_pid_tracked:
  assumes "tracked uid s" "procs s pid = Some p" "is_proxy p"
  shows "daemon_pid uid s = Some pid"
proof -
  have "owner p = uid" "pid \<le> 4294967295" "pid_file s = Some (show_nat pid)"
    using assms unfolding tracked_def by blast+
  then show ?thesis using assms(2) by (simp add: daemon_pid_file may_signal_def)
qed

lemma tick_back:
  "procs (tick s) pid = Some p' \<Longrightarrow> \<exists>p. procs s pid = Some p \<and> is_proxy p = is_proxy p' \<and> owner p = owner p'"
  by (auto simp: tick_def bind_eq_Some_conv dest: age_back)

lemma tick_fields [simp]: "pid_file (tick s) = pid_file s" "signals (tick s) = signals s"
  by (simp_all add: tick_def)

lemma ticks_back:
  "procs ((tick ^^ n) s) pid = Some p' \<Longrightarrow> \<exists>p. procs s pid = Some p \<and> is_proxy p = is_proxy p' \<and> owner p = owner p'"
proof (induction n arbitrary: p')
  case (Suc n)
  then show ?case using tick_back[of "(tick ^^ n) s" pid p'] by fastforce
qed simp

lemma ticks_fields [simp]: "pid_file ((tick ^^ n) s) = pid_file s" "signals ((tick ^^ n) s) = signals s"
  by (induction n) simp_all

text \<open>The wait ends with the process, when that ends within its checks.\<close>

lemma wait_gone_ticks:
  assumes "procs s pid = Some p" "ttl p = Some l" "l < n" "pid_file s = Some c" "parse_u32 (trim c) = Some pid" "may_signal uid s pid"
  shows "wait_gone n uid s = (tick ^^ Suc l) s \<and> procs ((tick ^^ Suc l) s) pid = None"
  using assms
proof (induction n arbitrary: s p l)
  case (Suc n)
  show ?case
  proof (cases l)
    case 0
    then have "procs (tick s) pid = None" using Suc.prems by (simp add: tick_def age_def)
    moreover from this have "daemon_pid uid (tick s) = None" using Suc.prems by (simp add: daemon_pid_def may_signal_def)
    ultimately show ?thesis using 0 by simp
  next
    case (Suc k)
    let ?p = "p\<lparr>ttl := Some k\<rparr>"
    have t: "procs (tick s) pid = Some ?p" using Suc.prems(1,2) Suc by (simp add: tick_def age_def)
    have m: "may_signal uid (tick s) pid" using Suc.prems(1,6) t by (simp add: may_signal_def)
    then have d: "daemon_pid uid (tick s) \<noteq> None" using Suc.prems(4,5) by (simp add: daemon_pid_def)
    have "wait_gone n uid (tick s) = (tick ^^ Suc k) (tick s) \<and> procs ((tick ^^ Suc k) (tick s)) pid = None"
      using Suc.IH[OF t _ _ _ Suc.prems(5) m, of k] Suc.prems(3,4) Suc by (simp del: funpow.simps)
    moreover have "wait_gone (Suc n) uid s = wait_gone n uid (tick s)" using d by (auto simp: Let_def)
    moreover have "(tick ^^ Suc l) s = (tick ^^ Suc k) (tick s)" using Suc by (simp add: funpow_swap1)
    ultimately show ?thesis by presburger
  qed
qed simp

lemma run_stop_Some:
  assumes "daemon_pid uid s = Some pid" "lag < stop_checks"
  shows "run_stop uid lag s = remove_pid_file ((tick ^^ Suc lag) (terminate lag pid s)) \<and> procs (run_stop uid lag s) pid = None"
proof -
  obtain c where c: "pid_file s = Some c" "parse_u32 (trim c) = Some pid" "may_signal uid s pid"
    using assms(1) by (auto simp: daemon_pid_def bind_eq_Some_conv split: if_splits)
  then obtain p where p: "procs s pid = Some p" by (auto simp: may_signal_def split: option.splits)
  let ?t = "terminate lag pid s"
  have "procs ?t pid = Some (p\<lparr>ttl := Some lag\<rparr>)" "may_signal uid ?t pid" "pid_file ?t = Some c"
    using p c by (simp_all add: terminate_def may_signal_def)
  then show ?thesis
    using wait_gone_ticks[of ?t pid _ lag stop_checks c uid] c(2) assms
    by (simp add: run_stop_def remove_pid_file_def del: funpow.simps)
qed

lemma terminate_back:
  "procs (terminate lag pid s) q = Some p' \<Longrightarrow> \<exists>p. procs s q = Some p \<and> is_proxy p = is_proxy p' \<and> owner p = owner p'"
  by (auto simp: terminate_def split: if_splits)

text \<open>After a stop no proxy is left.\<close>

lemma run_stop_none:
  assumes "tracked uid s" "lag < stop_checks" "procs (run_stop uid lag s) q = Some p'"
  shows "\<not> is_proxy p'"
proof
  assume px: "is_proxy p'"
  show False
  proof (cases "daemon_pid uid s")
    case None
    then show ?thesis using assms(3) px daemon_pid_tracked[OF assms(1)] by (simp add: run_stop_def)
  next
    case (Some pid)
    note r = run_stop_Some[OF Some assms(2)]
    then have "procs ((tick ^^ Suc lag) (terminate lag pid s)) q = Some p'" using assms(3) by (simp add: remove_pid_file_def del: funpow.simps)
    then obtain p where "procs s q = Some p" "is_proxy p" using ticks_back terminate_back px by blast
    then have "q = pid" using daemon_pid_tracked[OF assms(1)] Some by simp
    then show ?thesis using conjunct2[OF r] assms(3) by simp
  qed
qed

lemma tracked_none: "(\<And>q p. procs s q = Some p \<Longrightarrow> \<not> is_proxy p) \<Longrightarrow> tracked uid s"
  unfolding tracked_def by blast

lemma tracked_tick: "tracked uid s \<Longrightarrow> tracked uid (tick s)"
  unfolding tracked_def tick_fields using tick_back by metis

lemma tracked_spawn:
  assumes "tracked uid s" "daemon_pid uid s = None" "new_pid sp \<le> 4294967295" "pid_file_fails sp = None"
    "spawn uid sp s = (r, s')"
  shows "tracked uid s'"
proof -
  have none: "\<not> is_proxy p" if "procs s q = Some p" for q p
    using daemon_pid_tracked[OF assms(1) that] assms(2) by auto
  let ?s = "s\<lparr>procs := (procs s)(new_pid sp \<mapsto> \<lparr>owner = uid, is_proxy = True, ttl = new_ttl sp\<rparr>),
              signals := signals s @ [Spawn], pid_file := Some (show_nat (new_pid sp))\<rparr>"
  have t: "tracked uid ?s" using none assms(3) unfolding tracked_def by auto
  have "s' = s \<or> s' = wait_400ms ?s"
    using assms(4,5) by (auto simp: spawn_def Let_def split: option.splits)
  then show ?thesis using assms(1) t by (auto simp only: wait_400ms_def intro!: tracked_tick)
qed

lemma tracked_step: "daemon_step uid s s' \<Longrightarrow> tracked uid s \<Longrightarrow> tracked uid s'"
proof (induction rule: daemon_step.induct)
  case (start s sp conflicts certified init r s')
  then show ?case
    by (auto simp: run_start_def split: option.splits sum.splits if_splits intro: tracked_spawn)
next
  case (stop lag s)
  then show ?case using run_stop_none by (blast intro: tracked_none)
next
  case (pass s)
  then show ?case by (rule tracked_tick)
qed (auto simp: sighup_def tracked_def split: option.split)

lemma tracked_steps: "(daemon_step uid)\<^sup>*\<^sup>* s0 s \<Longrightarrow> tracked uid s0 \<Longrightarrow> tracked uid s"
  by (induction rule: rtranclp_induct) (blast intro: tracked_step)+

section \<open>The daemon of the sync\<close>

text \<open>What \<open>sync_from_project\<close> does with the daemon, on processes.\<close>

definition notify :: "nat \<Rightarrow> nat \<Rightarrow> spawning \<Rightarrow> bool \<Rightarrow> bool \<Rightarrow> system \<Rightarrow> (string + unit) \<times> system" where
  "notify uid lag sp starts renewed s =
     (case daemon_pid uid s of
        Some _ \<Rightarrow> (if renewed then spawn uid sp (run_stop uid lag s) else (Inr (), sighup uid s))
      | None \<Rightarrow> (if starts then spawn uid sp s else (Inr (), s)))"

definition daemon_view :: "nat \<Rightarrow> system \<Rightarrow> proxy_state \<Rightarrow> proxy_state" where
  "daemon_view uid s px = px\<lparr>daemon_up := (daemon_pid uid s \<noteq> None), daemon_events := signals s\<rparr>"

text \<open>The child is still there after the wait of 400 ms.\<close>

definition outlives :: "spawning \<Rightarrow> bool" where
  "outlives sp \<longleftrightarrow> (case new_ttl sp of None \<Rightarrow> True | Some n \<Rightarrow> 4 \<le> n)"

lemma age_4:
  "Option.bind (Option.bind (Option.bind (Option.bind (Some p) age) age) age) age =
     (case ttl p of None \<Rightarrow> Some p | Some n \<Rightarrow> if 4 \<le> n then Some (p\<lparr>ttl := Some (n - 4)\<rparr>) else None)"
  by (auto simp: age_def eval_nat_numeral split: option.split nat.split)

lemma spawned_pid:
  assumes "procs s (new_pid sp) = Some \<lparr>owner = uid, is_proxy = True, ttl = new_ttl sp\<rparr>" "pid_file s = Some (show_nat (new_pid sp))"
    "new_pid sp \<le> 4294967295"
  shows "daemon_pid uid (wait_400ms s) \<noteq> None \<longleftrightarrow> outlives sp"
proof -
  have "procs (wait_400ms s) (new_pid sp) =
    Option.bind (Option.bind (Option.bind (Option.bind (procs s (new_pid sp)) age) age) age) age"
    by (simp add: wait_400ms_def tick_def)
  then have a: "may_signal uid (wait_400ms s) (new_pid sp) \<longleftrightarrow> outlives sp"
    unfolding assms(1) age_4 by (auto simp: may_signal_def outlives_def split: option.split)
  have "pid_file (wait_400ms s) = Some (show_nat (new_pid sp))" using assms(2) by (simp add: wait_400ms_def)
  from daemon_pid_file[OF this assms(3), of uid] a show ?thesis by simp
qed

lemma spawn_refines:
  assumes "pid_file_fails sp = None" "new_pid sp \<le> 4294967295"
    "spawn_fails o1 = first_error [log_dir_fails sp, log_fails sp, child_fails sp]" "spawn_alive o1 = outlives sp"
  shows "(case spawn uid sp s of (r, s') \<Rightarrow> (r, daemon_view uid s' px)) = spawn_daemon o1 (daemon_view uid s px)"
proof (cases "spawn_fails o1")
  case None
  let ?s = "s\<lparr>procs := (procs s)(new_pid sp \<mapsto> \<lparr>owner = uid, is_proxy = True, ttl = new_ttl sp\<rparr>),
              signals := signals s @ [Spawn], pid_file := Some (show_nat (new_pid sp))\<rparr>"
  have "daemon_pid uid (wait_400ms ?s) \<noteq> None \<longleftrightarrow> outlives sp" by (rule spawned_pid) (simp_all add: assms)
  moreover have "signals (wait_400ms ?s) = signals s @ [Spawn]" by (simp add: wait_400ms_def)
  moreover have "spawn uid sp s = (Inr (), wait_400ms ?s)"
    using None assms(1,3) by (simp add: spawn_def)
  ultimately show ?thesis using None assms(4) by (simp add: daemon_view_def spawn_daemon_def)
next
  case (Some e)
  then show ?thesis using assms(3) by (simp add: spawn_def spawn_daemon_def)
qed

lemma stop_fields:
  "signals (remove_pid_file s) = signals s" "pid_file (remove_pid_file s) = None"
  "signals (terminate lag pid s) = signals s @ [Stop]"
  by (simp_all add: remove_pid_file_def terminate_def)

lemma stop_refines:
  assumes "lag < stop_checks"
  shows "daemon_view uid (run_stop uid lag s) px = stop_daemon (daemon_view uid s px)"
proof (cases "daemon_pid uid s")
  case (Some pid)
  have r: "run_stop uid lag s = remove_pid_file ((tick ^^ Suc lag) (terminate lag pid s))"
    using run_stop_Some[OF Some assms] by blast
  have "signals (run_stop uid lag s) = signals s @ [Stop]" "pid_file (run_stop uid lag s) = None"
    unfolding r by (simp_all only: stop_fields ticks_fields)
  moreover from this(2) have "daemon_pid uid (run_stop uid lag s) = None" by (simp add: daemon_pid_def)
  ultimately show ?thesis using Some by (simp add: daemon_view_def stop_daemon_def)
qed (simp add: run_stop_def stop_daemon_def daemon_view_def)

lemma view_px: "daemon_view uid s (daemon_view uid s' px) = daemon_view uid s px"
  by (simp add: daemon_view_def)



section \<open>Witnesses and exceptions\<close>

definition idle :: system where
  "idle = \<lparr>procs = (\<lambda>_. None), pid_file = Some ''17'', signals = []\<rparr>"

definition good_spawn :: spawning where
  "good_spawn = \<lparr>log_dir_fails = None, log_fails = None, child_fails = None, pid_file_fails = None, new_pid = 42, new_ttl = None\<rparr>"

definition started :: system where
  "started = snd (spawn 501 good_spawn idle)"

lemma parse_17: "parse_u32 (trim ''17'') = Some 17"
proof -
  have "trim ''17'' = ''17''" by code_simp
  then show ?thesis by (simp add: parse_u32_def parse_uint_def all_digits_def is_digit_def digits_val_def digit_val_def)
qed

lemma daemon_17: "pid_file s = Some ''17'' \<Longrightarrow> daemon_pid uid s = (if may_signal uid s 17 then Some 17 else None)"
  by (simp add: daemon_pid_def parse_17)

text \<open>A process that outlasts the checks is still there.\<close>

lemma wait_gone_slow:
  "procs s pid = Some p \<Longrightarrow> ttl p = Some l \<Longrightarrow> n \<le> l \<Longrightarrow> procs (wait_gone n uid s) pid \<noteq> None"
proof (induction n arbitrary: s p l)
  case (Suc n)
  then obtain k where k: "l = Suc k" "n \<le> k" by (cases l) auto
  have t: "procs (tick s) pid = Some (p\<lparr>ttl := Some k\<rparr>)" using Suc.prems k by (simp add: tick_def age_def)
  then have "procs (wait_gone n uid (tick s)) pid \<noteq> None" using Suc.IH[OF t _ k(2)] by simp
  then show ?case using t by (simp add: Let_def)
qed simp

lemma started_eq:
  "started = wait_400ms (idle\<lparr>procs := [42 \<mapsto> \<lparr>owner = 501, is_proxy = True, ttl = None\<rparr>], signals := [Spawn], pid_file := Some (show_nat 42)\<rparr>)"
  by (simp add: started_def spawn_def good_spawn_def first_error_def idle_def)

lemma started_proc: "procs started 42 = Some \<lparr>owner = 501, is_proxy = True, ttl = None\<rparr>" "pid_file started = Some (show_nat 42)"
  by (simp_all add: started_eq wait_400ms_def tick_def age_def)

lemma started_pid: "daemon_pid 501 started = Some 42"
  using daemon_pid_file[OF started_proc(2), of 501] started_proc(1) by (simp add: may_signal_def)



text \<open>A stale pid file whose number belongs to another process of the user: \<open>stop\<close> ends that process.\<close>

theorem stop_kills_stranger:
  "procs (run_stop 501 0 (idle\<lparr>procs := [17 \<mapsto> \<lparr>owner = 501, is_proxy = False, ttl = None\<rparr>]\<rparr>)) 17 = None"
proof -
  let ?s = "idle\<lparr>procs := [17 \<mapsto> \<lparr>owner = 501, is_proxy = False, ttl = None\<rparr>]\<rparr>"
  have "daemon_pid 501 ?s = Some 17" by (subst daemon_17) (simp_all add: idle_def may_signal_def)
  from conjunct2[OF run_stop_Some[OF this, of 0]] show ?thesis by (simp add: stop_checks_def)
qed

text \<open>A daemon that needs longer than the twenty checks lives on while its pid file is removed.\<close>

theorem slow_daemon_forgotten:
  "procs (run_stop 501 30 started) 42 \<noteq> None \<and> daemon_pid 501 (run_stop 501 30 started) = None"
proof -
  have "procs (terminate 30 42 started) 42 = Some \<lparr>owner = 501, is_proxy = True, ttl = Some 30\<rparr>"
    by (simp add: terminate_def started_proc)
  then have "procs (wait_gone stop_checks 501 (terminate 30 42 started)) 42 \<noteq> None"
    using wait_gone_slow[of "terminate 30 42 started" 42 _ 30 stop_checks 501] by (simp add: stop_checks_def)
  moreover have r: "run_stop 501 30 started = remove_pid_file (wait_gone stop_checks 501 (terminate 30 42 started))"
    by (simp add: run_stop_def started_pid)
  moreover have "daemon_pid 501 (run_stop 501 30 started) = None"
    unfolding r by (simp add: daemon_pid_def stop_fields)
  ultimately show ?thesis by (simp add: remove_pid_file_def)
qed

text \<open>When the pid file cannot be written the child runs on, and nothing knows it.\<close>

theorem unwritten_pid_orphans:
  "case spawn 501 (good_spawn\<lparr>pid_file_fails := Some ''read-only''\<rparr>) idle of
     (r, s) \<Rightarrow> r = Inl ''read-only'' \<and> procs s 42 \<noteq> None \<and> daemon_pid 501 s = None"
  by (simp add: spawn_def good_spawn_def first_error_def daemon_17 idle_def may_signal_def)

text \<open>A daemon that ends at once is a successful start.\<close>

theorem failed_start_succeeds:
  "case spawn 501 (good_spawn\<lparr>new_ttl := Some 0\<rparr>) idle of (r, s) \<Rightarrow> r = Inr () \<and> daemon_pid 501 s = None"
proof -
  let ?s = "idle\<lparr>procs := [42 \<mapsto> \<lparr>owner = 501, is_proxy = True, ttl = Some 0\<rparr>], signals := [Spawn], pid_file := Some (show_nat 42)\<rparr>"
  have "daemon_pid 501 (wait_400ms ?s) \<noteq> None \<longleftrightarrow> outlives (good_spawn\<lparr>new_ttl := Some 0\<rparr>)"
    by (rule spawned_pid) (simp_all add: good_spawn_def)
  then have "daemon_pid 501 (wait_400ms ?s) = None" by (simp add: outlives_def)
  moreover have "spawn 501 (good_spawn\<lparr>new_ttl := Some 0\<rparr>) idle = (Inr (), wait_400ms ?s)"
    by (simp add: spawn_def good_spawn_def first_error_def idle_def)
  ultimately show ?thesis by simp
qed

text \<open>
  Two starts that both look before either has a child: the second child cannot bind the ports and
  ends, but its number is in the pid file, so the first daemon is lost.
\<close>

theorem concurrent_start_loses_daemon:
  "case spawn 501 (good_spawn\<lparr>new_pid := 43, new_ttl := Some 0\<rparr>) started of
     (r, s) \<Rightarrow> daemon_pid 501 s = None \<and> procs s 42 \<noteq> None"
proof -
  let ?sp = "good_spawn\<lparr>new_pid := 43, new_ttl := Some 0\<rparr>"
  let ?s = "started\<lparr>procs := (procs started)(43 \<mapsto> \<lparr>owner = 501, is_proxy = True, ttl = Some 0\<rparr>),
    signals := signals started @ [Spawn], pid_file := Some (show_nat 43)\<rparr>"
  have "daemon_pid 501 (wait_400ms ?s) \<noteq> None \<longleftrightarrow> outlives ?sp"
    by (rule spawned_pid) (simp_all add: good_spawn_def)
  then have "daemon_pid 501 (wait_400ms ?s) = None" by (simp add: outlives_def)
  moreover have "procs (wait_400ms ?s) 42 \<noteq> None"
    by (simp add: wait_400ms_def tick_def age_def started_proc)
  moreover have "spawn 501 ?sp started = (Inr (), wait_400ms ?s)"
    by (simp add: spawn_def good_spawn_def first_error_def)
  ultimately show ?thesis by simp
qed

text \<open>A daemon that root has started, as the overview of the module tells to, does not run for anyone else.\<close>

theorem root_daemon_invisible:
  "case spawn 0 good_spawn idle of (_, s) \<Rightarrow> daemon_pid 0 s = Some 42 \<and> daemon_pid 501 s = None"
proof -
  let ?s = "wait_400ms (idle\<lparr>procs := [42 \<mapsto> \<lparr>owner = 0, is_proxy = True, ttl = None\<rparr>], signals := [Spawn], pid_file := Some (show_nat 42)\<rparr>)"
  have p: "procs ?s 42 = Some \<lparr>owner = 0, is_proxy = True, ttl = None\<rparr>" "pid_file ?s = Some (show_nat 42)"
    by (simp_all add: wait_400ms_def tick_def age_def)
  have "daemon_pid u ?s = (if u = 0 then Some 42 else None)" for u
    using daemon_pid_file[OF p(2), of u] p(1) by (simp add: may_signal_def)
  moreover have "spawn 0 good_spawn idle = (Inr (), ?s)"
    by (simp add: spawn_def good_spawn_def first_error_def idle_def)
  ultimately show ?thesis by simp
qed

end
