(* ===== verification/Dip_Setup.thy ===== *)
theory Dip_Setup
  imports Dip_Daemon Dip_Resolver
begin

text \<open>
  Setting the proxy up: \<open>dip proxy init\<close> and \<open>dip proxy config\<close> (\<open>commands/proxy/setup.rs\<close>) with the
  one-time part of the resolver (\<open>setup_once\<close> of \<open>dns/mod.rs\<close>). They bring together the certificates,
  the configuration, the resolver files and the daemon. The user's answers are the lines read from
  the terminal, empty where reading fails.
\<close>

datatype platform = Macos | Linux | Other_os

section \<open>The dialogue\<close>

definition prompt_input :: "string \<Rightarrow> string \<Rightarrow> string" where
  "prompt_input dflt line = (if trim line = [] then dflt else trim line)"

definition prompt_yes :: "string \<Rightarrow> bool" where
  "prompt_yes line \<longleftrightarrow> (let a = to_lower (trim line) in a = ''y'' \<or> a = ''yes'')"

record answers =
  tld_line :: string
  dns_line :: string
  port_line :: string
  servers_line :: string

definition nameserver_of :: "string \<Rightarrow> string option" where
  "nameserver_of line =
     Option.bind (strip_prefix ''nameserver'' (trim line)) (\<lambda>rest.
       let addr = trim rest in
       if starts_with ''127.'' addr \<or> addr = ''::1'' then None else Some addr)"

definition servers_of :: "string option \<Rightarrow> string list" where
  "servers_of content = (case content of None \<Rightarrow> [] | Some c \<Rightarrow> take 2 (filter_map nameserver_of (str_lines c)))"

definition read_system_dns :: "(string \<Rightarrow> string option) \<Rightarrow> string list" where
  "read_system_dns files =
     (case filter (\<lambda>s. s \<noteq> []) (map (\<lambda>p. servers_of (files p)) [''/run/systemd/resolve/resolv.conf'', ''/etc/resolv.conf'']) of
        [] \<Rightarrow> [''1.1.1.1'', ''8.8.8.8'']
      | s # _ \<Rightarrow> s)"

section \<open>The resolver, once\<close>

text \<open>
  What \<open>setup_once\<close> and the sync find: whether the directories exist and who owns them, which writes,
  moves and removals succeed, the listing of the directory after the writes.
\<close>

record dns_env =
  resolver_there :: bool
  own_resolver :: bool
  root_owned :: bool
  user :: string
  systemd_there :: bool
  can_write :: "string \<Rightarrow> bool"
  can_remove :: "string \<Rightarrow> bool"
  tmp_ok :: "string \<Rightarrow> bool"
  mv_ok :: "string \<Rightarrow> bool"
  entries :: "string list"

definition ignored :: "cli \<Rightarrow> string list \<Rightarrow> unit io" where
  "ignored cli argv = io_bind (call cli argv) (\<lambda>_. ret ())"

definition restart_resolved :: "cli \<Rightarrow> unit io" where
  "restart_resolved cli = ignored cli [''sudo'', ''systemctl'', ''restart'', ''systemd-resolved'']"

definition sync_resolver_files :: "cli \<Rightarrow> platform \<Rightarrow> dns_env \<Rightarrow> string list \<Rightarrow> nat \<Rightarrow> dir \<Rightarrow> dir io" where
  "sync_resolver_files cli os env ts port fs =
     (if os = Macos then ret (sync_resolver_files_macos ts port (can_write env) (can_remove env) (entries env) fs)
      else if os = Linux \<and> systemd_there env then
        (case sync_resolver_files_linux ts (tmp_ok env) (mv_ok env) (can_remove env) (entries env) fs of
           (again, fs') \<Rightarrow> io_seq (if again then restart_resolved cli else ret ()) (ret fs'))
      else ret fs)"

definition setup_once_macos :: "cli \<Rightarrow> dns_env \<Rightarrow> string list \<Rightarrow> nat \<Rightarrow> dir \<Rightarrow> dir io" where
  "setup_once_macos cli env ts port fs =
     io_seq (if resolver_there env then ret ()
             else io_bind (call cli [''sudo'', ''mkdir'', ''-p'', ''/etc/resolver'']) (\<lambda>out.
               if succeeded out then ret () else bail ''Failed to create /etc/resolver''))
     (io_seq (if \<not> own_resolver env \<or> root_owned env
              then ignored cli [''sudo'', ''chown'', ''-R'', user env, ''/etc/resolver''] else ret ())
     (sync_resolver_files cli Macos env ts port fs))"

definition setup_linux :: "cli \<Rightarrow> dns_env \<Rightarrow> string list \<Rightarrow> dir \<Rightarrow> dir io" where
  "setup_linux cli env ts fs =
     (if \<not> systemd_there env then ret fs
      else (case setup_each (tmp_ok env) (mv_ok env) ts (False, fs) of
              (again, fs') \<Rightarrow> io_seq (if again then restart_resolved cli else ret ()) (ret fs')))"

definition setup_once :: "cli \<Rightarrow> platform \<Rightarrow> dns_env \<Rightarrow> string list \<Rightarrow> nat \<Rightarrow> dir \<Rightarrow> dir io" where
  "setup_once cli os env ts port fs =
     (case os of
        Macos \<Rightarrow> setup_once_macos cli env ts port fs
      | Linux \<Rightarrow> setup_linux cli env ts fs
      | Other_os \<Rightarrow> ret fs)"

section \<open>dip proxy init\<close>

record machine =
  proxy :: proxy_state
  resolver_dir :: dir
  history :: hist

definition loaded_or_default :: "proxy_state \<Rightarrow> proxy_config" where
  "loaded_or_default px = (case config_file px of Inr cfg \<Rightarrow> cfg | Inl _ \<Rightarrow> default_config)"

definition default_dns_port :: "platform \<Rightarrow> nat" where
  "default_dns_port os = (if os = Linux then 53 else 5354)"

text \<open>The configuration of the wizard: the TLD replaces the configured ones.\<close>

definition wizard_config :: "platform \<Rightarrow> (string \<Rightarrow> string option) \<Rightarrow> answers \<Rightarrow> proxy_config \<Rightarrow> proxy_config" where
  "wizard_config os files a cfg =
     (let port = (case parse_u16 (trim (prompt_input (show_nat (default_dns_port os)) (port_line a))) of
                    Some n \<Rightarrow> n | None \<Rightarrow> default_dns_port os);
          servers = split_ws (prompt_input (join '' '' (read_system_dns files)) (servers_line a))
      in cfg\<lparr>tlds := [prompt_input ''test'' (tld_line a)], dns_port := word_of_nat port,
             upstream_dns := (if servers = [] then upstream_dns cfg else servers)\<rparr>)"

definition setup_net_bind_cap :: "cli \<Rightarrow> string option \<Rightarrow> unit io" where
  "setup_net_bind_cap cli exe =
     (case exe of None \<Rightarrow> ret () | Some e \<Rightarrow> ignored cli [''sudo'', ''setcap'', ''cap_net_bind_service+ep'', e])"

text \<open>The last step: save what was chosen and, if wanted, point the system's resolver at it.\<close>

definition wizard ::
    "cli \<Rightarrow> platform \<Rightarrow> dns_env \<Rightarrow> (string \<Rightarrow> string option) \<Rightarrow> string option \<Rightarrow> answers \<Rightarrow> outside
      \<Rightarrow> machine \<Rightarrow> (string + unit) \<times> machine" where
  "wizard cli os env files exe a o1 m =
     (if prompt_yes (dns_line a) then
        (let cfg = wizard_config os files a (loaded_or_default (proxy m)) in
         case save_config o1 cfg (proxy m) of
           (Inl e, px) \<Rightarrow> (Inl e, m\<lparr>proxy := px\<rparr>)
         | (Inr _, px) \<Rightarrow>
             (let h1 = (if os = Linux \<and> unat (dns_port cfg) < 1024
                        then snd (setup_net_bind_cap cli exe (history m)) else history m)
              in case setup_once cli os env (tlds cfg) (unat (dns_port cfg)) (resolver_dir m) h1 of
                   (Inl _, h2) \<Rightarrow> (Inr (), m\<lparr>proxy := px, history := h2\<rparr>)
                 | (Inr fs, h2) \<Rightarrow> (Inr (), \<lparr>proxy = px, resolver_dir = fs, history = h2\<rparr>)))
      else
        (case save_config o1 ((loaded_or_default (proxy m))\<lparr>tlds := [prompt_input ''test'' (tld_line a)]\<rparr>) (proxy m) of
           (r, px) \<Rightarrow> (r, m\<lparr>proxy := px\<rparr>)))"

text \<open>
  \<open>install\<close> is the installation of the CA, whose failure is a warning; \<open>config_there\<close> says whether the
  configuration file exists.
\<close>

definition proxy_init ::
    "cli \<Rightarrow> platform \<Rightarrow> dns_env \<Rightarrow> (string \<Rightarrow> string option) \<Rightarrow> string option \<Rightarrow> answers \<Rightarrow> outside
      \<Rightarrow> string option \<Rightarrow> bool io \<Rightarrow> bool \<Rightarrow> machine \<Rightarrow> (string + unit) \<times> machine" where
  "proxy_init cli os env files exe a o1 dir_fails install config_there m =
     (case dir_fails of
        Some e \<Rightarrow> (Inl e, m)
      | None \<Rightarrow>
          (case ensure_ca (cert_faults o1) (key_ca o1) (certs (proxy m)) of
             (Inl e, c1) \<Rightarrow> (Inl e, m\<lparr>proxy := (proxy m)\<lparr>certs := c1\<rparr>\<rparr>)
           | (Inr _, c1) \<Rightarrow>
               (let h1 = snd (install (history m)) in
                case ensure_server_cert (cert_faults o1) (day o1) (key_ca o1) (key_srv o1)
                       (map domain (routes (loaded_or_default (proxy m)))) c1 of
                  (Inl e, c2) \<Rightarrow> (Inl e, m\<lparr>proxy := (proxy m)\<lparr>certs := c2\<rparr>, history := h1\<rparr>)
                | (Inr _, c2) \<Rightarrow>
                    (let px = (proxy m)\<lparr>certs := c2\<rparr>; m1 = m\<lparr>history := h1\<rparr> in
                     if config_there then wizard cli os env files exe a o1 (m1\<lparr>proxy := px\<rparr>)
                     else (case save_config o1 default_config px of
                             (Inl e, px') \<Rightarrow> (Inl e, m1\<lparr>proxy := px'\<rparr>)
                           | (Inr _, px') \<Rightarrow> wizard cli os env files exe a o1 (m1\<lparr>proxy := px'\<rparr>))))))"

section \<open>dip proxy config\<close>

definition new_tlds :: "string \<Rightarrow> string list" where
  "new_tlds arg = filter (\<lambda>s. s \<noteq> []) (map trim (split_on CHR '','' arg))"

definition changed_config :: "string option \<Rightarrow> 16 word option \<Rightarrow> proxy_config \<Rightarrow> proxy_config" where
  "changed_config tld port cfg =
     (let c1 = (case tld of Some t \<Rightarrow> cfg\<lparr>tlds := new_tlds t\<rparr> | None \<Rightarrow> cfg)
      in (case port of Some n \<Rightarrow> c1\<lparr>dns_port := n\<rparr> | None \<Rightarrow> c1))"

definition run_config ::
    "cli \<Rightarrow> platform \<Rightarrow> dns_env \<Rightarrow> outside \<Rightarrow> string option \<Rightarrow> 16 word option \<Rightarrow> machine \<Rightarrow> (string + unit) \<times> machine" where
  "run_config cli os env o1 tld port m =
     (case config_file (proxy m) of
        Inl e \<Rightarrow> (Inl e, m)
      | Inr cfg \<Rightarrow>
          (let cfg' = changed_config tld port cfg in
           if cfg' = cfg then (Inr (), m)
           else (case save_config o1 cfg' (proxy m) of
                   (Inl e, px) \<Rightarrow> (Inl e, m\<lparr>proxy := px\<rparr>)
                 | (Inr _, px) \<Rightarrow>
                     (case sync_resolver_files cli os env (tlds cfg') (unat (dns_port cfg')) (resolver_dir m) (history m) of
                        (Inl e, h) \<Rightarrow> (Inl e, m\<lparr>proxy := px, history := h\<rparr>)
                      | (Inr fs, h) \<Rightarrow>
                          (let m1 = m\<lparr>proxy := px, resolver_dir := fs, history := h\<rparr> in
                           if daemon_up px then
                             (case restart_daemon o1 px of (r, px') \<Rightarrow> (r, m1\<lparr>proxy := px'\<rparr>))
                           else (Inr (), m1))))))"

section \<open>After the setup\<close>

lemma ensure_ca_keeps:
  assumes "ensure_ca faults fresh st = (Inr ca, st')" "certs_ok st"
  shows "certs_ok st'"
  using assms unfolding ensure_ca_def Let_def certs_ok_def stored_sans_def
  by (auto simp: checked_Inr split: option.splits)

text \<open>What the wizard leaves when it succeeds: the configuration with the chosen TLD, all else of the proxy as it was.\<close>

definition wizard_saved :: "answers \<Rightarrow> proxy_state \<Rightarrow> proxy_state \<Rightarrow> bool" where
  "wizard_saved a px px' \<longleftrightarrow>
     (\<exists>cfg. px' = px\<lparr>config_file := Inr cfg\<rparr> \<and> routes cfg = routes (loaded_or_default px)
        \<and> tlds cfg = [prompt_input ''test'' (tld_line a)])"

lemma wizard_config_fields:
  "routes (wizard_config os files a cfg) = routes cfg"
  "tlds (wizard_config os files a cfg) = [prompt_input ''test'' (tld_line a)]"
  by (simp_all add: wizard_config_def Let_def)

lemma wizard_saves:
  "wizard cli os env files exe a o1 m = (Inr (), m') \<Longrightarrow> wizard_saved a (proxy m) (proxy m')"
  unfolding wizard_def Let_def wizard_saved_def
  by (auto simp: save_config_Inr wizard_config_fields split: if_splits prod.splits sum.splits)

text \<open>The resolver of macOS, when nothing in its directory is refused and the listing is complete.\<close>

definition open_resolver :: "dns_env \<Rightarrow> string list \<Rightarrow> dir \<Rightarrow> bool" where
  "open_resolver env ts fs \<longleftrightarrow>
     resolver_there env \<and> can_write env = (\<lambda>_. True) \<and> can_remove env = (\<lambda>_. True) \<and> set (entries env) = dom fs \<union> set ts"

definition points_at :: "nat \<Rightarrow> string list \<Rightarrow> dir \<Rightarrow> bool" where
  "points_at port ts fs \<longleftrightarrow>
     (\<forall>n. if n \<in> set ts then up_to_date (resolver_content port) (fs n) else \<not> dip_owned (fs n))"

lemma macos_points:
  assumes "open_resolver env ts fs"
  shows "points_at port ts (sync_resolver_files_macos ts port (can_write env) (can_remove env) (entries env) fs)"
proof -
  have e: "set (entries env) = dom fs \<union> set ts" using assms by (simp add: open_resolver_def)
  have u: "up_to_date (resolver_content port) (Some (resolver_content port))" by (simp add: up_to_date_def)
  show ?thesis
    using assms u unfolding points_at_def open_resolver_def by (simp add: sync_macos_converges[OF e])
qed

lemma setup_macos:
  assumes "open_resolver env ts fs"
  shows "fst (setup_once cli Macos env ts port fs h)
    = Inr (sync_resolver_files_macos ts port (can_write env) (can_remove env) (entries env) fs)"
  using assms by (simp add: setup_once_def setup_once_macos_def sync_resolver_files_def open_resolver_def ignored_def
      io_seq_def io_bind_def)

lemma wizard_resolver:
  assumes "wizard cli Macos env files exe a o1 m = (Inr (), m')" "prompt_yes (dns_line a)"
    "open_resolver env [prompt_input ''test'' (tld_line a)] (resolver_dir m)"
  shows "case config_file (proxy m') of Inr cfg \<Rightarrow> points_at (unat (dns_port cfg)) (tlds cfg) (resolver_dir m') | Inl _ \<Rightarrow> False"
proof -
  let ?cfg = "wizard_config Macos files a (loaded_or_default (proxy m))"
  have t: "tlds ?cfg = [prompt_input ''test'' (tld_line a)]" by (rule wizard_config_fields)
  have "fst (setup_once cli Macos env (tlds ?cfg) (unat (dns_port ?cfg)) (resolver_dir m) (history m))
     = Inr (sync_resolver_files_macos (tlds ?cfg) (unat (dns_port ?cfg)) (can_write env) (can_remove env) (entries env) (resolver_dir m))"
    using setup_macos assms(3) t by metis
  then obtain h where s: "setup_once cli Macos env (tlds ?cfg) (unat (dns_port ?cfg)) (resolver_dir m) (history m)
     = (Inr (sync_resolver_files_macos (tlds ?cfg) (unat (dns_port ?cfg)) (can_write env) (can_remove env) (entries env) (resolver_dir m)), h)"
    by (metis prod.collapse)
  have "points_at (unat (dns_port ?cfg)) (tlds ?cfg) (sync_resolver_files_macos (tlds ?cfg) (unat (dns_port ?cfg))
     (can_write env) (can_remove env) (entries env) (resolver_dir m))"
    using macos_points assms(3) t by metis
  then show ?thesis
    using assms(1,2) s by (auto simp: wizard_def Let_def save_config_Inr split: prod.splits sum.splits)
qed

text \<open>The facts about \<open>proxy_init\<close>: the certificates that were made, then the wizard.\<close>

lemma init_steps:
  assumes "proxy_init cli os env files exe a o1 dir_fails install config_there m = (Inr (), m')"
  obtains ca c1 b c2 px where
    "ensure_ca (cert_faults o1) (key_ca o1) (certs (proxy m)) = (Inr ca, c1)"
    "ensure_server_cert (cert_faults o1) (day o1) (key_ca o1) (key_srv o1) (map domain (routes (loaded_or_default (proxy m)))) c1 = (Inr b, c2)"
    "px = (proxy m)\<lparr>certs := c2\<rparr> \<and> config_there \<or> px = (proxy m)\<lparr>certs := c2, config_file := Inr default_config\<rparr> \<and> \<not> config_there"
    "wizard cli os env files exe a o1 (m\<lparr>history := snd (install (history m)), proxy := px\<rparr>) = (Inr (), m')"
  using assms unfolding proxy_init_def Let_def
  by (auto simp: save_config_Inr split: option.splits prod.splits sum.splits if_splits)


lemma changed_config_again: "changed_config tld port (changed_config tld port cfg) = changed_config tld port cfg"
  by (simp add: changed_config_def Let_def split: option.split)

lemma run_config_same:
  "config_file (proxy m) = Inr (changed_config tld port cfg) \<Longrightarrow> run_config cli os env o1 tld port m = (Inr (), m)"
  by (simp add: run_config_def changed_config_again)

lemma sync_macos_Inr:
  "sync_resolver_files cli Macos env ts port fs h = (Inr fs', h') \<longleftrightarrow>
   fs' = sync_resolver_files_macos ts port (can_write env) (can_remove env) (entries env) fs \<and> h' = h"
  by (auto simp: sync_resolver_files_def)

lemma sync_keeps_going: "\<exists>fs' h'. sync_resolver_files cli os env ts port fs h = (Inr fs', h')"
  by (auto simp: sync_resolver_files_def restart_resolved_def ignored_def io_seq_def io_bind_def split: prod.split)


section \<open>Witnesses and exceptions\<close>

definition calm_env :: dns_env where
  "calm_env = \<lparr>resolver_there = True, own_resolver = True, root_owned = False, user = ''me'', systemd_there = True,
     can_write = (\<lambda>_. True), can_remove = (\<lambda>_. True), tmp_ok = (\<lambda>_. True), mv_ok = (\<lambda>_. True), entries = [''test'']\<rparr>"

definition calm_answers :: answers where
  "calm_answers = \<lparr>tld_line = [], dns_line = ''y'', port_line = [], servers_line = []\<rparr>"

definition quiet_cli :: cli where
  "quiet_cli h argv = Exited (Some 0) None [] []"

definition fresh_machine :: machine where
  "fresh_machine = \<lparr>proxy = fresh_proxy, resolver_dir = Map.empty, history = []\<rparr>"

lemma wizard_ok: "save_fails o1 = None \<Longrightarrow> fst (wizard cli os env files exe a o1 m) = Inr ()"
  by (auto simp: wizard_def Let_def save_config_def split: prod.split sum.split)

definition init_run :: "(string + unit) \<times> machine" where
  "init_run = proxy_init quiet_cli Macos calm_env (\<lambda>_. None) None calm_answers calm None (ret True) True fresh_machine"



text \<open>A configuration that cannot be read is replaced by the default one, with the loss of all routes.\<close>

theorem unreadable_config_replaced:
  assumes "config_file (proxy m) = Inl e" "save_fails o1 = None" "\<not> prompt_yes (dns_line a)"
  shows "config_file (proxy (snd (wizard cli os env files exe a o1 m))) = Inr (default_config\<lparr>tlds := [prompt_input ''test'' (tld_line a)]\<rparr>)"
  using assms by (simp add: wizard_def save_config_def loaded_or_default_def)

text \<open>
  When the file of the CA is lost, the setup makes a new one but keeps a server certificate that
  the old one signed.
\<close>

definition lost_ca :: cert_store where
  "lost_ca = (snd (ensure_server_cert (\<lambda>_. None) 0 1 2 [''shop.test''] no_certs))\<lparr>ca_cert := None\<rparr>"

theorem new_ca_keeps_old_certificate:
  "(case snd (ensure_server_cert (\<lambda>_. None) 0 7 8 [''shop.test''] (snd (ensure_ca (\<lambda>_. None) 7 lost_ca))) of
      st \<Rightarrow> ca_cert st = Some 7 \<and> map_option signed_by (srv_cert st) = Some 1)"
  by code_simp

text \<open>On Linux the setup leaves the drop-in of a TLD that is no longer configured.\<close>

theorem init_keeps_old_tld:
  "case setup_once quiet_cli Linux calm_env [''test''] 53 [resolved_file ''dev'' \<mapsto> resolved_content ''dev''] [] of
     (r, _) \<Rightarrow> (case r of Inr fs \<Rightarrow> fs (resolved_file ''dev'') \<noteq> None | Inl _ \<Rightarrow> False)"
  by code_simp

text \<open>A comment behind the address of a name server becomes part of it.\<close>

theorem nameserver_comment_kept:
  "read_system_dns [''/etc/resolv.conf'' \<mapsto> ''nameserver 9.9.9.9 # quad9''] = [''9.9.9.9 # quad9'']"
  by code_simp

end
