(* ===== verification/Dip_Calendar.thy ===== *)
theory Dip_Calendar
  imports Main
begin

text \<open>
  The dates that \<open>dip cert\<close> and \<open>dip doctor\<close> print (\<open>commands/cert.rs\<close>, \<open>commands/doctor.rs\<close>): the
  conversion of a day number into a date of the Gregorian calendar and the days that are left.
  The \<open>i64\<close> arithmetic cannot overflow on the times of a certificate, which lie in the years 0 to
  9999, so the numbers are integers; \<open>tdiv\<close> is Rust's division, which truncates.
\<close>

definition tdiv :: "int \<Rightarrow> int \<Rightarrow> int" where
  "tdiv a b = sgn a * sgn b * (\<bar>a\<bar> div \<bar>b\<bar>)"

definition days_to_ymd :: "int \<Rightarrow> int \<times> int \<times> int" where
  "days_to_ymd days =
     (let z = days + 719468;
          era = tdiv (if 0 \<le> z then z else z - 146096) 146097;
          doe = z - era * 146097;
          yoe = tdiv (doe - tdiv doe 1460 + tdiv doe 36524 - tdiv doe 146096) 365;
          y = yoe + era * 400;
          doy = doe - (365 * yoe + tdiv yoe 4 - tdiv yoe 100);
          mp = tdiv (5 * doy + 2) 153;
          d = doy - tdiv (153 * mp + 2) 5 + 1;
          m = (if mp < 10 then mp + 3 else mp - 9)
      in (if m \<le> 2 then y + 1 else y, m, d))"

text \<open>The calendar itself.\<close>

definition leap :: "int \<Rightarrow> bool" where
  "leap y \<longleftrightarrow> y mod 4 = 0 \<and> (y mod 100 \<noteq> 0 \<or> y mod 400 = 0)"

definition days_in_month :: "int \<Rightarrow> int \<Rightarrow> int" where
  "days_in_month y m =
     (if m = 2 then (if leap y then 29 else 28) else if m = 4 \<or> m = 6 \<or> m = 9 \<or> m = 11 then 30 else 31)"

definition next_date :: "int \<times> int \<times> int \<Rightarrow> int \<times> int \<times> int" where
  "next_date = (\<lambda>(y, m, d).
     if d < days_in_month y m then (y, m, d + 1) else if m < 12 then (y, m + 1, 1) else (y + 1, 1, 1))"

section \<open>The algorithm on one era of 400 years\<close>

lemma tdiv_nonneg: "0 \<le> a \<Longrightarrow> 0 < b \<Longrightarrow> tdiv a b = a div b"
  by (cases "a = 0") (simp_all add: tdiv_def)

lemma era_floor: "tdiv (if 0 \<le> z then z else z - 146096) 146097 = z div 146097"
proof (cases "0 \<le> z")
  case False
  then have "tdiv (z - 146096) 146097 = - ((146096 - z) div 146097)"
    by (simp add: tdiv_def)
  also have "(146096 - z) div 146097 = - (z div 146097)"
  proof (rule int_div_pos_eq[where r = "146096 - z mod 146097"])
    show "146096 - z = 146097 * - (z div 146097) + (146096 - z mod 146097)"
      using mult_div_mod_eq[of 146097 z] by linarith
    show "0 \<le> 146096 - z mod 146097" "146096 - z mod 146097 < 146097"
      using pos_mod_bound[of 146097 z] pos_mod_sign[of 146097 z] by linarith+
  qed
  finally show ?thesis using False by simp
qed (simp add: tdiv_nonneg)

lemma shrink_mono: "0 < k \<Longrightarrow> x \<le> y \<Longrightarrow> x - x div k \<le> y - y div (k :: int)"
proof -
  assume k: "0 < k" "x \<le> y"
  have "1 * (y - x) \<le> k * (y - x)" using k by (intro mult_right_mono) simp_all
  then have "y \<le> x + k * (y - x)" by simp
  then have "y div k \<le> (x + k * (y - x)) div k" using k by (intro zdiv_mono1)
  then show ?thesis using k by simp
qed

definition year_of :: "int \<Rightarrow> int" where
  "year_of doe = (doe - doe div 1460 + doe div 36524 - doe div 146096) div 365"

definition year_start :: "int \<Rightarrow> int" where
  "year_start y = 365 * y + y div 4 - y div 100"

definition month_day :: "int \<Rightarrow> int \<times> int" where
  "month_day doy =
     (let mp = (5 * doy + 2) div 153 in (if mp < 10 then mp + 3 else mp - 9, doy - (153 * mp + 2) div 5 + 1))"

lemma year_of_mono: "0 \<le> a \<Longrightarrow> a \<le> b \<Longrightarrow> year_of a \<le> year_of b"
proof -
  assume a: "0 \<le> a" "a \<le> b"
  have p: "a - a div 1460 \<le> b - b div 1460" using a by (intro shrink_mono) simp_all
  have q: "a div 36524 \<le> b div 36524" using a(2) by (rule zdiv_mono1) simp
  have d: "x div 146096 = x div 36524 div 4" for x :: int using zdiv_zmult2_eq[of 4 x 36524] by simp
  have r: "x - x div 4 \<le> y - y div 4" if "x \<le> y" for x y :: int using that by (intro shrink_mono) simp_all
  have "a - a div 1460 + a div 36524 - a div 146096 \<le> b - b div 1460 + b div 36524 - b div 146096"
    using p r[OF q] unfolding d by linarith
  then show ?thesis unfolding year_of_def by (rule zdiv_mono1) simp
qed

definition year_ends_ok :: "int \<Rightarrow> bool" where
  "year_ends_ok y \<longleftrightarrow>
     year_of (year_start y) = y \<and>
     year_of (year_start y + (if leap (y + 1) then 365 else 364)) = y"

lemma all_years_ok: "list_all year_ends_ok [0..399]"
  by code_simp


definition year_length :: "int \<Rightarrow> int" where
  "year_length y = (if leap (y + 1) then 366 else 365)"

definition year_step_ok :: "int \<Rightarrow> bool" where
  "year_step_ok y \<longleftrightarrow> year_start (y + 1) = year_start y + year_length y"

lemma all_steps_ok: "list_all year_step_ok [0..398]"
  by code_simp

lemma year_ends:
  assumes "0 \<le> y" "y \<le> 399"
  shows "year_of (year_start y) = y" "year_of (year_start y + year_length y - 1) = y"
proof -
  have "y \<in> set [0..399]" using assms by simp
  then have "year_ends_ok y" using all_years_ok by (simp only: list_all_iff)
  then show "year_of (year_start y) = y" "year_of (year_start y + year_length y - 1) = y"
    unfolding year_ends_ok_def year_length_def by (simp_all split: if_splits add: algebra_simps)
qed

lemma year_step: "0 \<le> y \<Longrightarrow> y < 399 \<Longrightarrow> year_start (y + 1) = year_start y + year_length y"
  using all_steps_ok unfolding list_all_iff year_step_ok_def by simp

lemma last_year: "year_start 399 + year_length 399 = 146097" "year_start 0 = 0"
  by code_simp+

lemma div_le_self: "0 < k \<Longrightarrow> 0 \<le> x \<Longrightarrow> x div k \<le> (x :: int)"
  using shrink_mono[of k 0 x] by simp

lemma year_start_nonneg: "0 \<le> y \<Longrightarrow> 0 \<le> year_start y"
  using div_le_self[of 100 y] pos_imp_zdiv_nonneg_iff[of 4 y] unfolding year_start_def by linarith

text \<open>The year that is computed is the one that contains the day.\<close>

lemma year_of_bounds:
  assumes "0 \<le> doe" "doe < 146097"
  shows "0 \<le> year_of doe \<and> year_of doe \<le> 399 \<and>
    year_start (year_of doe) \<le> doe \<and> doe < year_start (year_of doe) + year_length (year_of doe)"
proof -
  let ?y = "year_of doe"
  have lo: "0 \<le> ?y" using year_of_mono[OF _ assms(1)] year_ends(1)[of 0] last_year(2) by simp
  have hi: "?y \<le> 399" using year_of_mono[OF assms(1), of 146096] assms(2) year_ends(2)[of 399] last_year(1) by simp
  have "year_start ?y \<le> doe"
  proof (rule ccontr)
    assume n: "\<not> year_start ?y \<le> doe"
    then have p: "0 < ?y" using lo last_year(2) assms(1) by (cases "?y = 0") auto
    have "year_start ?y = year_start (?y - 1) + year_length (?y - 1)" using year_step[of "?y - 1"] p hi by simp
    then have "doe \<le> year_start (?y - 1) + year_length (?y - 1) - 1" using n by simp
    from year_of_mono[OF assms(1) this] year_ends(2)[of "?y - 1"] p hi show False by simp
  qed
  moreover have "doe < year_start ?y + year_length ?y"
  proof (rule ccontr)
    assume n: "\<not> doe < year_start ?y + year_length ?y"
    then have p: "?y < 399" using hi last_year(1) assms(2) by (cases "?y = 399") auto
    then have "year_start (?y + 1) \<le> doe" using n year_step[OF lo] by simp
    from year_of_mono[OF _ this] year_ends(1)[of "?y + 1"] year_start_nonneg[of "?y + 1"] p lo show False by simp
  qed
  ultimately show ?thesis using lo hi by simp
qed

lemma year_of_unique:
  assumes "0 \<le> y" "y \<le> 399" "year_start y \<le> doe" "doe < year_start y + year_length y"
  shows "year_of doe = y"
proof -
  have "year_of (year_start y) \<le> year_of doe" using assms year_start_nonneg by (intro year_of_mono) simp_all
  moreover have "year_of doe \<le> year_of (year_start y + year_length y - 1)"
    using assms year_start_nonneg[of y] by (intro year_of_mono) simp_all
  ultimately show ?thesis using year_ends[OF assms(1,2)] by simp
qed

section \<open>Days and months of a year from March\<close>

definition month_length :: "bool \<Rightarrow> int \<Rightarrow> int" where
  "month_length b m = (if m = 2 then (if b then 29 else 28) else if m = 4 \<or> m = 6 \<or> m = 9 \<or> m = 11 then 30 else 31)"

definition day_step_ok :: "bool \<Rightarrow> int \<Rightarrow> bool" where
  "day_step_ok b doy \<longleftrightarrow>
     (case month_day doy of (m, d) \<Rightarrow>
        month_day (doy + 1) =
          (if d < month_length b m then (m, d + 1) else if m < 12 then (m + 1, 1) else (1, 1))
        \<and> (d < month_length b m \<or> m \<noteq> 2))"

lemma all_days_ok: "list_all (day_step_ok False) [0..363]" "list_all (day_step_ok True) [0..364]"
  by code_simp+

lemma last_days: "month_day 364 = (2, 28)" "month_day 365 = (2, 29)" "month_day 0 = (3, 1)"
  by code_simp+

definition civil :: "int \<Rightarrow> int \<times> int \<Rightarrow> int \<times> int \<times> int" where
  "civil y md = (case md of (m, d) \<Rightarrow> (if m \<le> 2 then y + 1 else y, m, d))"

lemma day_step:
  assumes "0 \<le> doy" "doy + 1 < year_length y"
  shows "civil y (month_day (doy + 1)) = next_date (civil y (month_day doy))"
proof -
  have ok: "day_step_ok (leap (y + 1)) doy"
    using assms all_days_ok unfolding list_all_iff year_length_def by (cases "leap (y + 1)") simp_all
  obtain m d where md: "month_day doy = (m, d)" by (cases "month_day doy")
  have dm: "days_in_month (if m \<le> 2 then y + 1 else y) m = month_length (leap (y + 1)) m"
    by (simp add: days_in_month_def month_length_def)
  show ?thesis
    using ok unfolding day_step_ok_def md civil_def next_date_def prod.case dm
    by (auto split: if_splits)
qed

lemma year_end:
  "civil (y + 1) (month_day 0) = next_date (civil y (month_day (year_length y - 1)))"
  by (simp add: year_length_def last_days civil_def next_date_def days_in_month_def)

section \<open>The theorem\<close>

lemma days_to_ymd_eq:
  "days_to_ymd days =
    (let z = days + 719468; doe = z mod 146097; y = year_of doe in
     civil (y + z div 146097 * 400) (month_day (doe - year_start y)))"
proof -
  let ?z = "days + 719468"
  let ?doe = "?z mod 146097"
  have d: "?z - ?z div 146097 * 146097 = ?doe" by (simp add: minus_div_mult_eq_mod)
  have b: "0 \<le> ?doe" "?doe < 146097" by simp_all
  have q: "?doe div 146096 = ?doe div 36524 div 4" using zdiv_zmult2_eq[of 4 ?doe 36524] by simp
  have n: "0 \<le> ?doe - ?doe div 1460 + ?doe div 36524 - ?doe div 146096"
    using div_le_self[of 1460 ?doe] div_le_self[of 4 "?doe div 36524"] b unfolding q
    by (simp add: pos_imp_zdiv_nonneg_iff)
  let ?y = "year_of ?doe"
  let ?doy = "?doe - year_start ?y"
  have y: "tdiv (?doe - tdiv ?doe 1460 + tdiv ?doe 36524 - tdiv ?doe 146096) 365 = ?y"
    using b n by (simp add: tdiv_nonneg year_of_def)
  have yb: "0 \<le> ?y" "0 \<le> ?doy" using year_of_bounds[OF b] by simp_all
  then have s: "?doe - (365 * ?y + tdiv ?y 4 - tdiv ?y 100) = ?doy"
    by (simp add: tdiv_nonneg year_start_def)
  have m: "tdiv (5 * ?doy + 2) 153 = (5 * ?doy + 2) div 153"
    using yb by (intro tdiv_nonneg) simp_all
  have t: "tdiv (153 * ((5 * ?doy + 2) div 153) + 2) 5 = (153 * ((5 * ?doy + 2) div 153) + 2) div 5"
    using yb by (intro tdiv_nonneg) (simp_all add: pos_imp_zdiv_nonneg_iff add_nonneg_nonneg)
  show ?thesis
    unfolding days_to_ymd_def Let_def era_floor d y s m t
    by (simp add: civil_def month_day_def Let_def)
qed

lemma leap_era: "leap (y + 400 * k) = leap y"
proof -
  have "(y + 400 * k) mod 4 = y mod 4" "(y + 400 * k) mod 100 = y mod 100" "(y + 400 * k) mod 400 = y mod 400"
    using mod_mult_self2[of y 4 "100 * k"] mod_mult_self2[of y 100 "4 * k"] mod_mult_self2[of y 400 k] by (simp_all add: mult.assoc[symmetric])
  then show ?thesis by (simp add: leap_def)
qed

lemma year_length_era: "year_length (y + k * 400) = year_length y"
  using leap_era[of "y + 1" k] by (simp add: year_length_def algebra_simps)

text \<open>
  C26. The dates are those of the calendar: day 0 is the first of January 1970, and the day after any
  day has the date after its date, with months of their lengths and leap years by the rule of
  4, 100 and 400, in both directions without bound.
\<close>

theorem days_to_ymd_correct:
  "days_to_ymd 0 = (1970, 1, 1) \<and> days_to_ymd (days + 1) = next_date (days_to_ymd days)"
proof
  show "days_to_ymd 0 = (1970, 1, 1)" by code_simp
  let ?z = "days + 719468"
  let ?doe = "?z mod 146097" and ?era = "?z div 146097"
  let ?y = "year_of ?doe"
  let ?doy = "?doe - year_start ?y"
  have b: "0 \<le> ?doe" "?doe < 146097" by simp_all
  note y = year_of_bounds[OF b]
  have now: "days_to_ymd days = civil (?y + ?era * 400) (month_day ?doy)"
    by (simp add: days_to_ymd_eq Let_def)
  have doy: "0 \<le> ?doy" "?doy < year_length (?y + ?era * 400)" using y by (simp_all add: year_length_era)
  have same_era: "(?z + 1) div 146097 = ?era \<and> (?z + 1) mod 146097 = ?doe + 1" if "?doe < 146096"
  proof -
    have z: "?z + 1 = 146097 * ?era + (?doe + 1)" using mult_div_mod_eq[of 146097 ?z] by linarith
    then show ?thesis using int_div_pos_eq[OF z] int_mod_pos_eq[OF z] b that by simp
  qed
  consider (wrap) "?doe = 146096" | (within) "?doe < 146096" "?doy + 1 < year_length ?y" | (new) "?doe < 146096" "?doy + 1 = year_length ?y"
    using b y by linarith
  then show "days_to_ymd (days + 1) = next_date (days_to_ymd days)"
  proof cases
    case wrap
    have z: "?z + 1 = 146097 * (?era + 1)" using mult_div_mod_eq[of 146097 ?z] wrap unfolding distrib_left by linarith
    have e: "(?z + 1) div 146097 = ?era + 1" "(?z + 1) mod 146097 = 0" unfolding z by simp_all
    have l: "?y = 399" unfolding wrap using year_ends(2)[of 399] last_year(1) by simp
    have ln: "?doy = year_length (?y + ?era * 400) - 1"
      using last_year(1) wrap unfolding l year_length_era by simp
    have "days_to_ymd (days + 1) = civil (0 + (?era + 1) * 400) (month_day 0)"
      using e year_ends(1)[of 0] last_year(2) by (simp add: days_to_ymd_eq Let_def add.commute add.left_commute)
    also have "\<dots> = civil (?y + ?era * 400 + 1) (month_day 0)" unfolding l by (simp add: algebra_simps)
    also have "\<dots> = next_date (civil (?y + ?era * 400) (month_day ?doy))" unfolding year_end ln ..
    finally show ?thesis using now by simp
  next
    case within
    have e: "(?z + 1) div 146097 = ?era" "(?z + 1) mod 146097 = ?doe + 1"
      using same_era within(1) by simp_all
    have u: "year_of (?doe + 1) = ?y" using year_of_unique[of ?y "?doe + 1"] y within(2) by simp
    have "days_to_ymd (days + 1) = civil (?y + ?era * 400) (month_day (?doy + 1))"
    proof -
      have z: "days + 1 + 719468 = ?z + 1" and d: "?doe + 1 - year_start ?y = ?doy + 1" by simp_all
      show ?thesis unfolding days_to_ymd_eq Let_def z e u d ..
    qed
    also have "\<dots> = next_date (civil (?y + ?era * 400) (month_day ?doy))"
      by (rule day_step) (use y within(2) in \<open>simp_all add: year_length_era\<close>)
    finally show ?thesis using now by simp
  next
    case new
    have e: "(?z + 1) div 146097 = ?era" "(?z + 1) mod 146097 = ?doe + 1"
      using same_era new(1) by simp_all
    have l: "?y < 399" using new last_year(1) y by (cases "?y = 399") auto
    have st: "year_start (?y + 1) = ?doe + 1" using year_step[of ?y] l y new(2) by simp
    have "0 < year_length (?y + 1)" by (simp add: year_length_def)
    then have u: "year_of (?doe + 1) = ?y + 1" using year_of_unique[of "?y + 1" "?doe + 1"] y l st by simp
    have "days_to_ymd (days + 1) = civil (?y + ?era * 400 + 1) (month_day 0)"
    proof -
      have z: "days + 1 + 719468 = ?z + 1" and d: "?doe + 1 - (?doe + 1) = 0"
        and a: "?y + 1 + ?era * 400 = ?y + ?era * 400 + 1" by simp_all
      show ?thesis unfolding days_to_ymd_eq Let_def z e u st d a ..
    qed
    also have "\<dots> = next_date (civil (?y + ?era * 400) (month_day ?doy))"
      using new(2) unfolding year_end year_length_era by (metis add_diff_cancel_right')
    finally show ?thesis using now by simp
  qed
qed
end
