(* ===== verification/Dip_Style.thy ===== *)
theory Dip_Style
  imports Dip_Prelude "HOL-Library.Word"
begin

text \<open>
  Coloured terminal text (\<open>utils/style.rs\<close>) and the shared formatting of \<open>utils/output.rs\<close>. Texts
  are lists of bytes: the symbols the program prints (arrows, bullets, rules) are written out in UTF-8.
  Whether colours are on is the value that \<open>colors_enabled\<close> computes from the override and the
  environment. The width a format asks for counts bytes here, which is the same for the ASCII names
  that are padded.
\<close>

section \<open>Styles\<close>

datatype color = Red | Green | Yellow | Blue | Magenta | Cyan | BrightGreen | BrightBlue | BrightMagenta | BrightCyan

fun color_code :: "color \<Rightarrow> string" where
  "color_code Red = ''31''"
| "color_code Green = ''32''"
| "color_code Yellow = ''33''"
| "color_code Blue = ''34''"
| "color_code Magenta = ''35''"
| "color_code Cyan = ''36''"
| "color_code BrightGreen = ''92''"
| "color_code BrightBlue = ''94''"
| "color_code BrightMagenta = ''95''"
| "color_code BrightCyan = ''96''"

datatype override = Unset | Force_off | Force_on

definition set_override :: "bool \<Rightarrow> override" where
  "set_override enabled = (if enabled then Force_on else Force_off)"

definition colors_enabled :: "override \<Rightarrow> bool \<Rightarrow> bool \<Rightarrow> bool" where
  "colors_enabled ov no_color_set stdout_is_terminal =
     (case ov of
        Force_off \<Rightarrow> False
      | Force_on \<Rightarrow> True
      | Unset \<Rightarrow> \<not> no_color_set \<and> stdout_is_terminal)"

record styled =
  plain_part :: string
  fg :: "color option"
  bold_on :: bool
  dim_on :: bool

definition plain :: "string \<Rightarrow> styled" where
  "plain s = \<lparr>plain_part = s, fg = None, bold_on = False, dim_on = False\<rparr>"

definition in_color :: "color \<Rightarrow> styled \<Rightarrow> styled" where
  "in_color c s = s\<lparr>fg := Some c\<rparr>"

definition bold :: "styled \<Rightarrow> styled" where
  "bold s = s\<lparr>bold_on := True\<rparr>"

definition dimmed :: "styled \<Rightarrow> styled" where
  "dimmed s = s\<lparr>dim_on := True\<rparr>"

definition is_plain :: "styled \<Rightarrow> bool" where
  "is_plain s = (fg s = None \<and> \<not> bold_on s \<and> \<not> dim_on s)"

definition esc :: char where
  "esc = CHR 0x1B"

definition sgr_codes :: "styled \<Rightarrow> string list" where
  "sgr_codes s =
     (if bold_on s then [''1''] else []) @ (if dim_on s then [''2''] else [])
     @ (case fg s of Some c \<Rightarrow> [color_code c] | None \<Rightarrow> [])"

definition paint :: "bool \<Rightarrow> styled \<Rightarrow> string" where
  "paint on s =
     (if is_plain s \<or> \<not> on then plain_part s
      else esc # ''['' @ join '';'' (sgr_codes s) @ ''m'' @ plain_part s @ esc # ''[0m'')"

definition pad_left :: "nat \<Rightarrow> string \<Rightarrow> string" where
  "pad_left w s = replicate (w - length s) (CHR '' '') @ s"

definition pad_right :: "nat \<Rightarrow> string \<Rightarrow> string" where
  "pad_right w s = s @ replicate (w - length s) (CHR '' '')"

text \<open>\<open>{:<w}\<close> on a styled text: the width is only honoured where no escape code is written.\<close>

definition paint_right :: "bool \<Rightarrow> nat \<Rightarrow> styled \<Rightarrow> string" where
  "paint_right on w s = (if is_plain s \<or> \<not> on then pad_right w (plain_part s) else paint on s)"

text \<open>\<open>Output::new\<close>, which every command calls, forces the colours on or off.\<close>

definition new_output :: "bool \<Rightarrow> override" where
  "new_output no_color = set_override (\<not> no_color)"

section \<open>Shared formatting\<close>

definition arrow :: string where
  "arrow = [CHR 0xE2, CHR 0x86, CHR 0x92]"

definition rule_char :: string where
  "rule_char = [CHR 0xE2, CHR 0x94, CHR 0x80]"

definition rule :: "nat \<Rightarrow> string" where
  "rule w = concat (replicate w rule_char)"

definition term_width :: "nat option \<Rightarrow> nat" where
  "term_width cols = (case cols of Some n \<Rightarrow> if 0 < n then n else 80 | None \<Rightarrow> 80)"

definition section_lines :: "bool \<Rightarrow> nat \<Rightarrow> string \<Rightarrow> string list \<Rightarrow> string list" where
  "section_lines on w title body =
     [rule w, ''  '' @ paint on (in_color Green (bold (plain title))), rule w] @ body @ [rule w]"

definition palette :: "color list" where
  "palette = [Cyan, Green, Magenta, Blue, BrightCyan, BrightGreen, BrightMagenta, BrightBlue]"

definition byte_sum :: "string \<Rightarrow> 64 word" where
  "byte_sum s = foldl (\<lambda>acc b. acc + word_of_nat (of_char b)) 0 s"

definition service_color :: "string \<Rightarrow> color" where
  "service_color name = palette ! (unat (byte_sum name) mod length palette)"

definition pad_service :: "string \<Rightarrow> styled" where
  "pad_service name = bold (in_color (service_color name) (plain (pad_left 12 name)))"

definition colorize_compose_line :: "bool \<Rightarrow> bool \<Rightarrow> string \<Rightarrow> string" where
  "colorize_compose_line on no_color line =
     (if no_color then line
      else case split_sub '' | '' line of
        Some (service, rest) \<Rightarrow>
          paint on (pad_service (trim service)) @ '' '' @ paint on (dimmed (plain ''|'')) @ '' '' @ rest
      | None \<Rightarrow> paint on (dimmed (plain line)))"

text \<open>\<open>format_ports\<close>: host and container port of each mapping, once each, in order.\<close>

fun split_all :: "nat \<Rightarrow> string \<Rightarrow> string \<Rightarrow> string list" where
  "split_all 0 p s = [s]"
| "split_all (Suc n) p s = (case split_sub p s of None \<Rightarrow> [s] | Some (a, b) \<Rightarrow> a # split_all n p b)"

definition mapping_key :: "string \<Rightarrow> string option" where
  "mapping_key mapping =
     map_option (\<lambda>(left, right). last (split_on CHR '':'' left) @ arrow @ hd (split_on CHR ''/'' right)) (split_sub ''->'' mapping)"

definition once_each :: "'a list \<Rightarrow> 'a list" where
  "once_each xs = foldl (\<lambda>acc x. if x \<in> set acc then acc else acc @ [x]) [] xs"

definition compact_ports :: "string \<Rightarrow> string" where
  "compact_ports raw = join ''  '' (once_each (filter_map mapping_key (split_all (length raw) '', '' raw)))"

text \<open>What the reader sees: the text without the escape sequences, each of which ends at \<open>m\<close>.\<close>

fun visible_from :: "bool \<Rightarrow> string \<Rightarrow> string" where
  "visible_from skipping [] = []"
| "visible_from True (c # cs) = visible_from (c \<noteq> CHR ''m'') cs"
| "visible_from False (c # cs) = (if c = esc then visible_from True cs else c # visible_from False cs)"

abbreviation visible :: "string \<Rightarrow> string" where
  "visible \<equiv> visible_from False"

text \<open>So neither \<open>NO_COLOR\<close> nor a pipe turns them off.\<close>

theorem environment_colour_ignored: "colors_enabled (new_output no_color) no_color_set stdout_is_terminal = (\<not> no_color)"
  by (simp add: colors_enabled_def new_output_def set_override_def)

section \<open>Painting keeps the text\<close>

lemma visible_plain: "esc \<notin> set s \<Longrightarrow> visible (s @ t) = s @ visible t"
  by (induction s) auto

lemma visible_plain_end: "esc \<notin> set s \<Longrightarrow> visible s = s"
  using visible_plain[of s "[]"] by simp

lemma visible_skip: "CHR ''m'' \<notin> set p \<Longrightarrow> visible_from True (p @ CHR ''m'' # t) = visible t"
  by (induction p) auto

lemma visible_sgr: "CHR ''m'' \<notin> set p \<Longrightarrow> visible (esc # p @ CHR ''m'' # t) = visible t"
  by (simp add: visible_skip)

lemma esc_ascii [simp]: "esc \<noteq> CHR ''[''" "esc \<noteq> CHR '' ''" "CHR '' '' \<noteq> esc" "esc \<noteq> CHR ''|''" "esc \<noteq> CHR ''m''"
  by (simp_all add: esc_def)

lemma color_code_no_m: "CHR ''m'' \<notin> set (color_code c)"
  by (cases c) simp_all

lemma sgr_codes_no_m: "x \<in> set (sgr_codes s) \<Longrightarrow> CHR ''m'' \<notin> set x"
  using color_code_no_m by (auto simp: sgr_codes_def split: if_splits option.splits)

lemma set_join: "set (join sep xs) \<subseteq> set sep \<union> \<Union> (set ` set xs)"
  by (induction sep xs rule: join.induct) auto

lemma sgr_no_m: "CHR ''m'' \<notin> set (join '';'' (sgr_codes s))"
  using set_join[of "'';''" "sgr_codes s"] sgr_codes_no_m[of _ s] by fastforce

lemma visible_paint: "esc \<notin> set (plain_part s) \<Longrightarrow> visible (paint on s @ t) = plain_part s @ visible t"
  using visible_sgr[of "''['' @ join '';'' (sgr_codes s)" "plain_part s @ esc # ''[0m'' @ t"] sgr_no_m[of s]
    visible_plain[of "plain_part s" "esc # ''[0m'' @ t"] visible_sgr[of "''[0''" t]
  by (auto simp: paint_def visible_plain simp del: visible_from.simps)

lemma visible_paint_end: "esc \<notin> set (plain_part s) \<Longrightarrow> visible (paint on s) = plain_part s"
  using visible_paint[of s on "[]"] by simp

lemma plain_part_styles [simp]: "plain_part (plain s) = s" "plain_part (bold x) = plain_part x"
  "plain_part (dimmed x) = plain_part x" "plain_part (in_color c x) = plain_part x"
  by (simp_all add: plain_def bold_def dimmed_def in_color_def)

lemma trim_subset: "set (trim s) \<subseteq> set s"
  by (auto simp: trim_def trim_start_def trim_end_def drop_end_while_def dest!: set_dropWhileD)

text \<open>A line of \<open>docker compose\<close> output keeps its words when it is coloured: what the reader sees is the
  service name in its twelve-column field, the bar and the rest, or the line itself where it has no
  service prefix or colours are off.\<close>

theorem colour_keeps_line:
  assumes "esc \<notin> set line"
  shows "visible (colorize_compose_line on no_color line) =
     (case split_sub '' | '' line of
        Some (service, rest) \<Rightarrow> if no_color then line else pad_left 12 (trim service) @ '' | '' @ rest
      | None \<Rightarrow> line)"
proof (cases "split_sub '' | '' line")
  case None
  then show ?thesis
    using assms by (simp add: colorize_compose_line_def visible_plain_end visible_paint_end)
next
  case (Some sr)
  obtain a b where ab: "sr = (a, b)" by force
  have line: "line = a @ '' | '' @ b" using split_sub_Some[of "'' | ''" line a b] Some ab by simp
  have "esc \<notin> set (trim a)" "esc \<notin> set b" using assms line trim_subset[of a] by auto
  moreover have "esc \<notin> set (pad_left 12 (trim a))"
    using \<open>esc \<notin> set (trim a)\<close> by (auto simp: pad_left_def)
  ultimately show ?thesis
    using Some ab assms
    by (simp add: colorize_compose_line_def pad_service_def visible_paint visible_plain visible_plain_end)
qed

theorem colour_keeps_line_witness:
  "visible (colorize_compose_line True False ''web-1  | GET /'') = ''       web-1 | GET /''"
  using colour_keeps_line[of "''web-1  | GET /''" True False] by (simp add: esc_def pad_left_def trim_def trim_start_def
    trim_end_def drop_end_while_def is_ws_def numeral_eq_Suc)

lemma once_each_acc: "distinct acc \<Longrightarrow>
    distinct (foldl (\<lambda>acc x. if x \<in> set acc then acc else acc @ [x]) acc xs)
    \<and> set (foldl (\<lambda>acc x. if x \<in> set acc then acc else acc @ [x]) acc xs) = set acc \<union> set xs"
  by (induction xs arbitrary: acc) auto

lemma once_each_distinct [simp]: "distinct (once_each xs)" "set (once_each xs) = set xs"
  using once_each_acc[of "[]" xs] by (simp_all add: once_each_def)

lemma ports_of_docker: "compact_ports ''0.0.0.0:8080->80/tcp, :::8080->80/tcp'' = ''8080'' @ arrow @ ''80''"
  by code_simp

text \<open>The Apple backend writes a port as the compose file has it, \<open>8080:80\<close>: no arrow, so nothing is shown.\<close>

lemma split_sub_arrow_free: "CHR ''>'' \<notin> set s \<Longrightarrow> split_sub ''->'' s = None"
  using split_sub_Some[of "''->''" s] by (cases "split_sub ''->'' s") auto

lemma split_all_sub: "x \<in> set (split_all n p s) \<Longrightarrow> set x \<subseteq> set s"
proof (induction n p s rule: split_all.induct)
  case (2 n p s)
  show ?case
  proof (cases "split_sub p s")
    case (Some ab)
    then obtain a b where "split_sub p s = Some (a, b)" by force
    then show ?thesis using 2 split_sub_Some[of p s a b] by fastforce
  qed (use 2 in simp)
qed simp

lemma filter_map_none: "(\<And>x. x \<in> set xs \<Longrightarrow> f x = None) \<Longrightarrow> filter_map f xs = []"
  by (induction xs) simp_all

theorem compose_ports_not_shown:
  assumes "CHR ''>'' \<notin> set raw"
  shows "compact_ports raw = []"
proof -
  have "mapping_key x = None" if "x \<in> set (split_all (length raw) '', '' raw)" for x
    using that assms split_all_sub split_sub_arrow_free[of x] by (fastforce simp: mapping_key_def)
  then have "filter_map mapping_key (split_all (length raw) '', '' raw) = []"
    by (simp add: filter_map_none)
  then show ?thesis by (simp add: compact_ports_def once_each_def)
qed

end
