(* ===== verification/Dip_Report.thy ===== *)
theory Dip_Report
  imports Dip_Validate Dip_Setup Dip_Calendar Dip_Style
begin

text \<open>
  The commands that look and report: \<open>dip cert\<close> (\<open>commands/cert.rs\<close>), \<open>dip doctor\<close>
  (\<open>commands/doctor.rs\<close>), \<open>dip explain build\<close> (\<open>commands/explain.rs\<close>), \<open>dip status\<close> and \<open>dip health\<close>
  (\<open>commands/status.rs\<close>, \<open>commands/health.rs\<close>, \<open>utils/containers.rs\<close>). Each yields the lines it
  prints. What a PEM text says is the parameter \<open>x509\<close>; the clock, the answers of the system's resolver,
  and whether a port can be bound are arguments.
\<close>

section \<open>Certificates\<close>

record cert_info =
  not_before_ts :: int
  not_after_ts :: int
  info_sans :: "string list"

definition read_cert_info :: "(string \<Rightarrow> string + cert_info) \<Rightarrow> string + string \<Rightarrow> string + cert_info" where
  "read_cert_info x509 content = and_then content x509"

text \<open>A number padded with zeros, the sign in front of them.\<close>

definition zero_padded :: "nat \<Rightarrow> int \<Rightarrow> string" where
  "zero_padded w n =
     (let ds = show_nat (nat \<bar>n\<bar>); sign = (if n < 0 then ''-'' else [])
      in sign @ replicate (w - length sign - length ds) (CHR ''0'') @ ds)"

definition format_ts :: "int \<Rightarrow> string" where
  "format_ts ts =
     (case days_to_ymd (tdiv ts 86400) of
        (y, m, d) \<Rightarrow> zero_padded 4 y @ ''-'' @ zero_padded 2 m @ ''-'' @ zero_padded 2 d)"

definition validity_words :: "int \<Rightarrow> styled" where
  "validity_words days =
     (if days < 0 then in_color Red (plain (''EXPIRED '' @ show_int (- days) @ '' days ago''))
      else in_color (if days < 30 then Red else if days < 90 then Yellow else Green)
        (plain (''expires in '' @ show_int days @ '' days'')))"

definition field_line :: "bool \<Rightarrow> string \<Rightarrow> string \<Rightarrow> string" where
  "field_line on label content = ''    '' @ paint_right on 10 (dimmed (plain label)) @ '' '' @ content"

definition validity_line :: "bool \<Rightarrow> int \<Rightarrow> cert_info \<Rightarrow> string" where
  "validity_line on clock c =
     field_line on ''Valid:''
       (paint on (dimmed (plain (format_ts (not_before_ts c)))) @ '' '' @ arrow @ '' ''
        @ paint on (dimmed (plain (format_ts (not_after_ts c)))) @ ''  (''
        @ paint on (validity_words (tdiv (not_after_ts c - clock) 86400)) @ '')'')"

text \<open>\<open>replacen(home, "~", 1)\<close>: the first occurrence, wherever it is.\<close>

definition shorten_path :: "string \<Rightarrow> string \<Rightarrow> string" where
  "shorten_path home path = (case split_sub home path of Some (a, b) \<Rightarrow> a @ ''~'' @ b | None \<Rightarrow> path)"

definition find_certificate_argv :: "string list" where
  "find_certificate_argv =
     [''security'', ''find-certificate'', ''-c'', ''dip Local CA'', ''/Library/Keychains/System.keychain'']"

definition ca_is_trusted :: "platform \<Rightarrow> cli \<Rightarrow> bool io" where
  "ca_is_trusted os cli =
     (if os = Macos then io_bind (call cli find_certificate_argv) (\<lambda>out. ret (succeeded out)) else ret False)"

definition server_cert_lines :: "bool \<Rightarrow> int \<Rightarrow> string \<Rightarrow> cert_info option \<Rightarrow> string list" where
  "server_cert_lines on clock path srv =
     (case srv of
        Some c \<Rightarrow>
          [field_line on ''Path:'' (paint on (dimmed (plain path))), validity_line on clock c,
           field_line on ''SANs:''
             (if info_sans c = [] then paint on (dimmed (plain ''none''))
              else paint on (in_color Cyan (plain (join '', '' (info_sans c)))))]
      | None \<Rightarrow> [''    '' @ paint on (dimmed (plain ''Not generated yet - run `dip start` inside a project''))])"

text \<open>
  \<open>dip cert\<close>. A certificate is \<open>None\<close> where its file does not exist, else what reading the file
  gives.
\<close>

definition cert_cmd :: "platform \<Rightarrow> cli \<Rightarrow> (string \<Rightarrow> string + cert_info) \<Rightarrow> bool \<Rightarrow> nat \<Rightarrow> string \<Rightarrow> int
      \<Rightarrow> string \<times> (string + string) option \<Rightarrow> string \<times> (string + string) option \<Rightarrow> string list io" where
  "cert_cmd os cli x509 on width home clock ca srv =
     (case snd ca of
        None \<Rightarrow> bail ''No certificates found - run `dip proxy init` first''
      | Some content \<Rightarrow>
          io_bind (of_result (read_cert_info x509 content)) (\<lambda>ca_info.
          io_bind (case snd srv of
                     Some s \<Rightarrow> io_bind (of_result (read_cert_info x509 s)) (\<lambda>i. ret (Some i))
                   | None \<Rightarrow> ret None) (\<lambda>srv_info.
          io_bind (ca_is_trusted os cli) (\<lambda>trusted.
            ret (section_lines on width ''certificates''
              ([''  '' @ paint on (bold (plain ''CA certificate'')),
                field_line on ''Path:'' (paint on (dimmed (plain (shorten_path home (fst ca))))),
                validity_line on clock ca_info,
                field_line on ''Keychain:''
                  (if trusted then paint on (in_color Green (plain ''installed in system keychain''))
                   else paint on (in_color Red (plain ''NOT in keychain - run `dip proxy init`''))),
                [], ''  '' @ paint on (bold (plain ''Server certificate''))]
               @ server_cert_lines on clock (shorten_path home (fst srv)) srv_info))))))"

section \<open>dip doctor\<close>

datatype verdict = Fine string | Warning string string | Failure string string

record diagnosis =
  dlabel :: string
  dstatus :: verdict

definition dok :: "string \<Rightarrow> string \<Rightarrow> diagnosis" where
  "dok label message = \<lparr>dlabel = label, dstatus = Fine message\<rparr>"

definition dwarn :: "string \<Rightarrow> string \<Rightarrow> string \<Rightarrow> diagnosis" where
  "dwarn label message hint = \<lparr>dlabel = label, dstatus = Warning message hint\<rparr>"

definition dfail :: "string \<Rightarrow> string \<Rightarrow> string \<Rightarrow> diagnosis" where
  "dfail label message hint = \<lparr>dlabel = label, dstatus = Failure message hint\<rparr>"

definition check_container_runtime :: "string \<Rightarrow> unit io \<Rightarrow> diagnosis io" where
  "check_container_runtime runtime check_daemon =
     io_bind (attempt check_daemon) (\<lambda>r. ret
       (case r of
          Inr _ \<Rightarrow> (if runtime = ''apple'' then dok ''Apple Container'' ''service is running'' else dok ''Docker'' ''daemon is running'')
        | Inl _ \<Rightarrow>
            (if runtime = ''apple''
             then dfail ''Apple Container'' ''service is not running'' ''install Apple Container and run: container system start''
             else dfail ''Docker'' ''daemon is not running''
               ''start Docker Desktop, OrbStack, Colima, or `sudo systemctl start docker`'')))"

definition check_proxy :: "nat option \<Rightarrow> diagnosis" where
  "check_proxy pid =
     (case pid of
        Some n \<Rightarrow> dok ''Proxy'' (''running (PID '' @ show_nat n @ '')'')
      | None \<Rightarrow> dwarn ''Proxy'' ''not running'' ''run: dip proxy start'')"

definition cert_days_left :: "(string \<Rightarrow> string + cert_info) \<Rightarrow> int \<Rightarrow> string + string \<Rightarrow> int option" where
  "cert_days_left x509 clock content =
     (case read_cert_info x509 content of Inr c \<Rightarrow> Some (tdiv (not_after_ts c - clock) 86400) | Inl _ \<Rightarrow> None)"

definition expiry_diagnosis :: "string \<Rightarrow> int option \<Rightarrow> diagnosis" where
  "expiry_diagnosis label days_left =
     (case days_left of
        Some days \<Rightarrow>
          (if days < 0 then dfail label (''EXPIRED '' @ show_int (- days) @ '' days ago'') ''run: dip proxy init''
           else if days < 30 then dwarn label (''expires in '' @ show_int days @ '' days'') ''run: dip proxy init''
           else dok label (''valid, expires in '' @ show_int days @ '' days''))
      | None \<Rightarrow> dwarn label ''could not parse certificate'' ''run: dip proxy init'')"

definition check_ca_cert :: "(string \<Rightarrow> string + cert_info) \<Rightarrow> int \<Rightarrow> (string + string) option \<Rightarrow> diagnosis" where
  "check_ca_cert x509 clock ca =
     (case ca of
        None \<Rightarrow> dfail ''CA cert'' ''not found'' ''run: dip proxy init''
      | Some content \<Rightarrow> expiry_diagnosis ''CA cert'' (cert_days_left x509 clock content))"

definition check_server_cert :: "(string \<Rightarrow> string + cert_info) \<Rightarrow> int \<Rightarrow> (string + string) option \<Rightarrow> diagnosis" where
  "check_server_cert x509 clock srv =
     (case srv of
        None \<Rightarrow> dwarn ''Server cert'' ''not generated yet'' ''run: dip start inside a project''
      | Some content \<Rightarrow> expiry_diagnosis ''Server cert'' (cert_days_left x509 clock content))"

definition store_paths :: "string list" where
  "store_paths =
     [''/etc/ssl/certs/dip-ca.pem'', ''/usr/local/share/ca-certificates/dip-ca.crt'',
      ''/etc/pki/ca-trust/source/anchors/dip-ca.crt'', ''/etc/ca-certificates/trust-source/anchors/dip-ca.crt'']"

definition check_ca_trusted :: "platform \<Rightarrow> cli \<Rightarrow> (string \<Rightarrow> bool) \<Rightarrow> bool \<Rightarrow> diagnosis io" where
  "check_ca_trusted os cli exists ca_exists =
     (case os of
        Macos \<Rightarrow>
          io_bind (call cli find_certificate_argv) (\<lambda>out.
            ret (if succeeded out then dok ''CA trusted'' ''installed in system keychain''
                 else dfail ''CA trusted'' ''not in system keychain'' ''run: dip proxy init''))
      | Linux \<Rightarrow>
          ret (if list_ex exists store_paths \<or> \<not> ca_exists then dok ''CA trusted'' ''found in system cert store''
               else dfail ''CA trusted'' ''not in system cert store'' ''run: dip proxy init'')
      | Other_os \<Rightarrow> ret (dwarn ''CA trusted'' ''cannot verify on this platform'' ''install CA manually''))"

text \<open>\<open>resolve\<close> asks the system's resolver: the addresses of a name as text.\<close>

definition check_dns :: "(string \<Rightarrow> string list option) \<Rightarrow> proxy_config \<Rightarrow> diagnosis" where
  "check_dns resolve cfg =
     (let host = ''dip-doctor-probe.'' @ (case tlds cfg of [] \<Rightarrow> ''test'' | t # _ \<Rightarrow> t) in
      case resolve host of
        Some ips \<Rightarrow>
          (if ''127.0.0.1'' \<in> set ips then dok ''DNS'' (host @ '' '' @ arrow @ '' 127.0.0.1'')
           else dwarn ''DNS'' (host @ '' '' @ arrow @ '' '' @ join '', '' ips @ '' (expected 127.0.0.1)'') ''run: dip proxy init'')
      | None \<Rightarrow> dfail ''DNS'' (host @ '' did not resolve'') ''run: dip proxy init'')"

definition check_ports :: "nat option \<Rightarrow> (nat \<Rightarrow> bool) \<Rightarrow> proxy_config \<Rightarrow> diagnosis" where
  "check_ports pid free cfg =
     (let h = unat (http_port cfg); s = unat (https_port cfg);
          both = '':'' @ show_nat h @ '' :'' @ show_nat s;
          blocked = filter (\<lambda>p. \<not> free p) [h, s]
      in if pid \<noteq> None then dok ''Ports'' (both @ '' owned by proxy'')
         else if blocked = [] then dok ''Ports'' (both @ '' are free'')
         else dwarn ''Ports'' (join '', '' (map (\<lambda>p. '':'' @ show_nat p) blocked) @ '' already in use'')
                ''stop the conflicting process, then: dip proxy start'')"

definition check_linux_caps :: "cli \<Rightarrow> string option \<Rightarrow> proxy_config \<Rightarrow> diagnosis io" where
  "check_linux_caps cli exe cfg =
     (let port = show_nat (unat (dns_port cfg)) in
      if 1024 \<le> unat (dns_port cfg) then ret (dok ''Capabilities'' (''DNS on port '' @ port @ '' - no cap needed''))
      else (case exe of
              None \<Rightarrow> ret (dwarn ''Capabilities'' ''could not determine binary path'' ''run: dip proxy init'')
            | Some e \<Rightarrow>
                io_bind (call cli [''getcap'', e]) (\<lambda>out.
                  ret (case out of
                         Spawn_error _ \<Rightarrow>
                           dwarn ''Capabilities'' ''`getcap` not found - cannot verify'' ''install libcap or run: dip proxy init''
                       | Exited _ _ text_out _ \<Rightarrow>
                           (if contains_sub ''cap_net_bind_service'' text_out
                            then dok ''Capabilities'' (''cap_net_bind_service set on '' @ e)
                            else dfail ''Capabilities'' (''cap_net_bind_service missing (DNS port '' @ port @ '')'')
                                   ''run: dip proxy init'')))))"

text \<open>The machine as the command finds it.\<close>

record surroundings =
  host_os :: platform
  daemon_at :: "nat option"
  proxy_file :: "string + proxy_config"
  ca_file :: "(string + string) option"
  srv_file :: "(string + string) option"
  on_disk :: "string \<Rightarrow> bool"
  resolver :: "string \<Rightarrow> string list option"
  port_free :: "nat \<Rightarrow> bool"
  this_exe :: "string option"
  wall_clock :: int

definition collect_checks ::
    "cli \<Rightarrow> (string \<Rightarrow> string + cert_info) \<Rightarrow> string \<Rightarrow> unit io \<Rightarrow> surroundings \<Rightarrow> diagnosis list io" where
  "collect_checks cli x509 runtime check_daemon s =
     (let cfg = (case proxy_file s of Inr c \<Rightarrow> c | Inl _ \<Rightarrow> default_config) in
      io_bind (check_container_runtime runtime check_daemon) (\<lambda>rt.
      io_bind (check_ca_trusted (host_os s) cli (on_disk s) (ca_file s \<noteq> None)) (\<lambda>trusted.
      io_bind (if host_os s = Linux then io_bind (check_linux_caps cli (this_exe s) cfg) (\<lambda>c. ret [c]) else ret []) (\<lambda>caps.
        ret ([rt, check_proxy (daemon_at s), check_ca_cert x509 (wall_clock s) (ca_file s),
              check_server_cert x509 (wall_clock s) (srv_file s), trusted, check_dns (resolver s) cfg,
              check_ports (daemon_at s) (port_free s) cfg] @ caps)))))"

definition failures :: "diagnosis list \<Rightarrow> nat" where
  "failures ds = length (filter (\<lambda>c. case dstatus c of Failure _ _ \<Rightarrow> True | _ \<Rightarrow> False) ds)"

definition warnings :: "diagnosis list \<Rightarrow> nat" where
  "warnings ds = length (filter (\<lambda>c. case dstatus c of Warning _ _ \<Rightarrow> True | _ \<Rightarrow> False) ds)"

definition tick_mark :: string where "tick_mark = [CHR 0xE2, CHR 0x9C, CHR 0x93]"
definition warn_mark :: string where "warn_mark = [CHR 0xE2, CHR 0x9A, CHR 0xA0]"
definition cross_mark :: string where "cross_mark = [CHR 0xE2, CHR 0x9C, CHR 0x97]"

definition check_lines :: "bool \<Rightarrow> nat \<Rightarrow> diagnosis \<Rightarrow> string list" where
  "check_lines on w c =
     (case (case dstatus c of
              Fine m \<Rightarrow> (in_color Green (plain tick_mark), m, [])
            | Warning m f \<Rightarrow> (in_color Yellow (plain warn_mark), m, [f])
            | Failure m f \<Rightarrow> (in_color Red (plain cross_mark), m, [f])) of
        (icon, m, hints) \<Rightarrow>
          (''  '' @ paint on icon @ '' '' @ paint_right on w (dimmed (plain (dlabel c @ '':''))) @ '' '' @ m)
          # map (\<lambda>f. ''    '' @ paint on (dimmed (plain arrow)) @ '' '' @ paint on (dimmed (plain f))) hints)"

definition verdict_line :: "bool \<Rightarrow> diagnosis list \<Rightarrow> string" where
  "verdict_line on ds =
     (if 0 < failures ds then ''  '' @ paint on (bold (in_color Red (plain cross_mark))) @ '' '' @ show_nat (failures ds)
        @ '' failed, '' @ show_nat (warnings ds) @ '' warning(s)''
      else if 0 < warnings ds then ''  '' @ paint on (in_color Yellow (plain warn_mark)) @ '' '' @ show_nat (warnings ds)
        @ '' warning(s) - everything else looks good''
      else ''  '' @ paint on (bold (in_color Green (plain tick_mark))) @ '' All checks passed'')"

definition doctor_lines :: "bool \<Rightarrow> nat \<Rightarrow> diagnosis list \<Rightarrow> string list" where
  "doctor_lines on width ds =
     (let w = fold max (map (length \<circ> dlabel) ds) 0 + 2
      in section_lines on width ''doctor'' (concat (map (check_lines on w) ds) @ [[], verdict_line on ds]))"

section \<open>dip explain build\<close>

definition explained :: "string option \<Rightarrow> compose_config \<Rightarrow> string + (string \<times> build_config) list" where
  "explained service cfg =
     (case service of
        Some name \<Rightarrow>
          (case map_of cfg name of
             None \<Rightarrow> Inl (''Service '' @ [squote] @ name @ [squote] @ '' not found'')
           | Some svc \<Rightarrow>
               (case build svc of
                  None \<Rightarrow> Inl (''Service '' @ [squote] @ name @ [squote] @ '' has no build configuration'')
                | Some b \<Rightarrow> Inr [(name, b)]))
      | None \<Rightarrow> Inr (filter_map (\<lambda>(name, svc). map_option (Pair name) (build svc)) cfg))"

definition target_exists :: "disk \<Rightarrow> build_config \<Rightarrow> string \<Rightarrow> bool option" where
  "target_exists d b target =
     map_option (\<lambda>content. target \<in> set (dockerfile_stages content)) (Option.bind (dockerfile_path b) (read_to_string d))"

definition there :: "bool \<Rightarrow> styled" where
  "there b = (if b then in_color Green (plain ''exists'') else in_color Red (plain ''missing''))"

definition explain_line :: "bool \<Rightarrow> string \<Rightarrow> string \<Rightarrow> string" where
  "explain_line on label content = ''    '' @ paint_right on 12 (dimmed (plain label)) @ '' '' @ content"

definition print_build :: "bool \<Rightarrow> disk \<Rightarrow> string \<times> build_config \<Rightarrow> string list" where
  "print_build on d nb =
     (case nb of (name, b) \<Rightarrow>
       [''  '' @ paint on (in_color Green (bold (plain name))),
        explain_line on ''context:''
          (case context_dir b of
             Some c \<Rightarrow> c @ ''  '' @ paint on (there (dirs d c))
           | None \<Rightarrow> paint on (in_color Red (plain ''missing''))),
        explain_line on ''dockerfile:''
          (case dockerfile_path b of
             Some p \<Rightarrow> p @ ''  '' @ paint on (there (is_file d p))
           | None \<Rightarrow> paint on (in_color Red (plain ''unknown''))),
        explain_line on ''target:''
          (case build_target b of
             Some t \<Rightarrow> t @ ''  '' @ (case target_exists d b t of
                Some e \<Rightarrow> paint on (there e)
              | None \<Rightarrow> paint on (in_color Yellow (plain ''unknown'')))
           | None \<Rightarrow> paint on (dimmed (plain ''default stage'')))]
       @ (if build_args b = [] then []
          else [explain_line on ''args:'' (paint on (dimmed (plain (join '', '' (sextend [] (map fst (build_args b)))))))]))"

fun with_gaps :: "string list list \<Rightarrow> string list" where
  "with_gaps [] = []"
| "with_gaps [b] = b"
| "with_gaps (b # c # bs) = b @ [] # with_gaps (c # bs)"

definition explain_build :: "container_runtime \<Rightarrow> (string \<Rightarrow> string + compose_config) \<Rightarrow> project_config \<Rightarrow> disk
      \<Rightarrow> bool \<Rightarrow> nat \<Rightarrow> string option \<Rightarrow> string list io" where
  "explain_build rt decode_config p d on width service =
     io_bind (load_compose rt decode_config p) (\<lambda>cfg.
     io_bind (of_result (explained service cfg)) (\<lambda>builds.
       ret (section_lines on width ''build config''
         (if builds = [] then [''  '' @ paint on (dimmed (plain ''No services with build configuration''))]
          else with_gaps (map (print_build on d) builds)))))"

section \<open>dip status and dip health\<close>

text \<open>\<open>parse_jsonl\<close>: \<open>parse\<close> is the decoder of one line; empty lines and lines it rejects are dropped.\<close>

definition parse_jsonl :: "(string \<Rightarrow> 'a option) \<Rightarrow> string \<Rightarrow> 'a list" where
  "parse_jsonl parse raw = filter_map (\<lambda>l. if trim l = [] then None else parse (trim l)) (str_lines raw)"

text \<open>The deserialiser of \<open>ContainerRow\<close>: three fields have a default, none may be other than a string.\<close>

definition text_field :: "string \<Rightarrow> json \<Rightarrow> string option" where
  "text_field k v = Option.bind (jget k v) as_str"

definition text_or_empty :: "string \<Rightarrow> json \<Rightarrow> string option" where
  "text_or_empty k v = (case jget k v of None \<Rightarrow> Some [] | Some x \<Rightarrow> as_str x)"

definition row_of_json :: "json \<Rightarrow> ps_row option" where
  "row_of_json v =
     (case (text_field ''Service'' v, text_field ''State'' v, text_or_empty ''Status'' v, text_or_empty ''Health'' v, text_or_empty ''Ports'' v) of
        (Some n, Some st, Some s, Some h, Some p) \<Rightarrow>
          Some \<lparr>row_service = n, row_state = st, row_status = s, row_health = h, row_ports = p\<rparr>
      | _ \<Rightarrow> None)"

definition fetch_containers :: "container_runtime \<Rightarrow> project_config \<Rightarrow> (string \<Rightarrow> json option) \<Rightarrow> ps_row list io" where
  "fetch_containers rt p decode =
     io_bind (rt_compose_capture rt p [''ps'', ''-a'', ''--format'', ''json'']) (\<lambda>raw.
       ret (parse_jsonl (\<lambda>l. Option.bind (decode l) row_of_json) raw))"

definition bullet :: string where "bullet = [CHR 0xE2, CHR 0x97, CHR 0x8F]"
definition ellipsis :: string where "ellipsis = [CHR 0xE2, CHR 0x80, CHR 0xA6]"
definition middle_dot :: string where "middle_dot = [CHR 0xC2, CHR 0xB7]"

definition state_icon :: "string \<Rightarrow> styled" where
  "state_icon state =
     (if state = ''running'' then bold (in_color Green (plain bullet))
      else if state = ''exited'' \<or> state = ''dead'' then in_color Red (plain bullet)
      else if state = ''paused'' then in_color Yellow (plain bullet)
      else dimmed (plain bullet))"

definition uptime_words :: "bool \<Rightarrow> ps_row \<Rightarrow> string" where
  "uptime_words on c =
     (if row_state c = ''running'' then
        (case strip_prefix ''Up '' (row_status c) of Some u \<Rightarrow> ''  '' @ paint on (dimmed (plain (trim u))) | None \<Rightarrow> [])
      else if row_state c = ''exited'' then ''  '' @ paint on (dimmed (plain (row_status c)))
      else [])"

definition health_words :: "bool \<Rightarrow> string \<Rightarrow> string" where
  "health_words on h =
     (if h = ''healthy'' then paint on (dimmed (in_color Green (plain ''  healthy'')))
      else if h = ''unhealthy'' then paint on (in_color Red (plain ''  unhealthy''))
      else if h = ''starting'' then paint on (dimmed (in_color Yellow (plain (''  starting'' @ ellipsis))))
      else [])"

definition status_line :: "bool \<Rightarrow> nat \<Rightarrow> ps_row \<Rightarrow> string" where
  "status_line on w c =
     ''  '' @ paint on (bold (in_color (service_color (row_service c)) (plain (pad_left w (row_service c))))) @ '' ''
     @ paint on (state_icon (row_state c)) @ '' '' @ paint on (dimmed (plain (row_state c)))
     @ uptime_words on c @ health_words on (row_health c)
     @ (let ports = compact_ports (row_ports c) in if ports = [] then [] else ''  '' @ paint on (dimmed (plain ports)))"

definition status_table :: "bool \<Rightarrow> string \<Rightarrow> ps_row list \<Rightarrow> string list" where
  "status_table on project cs =
     (let w = max (if cs = [] then 8 else fold max (map (length \<circ> row_service) cs) 0) 8; sep = rule (w + 40)
      in [sep, ''  '' @ paint on (dimmed (plain ''project'')) @ '' '' @ paint on (bold (plain project)), sep]
         @ (if cs = [] then [paint on (in_color Blue (plain middle_dot)) @ '' '' @ paint on (dimmed (plain ''No containers found''))]
            else map (status_line on w) cs)
         @ [sep])"

definition status_cmd :: "container_runtime \<Rightarrow> project_config \<Rightarrow> (string \<Rightarrow> json option) \<Rightarrow> bool \<Rightarrow> string list io" where
  "status_cmd rt p decode on =
     io_bind (fetch_containers rt p decode) (\<lambda>cs. ret (status_table on (project_name p) cs))"

definition health_line :: "bool \<Rightarrow> ps_row \<Rightarrow> string" where
  "health_line on c =
     ''  '' @ paint_right on 20 (bold (plain (row_service c))) @ '' '' @ paint on (state_icon (row_state c)) @ '' ''
     @ paint_right on 12 (dimmed (plain (row_state c))) @ ''  ''
     @ (if row_health c = ''healthy'' then paint on (in_color Green (plain ''healthy''))
        else if row_health c = ''unhealthy'' then paint on (bold (in_color Red (plain ''unhealthy'')))
        else if row_health c = ''starting'' then paint on (in_color Yellow (plain (''starting'' @ ellipsis)))
        else paint on (dimmed (plain ''no check'')))"

definition health_cmd :: "container_runtime \<Rightarrow> project_config \<Rightarrow> (string \<Rightarrow> json option) \<Rightarrow> bool \<Rightarrow> nat \<Rightarrow> string list io" where
  "health_cmd rt p decode on width =
     io_bind (fetch_containers rt p decode) (\<lambda>cs.
       ret (section_lines on width ''health''
         (if cs = [] then [''  '' @ paint on (dimmed (plain ''No containers found''))] else map (health_line on) cs)))"

section \<open>What the reports mean\<close>

lemmas diagnosis_defs = dok_def dwarn_def dfail_def

lemma tdiv_day_neg: "tdiv a 86400 < 0 \<longleftrightarrow> a \<le> - 86400"
  by (simp add: tdiv_def sgn_if) linarith

lemma tdiv_day_small: "tdiv a 86400 < 30 \<longleftrightarrow> a < 30 * 86400"
  by (simp add: tdiv_def sgn_if) linarith

definition grade :: "diagnosis \<Rightarrow> nat" where
  "grade c = (case dstatus c of Fine _ \<Rightarrow> 0 | Warning _ _ \<Rightarrow> 1 | Failure _ _ \<Rightarrow> 2)"

lemma grade_simps [simp]: "grade (dok a b) = 0" "grade (dwarn a b c) = 1" "grade (dfail a b c) = 2"
  by (simp_all add: grade_def diagnosis_defs)

lemma grade_expiry:
  "grade (expiry_diagnosis label days) =
     (case days of None \<Rightarrow> 1 | Some n \<Rightarrow> if n < 0 then 2 else if n < 30 then 1 else 0)"
  by (simp add: expiry_diagnosis_def split: option.split)

text \<open>The doctor grades the certificate authority by the seconds that are left: a failure from one full day
  after the end of its validity, fine from thirty full days before it, a warning between the two.\<close>

theorem expiry_levels:
  assumes "read_cert_info x509 content = Inr c"
  shows "grade (check_ca_cert x509 clock (Some content)) =
     (if not_after_ts c + 86400 \<le> clock then 2 else if not_after_ts c < clock + 30 * 86400 then 1 else 0)"
proof -
  have l: "grade (check_ca_cert x509 clock (Some content)) =
      (let n = tdiv (not_after_ts c - clock) 86400 in if n < 0 then 2 else if n < 30 then 1 else 0)"
    using assms by (simp add: check_ca_cert_def cert_days_left_def grade_expiry Let_def)
  show ?thesis
    unfolding l Let_def tdiv_day_neg tdiv_day_small by (auto simp: algebra_simps)
qed

definition pem_until :: "int \<Rightarrow> string \<Rightarrow> string + cert_info" where
  "pem_until t s = (if s = ''pem'' then Inr \<lparr>not_before_ts = 0, not_after_ts = t, info_sans = []\<rparr> else Inl ''PEM parse error'')"

theorem expiry_levels_witness: "grade (check_ca_cert (pem_until 1000) 1500 (Some (Inr ''pem''))) = 1"
  using expiry_levels[of "pem_until 1000" "Inr ''pem''" _ 1500]
  by (simp add: read_cert_info_def and_then_def pem_until_def)

text \<open>On the first day after its end a certificate is still said to expire in 0 days.\<close>

theorem expired_today_only_warned:
  "check_ca_cert (pem_until 1000) 87399 (Some (Inr ''pem'')) =
     dwarn ''CA cert'' ''expires in 0 days'' ''run: dip proxy init''"
  by code_simp

lemma failures_zero: "failures ds = 0 \<and> warnings ds = 0 \<longleftrightarrow> (\<forall>c\<in>set ds. grade c = 0)"
  by (auto simp: failures_def warnings_def grade_def filter_empty_conv split: verdict.splits)

text \<open>What \<open>all checks passed\<close> promises on macOS.\<close>

definition month_left :: "(string \<Rightarrow> string + cert_info) \<Rightarrow> int \<Rightarrow> (string + string) option \<Rightarrow> bool" where
  "month_left x509 clock f \<longleftrightarrow>
     (\<exists>content c. f = Some content \<and> read_cert_info x509 content = Inr c \<and> clock + 30 * 86400 \<le> not_after_ts c)"

lemma grade_zero_expiry:
  "grade (expiry_diagnosis label (cert_days_left x509 clock content)) = 0 \<longleftrightarrow>
     (\<exists>c. read_cert_info x509 content = Inr c \<and> clock + 30 * 86400 \<le> not_after_ts c)"
proof (cases "read_cert_info x509 content")
  case (Inr c)
  have "(if tdiv x 86400 < 0 then 2 else if tdiv x 86400 < 30 then 1 else 0) = (0::nat) \<longleftrightarrow> 30 * 86400 \<le> x" for x
    unfolding tdiv_day_neg tdiv_day_small by auto
  from this[of "not_after_ts c - clock"] show ?thesis
    using Inr by (simp add: grade_expiry cert_days_left_def algebra_simps)
qed (simp add: grade_expiry cert_days_left_def)

lemma grade_zero_ca: "grade (check_ca_cert x509 clock f) = 0 \<longleftrightarrow> month_left x509 clock f"
  by (simp add: check_ca_cert_def month_left_def grade_zero_expiry split: option.split)

lemma grade_zero_srv: "grade (check_server_cert x509 clock f) = 0 \<longleftrightarrow> month_left x509 clock f"
  by (simp add: check_server_cert_def month_left_def grade_zero_expiry split: option.split)

lemma grade_zero_proxy: "grade (check_proxy pid) = 0 \<longleftrightarrow> pid \<noteq> None"
  by (simp add: check_proxy_def split: option.split)

lemma grade_zero_ports: "grade (check_ports pid free cfg) = 0 \<longleftrightarrow> pid \<noteq> None \<or> free (unat (http_port cfg)) \<and> free (unat (https_port cfg))"
  by (simp add: check_ports_def Let_def)

lemma grade_zero_dns: "grade (check_dns resolve cfg) = 0 \<longleftrightarrow>
    (\<exists>ips. resolve (''dip-doctor-probe.'' @ (case tlds cfg of [] \<Rightarrow> ''test'' | t # _ \<Rightarrow> t)) = Some ips \<and> ''127.0.0.1'' \<in> set ips)"
  by (simp only: check_dns_def Let_def) (simp only: grade_simps if_distrib[of grade] split: option.split, simp)

lemma grade_zero_runtime: "check_container_runtime runtime m h = (Inr c, h') \<Longrightarrow> grade c = 0 \<longleftrightarrow> fst (m h) = Inr ()"
  by (cases "fst (m h)") (auto simp: check_container_runtime_def io_bind_attempt split: if_splits)

lemma grade_zero_trusted:
  "check_ca_trusted Macos cli exists e h = (Inr c, h') \<Longrightarrow> grade c = 0 \<longleftrightarrow> succeeded (cli h find_certificate_argv)"
  by (auto simp: check_ca_trusted_def split: if_splits)

text \<open>C25. On macOS \<open>dip doctor\<close> says that all checks passed exactly when the container engine answers, the
  proxy daemon runs, both certificates are readable and have thirty days left, the certificate authority is
  in the keychain, and the probe name of the first TLD resolves to the local address.\<close>

theorem doctor_means_healthy:
  assumes "host_os s = Macos" "proxy_file s = Inr cfg"
    and "collect_checks cli x509 runtime check_daemon s h = (Inr ds, h')"
  shows "failures ds = 0 \<and> warnings ds = 0 \<longleftrightarrow>
     fst (check_daemon h) = Inr () \<and> daemon_at s \<noteq> None
     \<and> month_left x509 (wall_clock s) (ca_file s) \<and> month_left x509 (wall_clock s) (srv_file s)
     \<and> succeeded (cli (snd (check_daemon h)) find_certificate_argv)
     \<and> (\<exists>ips. resolver s (''dip-doctor-probe.'' @ (case tlds cfg of [] \<Rightarrow> ''test'' | t # _ \<Rightarrow> t)) = Some ips
          \<and> ''127.0.0.1'' \<in> set ips)"
proof -
  obtain rt where rt: "check_container_runtime runtime check_daemon h = (Inr rt, snd (check_daemon h))"
    by (simp add: check_container_runtime_def io_bind_attempt)
  obtain tr h2 where tr: "check_ca_trusted Macos cli (on_disk s) (ca_file s \<noteq> None) (snd (check_daemon h)) = (Inr tr, h2)"
    by (simp add: check_ca_trusted_def)
  have "ds = [rt, check_proxy (daemon_at s), check_ca_cert x509 (wall_clock s) (ca_file s),
      check_server_cert x509 (wall_clock s) (srv_file s), tr, check_dns (resolver s) cfg,
      check_ports (daemon_at s) (port_free s) cfg]"
    using assms rt tr by (simp add: collect_checks_def io_bind_def)
  then show ?thesis
    unfolding failures_zero
    using grade_zero_runtime[OF rt] grade_zero_trusted[OF tr]
    by (simp add: grade_zero_ca grade_zero_srv grade_zero_proxy grade_zero_ports grade_zero_dns) blast
qed


text \<open>A machine on which everything is in order, and the one whose proxy is not running.\<close>

definition sound_machine :: surroundings where
  "sound_machine =
     \<lparr>host_os = Macos, daemon_at = Some 7, proxy_file = Inr default_config, ca_file = Some (Inr ''pem''),
      srv_file = Some (Inr ''pem''), on_disk = (\<lambda>_. False), resolver = (\<lambda>_. Some [''127.0.0.1'']),
      port_free = (\<lambda>_. False), this_exe = None, wall_clock = 0\<rparr>"

definition agreeing :: cli where
  "agreeing h argv = Exited (Some 0) None [] []"

theorem doctor_means_healthy_witness:
  "failures (case fst (collect_checks agreeing (pem_until 2592000) ''docker'' (ret ()) sound_machine []) of Inr ds \<Rightarrow> ds | Inl _ \<Rightarrow> []) = 0"
proof -
  obtain ds h' where c: "collect_checks agreeing (pem_until 2592000) ''docker'' (ret ()) sound_machine [] = (Inr ds, h')"
    by (simp add: collect_checks_def check_container_runtime_def check_ca_trusted_def io_bind_def sound_machine_def)
  have "failures ds = 0 \<and> warnings ds = 0"
    using doctor_means_healthy[OF _ _ c, of default_config]
    by (simp add: sound_machine_def month_left_def read_cert_info_def and_then_def pem_until_def agreeing_def succeeded_def)
  then show ?thesis using c by simp
qed

text \<open>On Linux a machine without any certificate authority is told that it was found, and \<open>dip cert\<close>
  denies one that is installed.\<close>

theorem missing_ca_found: "check_ca_trusted Linux cli (\<lambda>_. False) False h = (Inr (dok ''CA trusted'' ''found in system cert store''), h)"
  by (simp add: check_ca_trusted_def)

theorem linux_keychain_denied:
  "fst (ca_is_trusted Linux cli h) = Inr False \<and> p \<in> set store_paths \<Longrightarrow> exists p \<Longrightarrow>
    fst (check_ca_trusted Linux cli exists True h) = Inr (dok ''CA trusted'' ''found in system cert store'')"
  by (auto simp: check_ca_trusted_def list_ex_iff)

text \<open>Without \<open>HOME\<close> the empty pattern matches in front of every path.\<close>

theorem homeless_path: "shorten_path [] path = ''~'' @ path"
  by (cases path) (simp_all add: shorten_path_def)

theorem before_epoch_date: "format_ts (- 1) = ''1970-01-01''"
  by code_simp

section \<open>Explaining agrees with validating\<close>

lemma paint_plain [simp]: "paint False s = plain_part s"
  by (simp add: paint_def)

lemma ends_with_append: "length p \<le> length t \<Longrightarrow> ends_with p (s @ t) \<longleftrightarrow> ends_with p t"
  by (auto simp: ends_with_iff append_eq_append_conv2)

lemma ends_with_cons: "length p \<le> length t \<Longrightarrow> ends_with p (c # t) \<longleftrightarrow> ends_with p t"
  using ends_with_append[of p t "[c]"] by simp

lemma ends_with_refl: "ends_with p p"
  by (simp add: ends_with_iff)

lemma status_words: "\<not> ends_with ''exists'' ''missing''" "\<not> ends_with ''missing'' ''unknown''" "\<not> ends_with ''exists'' ''unknown''"
  "\<not> ends_with ''missing'' '' exists''" "\<not> ends_with ''missing'' ''default stage''"
  by code_simp+

lemmas ends = ends_with_append ends_with_cons ends_with_refl status_words

lemma there_words: "plain_part (there b) = (if b then ''exists'' else ''missing'')"
  by (simp add: there_def)

text \<open>\<open>dip explain build\<close> and \<open>dip validate\<close> judge a build alike: the validation of a build has no failure
  exactly when the context and the Dockerfile are explained as existing and the target is not explained as
  missing.\<close>

theorem explain_agrees_with_validate:
  "passes (build_checks d p name b) \<longleftrightarrow>
     ends_with ''exists'' (print_build False d (name, b) ! 1) \<and> ends_with ''exists'' (print_build False d (name, b) ! 2)
     \<and> \<not> ends_with ''missing'' (print_build False d (name, b) ! 3)"
proof -
  have c: "ends_with ''exists'' (print_build False d (name, b) ! 1) \<longleftrightarrow> (\<exists>c. context_dir b = Some c \<and> dirs d c)"
    by (cases "context_dir b") (simp_all add: print_build_def explain_line_def there_words ends)
  have f: "ends_with ''exists'' (print_build False d (name, b) ! 2) \<longleftrightarrow> (\<exists>q. dockerfile_path b = Some q \<and> is_file d q)"
    by (cases "dockerfile_path b") (simp_all add: print_build_def explain_line_def there_words ends)
  have t: "\<not> ends_with ''missing'' (print_build False d (name, b) ! 3) \<longleftrightarrow>
      (\<forall>t content. build_target b = Some t \<longrightarrow> Option.bind (dockerfile_path b) (read_to_string d) = Some content
         \<longrightarrow> t \<in> set (dockerfile_stages content))"
    by (cases "build_target b"; cases "Option.bind (dockerfile_path b) (read_to_string d)")
      (simp_all add: print_build_def explain_line_def there_words target_exists_def ends)
  show ?thesis
    unfolding passes_build build_valid_def c f t by auto
qed

section \<open>The rows of a status\<close>

definition json_of_row :: "ps_row \<Rightarrow> json" where
  "json_of_row r = JObj [(''Health'', JStr (row_health r)), (''Ports'', JStr (row_ports r)), (''Service'', JStr (row_service r)),
     (''State'', JStr (row_state r)), (''Status'', JStr (row_status r))]"

text \<open>The text of \<open>ps_json\<close>: one line of JSON for a row.\<close>

definition rows_text :: "(json \<Rightarrow> string) \<Rightarrow> ps_row list \<Rightarrow> string" where
  "rows_text encode rows = join [nl] (map (\<lambda>r. encode (json_of_row r)) rows) @ [nl]"

definition one_line_json :: "(json \<Rightarrow> string) \<Rightarrow> (string \<Rightarrow> json option) \<Rightarrow> bool" where
  "one_line_json encode decode \<longleftrightarrow>
     (\<forall>r. decode (encode (json_of_row r)) = Some (json_of_row r) \<and> encode (json_of_row r) \<noteq> [] \<and> tidy (encode (json_of_row r))
        \<and> nl \<notin> set (encode (json_of_row r)))"

lemma row_of_json_of_row: "row_of_json (json_of_row r) = Some r"
  by (simp add: row_of_json_def json_of_row_def text_field_def text_or_empty_def)

lemma rows_text_parsed:
  assumes "one_line_json encode decode"
  shows "parse_jsonl (\<lambda>l. Option.bind (decode l) row_of_json) (rows_text encode rows) = rows"
proof (cases "rows = []")
  case True
  moreover have "parse_jsonl f [nl] = []" for f :: "string \<Rightarrow> ps_row option" by code_simp
  ultimately show ?thesis by (simp add: rows_text_def)
next
  case False
  let ?e = "\<lambda>r. encode (json_of_row r)"
  have "raw_lines (rows_text encode rows) = map ?e rows"
    unfolding rows_text_def using False assms
    by (intro raw_lines_join) (auto simp: one_line_json_def list_all_iff)
  then have "str_lines (rows_text encode rows) = map ?e rows"
    using assms by (auto simp: str_lines_def one_line_json_def strip_cr_tidy)
  moreover have "filter_map (\<lambda>l. if trim l = [] then None else Option.bind (decode (trim l)) row_of_json) (map ?e rows) = rows"
    using assms by (induction rows) (simp_all add: one_line_json_def trim_tidy row_of_json_of_row)
  ultimately show ?thesis by (simp add: parse_jsonl_def)
qed

text \<open>Under the Apple backend \<open>dip status\<close> and \<open>dip health\<close> see exactly the rows that its \<open>ps\<close> computed: the
  lines of JSON it answers with are read back without loss.\<close>

theorem apple_rows_read_back:
  assumes "one_line_json encode decode"
  shows "fetch_containers (apple_runtime cli decode show_cfg (rows_text encode) load) p decode h = ps_json cli decode p (load p) h"
proof -
  have "fetch_containers (apple_runtime cli decode show_cfg (rows_text encode) load) p decode h =
      io_bind (io_bind (ps_json cli decode p (load p)) (\<lambda>rows. ret (rows_text encode rows)))
        (\<lambda>raw. ret (parse_jsonl (\<lambda>l. Option.bind (decode l) row_of_json) raw)) h"
    by (simp add: fetch_containers_def apple_runtime_def apple_compose_capture_def)
  also have "\<dots> = ps_json cli decode p (load p) h"
    using assms by (simp add: io_bind_def rows_text_parsed split: prod.split sum.split)
  finally show ?thesis .
qed

end
