(* ===== verification/Dip_Atomic.thy ===== *)
theory Dip_Atomic
  imports Dip_Prelude
begin

text \<open>
  The atomic replacement of a file (\<open>write_atomic\<close>, \<open>write_600\<close> of \<open>proxy/certs.rs\<close>), one system call at a
  time. Names lead to inodes; an inode has its bytes, the bytes that have reached the disk and its
  permission bits. A process holds the inode it has opened, whatever its name becomes. Processes
  take their steps in any order, any call may fail, and a process that dies takes no further step.
  The umask, which can only remove permissions from a new file, is left out.
\<close>

section \<open>Files and processes\<close>

record store =
  inode :: "string \<Rightarrow> nat option"
  bytes :: "nat \<Rightarrow> string"
  durable :: "nat \<Rightarrow> string"
  bits :: "nat \<Rightarrow> nat"
  unused :: nat

definition content_at :: "store \<Rightarrow> string \<Rightarrow> string option" where
  "content_at s p = map_option (bytes s) (inode s p)"

text \<open>What is left after a loss of power: the bytes that have been flushed.\<close>

definition power_loss :: "store \<Rightarrow> store" where
  "power_loss s = s\<lparr>bytes := durable s\<rparr>"

text \<open>
  The place in \<open>write_atomic\<close>: before the call to open, before the permissions are set, with so many
  bytes written, before the rename, and after the return.
\<close>

datatype write_phase = Opening | Opened nat | Writing nat nat | Renaming | Returned "string + unit"

record writer =
  target :: string
  contents :: string
  wmode :: "nat option"
  phase :: write_phase

definition tmp_of :: "writer \<Rightarrow> string" where
  "tmp_of w = target w @ ''.tmp''"

definition writer_of :: "string \<Rightarrow> string \<Rightarrow> nat option \<Rightarrow> writer" where
  "writer_of path d m = \<lparr>target = path, contents = d, wmode = m, phase = Opening\<rparr>"

definition write_600 :: "string \<Rightarrow> string \<Rightarrow> writer" where
  "write_600 path d = writer_of path d (Some 384)"

section \<open>The calls\<close>

text \<open>\<open>O_CREAT | O_TRUNC\<close>: an existing file is emptied, a new one has the permissions asked for.\<close>

definition open_truncated :: "string \<Rightarrow> nat \<Rightarrow> store \<Rightarrow> nat \<times> store" where
  "open_truncated p m s =
     (case inode s p of
        Some i \<Rightarrow> (i, s\<lparr>bytes := (bytes s)(i := [])\<rparr>)
      | None \<Rightarrow>
          (let i = unused s in
           (i, s\<lparr>inode := (inode s)(p \<mapsto> i), bytes := (bytes s)(i := []), durable := (durable s)(i := []),
                bits := (bits s)(i := m), unused := Suc i\<rparr>)))"

text \<open>Bytes written at an offset; what lies between the end of the file and the offset becomes zero.\<close>

definition overwrite :: "string \<Rightarrow> nat \<Rightarrow> string \<Rightarrow> string" where
  "overwrite b k c = take k b @ replicate (k - length b) (CHR 0x00) @ c @ drop (k + length c) b"

definition rename_over :: "string \<Rightarrow> string \<Rightarrow> store \<Rightarrow> (string + unit) \<times> store" where
  "rename_over a b s =
     (case inode s a of
        None \<Rightarrow> (Inl ''No such file or directory'', s)
      | Some i \<Rightarrow> (Inr (), s\<lparr>inode := (inode s)(b \<mapsto> i, a := None)\<rparr>))"

text \<open>
  The next call of \<open>write_atomic\<close>, if it succeeds. \<open>write_all\<close> is a loop of writes; \<open>n\<close> is the number of bytes
  the next one takes, at least one. 438 is the default \<open>0o666\<close>.
\<close>

definition writer_step :: "nat \<Rightarrow> writer \<Rightarrow> store \<Rightarrow> writer \<times> store" where
  "writer_step n w s =
     (case phase w of
        Opening \<Rightarrow>
          (case open_truncated (tmp_of w) (case wmode w of Some m \<Rightarrow> m | None \<Rightarrow> 438) s of
             (i, s') \<Rightarrow> (w\<lparr>phase := Opened i\<rparr>, s'))
      | Opened i \<Rightarrow>
          (w\<lparr>phase := Writing i 0\<rparr>, (case wmode w of Some m \<Rightarrow> s\<lparr>bits := (bits s)(i := m)\<rparr> | None \<Rightarrow> s))
      | Writing i k \<Rightarrow>
          (if k < length (contents w) then
             (let c = take (max 1 n) (drop k (contents w)) in
              (w\<lparr>phase := Writing i (k + length c)\<rparr>, s\<lparr>bytes := (bytes s)(i := overwrite (bytes s i) k c)\<rparr>))
           else (w\<lparr>phase := Renaming\<rparr>, s\<lparr>durable := (durable s)(i := bytes s i)\<rparr>))
      | Renaming \<Rightarrow>
          (case rename_over (tmp_of w) (target w) s of (r, s') \<Rightarrow> (w\<lparr>phase := Returned r\<rparr>, s'))
      | Returned r \<Rightarrow> (w, s))"

text \<open>Processes side by side.\<close>

inductive writers_step :: "writer list \<times> store \<Rightarrow> writer list \<times> store \<Rightarrow> bool" where
  proceeds: "i < length ws \<Longrightarrow> writer_step n (ws ! i) s = (w, s') \<Longrightarrow> writers_step (ws, s) (ws[i := w], s')"
| fails: "i < length ws \<Longrightarrow> (\<forall>r. phase (ws ! i) \<noteq> Returned r)
    \<Longrightarrow> writers_step (ws, s) (ws[i := (ws ! i)\<lparr>phase := Returned (Inl e)\<rparr>], s)"

section \<open>One process\<close>

text \<open>No two names lead to one inode, and the inodes in use are known.\<close>

definition store_ok :: "store \<Rightarrow> bool" where
  "store_ok s \<longleftrightarrow> inj_on (inode s) (dom (inode s)) \<and> (\<forall>p i. inode s p = Some i \<longrightarrow> i < unused s)"

lemma tmp_differs [simp]: "tmp_of w \<noteq> target w" "target w \<noteq> tmp_of w"
  by (simp_all add: tmp_of_def)

text \<open>
  The invariant: what the writer has reached is in its temporary file, and the target is the old one
  or, after the return, the new one.
\<close>

definition written :: "writer \<Rightarrow> nat \<Rightarrow> store \<Rightarrow> nat \<Rightarrow> bool" where
  "written w i s k \<longleftrightarrow>
     inode s (tmp_of w) = Some i \<and> inode s (target w) \<noteq> Some i \<and> k \<le> length (contents w)
     \<and> bytes s i = take k (contents w) \<and> (case wmode w of Some m \<Rightarrow> bits s i = m | None \<Rightarrow> True)"

definition old_target :: "store \<Rightarrow> string \<Rightarrow> store \<Rightarrow> bool" where
  "old_target s0 p s \<longleftrightarrow> inode s p = inode s0 p
     \<and> (\<forall>i. inode s0 p = Some i \<longrightarrow> bytes s i = bytes s0 i \<and> durable s i = durable s0 i \<and> bits s i = bits s0 i)"

definition new_target :: "writer \<Rightarrow> store \<Rightarrow> bool" where
  "new_target w s \<longleftrightarrow> (\<exists>i. inode s (target w) = Some i \<and> bytes s i = contents w \<and> durable s i = contents w
     \<and> (case wmode w of Some m \<Rightarrow> bits s i = m | None \<Rightarrow> True))"

definition alone :: "store \<Rightarrow> string \<Rightarrow> writer \<Rightarrow> store \<Rightarrow> bool" where
  "alone s0 p w s \<longleftrightarrow>
     (case phase w of
        Opening \<Rightarrow> s = s0
      | Opened i \<Rightarrow> old_target s0 p s \<and> inode s (tmp_of w) = Some i \<and> inode s p \<noteq> Some i \<and> bytes s i = []
      | Writing i k \<Rightarrow> old_target s0 p s \<and> written w i s k
      | Renaming \<Rightarrow> old_target s0 p s \<and> (\<exists>i. written w i s (length (contents w)) \<and> durable s i = contents w)
      | Returned (Inr _) \<Rightarrow> new_target w s
      | Returned (Inl _) \<Rightarrow> old_target s0 p s)"

lemma overwrite_end: "overwrite b (length b) c = b @ c"
  by (simp add: overwrite_def)

lemma take_chunk: "k \<le> length d \<Longrightarrow> take k d @ take n (drop k d) = take (k + length (take n (drop k d))) d"
  by (simp add: take_add min_def)

lemma alone_step:
  assumes "alone s0 p w s" "store_ok s0" "target w = p" "writer_step n w s = (w', s')"
  shows "alone s0 p w' s' \<and> target w' = p \<and> contents w' = contents w \<and> wmode w' = wmode w"
proof (cases "phase w")
  case Opening
  have fresh: "inode s0 p \<noteq> Some (unused s0)" using assms(2) by (auto simp: store_ok_def)
  have inj: "inode s0 (tmp_of w) = Some i \<Longrightarrow> inode s0 p \<noteq> Some i" for i
    using assms(2,3) tmp_differs(1)[of w] unfolding store_ok_def inj_on_def by (metis domI)
  show ?thesis
    using assms(1,3,4) Opening fresh inj
    by (auto simp: writer_step_def alone_def open_truncated_def old_target_def tmp_of_def Let_def split: option.splits)
next
  case (Opened i)
  then show ?thesis
    using assms(1,3,4) by (auto simp: writer_step_def alone_def old_target_def written_def tmp_of_def split: option.splits)
next
  case (Writing i k)
  note w = Writing
  show ?thesis
  proof (cases "k < length (contents w)")
    case True
    let ?c = "take (max 1 n) (drop k (contents w))"
    have b: "bytes s i = take k (contents w)" "k \<le> length (contents w)" using assms(1) w by (simp_all add: alone_def written_def)
    then have "overwrite (bytes s i) k ?c = bytes s i @ ?c" using overwrite_end[of "bytes s i" ?c] by simp
    then have "overwrite (bytes s i) k ?c = take (k + length ?c) (contents w)" "k + length ?c \<le> length (contents w)"
      using b take_chunk[of k "contents w" "max 1 n"] by simp_all
    then show ?thesis
      using assms(1,3,4) w True
      by (auto simp: writer_step_def alone_def written_def old_target_def tmp_of_def Let_def simp del: length_take split: option.splits)
  next
    case False
    then show ?thesis
      using assms(1,3,4) w
      by (auto simp: writer_step_def alone_def written_def old_target_def tmp_of_def split: option.splits)
  qed
next
  case Renaming
  then show ?thesis
    using assms(1,3,4)
    by (auto simp: writer_step_def alone_def written_def rename_over_def new_target_def tmp_of_def split: option.splits)
next
  case (Returned r)
  then show ?thesis using assms by (simp add: writer_step_def)
qed

lemma alone_fail: "alone s0 p w s \<Longrightarrow> \<forall>r. phase w \<noteq> Returned r \<Longrightarrow> alone s0 p (w\<lparr>phase := Returned (Inl e)\<rparr>) s"
  by (auto simp: alone_def old_target_def split: write_phase.splits)

lemma alone_reach:
  assumes "writers_step\<^sup>*\<^sup>* ([writer_of p d m], s0) c" "store_ok s0"
  shows "\<exists>w s. c = ([w], s) \<and> alone s0 p w s \<and> target w = p \<and> contents w = d \<and> wmode w = m"
  using assms(1)
proof (induction rule: rtranclp_induct)
  case base
  then show ?case by (simp add: alone_def writer_of_def)
next
  case (step c c')
  then obtain w s where c: "c = ([w], s)" "alone s0 p w s" "target w = p" "contents w = d" "wmode w = m" by blast
  from step.hyps(2) show ?case
    unfolding c(1)
  proof (cases rule: writers_step.cases)
    case (proceeds i n w' s')
    then show ?thesis using alone_step[OF c(2) assms(2) c(3), of n w' s'] c by simp
  next
    case (fails i e)
    then show ?thesis using alone_fail[OF c(2), of e] c by simp
  qed
qed

lemma alone_contents:
  assumes "alone s0 p w s" "target w = p"
  shows "(content_at s p = content_at s0 p \<and> content_at (power_loss s) p = content_at (power_loss s0) p \<and> phase w \<noteq> Returned (Inr ()))
    \<or> (content_at s p = Some (contents w) \<and> content_at (power_loss s) p = Some (contents w) \<and> phase w = Returned (Inr ()))"
proof -
  have old: "content_at s p = content_at s0 p \<and> content_at (power_loss s) p = content_at (power_loss s0) p" if "old_target s0 p s"
    using that by (cases "inode s0 p") (auto simp: old_target_def content_at_def power_loss_def)
  show ?thesis
    using assms old
    by (auto simp: alone_def new_target_def content_at_def power_loss_def split: write_phase.splits sum.splits)
qed


section \<open>It returns\<close>

fun calls_left :: "writer \<Rightarrow> nat" where
  "calls_left w =
     (case phase w of
        Opening \<Rightarrow> length (contents w) + 4
      | Opened _ \<Rightarrow> length (contents w) + 3
      | Writing _ k \<Rightarrow> length (contents w) - k + 2
      | Renaming \<Rightarrow> 1
      | Returned _ \<Rightarrow> 0)"

lemma calls_left_step: "writer_step n w s = (w', s') \<Longrightarrow> calls_left w' \<le> calls_left w - 1"
  by (auto simp: writer_step_def Let_def split: write_phase.splits prod.splits if_splits)

fun run_alone :: "nat \<Rightarrow> nat \<Rightarrow> writer \<Rightarrow> store \<Rightarrow> writer \<times> store" where
  "run_alone 0 n w s = (w, s)"
| "run_alone (Suc k) n w s = (case writer_step n w s of (w', s') \<Rightarrow> run_alone k n w' s')"

lemma run_alone_left: "run_alone k n w s = (w', s') \<Longrightarrow> calls_left w' \<le> calls_left w - k"
proof (induction k arbitrary: w s)
  case (Suc k)
  obtain w1 s1 where st: "writer_step n w s = (w1, s1)" by fastforce
  show ?case using Suc.IH[of w1 s1] Suc.prems st calls_left_step[OF st] by simp
qed simp

lemma run_alone_alone:
  assumes "run_alone k n w s = (w', s')" "alone s0 p w s" "store_ok s0" "target w = p" "\<not> (\<exists>e. phase w = Returned (Inl e))"
  shows "alone s0 p w' s' \<and> target w' = p \<and> contents w' = contents w \<and> wmode w' = wmode w \<and> \<not> (\<exists>e. phase w' = Returned (Inl e))"
  using assms
proof (induction k arbitrary: w s)
  case (Suc k)
  obtain w1 s1 where st: "writer_step n w s = (w1, s1)" by fastforce
  have "\<not> (\<exists>e. phase w1 = Returned (Inl e))"
    using Suc.prems(2,4,5) st
    by (auto simp: writer_step_def alone_def written_def rename_over_def Let_def split: write_phase.splits prod.splits if_splits option.splits)
  then show ?case
    using Suc.IH[of w1 s1] Suc.prems st alone_step[OF Suc.prems(2,3,4) st] by simp
qed simp

text \<open>
  Left alone and without an error the call returns, with at most one write for each byte, whatever
  share of the bytes each write takes, and then the file has the new bytes and the permissions.
\<close>

theorem write_returns:
  assumes "store_ok s0" "run_alone (length d + 4) n (writer_of p d m) s0 = (w, s)"
  shows "phase w = Returned (Inr ()) \<and> content_at s p = Some d
    \<and> (\<forall>b i. m = Some b \<longrightarrow> inode s p = Some i \<longrightarrow> bits s i = b)"
proof -
  have "calls_left w = 0" using run_alone_left[OF assms(2)] by (simp add: writer_of_def)
  then obtain r where "phase w = Returned r" by (cases "phase w") simp_all
  moreover have a: "alone s0 p w s \<and> target w = p \<and> contents w = d \<and> wmode w = m \<and> \<not> (\<exists>e. phase w = Returned (Inl e))"
    using run_alone_alone[OF assms(2) _ assms(1), of p] by (simp add: writer_of_def alone_def)
  ultimately have "phase w = Returned (Inr ())" by (cases r) auto
  then show ?thesis
    using a alone_contents[of s0 p w s] by (auto simp: alone_def new_target_def)
qed

section \<open>Private keys\<close>

definition hidden :: "store \<Rightarrow> nat \<Rightarrow> writer \<Rightarrow> store \<Rightarrow> bool" where
  "hidden s0 m w s \<longleftrightarrow>
     (\<forall>i. inode s (tmp_of w) = Some i \<longrightarrow> bits s i = m \<or> bytes s i = [] \<or> inode s0 (tmp_of w) = Some i \<and> bytes s i = bytes s0 i)"

lemma hidden_step:
  assumes "hidden s0 m w s" "alone s0 p w s" "store_ok s0" "target w = p" "wmode w = Some m" "writer_step n w s = (w', s')"
  shows "hidden s0 m w' s'"
  using assms
  by (auto simp: hidden_def writer_step_def alone_def written_def open_truncated_def rename_over_def tmp_of_def Let_def
      split: write_phase.splits prod.splits if_splits option.splits)

text \<open>
  C16. The bytes of a private key never lie in a file that others may read: at every moment the temporary
  file has the permissions 0600, or is empty, or is a left-over that has not been touched.
\<close>

theorem key_stays_private:
  assumes "store_ok s0" "writers_step\<^sup>*\<^sup>* ([write_600 p d], s0) ([w], s)" "inode s (p @ ''.tmp'') = Some i"
  shows "bits s i = 384 \<or> bytes s i = [] \<or> inode s0 (p @ ''.tmp'') = Some i \<and> bytes s i = bytes s0 i"
proof -
  have "\<exists>w s. c = ([w], s) \<and> alone s0 p w s \<and> target w = p \<and> wmode w = Some 384 \<and> hidden s0 384 w s"
    if "writers_step\<^sup>*\<^sup>* ([write_600 p d], s0) c" for c
    using that
  proof (induction rule: rtranclp_induct)
    case base
    then show ?case by (simp add: write_600_def writer_of_def alone_def hidden_def)
  next
    case (step c c')
    then obtain w s where c: "c = ([w], s)" "alone s0 p w s" "target w = p" "wmode w = Some 384" "hidden s0 384 w s" by blast
    from step.hyps(2) show ?case
      unfolding c(1)
    proof (cases rule: writers_step.cases)
      case (proceeds i n w' s')
      then show ?thesis
        using alone_step[OF c(2) assms(1) c(3), of n w' s'] hidden_step[OF c(5,2) assms(1) c(3,4), of n w' s'] c by simp
    next
      case (fails i e)
      then show ?thesis using alone_fail[OF c(2), of e] c by (simp add: hidden_def tmp_of_def)
    qed
  qed
  from this[OF assms(2)] show ?thesis using assms(3) by (auto simp: hidden_def tmp_of_def)
qed

section \<open>Two processes\<close>

text \<open>A schedule: which process takes the next step, and how many bytes a write takes.\<close>

fun play :: "(nat \<times> nat) list \<Rightarrow> writer list \<Rightarrow> store \<Rightarrow> writer list \<times> store" where
  "play [] ws s = (ws, s)"
| "play ((i, n) # is) ws s = (case writer_step n (ws ! i) s of (w, s') \<Rightarrow> play is (ws[i := w]) s')"

lemma play_reaches: "list_all (\<lambda>(i, n). i < length ws) is \<Longrightarrow> writers_step\<^sup>*\<^sup>* (ws, s) (play is ws s)"
proof (induction "is" arbitrary: ws s)
  case (Cons x xs)
  obtain i n where x: "x = (i, n)" by force
  obtain w s' where st: "writer_step n (ws ! i) s = (w, s')" by force
  have "writers_step (ws, s) (ws[i := w], s')" using Cons.prems x st by (simp add: proceeds)
  moreover have "writers_step\<^sup>*\<^sup>* (ws[i := w], s') (play xs (ws[i := w]) s')" using Cons x by simp
  ultimately show ?case using x st by (simp add: converse_rtranclp_into_rtranclp)
qed simp

definition two_writers :: "writer list" where
  "two_writers = [writer_of ''ca.pem'' ''AAAA'' None, writer_of ''ca.pem'' ''BBBB'' None]"

definition old_store :: store where
  "old_store = \<lparr>inode = [''ca.pem'' \<mapsto> 0], bytes = (\<lambda>_. ''old''), durable = (\<lambda>_. ''old''), bits = (\<lambda>_. 420), unused = 1\<rparr>"

definition torn_schedule :: "(nat \<times> nat) list" where
  "torn_schedule = [(0, 4), (1, 4), (0, 4), (0, 4), (0, 4), (1, 4), (1, 2), (0, 4)]"

text \<open>
  Both processes use the same temporary file. While the second one writes into it, the first one renames
  it, so the file has a mixture of both; and the rename of the second one fails.
\<close>

theorem concurrent_writers_tear:
  "\<exists>ws s. writers_step\<^sup>*\<^sup>* (two_writers, old_store) (ws, s) \<and> content_at s ''ca.pem'' = Some ''BBAA'' \<and> phase (ws ! 0) = Returned (Inr ())"
proof -
  let ?r = "play torn_schedule two_writers old_store"
  have "writers_step\<^sup>*\<^sup>* (two_writers, old_store) ?r"
    by (rule play_reaches) (simp add: torn_schedule_def two_writers_def)
  moreover have "content_at (snd ?r) ''ca.pem'' = Some ''BBAA'' \<and> phase (fst ?r ! 0) = Returned (Inr ())"
    by code_simp
  ultimately show ?thesis by (metis prod.collapse)
qed

theorem second_rename_fails:
  "phase (fst (play (torn_schedule @ [(1, 4), (1, 4), (1, 4)]) two_writers old_store) ! 1) = Returned (Inl ''No such file or directory'')"
  by code_simp

section \<open>Witnesses\<close>

lemma old_store_ok: "store_ok old_store"
  by (auto simp: store_ok_def old_store_def inj_on_def split: if_splits)

lemma play_single:
  assumes "list_all (\<lambda>(i, n). i = 0) is"
  shows "\<exists>w' s'. play is [w] s = ([w'], s') \<and> writers_step\<^sup>*\<^sup>* ([w], s) ([w'], s')"
proof -
  have "length (fst (play is [w] s)) = 1" for w s
    using assms by (induction "is" arbitrary: w s) (auto split: prod.splits)
  then obtain w' s' where "play is [w] s = ([w'], s')"
    by (metis One_nat_def length_0_conv length_Suc_conv prod.collapse)
  moreover have "writers_step\<^sup>*\<^sup>* ([w], s) (play is [w] s)"
    using assms by (intro play_reaches) (auto simp: list_all_iff)
  ultimately show ?thesis by metis
qed

definition one_run :: "writer list \<times> store" where
  "one_run = play [(0, 1), (0, 1), (0, 1), (0, 1), (0, 1), (0, 1), (0, 1)] [writer_of ''ca.pem'' ''new'' None] old_store"


theorem write_returns_witness:
  "content_at (snd (run_alone 7 2 (writer_of ''ca.pem'' ''new'' (Some 384)) old_store)) ''ca.pem'' = Some ''new''"
  using write_returns[OF old_store_ok, of "''new''" 2 "''ca.pem''" "Some 384"]
  by (cases "run_alone 7 2 (writer_of ''ca.pem'' ''new'' (Some 384)) old_store") (simp add: numeral_eq_Suc)

definition key_run :: "writer list \<times> store" where
  "key_run = play [(0, 1), (0, 1), (0, 2)] [write_600 ''ca.key'' ''key''] old_store"

theorem key_stays_private_witness: "bits (snd key_run) 1 = 384"
proof -
  obtain w s where r: "key_run = ([w], s)" "writers_step\<^sup>*\<^sup>* ([write_600 ''ca.key'' ''key''], old_store) ([w], s)"
    using play_single[of "[(0, 1), (0, 1), (0, 2)]"] by (force simp: key_run_def)
  have p: "inode (snd key_run) (''ca.key'' @ ''.tmp'') = Some 1" "bytes (snd key_run) 1 \<noteq> []"
    "inode old_store (''ca.key'' @ ''.tmp'') \<noteq> Some 1"
    by code_simp+
  show ?thesis
    using key_stays_private[OF old_store_ok r(2), of 1] p unfolding r(1) snd_conv by blast
qed

end
