(* ===== verification/Dip_Spinner.thy ===== *)
theory Dip_Spinner
  imports Dip_Style
begin

text \<open>
  The spinner (\<open>utils/spinner.rs\<close>). Its state is behind a lock, so the calls of its handles and the redraws
  of its ticker thread happen one after another: a run is a list of events. What is written to the
  terminal is a list of pieces, where \<open>Erase\<close> stands for the sequence \<open>CLEAR_LINE\<close>; \<open>screen\<close> is what the
  terminal makes of them; the texts have no line breaks of their own. Whether colours are on is the argument \<open>on\<close>.
\<close>

section \<open>The terminal\<close>

datatype piece = Erase | Put string | Newline

fun draw :: "piece \<Rightarrow> string list \<times> string \<Rightarrow> string list \<times> string" where
  "draw Erase (upper, line) = (upper, [])"
| "draw (Put t) (upper, line) = (upper, line @ t)"
| "draw Newline (upper, line) = (upper @ [line], [])"

definition screen :: "piece list \<Rightarrow> string list \<times> string" where
  "screen ps = fold draw ps ([], [])"

section \<open>The spinner\<close>

definition frames :: "string list" where
  "frames = map (\<lambda>c. [CHR 0xE2, CHR 0xA0, c])
     [CHR 0x8B, CHR 0x99, CHR 0xB9, CHR 0xB8, CHR 0xBC, CHR 0xB4, CHR 0xA6, CHR 0xA7, CHR 0x87, CHR 0x8F]"

record spinner =
  message :: string
  frame :: nat
  finished :: bool
  animated :: bool
  out :: "piece list"
  handles :: nat

datatype finish_mode = Clear_line | Final_message string | Abandon

definition start_spinner :: "string \<Rightarrow> bool \<Rightarrow> spinner" where
  "start_spinner m anim = \<lparr>message = m, frame = 0, finished = False, animated = anim, out = [], handles = 1\<rparr>"

text \<open>\<open>FRAMES[st.frame]\<close>, which panics out of range.\<close>

definition render_line :: "bool \<Rightarrow> spinner \<Rightarrow> string exec" where
  "render_line on st =
     (if frame st < length frames then Returns (paint on (in_color Green (plain (frames ! frame st))) @ '' '' @ message st)
      else Panics)"

definition emit :: "piece list \<Rightarrow> spinner \<Rightarrow> spinner" where
  "emit ps st = st\<lparr>out := out st @ ps\<rparr>"

definition set_message :: "string \<Rightarrow> spinner \<Rightarrow> spinner" where
  "set_message m st = st\<lparr>message := m\<rparr>"

definition print_above :: "bool \<Rightarrow> string \<Rightarrow> spinner \<Rightarrow> spinner exec" where
  "print_above on l st =
     (if animated st \<and> \<not> finished st then
        bind_exec (render_line on st) (\<lambda>r. Returns (emit [Erase, Put l, Newline, Put r] st))
      else Returns (emit [Put l, Newline] st))"

definition finish :: "bool \<Rightarrow> finish_mode \<Rightarrow> spinner \<Rightarrow> spinner exec" where
  "finish on mode st =
     (if finished st then Returns st
      else
        (let st1 = st\<lparr>finished := True\<rparr>; st2 = (if animated st then emit [Erase] st1 else st1) in
         case mode of
           Clear_line \<Rightarrow> Returns st2
         | Final_message m \<Rightarrow> Returns (emit [Put m, Newline] st2)
         | Abandon \<Rightarrow>
             (if animated st then bind_exec (render_line on st2) (\<lambda>r. Returns (emit [Put r, Newline] st2))
              else Returns st2)))"

text \<open>One turn of \<open>tick_loop\<close>; the thread exists where the spinner is animated and ends with it.\<close>

definition tick_redraw :: "bool \<Rightarrow> spinner \<Rightarrow> spinner exec" where
  "tick_redraw on st =
     (if animated st \<and> \<not> finished st then
        bind_exec (render_line on st) (\<lambda>r. Returns ((emit [Erase, Put r] st)\<lparr>frame := (frame st + 1) mod length frames\<rparr>))
      else Returns st)"

definition clone_handle :: "spinner \<Rightarrow> spinner" where
  "clone_handle st = st\<lparr>handles := handles st + 1\<rparr>"

definition drop_handle :: "bool \<Rightarrow> spinner \<Rightarrow> spinner exec" where
  "drop_handle on st =
     (let st1 = st\<lparr>handles := handles st - 1\<rparr> in if handles st = 1 then finish on Clear_line st1 else Returns st1)"

datatype event = Redraw | Message string | Say string | Finish finish_mode | Share | Drop

fun spinner_event :: "bool \<Rightarrow> event \<Rightarrow> spinner \<Rightarrow> spinner exec" where
  "spinner_event on Redraw st = tick_redraw on st"
| "spinner_event on (Message m) st = Returns (set_message m st)"
| "spinner_event on (Say l) st = print_above on l st"
| "spinner_event on (Finish mode) st = finish on mode st"
| "spinner_event on Share st = Returns (clone_handle st)"
| "spinner_event on Drop st = drop_handle on st"

fun spin :: "bool \<Rightarrow> event list \<Rightarrow> spinner \<Rightarrow> spinner exec" where
  "spin on [] st = Returns st"
| "spin on (e # es) st = bind_exec (spinner_event on e st) (spin on es)"

section \<open>What is on the screen\<close>

lemma screen_append: "screen (ps @ qs) = fold draw qs (screen ps)"
  by (simp add: screen_def)

text \<open>
  The lines said so far stand upper; the line below them is empty unless the animation runs, and the
  frame is one of the frames.
\<close>

definition tidy_screen :: "string list \<Rightarrow> spinner \<Rightarrow> bool" where
  "tidy_screen said st \<longleftrightarrow> fst (screen (out st)) = said \<and> frame st < length frames
     \<and> (animated st \<and> \<not> finished st \<or> snd (screen (out st)) = [])"

definition the_line :: "bool \<Rightarrow> spinner \<Rightarrow> string" where
  "the_line on st = paint on (in_color Green (plain (frames ! frame st))) @ '' '' @ message st"

text \<open>The lines that an event stays on the screen for good.\<close>

fun stays :: "bool \<Rightarrow> event \<Rightarrow> spinner \<Rightarrow> string list" where
  "stays on (Say l) st = [l]"
| "stays on (Finish mode) st =
     (if finished st then []
      else case mode of Clear_line \<Rightarrow> [] | Final_message m \<Rightarrow> [m] | Abandon \<Rightarrow> if animated st then [the_line on st] else [])"
| "stays on _ st = []"

lemmas spinner_defs = tick_redraw_def print_above_def finish_def drop_handle_def clone_handle_def set_message_def render_line_def
  emit_def bind_exec_def Let_def

lemma frames_pos [simp]: "0 < length frames" "frames \<noteq> []"
  by (simp_all add: frames_def)

lemma finish_tidy:
  assumes "tidy_screen said st"
  shows "\<exists>st'. finish on mode st = Returns st' \<and> tidy_screen (said @ stays on (Finish mode) st) st' \<and> finished st'
    \<and> animated st' = animated st"
proof (cases "screen (out st)")
  case (Pair upper line)
  then show ?thesis
    using assms
    by (cases mode) (auto simp: spinner_defs tidy_screen_def screen_append the_line_def)
qed

lemma event_tidy:
  assumes "tidy_screen said st"
  shows "\<exists>st'. spinner_event on e st = Returns st' \<and> tidy_screen (said @ stays on e st) st' \<and> animated st' = animated st"
proof (cases "screen (out st)")
  case (Pair upper line)
  show ?thesis
  proof (cases e)
    case (Finish mode)
    then show ?thesis using finish_tidy[OF assms, of on mode] by (auto simp del: stays.simps)
  next
    case Drop
    have "tidy_screen said (st\<lparr>handles := handles st - 1\<rparr>)" using assms by (simp add: tidy_screen_def)
    from finish_tidy[OF this, of on Clear_line] show ?thesis
      using assms Drop by (auto simp: drop_handle_def Let_def tidy_screen_def)
  qed (use assms Pair in \<open>auto simp: spinner_defs tidy_screen_def screen_append\<close>)
qed

fun all_left :: "bool \<Rightarrow> event list \<Rightarrow> spinner \<Rightarrow> string list" where
  "all_left on [] st = []"
| "all_left on (e # es) st =
     stays on e st @ (case spinner_event on e st of Returns st' \<Rightarrow> all_left on es st' | Panics \<Rightarrow> [])"

lemma spin_tidy:
  "tidy_screen said st \<Longrightarrow> \<exists>st'. spin on es st = Returns st' \<and> tidy_screen (said @ all_left on es st) st'"
proof (induction es arbitrary: said st)
  case (Cons e es)
  from event_tidy[OF Cons.prems, of on e] obtain st1 where
    "spinner_event on e st = Returns st1" "tidy_screen (said @ stays on e st) st1" by blast
  then show ?case using Cons.IH[of "said @ stays on e st" st1] by (simp add: bind_exec_def)
qed simp

lemma start_tidy: "tidy_screen [] (start_spinner m anim)"
  by (simp add: tidy_screen_def start_spinner_def screen_def)

text \<open>The lines an event list says, for a reader who does not see the animation.\<close>

fun said_lines :: "bool \<Rightarrow> event list \<Rightarrow> nat \<Rightarrow> string list" where
  "said_lines done [] h = []"
| "said_lines done (Say l # es) h = l # said_lines done es h"
| "said_lines done (Finish mode # es) h =
     (if done then [] else case mode of Final_message m \<Rightarrow> [m] | _ \<Rightarrow> []) @ said_lines True es h"
| "said_lines done (Share # es) h = said_lines done es (h + 1)"
| "said_lines done (Drop # es) h = said_lines (done \<or> h = 1) es (h - 1)"
| "said_lines done (e # es) h = said_lines done es h"

lemma all_left_said:
  assumes "tidy_screen said st" "animated st \<longrightarrow> Finish Abandon \<notin> set es"
  shows "all_left on es st = said_lines (finished st) es (handles st)"
  using assms
proof (induction es arbitrary: said st)
  case (Cons e es)
  from event_tidy[OF Cons.prems(1), of on e] obtain st1 where
    st1: "spinner_event on e st = Returns st1" "tidy_screen (said @ stays on e st) st1" "animated st1 = animated st" by blast
  have IH: "all_left on es st1 = said_lines (finished st1) es (handles st1)"
    using Cons.IH[OF st1(2)] Cons.prems(2) st1(3) by auto
  show ?case
    using st1(1) IH Cons.prems
    by (cases e) (auto simp: spinner_defs tidy_screen_def split: if_splits finish_mode.splits)
qed simp



end
