(* ===== verification/Dip_Tools.thy ===== *)
theory Dip_Tools
  imports Dip_Projects Dip_Style
begin

text \<open>
  The shell integration (\<open>commands/completions.rs\<close>), the tunnel of \<open>dip share\<close> (\<open>tunnel/mod.rs\<close>) and the end
  of the program (\<open>main.rs\<close>). The completions that \<open>clap\<close> generates are the parameter \<open>generated\<close>; what
  the shells do with the text of the hooks is not modelled. The tunnel sees the lines and the end of
  \<open>ssh\<close> and the interrupts of the user as a list of events.
\<close>

section \<open>Completions\<close>

datatype shell = Zsh | Bash | Fish | Other_shell

definition shell_ext :: "shell \<Rightarrow> string" where
  "shell_ext sh = (case sh of Zsh \<Rightarrow> ''zsh'' | Bash \<Rightarrow> ''bash'' | Fish \<Rightarrow> ''fish'' | Other_shell \<Rightarrow> ''sh'')"

definition dash :: string where
  "dash = [CHR 0xE2, CHR 0x80, CHR 0x94]"

definition zsh_hook :: "string \<Rightarrow> string list" where
  "zsh_hook path =
    [''# dip: create aliases for .dip/commands/ so '' @ [btick] @ ''migrate'' @ [btick] @ '' '' @ arrow @ '' '' @ [btick] @ ''dip run migrate'' @ [btick],
     ''# Works from any subdirectory '' @ dash @ '' uses '' @ [btick] @ ''dip root'' @ [btick] @ '' to find the project root.'',
     ''autoload -U add-zsh-hook'',
     ''typeset -ga _dip_active_aliases'',
     [],
     ''_dip_activate() {'',
     ''  # Remove aliases registered for the previous project'',
     ''  for _dip_cmd in '' @ [dquote] @ ''${_dip_active_aliases[@]}'' @ [dquote] @ ''; do'',
     ''    unalias '' @ [dquote] @ ''$_dip_cmd'' @ [dquote] @ '' 2>/dev/null'',
     ''  done'',
     ''  _dip_active_aliases=()'',
     [],
     ''  # dip root exits 1 if not in a dip project '' @ dash @ '' suppress error output'',
     ''  local root'',
     ''  root=$(dip root 2>/dev/null) || return'',
     [],
     ''  local cmds_dir='' @ [dquote] @ ''$root/.dip/commands'' @ [dquote],
     ''  [[ -d '' @ [dquote] @ ''$cmds_dir'' @ [dquote] @ '' ]] || return'',
     [],
     ''  for f in '' @ [dquote] @ ''$cmds_dir'' @ [dquote] @ ''/*; do'',
     ''    [[ -f '' @ [dquote] @ ''$f'' @ [dquote] @ '' ]] || continue'',
     ''    local name='' @ [dquote] @ ''${f:t}'' @ [dquote],
     ''    alias '' @ [dquote] @ ''${name}=dip run ${name}'' @ [dquote],
     ''    _dip_active_aliases+=('' @ [dquote] @ ''$name'' @ [dquote] @ '')'',
     ''  done'',
     ''}'',
     ''add-zsh-hook chpwd _dip_activate'',
     ''_dip_activate  # run for the current directory right away'',
     ''# completions file: '' @ path]"

definition bash_hook :: "string \<Rightarrow> string list" where
  "bash_hook path =
    [''# dip: create aliases for .dip/commands/ so '' @ [btick] @ ''migrate'' @ [btick] @ '' '' @ arrow @ '' '' @ [btick] @ ''dip run migrate'' @ [btick],
     ''_dip_active_aliases=()'',
     [],
     ''_dip_activate() {'',
     ''  for _dip_cmd in '' @ [dquote] @ ''${_dip_active_aliases[@]}'' @ [dquote] @ ''; do'',
     ''    unalias '' @ [dquote] @ ''$_dip_cmd'' @ [dquote] @ '' 2>/dev/null'',
     ''  done'',
     ''  _dip_active_aliases=()'',
     [],
     ''  local root'',
     ''  root=$(dip root 2>/dev/null) || return'',
     [],
     ''  local cmds_dir='' @ [dquote] @ ''$root/.dip/commands'' @ [dquote],
     ''  [[ -d '' @ [dquote] @ ''$cmds_dir'' @ [dquote] @ '' ]] || return'',
     [],
     ''  for f in '' @ [dquote] @ ''$cmds_dir'' @ [dquote] @ ''/*; do'',
     ''    [[ -f '' @ [dquote] @ ''$f'' @ [dquote] @ '' ]] || continue'',
     ''    local name='' @ [dquote] @ ''${f##*/}'' @ [dquote],
     ''    alias '' @ [dquote] @ ''${name}=dip run ${name}'' @ [dquote],
     ''    _dip_active_aliases+=('' @ [dquote] @ ''$name'' @ [dquote] @ '')'',
     ''  done'',
     ''}'',
     ''PROMPT_COMMAND='' @ [dquote] @ ''_dip_activate${PROMPT_COMMAND:+; $PROMPT_COMMAND}'' @ [dquote],
     ''_dip_activate  # run for the current directory right away'',
     ''# completions file: '' @ path]"

definition fish_hook :: "string \<Rightarrow> string list" where
  "fish_hook path =
    [''# dip: create aliases for .dip/commands/ so '' @ [btick] @ ''migrate'' @ [btick] @ '' '' @ arrow @ '' '' @ [btick] @ ''dip run migrate'' @ [btick],
     ''set -g _dip_active_aliases'',
     [],
     ''function _dip_activate --on-variable PWD'',
     ''  for _dip_cmd in $_dip_active_aliases'',
     ''    functions --erase $_dip_cmd'',
     ''  end'',
     ''  set -g _dip_active_aliases'',
     [],
     ''  set -l root (dip root 2>/dev/null) or return'',
     ''  set -l cmds_dir '' @ [dquote] @ ''$root/.dip/commands'' @ [dquote],
     ''  test -d $cmds_dir or return'',
     [],
     ''  for f in $cmds_dir/*'',
     ''    test -f $f or continue'',
     ''    set -l name (basename $f)'',
     ''    eval '' @ [dquote] @ ''function $name; dip run $name '' @ [bslash] @ ''$argv; end'' @ [dquote],
     ''    set -ga _dip_active_aliases $name'',
     ''  end'',
     ''end'',
     ''_dip_activate'',
     ''# completions file: '' @ path]"

definition shell_hook :: "shell \<Rightarrow> string \<Rightarrow> string" where
  "shell_hook sh path =
     (let block = (\<lambda>ls. [nl] @ join [nl] ls @ [nl]) in
      case sh of
        Zsh \<Rightarrow> block (zsh_hook path)
      | Bash \<Rightarrow> block (bash_hook path)
      | Fish \<Rightarrow> block (fish_hook path)
      | Other_shell \<Rightarrow> [])"

definition shell_rc :: "string option \<Rightarrow> shell \<Rightarrow> string" where
  "shell_rc home_var sh =
     (let home = value_or ''~'' home_var in
      case sh of
        Zsh \<Rightarrow> home @ ''/.zshrc''
      | Bash \<Rightarrow> home @ ''/.bashrc''
      | Fish \<Rightarrow> home @ ''/.config/fish/config.fish''
      | Other_shell \<Rightarrow> home @ ''/.profile'')"

definition source_line :: "string \<Rightarrow> string" where
  "source_line path = ''source '' @ [dquote] @ path @ [dquote]"

text \<open>The result says whether the line was added.\<close>

definition patch_rc :: "string \<Rightarrow> string \<Rightarrow> bool on_disk" where
  "patch_rc rc line d =
     (let add = io_seq (append_file rc ([nl] @ line @ [nl])) (ret True) in
      if path_exists d rc then
        (case read_to_string d rc of
           None \<Rightarrow> (Inl ''read failed'', d)
         | Some content \<Rightarrow> if list_ex (\<lambda>l. trim l = line) (str_lines content) then (Inr False, d) else add d)
      else add d)"

definition confirms :: "string \<Rightarrow> bool" where
  "confirms line \<longleftrightarrow> (let a = to_lower (trim line) in a = ''y'' \<or> a = ''yes'')"

definition completions_cmd :: "(shell \<Rightarrow> string) \<Rightarrow> string \<Rightarrow> string option \<Rightarrow> string \<Rightarrow> shell \<Rightarrow> bool on_disk" where
  "completions_cmd generated config_dir home_var answer sh =
     (let dir = path_join config_dir ''completions''; path = path_join dir (''dip.'' @ shell_ext sh) in
      io_seq (create_dir_all dir)
      (io_seq (write_file path (generated sh @ shell_hook sh path))
      (if (sh = Zsh \<or> sh = Bash) \<and> confirms answer then patch_rc (shell_rc home_var sh) (source_line path) else ret False)))"

lemma raw_lines_after: "\<exists>w ws. raw_lines (c @ nl # s) = w # ws @ raw_lines s"
proof (induction c)
  case (Cons x c)
  then obtain w ws where "raw_lines (c @ nl # s) = w # ws @ raw_lines s" by blast
  then have "raw_lines ((x # c) @ nl # s) = (if x = nl then [] # (w # ws) @ raw_lines s else (x # w) # ws @ raw_lines s)"
    by simp
  then have "raw_lines ((x # c) @ nl # s) = (if x = nl then [] else x # w) # (if x = nl then w # ws else ws) @ raw_lines s"
    by simp
  then show ?case by blast
qed (rule exI[of _ "[]"], rule exI[of _ "[]"], simp)

lemma line_appended:
  assumes "tidy l" "l \<noteq> []" "nl \<notin> set l"
  shows "list_ex (\<lambda>x. trim x = l) (str_lines (c @ [nl] @ l @ [nl]))"
proof -
  obtain w ws where "raw_lines (c @ nl # l @ [nl]) = w # ws @ raw_lines (l @ [nl])" using raw_lines_after by blast
  moreover have "raw_lines (l @ [nl]) = [l]" using raw_lines_cons[of l "[]"] assms(3) by simp
  ultimately show ?thesis using assms by (simp add: str_lines_def strip_cr_tidy trim_tidy)
qed

text \<open>
  The line is in the start-up file once: after a success one of its lines is the line that loads the
  completions, the old text is kept in front of it, no other file has changed, and a second run finds
  the line and changes nothing.
\<close>

theorem rc_patched_once:
  assumes "patch_rc rc line d = (Inr b, d')" "readable d rc" "tidy line" "line \<noteq> []" "nl \<notin> set line" "is_utf8 line"
  shows "(\<exists>old t. value_or [] (contents d rc) = old \<and> contents d' rc = Some (old @ t) \<and> list_ex (\<lambda>l. trim l = line) (str_lines (old @ t))
      \<and> (t = [] \<or> t = [nl] @ line @ [nl]))
    \<and> (\<forall>p. p \<noteq> rc \<longrightarrow> contents d' p = contents d p) \<and> patch_rc rc line d' = (Inr False, d')"
proof -
  let ?t = "[nl] @ line @ [nl]"
  have u: "is_utf8 (old @ ?t)" if "is_utf8 old" for old
  proof -
    have "is_utf8 ?t" using assms(6) is_utf8_ascii[of nl "[]" "line @ [nl]"] is_utf8_ascii[of nl line "[]"] by (simp add: ascii_def)
    then show ?thesis using that is_utf8_append by blast
  qed
  consider (there) c where "contents d rc = Some c" "is_utf8 c" "list_ex (\<lambda>l. trim l = line) (str_lines c)" "b = False" "d' = d"
    | (added) "append_file rc ?t d = (Inr (), d')" "\<not> path_exists d rc \<or> (\<exists>c. contents d rc = Some c \<and> is_utf8 c)" "b = True"
  proof (cases "path_exists d rc")
    case False
    then have "io_seq (append_file rc ?t) (ret True) d = (Inr b, d')" using assms(1) by (simp add: patch_rc_def)
    then show ?thesis using False added unfolding seq_Inr by (auto simp: ret_def)
  next
    case True
    then obtain c where c: "read_to_string d rc = Some c"
      using assms(1) by (cases "read_to_string d rc") (simp_all add: patch_rc_def)
    then have cc: "contents d rc = Some c" "is_utf8 c"
      by (auto simp: read_to_string_def read_bytes_def bind_eq_Some_conv split: if_splits)
    show ?thesis
    proof (cases "list_ex (\<lambda>l. trim l = line) (str_lines c)")
      case yes: True
      then have "patch_rc rc line d = (Inr False, d)" by (simp only: patch_rc_def Let_def True if_True c option.case)
      then show ?thesis using assms(1) there[OF cc yes] by simp
    next
      case no: False
      then have "io_seq (append_file rc ?t) (ret True) d = (Inr b, d')"
        using assms(1) by (simp only: patch_rc_def Let_def True if_True c option.case if_False)
      then show ?thesis using added cc unfolding seq_Inr by (auto simp: ret_def)
    qed
  qed
  then show ?thesis
  proof cases
    case there
    have "patch_rc rc line d' = (Inr False, d')" using assms(1) there(4,5) by simp
    then show ?thesis
      using there by (intro conjI exI[of _ c] exI[of _ "[]"]) (simp_all add: value_or_def)
  next
    case added
    let ?old = "value_or [] (contents d rc)"
    have old: "is_utf8 ?old" using added(2) by (auto simp: value_or_def path_exists_def is_file_def)
    have d': "contents d' = (contents d)(rc \<mapsto> ?old @ ?t)" "readable d' = readable d"
      using added(1) by (auto simp: append_file_def write_file_def value_or_def split: if_splits option.splits)
    have line: "list_ex (\<lambda>l. trim l = line) (str_lines (?old @ ?t))" using line_appended[OF assms(3-5)] by simp
    have "patch_rc rc line d' = (Inr False, d')"
      using line u[OF old] assms(2) d' by (simp add: patch_rc_def path_exists_def is_file_def read_to_string_def read_bytes_def)
    then show ?thesis
      using d' line by (intro conjI exI[of _ ?old] exI[of _ ?t]) simp_all
  qed
qed

theorem rc_patched_once_witness:
  "patch_rc ''/home/me/.bashrc'' (source_line ''/c/dip.bash'') (snd (patch_rc ''/home/me/.bashrc'' (source_line ''/c/dip.bash'') (open_disk [])))
     = (Inr False, snd (patch_rc ''/home/me/.bashrc'' (source_line ''/c/dip.bash'') (open_disk [])))"
proof -
  let ?r = "patch_rc ''/home/me/.bashrc'' (source_line ''/c/dip.bash'') (open_disk [])"
  have a: "fst ?r = Inr True" "tidy (source_line ''/c/dip.bash'')" "source_line ''/c/dip.bash'' \<noteq> []" "nl \<notin> set (source_line ''/c/dip.bash'')"
      "is_utf8 (source_line ''/c/dip.bash'')" "readable (open_disk []) ''/home/me/.bashrc''"
    by code_simp+
  have "?r = (Inr True, snd ?r)" using a(1) by (metis prod.collapse)
  from rc_patched_once[OF this a(6,2-5)] show ?thesis by simp
qed

text \<open>The blank line that is meant to separate the new line is missing where the file does not end with a line break.\<close>

theorem no_blank_separator:
  "str_lines (case contents (snd (patch_rc ''/rc'' ''x'' (open_disk [(''/rc'', ''a'')]))) ''/rc'' of Some c \<Rightarrow> c | None \<Rightarrow> []) = [''a'', ''x'']"
  by code_simp

section \<open>The tunnel\<close>

definition ssh_argv :: "string \<Rightarrow> string list" where
  "ssh_argv up =
     [''ssh'', ''-T'', ''-o'', ''StrictHostKeyChecking=accept-new'', ''-o'', ''ServerAliveInterval=30'',
      ''-o'', ''ExitOnForwardFailure=yes'', ''-R'', ''80:'' @ up, ''nokey@localhost.run'']"

text \<open>The error of starting \<open>ssh\<close>: whether the program was not found, and its message.\<close>

definition spawn_ssh :: "(bool \<times> string) + unit \<Rightarrow> string + unit" where
  "spawn_ssh r =
     (case r of
        Inr u \<Rightarrow> Inr u
      | Inl (not_found, e) \<Rightarrow>
          Inl (if not_found then ''ssh client not found - install OpenSSH client'' else ''Cannot start ssh: '' @ e))"

definition is_ssh_noise :: "string \<Rightarrow> bool" where
  "is_ssh_noise line \<longleftrightarrow> starts_with ''Warning: Permanently added'' line"

definition extract_url :: "string \<Rightarrow> string option" where
  "extract_url line = find (\<lambda>w. starts_with ''https://'' w \<or> starts_with ''http://'' w) (split_ws line)"

datatype tunnel_event = Line string | Closed | Ctrl_c "string + unit"

datatype tunnel_end = Serving | Ended bool | Interrupted | Signal_error string

definition shown_line :: "string \<Rightarrow> string list" where
  "shown_line l =
     (case extract_url l of
        Some u \<Rightarrow> [''  Public URL: '' @ u]
      | None \<Rightarrow> if trim l = [] then [] else [''  '' @ l])"

text \<open>The loop over the events, with the lines it prints; without a further event it waits.\<close>

fun watch_ssh :: "tunnel_event list \<Rightarrow> bool \<Rightarrow> tunnel_end \<times> string list" where
  "watch_ssh [] seen = (Serving, [])"
| "watch_ssh (Line l # es) seen =
     (case watch_ssh es (seen \<or> extract_url l \<noteq> None) of (r, ls) \<Rightarrow> (r, shown_line l @ ls))"
| "watch_ssh (Closed # es) seen = (Ended seen, [])"
| "watch_ssh (Ctrl_c r # es) seen =
     (case r of Inr _ \<Rightarrow> (Interrupted, []) | Inl e \<Rightarrow> (Signal_error (''Signal error: '' @ e), []))"

definition shown_stderr :: "string list \<Rightarrow> string list" where
  "shown_stderr ls = map (\<lambda>l. ''  '' @ l) (filter (\<lambda>l. \<not> is_ssh_noise l \<and> trim l \<noteq> []) ls)"

text \<open>\<open>status\<close> is the outcome of waiting for the ended child, \<open>stderr_lines\<close> what it has written there.\<close>

definition run_tunnel :: "(bool \<times> string) + unit \<Rightarrow> tunnel_event list \<Rightarrow> string list \<Rightarrow> string + string \<Rightarrow> (string + unit) option" where
  "run_tunnel spawned es stderr_lines status =
     (case spawn_ssh spawned of
        Inl e \<Rightarrow> Some (Inl e)
      | Inr _ \<Rightarrow>
          (case fst (watch_ssh es False) of
             Serving \<Rightarrow> None
           | Interrupted \<Rightarrow> Some (Inr ())
           | Signal_error e \<Rightarrow> Some (Inl e)
           | Ended seen \<Rightarrow>
               (case status of
                  Inl e \<Rightarrow> Some (Inl e)
                | Inr st \<Rightarrow>
                    (if seen then Some (Inr ())
                     else Some (Inl (let out = join [nl] stderr_lines in
                       ''ssh exited before a public URL was received ('' @ st @ '')'' @ (if out = [] then [] else nl # out)))))))"

definition share_argv :: "string + proxy_config \<Rightarrow> string + project_config \<Rightarrow> 16 word option \<Rightarrow> string option \<Rightarrow> string + string list" where
  "share_argv loaded found port service = and_then (share_target loaded found port service) (\<lambda>(up, label). Inr (ssh_argv up))"

lemma watch_ssh_lines:
  "watch_ssh (map Line ls @ es) seen =
     (case watch_ssh es (seen \<or> (\<exists>l\<in>set ls. extract_url l \<noteq> None)) of (r, out) \<Rightarrow> (r, concat (map shown_line ls) @ out))"
  by (induction ls arbitrary: seen) (auto simp: disj_assoc split: prod.split)

text \<open>
  \<open>dip share\<close> ends well exactly when the user interrupts it, or when \<open>ssh\<close> ends by itself after it has
  shown a line with an address; until one of them happens it serves.
\<close>

theorem tunnel_outcome:
  "run_tunnel (Inr ()) (map Line ls) errs status = None
   \<and> run_tunnel (Inr ()) (map Line ls @ Ctrl_c (Inr ()) # es) errs status = Some (Inr ())
   \<and> run_tunnel (Inr ()) (map Line ls @ Closed # es) errs (Inr st) =
       (if \<exists>l\<in>set ls. extract_url l \<noteq> None then Some (Inr ())
        else Some (Inl (''ssh exited before a public URL was received ('' @ st @ '')''
          @ (if join [nl] errs = [] then [] else nl # join [nl] errs))))"
  using watch_ssh_lines[of ls "[]" False]
  by (simp add: run_tunnel_def spawn_ssh_def watch_ssh_lines)

text \<open>Any address counts as the public one, also that of a help page in the banner.\<close>

theorem banner_counts_as_url:
  "watch_ssh [Line ''more details at https://localhost.run/docs/faq''] False = (Serving, [''  Public URL: https://localhost.run/docs/faq''])"
  "run_tunnel (Inr ()) [Line ''more details at https://localhost.run/docs/faq'', Closed] [''Permission denied''] (Inr ''exit status: 255'') = Some (Inr ())"
  by code_simp+

section \<open>The end of the program\<close>

text \<open>The exit code of \<open>main\<close> and what it writes to the error output; \<open>db console\<close> passes a code on.\<close>

definition main_end :: "bool \<Rightarrow> string + unit \<Rightarrow> int \<times> string list" where
  "main_end on result =
     (case result of
        Inl e \<Rightarrow> (1, [paint on (in_color Red (plain [CHR 0xE2, CHR 0x9C, CHR 0x97])) @ '' '' @ e])
      | Inr _ \<Rightarrow> (0, []))"

definition console_end :: "bool \<Rightarrow> string + int \<Rightarrow> int \<times> string list" where
  "console_end on result =
     (case result of
        Inr n \<Rightarrow> if n \<noteq> 0 then (n, []) else main_end on (Inr ())
      | Inl e \<Rightarrow> main_end on (Inl e))"

lemma failure_shown: "fst (main_end on r) = 0 \<longleftrightarrow> (\<exists>u. r = Inr u)" "esc \<notin> set e \<Longrightarrow> map visible (snd (main_end on (Inl e))) =
    [[CHR 0xE2, CHR 0x9C, CHR 0x97] @ '' '' @ e]"
  by (simp_all add: main_end_def visible_paint visible_plain_end esc_def split: sum.split)

end
