(* ===== verification/Dip_Bench.thy ===== *)
theory Dip_Bench
  imports Complex_Main Dip_Runtime Dip_Disk Dip_Style
begin

text \<open>
  \<open>dip bench\<close> (\<open>commands/bench.rs\<close>, the measurements of \<open>runtime/mod.rs\<close>) over the benchmarks of
  \<open>Dip_Docker\<close>. A finite \<open>f64\<close> is the rational number it stands for, and every operation is followed by
  the rounding \<open>rnd\<close> of the machine; no value here can be infinite, because the totals are durations
  and what they are divided by is positive. Formatting with one decimal is the parameter \<open>fixed1\<close>.
\<close>

section \<open>Measurements\<close>

record measurement =
  m_runtime :: string
  m_image :: string
  m_iterations :: nat
  m_warmup :: nat
  start_ms :: rat
  start_total_ms :: rat
  exec_ms :: rat
  exec_total_ms :: rat
  disk_ms :: rat
  disk_total_ms :: rat
  disk_mib_per_s :: rat
  total_ms :: rat

definition secs_f64 :: "(rat \<Rightarrow> rat) \<Rightarrow> nat \<Rightarrow> rat" where
  "secs_f64 rnd nanos = rnd (of_nat nanos / 1000000000)"

definition duration_ms :: "(rat \<Rightarrow> rat) \<Rightarrow> nat \<Rightarrow> rat" where
  "duration_ms rnd nanos = rnd (secs_f64 rnd nanos * 1000)"

definition mib_per_s :: "(rat \<Rightarrow> rat) \<Rightarrow> bench_spec \<Rightarrow> nat \<Rightarrow> rat" where
  "mib_per_s rnd spec disk =
     (let s = secs_f64 rnd disk in
      if 0 < s then rnd (rnd (rnd (rnd (of_nat (size_mb spec)) * 2) * rnd (of_nat (max (iterations spec) 1))) / s) else 0)"

definition bench_measurement :: "(rat \<Rightarrow> rat) \<Rightarrow> string \<Rightarrow> bench_spec \<Rightarrow> bench_totals \<Rightarrow> measurement" where
  "bench_measurement rnd name spec t =
     (let n = max (iterations spec) 1; per = (\<lambda>x. rnd (x / rnd (of_nat n)));
          s = duration_ms rnd (t_start t); e = duration_ms rnd (t_exec t); d = duration_ms rnd (t_disk t)
      in \<lparr>m_runtime = name, m_image = bench_image spec, m_iterations = n, m_warmup = warmup spec,
          start_ms = per s, start_total_ms = s, exec_ms = per e, exec_total_ms = e, disk_ms = per d, disk_total_ms = d,
          disk_mib_per_s = mib_per_s rnd spec (t_disk t), total_ms = rnd (rnd (s + e) + d)\<rparr>)"

definition steady_bench_measurement :: "(rat \<Rightarrow> rat) \<Rightarrow> string \<Rightarrow> bench_spec \<Rightarrow> bench_totals \<Rightarrow> measurement" where
  "steady_bench_measurement rnd name spec t =
     (let n = max (iterations spec) 1; per = (\<lambda>x. rnd (x / rnd (of_nat n)));
          s = duration_ms rnd (t_start t); e = duration_ms rnd (t_exec t); d = duration_ms rnd (t_disk t)
      in \<lparr>m_runtime = name, m_image = bench_image spec, m_iterations = n, m_warmup = warmup spec,
          start_ms = s, start_total_ms = s, exec_ms = per e, exec_total_ms = e, disk_ms = per d, disk_total_ms = d,
          disk_mib_per_s = mib_per_s rnd spec (t_disk t), total_ms = rnd (rnd (s + e) + d)\<rparr>)"

text \<open>\<open>{path:?}\<close> on ASCII text.\<close>

definition debug_char :: "char \<Rightarrow> string" where
  "debug_char c =
     (if c = dquote then [bslash, dquote] else if c = bslash then [bslash, bslash]
      else if c = nl then [bslash] @ ''n'' else if c = cr then [bslash] @ ''r'' else if c = CHR 0x09 then [bslash] @ ''t''
      else [c])"

definition debug_text :: "string \<Rightarrow> string" where
  "debug_text s = [dquote] @ concat (map debug_char s) @ [dquote]"

definition bench_disk_script :: "string \<Rightarrow> nat \<Rightarrow> string" where
  "bench_disk_script path mb =
     ''set -eu; p='' @ debug_text path @ ''; dd if=/dev/zero of='' @ [dquote] @ ''$p'' @ [dquote] @ '' bs=1M count='' @ show_nat mb
     @ '' 2>/dev/null; sync; dd if='' @ [dquote] @ ''$p'' @ [dquote] @ '' of=/dev/null bs=1M 2>/dev/null; rm -f ''
     @ [dquote] @ ''$p'' @ [dquote]"

section \<open>The command\<close>

datatype scenario = Lifecycle | Steady

record bench_backend =
  engine_name :: string
  engine_check :: "unit io"
  engine_bench :: "bench_spec \<Rightarrow> measurement io"
  engine_steady :: "bench_spec \<Rightarrow> measurement io"

definition known_runtime_names :: "bool \<Rightarrow> string list" where
  "known_runtime_names macos = (if macos then [''apple'', ''docker''] else [''docker''])"

fun measure_all :: "scenario \<Rightarrow> bench_spec \<Rightarrow> bench_backend list \<Rightarrow> (measurement list \<times> (string \<times> string) list) io" where
  "measure_all sc spec [] = ret ([], [])"
| "measure_all sc spec (b # bs) =
     io_bind (attempt (engine_check b)) (\<lambda>ok.
     io_bind (case ok of
                Inl e \<Rightarrow> ret (Inl e)
              | Inr _ \<Rightarrow> attempt (case sc of Lifecycle \<Rightarrow> engine_bench b spec | Steady \<Rightarrow> engine_steady b spec)) (\<lambda>r.
     io_bind (measure_all sc spec bs) (\<lambda>(rows, skipped).
       ret (case r of Inr row \<Rightarrow> (row # rows, skipped) | Inl e \<Rightarrow> (rows, (engine_name b, e) # skipped)))))"

definition run_bench :: "scenario \<Rightarrow> bench_spec \<Rightarrow> bench_backend list \<Rightarrow> (measurement list \<times> (string \<times> string) list) io" where
  "run_bench sc spec bs =
     io_bind (measure_all sc spec bs) (\<lambda>(rows, skipped).
       if rows = [] then
         bail (''No container runtime was available for benchmarking (''
           @ join ''; '' (map (\<lambda>(n, e). n @ '': '' @ e) skipped) @ '')'')
       else ret (rows, skipped))"

text \<open>The arguments of the three subcommands.\<close>

definition spec_of :: "nat \<Rightarrow> nat \<Rightarrow> string \<Rightarrow> string \<Rightarrow> nat \<Rightarrow> (string \<times> string) option \<Rightarrow> bench_spec" where
  "spec_of iters warm img path mb mnt =
     \<lparr>iterations = max iters 1, warmup = warm, bench_image = img, bench_path = path, size_mb = mb, mount = mnt\<rparr>"

definition run_runtime :: "nat \<Rightarrow> nat \<Rightarrow> string \<Rightarrow> string \<Rightarrow> nat \<Rightarrow> bench_backend list \<Rightarrow> (measurement list \<times> (string \<times> string) list) io" where
  "run_runtime iters warm img path mb bs = run_bench Lifecycle (spec_of iters warm img path mb None) bs"

definition run_project_io ::
    "string + project_config \<Rightarrow> nat \<Rightarrow> nat \<Rightarrow> string \<Rightarrow> string \<Rightarrow> nat \<Rightarrow> bench_backend list \<Rightarrow> (measurement list \<times> (string \<times> string) list) io" where
  "run_project_io found iters warm img path mb bs =
     io_bind (of_result found) (\<lambda>p.
       run_bench Lifecycle (spec_of iters warm img path mb (Some (root_dir p, ''/workspace''))) bs)"

definition run_steady ::
    "string + project_config \<Rightarrow> nat \<Rightarrow> nat \<Rightarrow> string \<Rightarrow> string option \<Rightarrow> bool \<Rightarrow> nat \<Rightarrow> bench_backend list \<Rightarrow> (measurement list \<times> (string \<times> string) list) io" where
  "run_steady found iters warm img path project_io mb bs =
     io_bind (if project_io then io_bind (of_result found) (\<lambda>p. ret (Some (root_dir p, ''/workspace''))) else ret None) (\<lambda>mnt.
       run_bench Steady (spec_of iters warm img
         (value_or (if project_io then ''/workspace/.dip-bench.bin'' else ''/tmp/dip-bench.bin'') path) mb mnt) bs)"

section \<open>The table\<close>

text \<open>A slice of a text panics inside a character of several bytes.\<close>

definition char_boundary :: "string \<Rightarrow> nat \<Rightarrow> bool" where
  "char_boundary s k \<longleftrightarrow> k = 0 \<or> k = length s \<or> k < length s \<and> \<not> continuation (s ! k)"

definition truncate_text :: "string \<Rightarrow> nat \<Rightarrow> string exec" where
  "truncate_text s mx =
     (if length s \<le> mx then Returns s
      else if char_boundary s (mx - 3) then Returns (take (mx - 3) s @ ''...'') else Panics)"

definition fmt_ms :: "(rat \<Rightarrow> string) \<Rightarrow> rat \<Rightarrow> string" where
  "fmt_ms fixed1 x = fixed1 x @ ''ms''"

definition bench_row_line :: "(rat \<Rightarrow> string) \<Rightarrow> measurement \<Rightarrow> string exec" where
  "bench_row_line fixed1 r =
     bind_exec (truncate_text (m_image r) 16) (\<lambda>img. Returns
       (''  '' @ pad_right 8 (m_runtime r) @ '' '' @ pad_right 16 img @ '' '' @ pad_left 10 (fmt_ms fixed1 (start_ms r)) @ '' ''
        @ pad_left 10 (fmt_ms fixed1 (exec_ms r)) @ '' '' @ pad_left 10 (fmt_ms fixed1 (disk_ms r)) @ '' ''
        @ pad_left 12 (fixed1 (disk_mib_per_s r)) @ '' '' @ pad_left 12 (fmt_ms fixed1 (total_ms r))))"

datatype metric_direction = Lower | Higher

record metric_win =
  winner :: measurement
  runner_up :: measurement
  win_ratio :: rat

definition metric_win_of :: "(rat \<Rightarrow> rat) \<Rightarrow> measurement list \<Rightarrow> (measurement \<Rightarrow> rat) \<Rightarrow> metric_direction \<Rightarrow> metric_win option" where
  "metric_win_of rnd rows metric dir =
     (case sort_key (\<lambda>r. case dir of Lower \<Rightarrow> metric r | Higher \<Rightarrow> - metric r) (filter (\<lambda>r. 0 < metric r) rows) of
        a # b # _ \<Rightarrow>
          Some \<lparr>winner = a, runner_up = b,
            win_ratio = (case dir of Lower \<Rightarrow> rnd (metric b / metric a) | Higher \<Rightarrow> rnd (metric a / metric b))\<rparr>
      | _ \<Rightarrow> None)"

definition metric_line :: "(rat \<Rightarrow> rat) \<Rightarrow> (rat \<Rightarrow> string) \<Rightarrow> string \<Rightarrow> measurement list \<Rightarrow> (measurement \<Rightarrow> rat) \<Rightarrow> metric_direction \<Rightarrow> string list" where
  "metric_line rnd fixed1 label rows metric dir =
     (case metric_win_of rnd rows metric dir of
        None \<Rightarrow> []
      | Some w \<Rightarrow>
          (if win_ratio w < rnd (105 / 100)
           then [''    '' @ label @ '': '' @ m_runtime (winner w) @ '' and '' @ m_runtime (runner_up w) @ '' are close'']
           else [''    '' @ label @ '': '' @ m_runtime (winner w) @ '' wins ('' @ fixed1 (win_ratio w) @ ''x over '' @ m_runtime (runner_up w) @ '')'']))"

definition start_label :: "scenario \<Rightarrow> string" where
  "start_label sc = (case sc of Lifecycle \<Rightarrow> ''start avg'' | Steady \<Rightarrow> ''start once'')"

definition bench_summary :: "(rat \<Rightarrow> rat) \<Rightarrow> (rat \<Rightarrow> string) \<Rightarrow> scenario \<Rightarrow> measurement list \<Rightarrow> string list" where
  "bench_summary rnd fixed1 sc rows =
     (if length rows < 2 then []
      else ''  summary:''
        # metric_line rnd fixed1 (start_label sc) rows start_ms Lower
        @ metric_line rnd fixed1 ''exec avg'' rows exec_ms Lower
        @ metric_line rnd fixed1 ''disk I/O'' rows disk_mib_per_s Higher
        @ metric_line rnd fixed1 ''total'' rows total_ms Lower)"

fun all_returned :: "'a exec list \<Rightarrow> 'a list exec" where
  "all_returned [] = Returns []"
| "all_returned (x # xs) = bind_exec x (\<lambda>a. bind_exec (all_returned xs) (\<lambda>as. Returns (a # as)))"

definition bench_table :: "(rat \<Rightarrow> rat) \<Rightarrow> (rat \<Rightarrow> string) \<Rightarrow> scenario \<Rightarrow> measurement list \<Rightarrow> string list exec" where
  "bench_table rnd fixed1 sc rows =
     bind_exec (all_returned (map (bench_row_line fixed1) rows)) (\<lambda>ls. Returns
       ([rule 106,
         ''  '' @ pad_right 8 ''runtime'' @ '' '' @ pad_right 16 ''image'' @ '' '' @ pad_left 10 (start_label sc) @ '' ''
         @ pad_left 10 ''exec avg'' @ '' '' @ pad_left 10 ''disk avg'' @ '' '' @ pad_left 12 ''disk MiB/s'' @ '' '' @ pad_left 12 ''total'',
         rule 106] @ ls @ [rule 106] @ bench_summary rnd fixed1 sc rows))"

section \<open>Every engine is reported\<close>

lemma measure_all_total:
  "\<exists>rows skipped h'. measure_all sc spec bs h = (Inr (rows, skipped), h') \<and> length rows + length skipped = length bs
    \<and> (\<forall>b\<in>set bs. (\<exists>e. (engine_name b, e) \<in> set skipped)
        \<or> (\<exists>h1 row. fst (case sc of Lifecycle \<Rightarrow> engine_bench b spec h1 | Steady \<Rightarrow> engine_steady b spec h1) = Inr row \<and> row \<in> set rows))"
proof (induction bs arbitrary: h)
  case (Cons b bs)
  obtain ok h1 where ok: "engine_check b h = (ok, h1)" by force
  obtain r h2 where r: "(case ok of Inl e \<Rightarrow> ret (Inl e)
      | Inr _ \<Rightarrow> attempt (case sc of Lifecycle \<Rightarrow> engine_bench b spec | Steady \<Rightarrow> engine_steady b spec)) h1 = (Inr r, h2)"
    by (cases ok) auto
  obtain rows skipped h3 where IH: "measure_all sc spec bs h2 = (Inr (rows, skipped), h3)" "length rows + length skipped = length bs"
    "\<forall>b\<in>set bs. (\<exists>e. (engine_name b, e) \<in> set skipped)
        \<or> (\<exists>h1 row. fst (case sc of Lifecycle \<Rightarrow> engine_bench b spec h1 | Steady \<Rightarrow> engine_steady b spec h1) = Inr row \<and> row \<in> set rows)"
    using Cons.IH[of h2] by blast
  have run: "measure_all sc spec (b # bs) h =
      (Inr (case r of Inr row \<Rightarrow> (row # rows, skipped) | Inl e \<Rightarrow> (rows, (engine_name b, e) # skipped)), h3)"
    using ok r IH(1) by (simp add: io_bind_def attempt_def)
  show ?case
  proof (cases r)
    case (Inl e)
    then show ?thesis using run IH(2,3) by auto
  next
    case (Inr row)
    then have "fst (case sc of Lifecycle \<Rightarrow> engine_bench b spec h1 | Steady \<Rightarrow> engine_steady b spec h1) = Inr row"
      using r by (cases ok; cases sc) auto
    then show ?thesis using run Inr IH(2,3) by auto
  qed
qed simp

text \<open>
  Every engine is reported once, by what it measured or by the reason why it was skipped, and the
  command fails only if no engine could be measured.
\<close>

theorem bench_reports_every_engine:
  "\<exists>rows skipped. length rows + length skipped = length bs
     \<and> fst (run_bench sc spec bs h) =
        (if rows = [] then Inl (''No container runtime was available for benchmarking (''
             @ join ''; '' (map (\<lambda>(n, e). n @ '': '' @ e) skipped) @ '')'') else Inr (rows, skipped))
     \<and> (\<forall>b\<in>set bs. (\<exists>e. (engine_name b, e) \<in> set skipped)
          \<or> (\<exists>h1 row. fst (case sc of Lifecycle \<Rightarrow> engine_bench b spec h1 | Steady \<Rightarrow> engine_steady b spec h1) = Inr row \<and> row \<in> set rows))"
proof -
  obtain rows skipped h' where "measure_all sc spec bs h = (Inr (rows, skipped), h')" "length rows + length skipped = length bs"
    "\<forall>b\<in>set bs. (\<exists>e. (engine_name b, e) \<in> set skipped)
        \<or> (\<exists>h1 row. fst (case sc of Lifecycle \<Rightarrow> engine_bench b spec h1 | Steady \<Rightarrow> engine_steady b spec h1) = Inr row \<and> row \<in> set rows)"
    using measure_all_total by metis
  then show ?thesis
    by (intro exI[of _ rows] exI[of _ skipped]) (simp add: run_bench_def io_bind_def)
qed

section \<open>The winner wins\<close>

lemma sort_key_two:
  assumes "sort_key f xs = a # b # cs"
  shows "a \<in> set xs \<and> b \<in> set xs \<and> f a \<le> f b \<and> (\<forall>x\<in>set xs. f a \<le> f x)"
proof -
  have "sorted (map f (a # b # cs))" using sorted_sort_key[of f xs] assms by simp
  moreover have "set xs = set (a # b # cs)" using set_sort[of f xs] assms by simp
  ultimately show ?thesis by auto
qed

text \<open>
  The winner of a metric is a row with a positive value, no other positive value is better, and the
  ratio that is printed is at least one, for every rounding that is monotone and keeps 1.
\<close>

theorem winner_is_best:
  assumes "metric_win_of rnd rows metric dir = Some w" "mono rnd" "rnd 1 = 1"
  shows "winner w \<in> set rows \<and> 0 < metric (winner w) \<and> runner_up w \<in> set rows \<and> 1 \<le> win_ratio w
    \<and> (\<forall>r\<in>set rows. 0 < metric r \<longrightarrow> (case dir of Lower \<Rightarrow> metric (winner w) \<le> metric r | Higher \<Rightarrow> metric r \<le> metric (winner w)))"
proof -
  let ?f = "\<lambda>r. case dir of Lower \<Rightarrow> metric r | Higher \<Rightarrow> - metric r"
  obtain a b cs where s: "sort_key ?f (filter (\<lambda>r. 0 < metric r) rows) = a # b # cs"
      and w: "w = \<lparr>winner = a, runner_up = b,
            win_ratio = (case dir of Lower \<Rightarrow> rnd (metric b / metric a) | Higher \<Rightarrow> rnd (metric a / metric b))\<rparr>"
    using assms(1) by (auto simp: metric_win_of_def split: list.splits)
  note two = sort_key_two[OF s]
  have pos: "0 < metric a" "0 < metric b" using two by auto
  have "1 \<le> (case dir of Lower \<Rightarrow> metric b / metric a | Higher \<Rightarrow> metric a / metric b)"
    using two pos by (cases dir) (simp_all add: le_divide_eq)
  then have "rnd 1 \<le> rnd (case dir of Lower \<Rightarrow> metric b / metric a | Higher \<Rightarrow> metric a / metric b)"
    using assms(2) by (rule monoD[rotated])
  then show ?thesis
    using two w assms(3) by (cases dir) auto
qed

definition sample_row :: "string \<Rightarrow> rat \<Rightarrow> measurement" where
  "sample_row name t =
     \<lparr>m_runtime = name, m_image = ''alpine'', m_iterations = 1, m_warmup = 0, start_ms = t, start_total_ms = t, exec_ms = t,
      exec_total_ms = t, disk_ms = t, disk_total_ms = t, disk_mib_per_s = t, total_ms = t\<rparr>"

theorem winner_is_best_witness:
  "\<exists>w. metric_win_of (\<lambda>x. x) [sample_row ''apple'' 3, sample_row ''docker'' 2] total_ms Lower = Some w \<and> 1 \<le> win_ratio w"
proof -
  obtain w where w: "metric_win_of (\<lambda>x. x) [sample_row ''apple'' 3, sample_row ''docker'' 2] total_ms Lower = Some w"
    by (simp add: metric_win_of_def sample_row_def)
  then show ?thesis using winner_is_best[OF w] by (simp add: mono_def)
qed

section \<open>Texts\<close>

lemma ascii_boundary: "list_all ascii s \<Longrightarrow> k \<le> length s \<Longrightarrow> char_boundary s k"
  by (cases "k = length s") (auto simp: char_boundary_def list_all_length ascii_def continuation_def dest: spec[of _ k])

lemma truncate_ascii: "list_all ascii s \<Longrightarrow> \<exists>t. truncate_text s mx = Returns t \<and> length t \<le> max mx 3"
  using ascii_boundary[of s "mx - 3"] by (auto simp: truncate_text_def)

theorem truncate_panics: "truncate_text (replicate 12 CHR ''a'' @ [CHR 0xC3, CHR 0xA4] @ ''image'') 16 = Panics"
  by code_simp

text \<open>The path is quoted for Rust, not for the shell: a dollar sign in it is expanded in the container.\<close>

theorem dollar_not_quoted: "starts_with (''set -eu; p='' @ [dquote] @ ''/tmp/$HOME/x'' @ [dquote] @ '';'') (bench_disk_script ''/tmp/$HOME/x'' 1)"
  by code_simp

end
