(* ===== verification/Dip_Server.thy ===== *)
theory Dip_Server
  imports Dip_Proxy Dip_Dns Dip_Routes
begin

text \<open>
  The running proxy (\<open>proxy/server.rs\<close>): what \<open>dip proxy serve\<close> loads and binds, what its tasks share,
  what a connection meets, and what the signals of the commands do to it. It puts together the files
  and events of \<open>Dip_Routes\<close>, the requests of \<open>Dip_Proxy\<close>, the table of \<open>Dip_Watcher\<close> and the DNS
  server of \<open>Dip_Dns\<close>.
\<close>

section \<open>The start\<close>

text \<open>
  What the outside answers: whether rustls takes a key for a certificate, whether a port can be
  bound, what is wrong with the PEM files.
\<close>

record startup =
  tls_rejects :: "nat \<Rightarrow> server_cert \<Rightarrow> string option"
  bind_fails :: "nat \<Rightarrow> string option"
  bad_cert_pem :: "string option"
  bad_key_pem :: "string option"

definition make_tls_acceptor :: "startup \<Rightarrow> string \<times> string \<Rightarrow> cert_store \<Rightarrow> string + server_cert" where
  "make_tls_acceptor w paths st =
     (case srv_cert st of
        None \<Rightarrow> Inl (''TLS cert not found ('' @ fst paths @ ''): no such file'' @ [nl] @ ''Run: dip proxy init'')
      | Some c \<Rightarrow>
          (case bad_cert_pem w of
             Some e \<Rightarrow> Inl (''Bad TLS cert: '' @ e)
           | None \<Rightarrow>
               (case (srv_key st, bad_key_pem w) of
                  (Some k, None) \<Rightarrow>
                    (case tls_rejects w k c of
                       Some e \<Rightarrow> Inl (''TLS config error: '' @ e)
                     | None \<Rightarrow> Inr c)
                | (_, e) \<Rightarrow>
                    Inl (''TLS key not found or invalid ('' @ snd paths @ ''): ''
                         @ (case e of Some e \<Rightarrow> e | None \<Rightarrow> ''no such file'') @ [nl] @ ''Run: dip proxy init''))))"

definition server_start :: "string + 'a \<Rightarrow> (nat \<Rightarrow> string option) \<Rightarrow> proxy_config \<Rightarrow> string + 'a" where
  "server_start tls bind_error cfg =
     and_then tls (\<lambda>t.
       (case bind_error (unat (http_port cfg)) of
          Some e \<Rightarrow> Inl (''Cannot bind HTTP port '' @ show_nat (unat (http_port cfg)) @ '' - try running with sudo: '' @ e)
        | None \<Rightarrow>
            (case bind_error (unat (https_port cfg)) of
               Some e \<Rightarrow> Inl (''Cannot bind HTTPS port '' @ show_nat (unat (https_port cfg)) @ '' - try running with sudo: '' @ e)
             | None \<Rightarrow> Inr t)))"

text \<open>
  What the tasks of a running server hold: the certificate, the ports and the TLDs of the start, and
  the table that is shared with the watcher and the handler of SIGHUP.
\<close>

record proxy_server =
  loaded_cert :: server_cert
  redirect_port :: nat
  local_tlds :: "string list"
  dns_server :: "nat \<times> string"
  watched :: watch_state

definition server_run :: "startup \<Rightarrow> string \<times> string \<Rightarrow> proxy_config \<Rightarrow> cert_store \<Rightarrow> string + proxy_server" where
  "server_run w paths cfg st =
     and_then (server_start (make_tls_acceptor w paths st) (bind_fails w) cfg) (\<lambda>c.
       Inr \<lparr>loaded_cert = c, redirect_port = unat (https_port cfg), local_tlds = tlds cfg,
            dns_server = (unat (dns_port cfg), dns_upstream cfg),
            watched = \<lparr>table = routes cfg, pending = []\<rparr>\<rparr>)"

definition run_serve :: "startup \<Rightarrow> string \<times> string \<Rightarrow> proxy_state \<Rightarrow> string + proxy_server" where
  "run_serve w paths s = and_then (config_file s) (\<lambda>cfg. server_run w paths cfg (certs s))"

section \<open>Connections\<close>

text \<open>Messages of the TLS library that mean that the client did not trust the certificate.\<close>

definition is_client_tls_rejection :: "string \<Rightarrow> bool" where
  "is_client_tls_rejection msg \<longleftrightarrow>
     list_ex (\<lambda>w. contains_sub w msg)
       [''CertificateUnknown'', ''UnknownCa'', ''CertificateExpired'', ''BadCertificate'', ''received fatal alert'']"

text \<open>The line a failed handshake leaves in the log.\<close>

definition handshake_log :: "string \<Rightarrow> string list" where
  "handshake_log e = (if is_client_tls_rejection e then [] else [''TLS error: '' @ e])"

definition http_request :: "proxy_server \<Rightarrow> request \<Rightarrow> response" where
  "http_request sv req = redirect_to_https (redirect_port sv) req"

definition https_request :: "net \<Rightarrow> dialer \<Rightarrow> string \<Rightarrow> request \<Rightarrow> proxy_server \<Rightarrow> response \<times> sent" where
  "https_request n d client_ip req sv = handle_https n d (table (watched sv)) client_ip req"

definition dns_packet :: "bytes list \<Rightarrow> bytes \<Rightarrow> proxy_server \<Rightarrow> bytes option exec" where
  "dns_packet datagrams packet sv = serve_packet (local_tlds sv) datagrams packet"

section \<open>The tasks together\<close>

text \<open>
  \<open>try_join!\<close>: the first task that panics ends the server; otherwise it goes on until all have ended.
  The DNS task ends when its port cannot be bound, with a line in the log.
\<close>

datatype task = Going | Ended | Task_panicked string

fun first_panic :: "task list \<Rightarrow> string option" where
  "first_panic [] = None"
| "first_panic (Task_panicked e # ts) = Some e"
| "first_panic (_ # ts) = first_panic ts"

definition try_join :: "task list \<Rightarrow> (string + unit) option" where
  "try_join ts =
     (case first_panic ts of
        Some e \<Rightarrow> Some (Inl e)
      | None \<Rightarrow> (if list_all (\<lambda>t. t = Ended) ts then Some (Inr ()) else None))"

definition dns_task :: "(nat \<Rightarrow> string option) \<Rightarrow> nat \<Rightarrow> task \<times> string list" where
  "dns_task bind_error port =
     (case bind_error port of Some e \<Rightarrow> (Ended, [''dip-dns: '' @ e]) | None \<Rightarrow> (Going, []))"

section \<open>Signals\<close>

text \<open>What the server does on what the commands do to its process, with the files as they are then. A second
  server cannot bind the ports of the first.\<close>

definition sighup_task :: "string + proxy_config \<Rightarrow> proxy_server \<Rightarrow> proxy_server" where
  "sighup_task loaded sv = sv\<lparr>watched := (watched sv)\<lparr>table := on_reload loaded (table (watched sv))\<rparr>\<rparr>"

definition on_event :: "startup \<Rightarrow> string \<times> string \<Rightarrow> proxy_state \<Rightarrow> daemon_event \<Rightarrow> proxy_server option \<Rightarrow> proxy_server option" where
  "on_event w paths s e running =
     (case e of
        Hup \<Rightarrow> map_option (sighup_task (config_file s)) running
      | Stop \<Rightarrow> None
      | Spawn \<Rightarrow>
          (case running of
             Some sv \<Rightarrow> Some sv
           | None \<Rightarrow> (case run_serve w paths s of Inr sv \<Rightarrow> Some sv | Inl _ \<Rightarrow> None)))"

text \<open>A command that leaves \<open>s'\<close> behind sends its signals after the files are written.\<close>

definition after_command ::
    "startup \<Rightarrow> string \<times> string \<Rightarrow> proxy_state \<Rightarrow> proxy_state \<Rightarrow> proxy_server option \<Rightarrow> proxy_server option" where
  "after_command w paths s s' running =
     fold (on_event w paths s') (drop (length (daemon_events s)) (daemon_events s')) running"

section \<open>The server in step with the files\<close>

text \<open>A server runs exactly if the commands think so; it has the certificate on disk and the TLDs of the file.\<close>

definition in_step :: "proxy_server option \<Rightarrow> proxy_state \<Rightarrow> bool" where
  "in_step running s \<longleftrightarrow>
     (case running of
        None \<Rightarrow> \<not> daemon_up s
      | Some sv \<Rightarrow> daemon_up s \<and> srv_cert (certs s) = Some (loaded_cert sv)
          \<and> (\<exists>cfg. config_file s = Inr cfg \<and> local_tlds sv = tlds cfg))"

text \<open>A machine on which the server starts: the ports are free, the files as written, matching pairs taken.\<close>

definition can_start :: "startup \<Rightarrow> bool" where
  "can_start w \<longleftrightarrow>
     bad_cert_pem w = None \<and> bad_key_pem w = None \<and> (\<forall>p. bind_fails w p = None)
     \<and> (\<forall>c. tls_rejects w (cert_key c) c = None)"

lemma run_serve_starts:
  assumes "can_start w" "config_file s = Inr cfg" "certs_ok (certs s)" "srv_cert (certs s) = Some c"
  shows "run_serve w paths s = Inr \<lparr>loaded_cert = c, redirect_port = unat (https_port cfg), local_tlds = tlds cfg,
            dns_server = (unat (dns_port cfg), dns_upstream cfg), watched = \<lparr>table = routes cfg, pending = []\<rparr>\<rparr>"
proof -
  have "srv_key (certs s) = Some (cert_key c)" using assms(3,4) by (simp add: certs_ok_def)
  then have "make_tls_acceptor w paths (certs s) = Inr c"
    using assms(1,4) by (simp add: make_tls_acceptor_def can_start_def)
  then show ?thesis using assms(1,2)
    by (simp add: run_serve_def server_run_def server_start_def and_then_def can_start_def)
qed

lemma notify_events:
  assumes "notify_daemon o1 start renewed s = (r, s')"
  shows "drop (length (daemon_events s)) (daemon_events s') =
      (if daemon_up s then (if renewed then Stop # (if spawn_fails o1 = None then [Spawn] else []) else [Hup])
       else if start \<and> spawn_fails o1 = None then [Spawn] else [])"
    and "daemon_up s' =
      (if daemon_up s then (if renewed then spawn_fails o1 = None \<and> spawn_alive o1 else True)
       else start \<and> spawn_fails o1 = None \<and> spawn_alive o1)"
  using assms
  by (auto simp: notify_daemon_def restart_daemon_def spawn_daemon_def stop_daemon_def sighup_daemon_def
      split: if_splits option.splits)

text \<open>
  After the signals of a command whose server had the certificate on disk, or is restarted: in step, and
  with the table of the file if one runs.
\<close>

lemma notified_server:
  assumes n: "notify_daemon o1 start renewed s = (r, s')" "spawn_alive o1"
    and cfg: "config_file s = Inr cfg" "srv_cert (certs s) = Some c" "certs_ok (certs s)" "can_start w"
    and run: "case running of None \<Rightarrow> \<not> daemon_up s
              | Some sv \<Rightarrow> daemon_up s \<and> local_tlds sv = tlds cfg \<and> (\<not> renewed \<longrightarrow> loaded_cert sv = c)"
  shows "in_step (after_command w paths s s' running) s'"
    and "after_command w paths s s' running = Some sv' \<Longrightarrow> table (watched sv') = routes cfg"
proof -
  have keep: "config_file s' = Inr cfg" "certs s' = certs s" using notify_keeps[OF n(1)] cfg(1) by simp_all
  define fresh where "fresh = \<lparr>loaded_cert = c, redirect_port = unat (https_port cfg), local_tlds = tlds cfg,
            dns_server = (unat (dns_port cfg), dns_upstream cfg), watched = \<lparr>table = routes cfg, pending = []\<rparr>\<rparr>"
  have start: "run_serve w paths s' = Inr fresh"
    unfolding fresh_def using run_serve_starts[OF cfg(4) keep(1)] cfg(2,3) keep(2) by simp
  have fields: "table (watched fresh) = routes cfg" "loaded_cert fresh = c" "local_tlds fresh = tlds cfg"
    by (simp_all add: fresh_def)
  note ev = notify_events[OF n(1)]
  have "in_step (after_command w paths s s' running) s' \<and>
      (\<forall>sv. after_command w paths s s' running = Some sv \<longrightarrow> table (watched sv) = routes cfg)"
  proof (cases running)
    case None
    then show ?thesis using ev run n(2) start fields keep cfg(2)
      by (simp add: after_command_def on_event_def in_step_def)
  next
    case (Some sv)
    then show ?thesis using ev run n(2) start fields keep cfg(2)
      by (simp add: after_command_def on_event_def in_step_def sighup_task_def on_reload_def)
  qed
  then show "in_step (after_command w paths s s' running) s'"
    "after_command w paths s s' running = Some sv' \<Longrightarrow> table (watched sv') = routes cfg" by auto
qed

lemma sync_server:
  assumes "sync_from_project o1 (Inr cs) s = (Inr u, s')" "config_file s = Inr cfg" "discover_routes cs \<noteq> []"
    and "rs = sync_routes (discover_routes cs) (routes cfg)"
    and "cert_faults o1 = (\<lambda>_. None)" "spawn_alive o1"
    and "certs_ok (certs s)" "list_all line_text (needed_sans (map domain rs))"
    and "can_start w" "in_step running s"
  obtains sv where "after_command w paths s s' running = Some sv" "table (watched sv) = rs"
    "srv_cert (certs s') = Some (loaded_cert sv)" "local_tlds sv = tlds cfg"
proof -
  let ?cfg = "cfg\<lparr>routes := rs\<rparr>"
  obtain renewed s1 where st: "update_cert o1 rs s = (renewed, s1)"
      "s1\<lparr>config_file := Inr ?cfg\<rparr> = s' \<and> srv_cert (certs s') = None \<or>
       notify_daemon o1 True renewed (s1\<lparr>config_file := Inr ?cfg\<rparr>) = (Inr u, s')"
    using sync_steps[OF assms(1-3)] assms(4) by metis
  obtain c where c: "certs_ok (certs s1)" "\<not> renewed \<longrightarrow> certs s1 = certs s" "srv_cert (certs s1) = Some c"
    using update_cert_no_faults[OF assms(5) st(1) assms(7,8)] by blast
  let ?s2 = "s1\<lparr>config_file := Inr ?cfg\<rparr>"
  have n: "notify_daemon o1 True renewed ?s2 = (Inr u, s')" using st(2) c(3) by auto
  note same = update_cert_keeps[OF st(1)]
  have run: "case running of None \<Rightarrow> \<not> daemon_up ?s2
      | Some sv \<Rightarrow> daemon_up ?s2 \<and> local_tlds sv = tlds ?cfg \<and> (\<not> renewed \<longrightarrow> loaded_cert sv = c)"
    using assms(2,10) c(2,3) same by (auto simp: in_step_def split: option.splits)
  have s2: "config_file ?s2 = Inr ?cfg" "srv_cert (certs ?s2) = Some c" "certs_ok (certs ?s2)" using c by simp_all
  have up: "daemon_up s'" using sync_serves_domains[OF assms(1-8)] by simp
  have step: "in_step (after_command w paths ?s2 s' running) s'"
    by (rule notified_server(1)[OF n assms(6) s2 assms(9) run])
  with up obtain sv where sv: "after_command w paths ?s2 s' running = Some sv"
    by (cases "after_command w paths ?s2 s' running") (auto simp: in_step_def)
  have conf: "config_file s' = Inr ?cfg" using notify_keeps[OF n] by simp
  have "table (watched sv) = rs" using notified_server(2)[OF n assms(6) s2 assms(9) run sv] by simp
  moreover have "after_command w paths s s' running = Some sv" using sv same by (simp add: after_command_def)
  moreover have "srv_cert (certs s') = Some (loaded_cert sv)" "local_tlds sv = tlds cfg"
    using step conf unfolding sv in_step_def by auto
  ultimately show ?thesis using that by simp
qed

section \<open>One command after another\<close>

text \<open>
  Commands whose writes of certificates go through and whose spawned child lives, the death of the
  server, and what happens to its table between them (\<open>watch_step\<close>). A sync whose configuration cannot be
  saved is not among them: see \<open>unsaved_sync_keeps_old_certificate\<close>.
\<close>

definition no_cert_faults :: "outside \<Rightarrow> bool" where
  "no_cert_faults o1 \<longleftrightarrow> cert_faults o1 = (\<lambda>_. None) \<and> spawn_alive o1"

definition clean_names :: "route list \<Rightarrow> bool" where
  "clean_names rs \<longleftrightarrow> list_all line_text (needed_sans (map domain rs))"

inductive command_step ::
    "startup \<Rightarrow> string \<times> string \<Rightarrow> proxy_server option \<times> proxy_state \<Rightarrow> proxy_server option \<times> proxy_state \<Rightarrow> bool"
  for w paths where
  sync: "sync_from_project o1 (Inr cs) s = (r, s') \<Longrightarrow> no_cert_faults o1 \<Longrightarrow> save_fails o1 = None \<Longrightarrow>
      (\<And>cfg. config_file s = Inr cfg \<Longrightarrow> clean_names (sync_routes (discover_routes cs) (routes cfg))) \<Longrightarrow>
      command_step w paths (running, s) (after_command w paths s s' running, s')"
| unsync: "unsync_from_project o1 (Inr cs) s = (r, s') \<Longrightarrow> no_cert_faults o1 \<Longrightarrow>
      (\<And>cfg. config_file s = Inr cfg \<Longrightarrow> clean_names (drop_routes (discover_project_domains cs) (routes cfg))) \<Longrightarrow>
      command_step w paths (running, s) (after_command w paths s s' running, s')"
| add: "run_add o1 d u s = (r, s') \<Longrightarrow> command_step w paths (running, s) (after_command w paths s s' running, s')"
| remove: "run_remove o1 d s = (r, s') \<Longrightarrow> command_step w paths (running, s) (after_command w paths s s' running, s')"
| death: "command_step w paths (running, s) (None, s\<lparr>daemon_up := False\<rparr>)"
| watch: "watch_step (watched sv) t \<Longrightarrow> command_step w paths (Some sv, s) (Some (sv\<lparr>watched := t\<rparr>), s)"

definition all_in_step :: "proxy_server option \<times> proxy_state \<Rightarrow> bool" where
  "all_in_step rs \<longleftrightarrow> in_step (fst rs) (snd rs) \<and> certs_ok (certs (snd rs))"

lemma same_events: "daemon_events s' = daemon_events s \<Longrightarrow> after_command w paths s s' running = running"
  by (simp add: after_command_def)

lemma sighup_in_step:
  assumes "in_step running s" "config_file s = Inr cfg"
  shows "in_step (after_command w paths s (sighup_daemon (s\<lparr>config_file := Inr (cfg\<lparr>routes := rs\<rparr>)\<rparr>)) running)
    (sighup_daemon (s\<lparr>config_file := Inr (cfg\<lparr>routes := rs\<rparr>)\<rparr>))"
  using assms
  by (auto simp: sighup_daemon_def after_command_def on_event_def in_step_def sighup_task_def split: option.splits)

text \<open>The certificate of a configuration is renewed, the configuration stored, the daemon told.\<close>

lemma renewed_in_step:
  assumes u: "update_cert o1 (routes cfg') s = (renewed, s1)" "no_cert_faults o1" "clean_names (routes cfg')"
    and ok: "in_step running s0" "certs_ok (certs s)" "can_start w"
    and s0: "config_file s0 = Inr cfg" "tlds cfg = tlds cfg'" "daemon_up s0 = daemon_up s"
      "daemon_events s0 = daemon_events s" "certs s0 = certs s"
    and n: "notify_daemon o1 start renewed (s1\<lparr>config_file := Inr cfg'\<rparr>) = (r, s')"
  shows "in_step (after_command w paths s0 s' running) s' \<and> certs_ok (certs s')"
proof -
  obtain c where c: "certs_ok (certs s1)" "\<not> renewed \<longrightarrow> certs s1 = certs s" "srv_cert (certs s1) = Some c"
    using update_cert_no_faults[OF _ u(1) ok(2)] u(2,3) by (auto simp: no_cert_faults_def clean_names_def)
  let ?s2 = "s1\<lparr>config_file := Inr cfg'\<rparr>"
  note same = update_cert_keeps[OF u(1)]
  have run: "case running of None \<Rightarrow> \<not> daemon_up ?s2
      | Some sv \<Rightarrow> daemon_up ?s2 \<and> local_tlds sv = tlds cfg' \<and> (\<not> renewed \<longrightarrow> loaded_cert sv = c)"
    using ok(1) s0 c(2,3) same by (auto simp: in_step_def split: option.splits)
  have s2: "config_file ?s2 = Inr cfg'" "srv_cert (certs ?s2) = Some c" "certs_ok (certs ?s2)" using c by simp_all
  have "in_step (after_command w paths ?s2 s' running) s'"
    using notified_server(1)[OF n _ s2 ok(3) run] u(2) by (simp add: no_cert_faults_def)
  then show ?thesis using notify_keeps[OF n] c(1) same s0(4) by (simp add: after_command_def)
qed

lemma sync_in_step:
  assumes "sync_from_project o1 (Inr cs) s = (r, s')" "no_cert_faults o1" "save_fails o1 = None"
    and "\<And>cfg. config_file s = Inr cfg \<Longrightarrow> clean_names (sync_routes (discover_routes cs) (routes cfg))"
    and "all_in_step (running, s)" "can_start w"
  shows "all_in_step (after_command w paths s s' running, s')"
proof (cases "discover_routes cs = [] \<or> (\<exists>e. config_file s = Inl e)")
  case True
  then have "s' = s" using assms(1) by (auto simp: sync_from_project_def Let_def split: if_splits)
  then show ?thesis using assms(5) by (simp add: same_events)
next
  case False
  then obtain cfg where cfg: "config_file s = Inr cfg" by (cases "config_file s") auto
  let ?cfg = "cfg\<lparr>routes := sync_routes (discover_routes cs) (routes cfg)\<rparr>"
  obtain renewed s1 where u: "update_cert o1 (routes ?cfg) s = (renewed, s1)" by force
  have cert: "srv_cert (certs s1) \<noteq> None"
    using update_cert_no_faults[OF _ u] assms(2,5) assms(4)[OF cfg]
    by (auto simp: no_cert_faults_def clean_names_def all_in_step_def)
  have n: "notify_daemon o1 True renewed (s1\<lparr>config_file := Inr ?cfg\<rparr>) = (r, s')"
    using assms(1,3) False cfg u cert by (auto simp: sync_from_project_def Let_def save_config_def)
  show ?thesis
    using renewed_in_step[OF u assms(2) _ _ _ assms(6) cfg _ refl refl refl n, of running] assms(4)[OF cfg] assms(5)
    by (simp add: all_in_step_def)
qed

lemma unsync_in_step:
  assumes "unsync_from_project o1 (Inr cs) s = (r, s')" "no_cert_faults o1"
    and "\<And>cfg. config_file s = Inr cfg \<Longrightarrow> clean_names (drop_routes (discover_project_domains cs) (routes cfg))"
    and "all_in_step (running, s)" "can_start w"
  shows "all_in_step (after_command w paths s s' running, s')"
proof (cases "s' = s")
  case True
  then show ?thesis using assms(4) by (simp add: same_events)
next
  case False
  then obtain cfg where cfg: "config_file s = Inr cfg"
    using assms(1) by (cases "config_file s") (auto simp: unsync_from_project_def Let_def split: if_splits)
  let ?cfg = "cfg\<lparr>routes := drop_routes (discover_project_domains cs) (routes cfg)\<rparr>"
  let ?s = "s\<lparr>config_file := Inr ?cfg\<rparr>"
  have ok: "save_fails o1 = None"
    using assms(1) False cfg by (auto simp: unsync_from_project_def Let_def save_config_def split: if_splits option.splits)
  obtain renewed s1 where u: "update_cert o1 (routes ?cfg) ?s = (renewed, s1)" by force
  have n: "notify_daemon o1 False renewed s1 = (r, s')"
    using assms(1) False cfg u ok by (auto simp: unsync_from_project_def Let_def save_config_def split: if_splits)
  have "s1\<lparr>config_file := Inr ?cfg\<rparr> = s1" using update_cert_keeps[OF u] by simp
  with n have n2: "notify_daemon o1 False renewed (s1\<lparr>config_file := Inr ?cfg\<rparr>) = (r, s')" by simp
  have clean: "clean_names (routes ?cfg)" using assms(3)[OF cfg] by simp
  have ok: "in_step running s" "certs_ok (certs ?s)" using assms(4) by (simp_all add: all_in_step_def)
  have "in_step (after_command w paths s s' running) s' \<and> certs_ok (certs s')"
    by (rule renewed_in_step[OF u assms(2) clean ok assms(5) cfg _ _ _ _ n2]) simp_all
  then show ?thesis by (simp add: all_in_step_def)
qed

lemma sighup_certs [simp]: "certs (sighup_daemon s) = certs s"
  by (simp add: sighup_daemon_def)

lemma add_in_step:
  assumes "run_add o1 d u s = (r, s')" "all_in_step (running, s)"
  shows "all_in_step (after_command w paths s s' running, s')"
proof (cases "s' = s")
  case True
  then show ?thesis using assms(2) by (simp add: same_events)
next
  case False
  then obtain cfg where cfg: "config_file s = Inr cfg"
    and s': "s' = sighup_daemon (s\<lparr>config_file := Inr (cfg\<lparr>routes := put_route d u (routes cfg)\<rparr>)\<rparr>)"
    using assms(1) by (auto simp: run_add_def save_config_def split: sum.splits option.splits)
  then show ?thesis using sighup_in_step[OF _ cfg, of running w paths] assms(2) by (simp add: all_in_step_def)
qed

lemma remove_in_step:
  assumes "run_remove o1 d s = (r, s')" "all_in_step (running, s)"
  shows "all_in_step (after_command w paths s s' running, s')"
proof (cases "s' = s")
  case True
  then show ?thesis using assms(2) by (simp add: same_events)
next
  case False
  then obtain cfg where cfg: "config_file s = Inr cfg"
    and s': "s' = sighup_daemon (s\<lparr>config_file := Inr (cfg\<lparr>routes := drop_routes [d] (routes cfg)\<rparr>)\<rparr>)"
    using assms(1) by (auto simp: run_remove_def Let_def save_config_def split: sum.splits option.splits if_splits)
  then show ?thesis using sighup_in_step[OF _ cfg, of running w paths] assms(2) by (simp add: all_in_step_def)
qed

lemma command_keeps:
  assumes "command_step w paths a b" "can_start w" "all_in_step a"
  shows "all_in_step b"
  using assms(1)
proof (cases rule: command_step.cases)
  case sync
  then show ?thesis using sync_in_step assms(2,3) by blast
next
  case unsync
  then show ?thesis using unsync_in_step assms(2,3) by blast
next
  case add
  then show ?thesis using add_in_step assms(3) by blast
next
  case remove
  then show ?thesis using remove_in_step assms(3) by blast
next
  case death
  then show ?thesis using assms(3) by (auto simp: all_in_step_def in_step_def)
next
  case watch
  then show ?thesis using assms(3) by (auto simp: all_in_step_def in_step_def)
qed

section \<open>Properties\<close>

text \<open>The address that is dialled for an upstream: itself, or what the pooled client makes of its URI.\<close>

definition reaches :: "net \<Rightarrow> string \<Rightarrow> request \<Rightarrow> string \<Rightarrow> bool" where
  "reaches n up req target \<longleftrightarrow>
     target = up \<or> (\<exists>uri. parse_uri n (''http://'' @ up @ path_of req) = Inr uri \<and> connector_target uri = Inr target)"


definition good_machine :: startup where
  "good_machine = \<lparr>tls_rejects = (\<lambda>k c. if k = cert_key c then None else Some ''keys do not match''),
                  bind_fails = (\<lambda>_. None), bad_cert_pem = None, bad_key_pem = None\<rparr>"

lemma good_can_start: "can_start good_machine"
  by (simp add: good_machine_def can_start_def)

abbreviation synced :: proxy_state where
  "synced \<equiv> snd (sync_from_project calm (Inr [web_container]) fresh_proxy)"

abbreviation shop_route :: route where
  "shop_route \<equiv> \<lparr>domain = ''shop.test'', upstream = ''10.0.0.2:8080''\<rparr>"




section \<open>Where they part\<close>

definition other_container :: project_container where
  "other_container = \<lparr>clabels = JObj [(''dip.host'', JStr ''new.test:80'')], cip = Some ''10.0.0.3''\<rparr>"

text \<open>
  A sync renews the certificate before it saves the configuration. If the save fails, the server is not
  restarted; the next sync finds the certificate up to date and only reloads the routes: the new domain
  is routed, and presented with the old certificate until something else restarts the server.
\<close>

theorem unsaved_sync_keeps_old_certificate:
  "let w = good_machine; p = ([], []);
       r1 = after_command w p fresh_proxy synced None;
       s2 = snd (sync_from_project (calm\<lparr>save_fails := Some ''disk full''\<rparr>) (Inr [other_container]) synced);
       r2 = after_command w p synced s2 r1;
       s3 = snd (sync_from_project calm (Inr [other_container]) s2);
       r3 = after_command w p s2 s3 r2
   in map_option (\<lambda>sv. (map domain (table (watched sv)), cert_sans (loaded_cert sv))) r3
        = Some ([''shop.test'', ''new.test''], [''shop.test''])
      \<and> map_option cert_sans (srv_cert (certs s3)) = Some [''new.test'', ''shop.test'']"
  by code_simp

text \<open>A route added by hand is served at once, but the certificate is not renewed for it.\<close>

theorem added_route_not_covered:
  "let w = good_machine; p = ([], []);
       r1 = after_command w p fresh_proxy synced None;
       s2 = snd (run_add calm ''api.my-app.test'' ''127.0.0.1:3000'' synced);
       r2 = after_command w p synced s2 r1
   in map_option (\<lambda>sv. map_option upstream (match_route ''api.my-app.test'' (table (watched sv)))) r2
        = Some (Some ''127.0.0.1:3000'')
      \<and> map_option (\<lambda>sv. list_ex (\<lambda>n. covers n ''api.my-app.test'') (cert_sans (loaded_cert sv))) r2 = Some False"
  by code_simp

text \<open>A DNS port that is taken leaves a server that runs on without names, as long as no task panics.\<close>

lemma dns_failure_goes_on:
  assumes "bind_error port = Some e"
  shows "dns_task bind_error port = (Ended, [''dip-dns: '' @ e])
    \<and> try_join [Going, Going, fst (dns_task bind_error port), Going] = None"
  using assms by (simp add: dns_task_def try_join_def)

end
