(* ===== verification/Dip_Catalog.thy ===== *)
theory Dip_Catalog
  imports Dip_Migrate
begin

text \<open>
  The source's side of the migration (\<open>db/migrate.rs\<close>): the queries on the catalogues of both servers
  and what is made of their rows; and whether the schema of a MySQL database arrives on the other side.
  The driver is a parameter: it answers a query text and its arguments with rows of named values.
\<close>

section \<open>Rows\<close>

text \<open>What \<open>try_get\<close> gives for a value as a text, as bytes and as an integer, \<open>None\<close> for an error or NULL.\<close>

record sql_value =
  as_text :: "string option"
  as_bytes :: "8 word list option"
  as_int :: "int option"

type_synonym catalog_row = "(string \<times> sql_value) list"

type_synonym fetch = "string \<Rightarrow> string list \<Rightarrow> string + catalog_row list"

definition no_value :: sql_value where
  "no_value = \<lparr>as_text = None, as_bytes = None, as_int = None\<rparr>"

text \<open>A value by its name, and the first one.\<close>

definition at_name :: "string \<Rightarrow> catalog_row \<Rightarrow> sql_value" where
  "at_name n r = (case map_of r n of Some v \<Rightarrow> v | None \<Rightarrow> no_value)"

definition at_first :: "catalog_row \<Rightarrow> sql_value" where
  "at_first r = (case r of (_, v) # _ \<Rightarrow> v | [] \<Rightarrow> no_value)"

text \<open>The catalogue of MySQL may come back as bytes.\<close>

definition row_str :: "(8 word list \<Rightarrow> string) \<Rightarrow> sql_value \<Rightarrow> string" where
  "row_str lossy v =
     (case as_text v of Some s \<Rightarrow> s | None \<Rightarrow> (case as_bytes v of Some b \<Rightarrow> lossy b | None \<Rightarrow> []))"

section \<open>MySQL\<close>

definition tables_query :: string where
  "tables_query = ''SELECT TABLE_NAME FROM INFORMATION_SCHEMA.TABLES WHERE TABLE_SCHEMA = ? AND TABLE_TYPE = ''
     @ [squote] @ ''BASE TABLE'' @ [squote] @ '' ORDER BY TABLE_NAME''"

definition mysql_get_tables :: "(8 word list \<Rightarrow> string) \<Rightarrow> fetch \<Rightarrow> string \<Rightarrow> string + string list" where
  "mysql_get_tables lossy fetch db =
     and_then (fetch tables_query [db]) (\<lambda>rows. Inr (map (\<lambda>r. row_str lossy (at_first r)) rows))"

definition columns_query :: string where
  "columns_query = ''SELECT COLUMN_NAME, COLUMN_TYPE, IS_NULLABLE, EXTRA, COLUMN_KEY FROM INFORMATION_SCHEMA.COLUMNS ''
     @ ''WHERE TABLE_SCHEMA = ? AND TABLE_NAME = ? ORDER BY ORDINAL_POSITION''"

definition column_fields :: "(8 word list \<Rightarrow> string) \<Rightarrow> catalog_row \<Rightarrow> string \<times> string \<times> string \<times> string" where
  "column_fields lossy r =
     (row_str lossy (at_name ''COLUMN_NAME'' r), row_str lossy (at_name ''COLUMN_TYPE'' r),
      row_str lossy (at_name ''IS_NULLABLE'' r), row_str lossy (at_name ''EXTRA'' r))"

definition mysql_get_columns ::
    "(8 word list \<Rightarrow> string) \<Rightarrow> fetch \<Rightarrow> string \<Rightarrow> string \<Rightarrow> string + (string \<times> string \<times> string \<times> string) list" where
  "mysql_get_columns lossy fetch db t =
     and_then (fetch columns_query [db, t]) (\<lambda>rows. Inr (map (column_fields lossy) rows))"

definition pk_query :: string where
  "pk_query = ''SELECT COLUMN_NAME FROM INFORMATION_SCHEMA.COLUMNS WHERE TABLE_SCHEMA = ? AND TABLE_NAME = ? AND COLUMN_KEY = ''
     @ [squote] @ ''PRI'' @ [squote] @ '' ORDER BY ORDINAL_POSITION''"

definition mysql_get_pk :: "(8 word list \<Rightarrow> string) \<Rightarrow> fetch \<Rightarrow> string \<Rightarrow> string \<Rightarrow> string + string list" where
  "mysql_get_pk lossy fetch db t =
     and_then (fetch pk_query [db, t]) (\<lambda>rows.
       Inr (filter (\<lambda>s. s \<noteq> []) (map (\<lambda>r. row_str lossy (at_first r)) rows)))"

definition indexes_query :: string where
  "indexes_query = ''SELECT INDEX_NAME, COLUMN_NAME, NON_UNIQUE, SEQ_IN_INDEX FROM INFORMATION_SCHEMA.STATISTICS ''
     @ ''WHERE TABLE_SCHEMA = ? AND TABLE_NAME = ? AND INDEX_NAME != '' @ [squote] @ ''PRIMARY'' @ [squote]
     @ '' ORDER BY INDEX_NAME, SEQ_IN_INDEX''"

definition index_fields :: "(8 word list \<Rightarrow> string) \<Rightarrow> catalog_row \<Rightarrow> string \<times> string \<times> int" where
  "index_fields lossy r =
     (row_str lossy (at_name ''INDEX_NAME'' r), row_str lossy (at_name ''COLUMN_NAME'' r),
      (case as_int (at_name ''NON_UNIQUE'' r) of Some n \<Rightarrow> n | None \<Rightarrow> 1))"

definition mysql_index_rows ::
    "(8 word list \<Rightarrow> string) \<Rightarrow> fetch \<Rightarrow> string \<Rightarrow> string \<Rightarrow> string + (string \<times> string \<times> int) list" where
  "mysql_index_rows lossy fetch db t =
     and_then (fetch indexes_query [db, t]) (\<lambda>rows. Inr (map (index_fields lossy) rows))"

definition fks_query :: string where
  "fks_query = ''SELECT CONSTRAINT_NAME, COLUMN_NAME, REFERENCED_TABLE_NAME, REFERENCED_COLUMN_NAME ''
     @ ''FROM INFORMATION_SCHEMA.KEY_COLUMN_USAGE WHERE TABLE_SCHEMA = ? AND TABLE_NAME = ? AND REFERENCED_TABLE_NAME IS NOT NULL''"

definition fk_fields :: "(8 word list \<Rightarrow> string) \<Rightarrow> catalog_row \<Rightarrow> mysql_fk" where
  "fk_fields lossy r =
     \<lparr>fk_name = row_str lossy (at_name ''CONSTRAINT_NAME'' r), fk_column = row_str lossy (at_name ''COLUMN_NAME'' r),
      fk_table = row_str lossy (at_name ''REFERENCED_TABLE_NAME'' r), fk_ref = row_str lossy (at_name ''REFERENCED_COLUMN_NAME'' r)\<rparr>"

definition mysql_get_fks :: "(8 word list \<Rightarrow> string) \<Rightarrow> fetch \<Rightarrow> string \<Rightarrow> string \<Rightarrow> string + mysql_fk list" where
  "mysql_get_fks lossy fetch db t =
     and_then (fetch fks_query [db, t]) (\<lambda>rows. Inr (map (fk_fields lossy) rows))"

text \<open>The source of a migration, with the streams of its rows.\<close>

definition mysql_source_of ::
    "(8 word list \<Rightarrow> string) \<Rightarrow> fetch \<Rightarrow> string \<Rightarrow> (string \<Rightarrow> (string + raw_row) list) \<Rightarrow> mysql_source" where
  "mysql_source_of lossy fetch db streams =
     \<lparr>sq_tables = mysql_get_tables lossy fetch db, sq_columns = mysql_get_columns lossy fetch db,
      sq_pk = mysql_get_pk lossy fetch db, sq_indexes = mysql_index_rows lossy fetch db,
      sq_fks = mysql_get_fks lossy fetch db, sq_rows = streams\<rparr>"

section \<open>PostgreSQL\<close>

text \<open>A text that cannot be read drops the row of a name, and is empty in a column.\<close>

definition pg_names :: "catalog_row list \<Rightarrow> string list" where
  "pg_names rows = filter (\<lambda>s. s \<noteq> []) (filter_map (\<lambda>r. as_text (at_first r)) rows)"

definition pg_tables_query :: string where
  "pg_tables_query = ''SELECT table_name FROM information_schema.tables WHERE table_schema = '' @ [squote] @ ''public'' @ [squote]
     @ '' AND table_type = '' @ [squote] @ ''BASE TABLE'' @ [squote] @ '' ORDER BY table_name''"

definition pg_get_tables :: "fetch \<Rightarrow> string + string list" where
  "pg_get_tables fetch = and_then (fetch pg_tables_query []) (\<lambda>rows. Inr (pg_names rows))"

definition pg_pk_query :: string where
  "pg_pk_query = ''SELECT kcu.column_name FROM information_schema.table_constraints tc JOIN information_schema.key_column_usage kcu ''
     @ ''ON tc.constraint_name = kcu.constraint_name AND tc.table_schema = kcu.table_schema WHERE tc.table_schema = ''
     @ [squote] @ ''public'' @ [squote] @ '' AND tc.table_name = $1 AND tc.constraint_type = ''
     @ [squote] @ ''PRIMARY KEY'' @ [squote] @ '' ORDER BY kcu.ordinal_position''"

definition pg_get_pk :: "fetch \<Rightarrow> string \<Rightarrow> string + string list" where
  "pg_get_pk fetch t = and_then (fetch pg_pk_query [t]) (\<lambda>rows. Inr (pg_names rows))"

definition pg_columns_query :: string where
  "pg_columns_query = ''SELECT column_name, data_type, character_maximum_length, numeric_precision, numeric_scale, ''
     @ ''is_nullable, column_default FROM information_schema.columns WHERE table_schema = ''
     @ [squote] @ ''public'' @ [squote] @ '' AND table_name = $1 ORDER BY ordinal_position''"

definition value_or_blank :: "sql_value \<Rightarrow> string" where
  "value_or_blank v = (case as_text v of Some s \<Rightarrow> s | None \<Rightarrow> [])"

definition pg_column_fields :: "catalog_row \<Rightarrow> pg_column_row" where
  "pg_column_fields r =
     \<lparr>cr_name = value_or_blank (at_name ''column_name'' r), cr_type = value_or_blank (at_name ''data_type'' r),
      cr_max_len = as_int (at_name ''character_maximum_length'' r), cr_precision = as_int (at_name ''numeric_precision'' r),
      cr_scale = as_int (at_name ''numeric_scale'' r), cr_nullable = value_or_blank (at_name ''is_nullable'' r),
      cr_default = as_text (at_name ''column_default'' r)\<rparr>"

definition pg_get_columns :: "fetch \<Rightarrow> string \<Rightarrow> string + pg_column_row list" where
  "pg_get_columns fetch t = and_then (fetch pg_columns_query [t]) (\<lambda>rows. Inr (map pg_column_fields rows))"

definition pg_source_of :: "fetch \<Rightarrow> (string \<Rightarrow> (string + raw_row) list) \<Rightarrow> pg_source" where
  "pg_source_of fetch streams =
     \<lparr>pq_tables = pg_get_tables fetch, pq_columns = pg_get_columns fetch, pq_pk = pg_get_pk fetch, pq_rows = streams\<rparr>"

section \<open>A MySQL database and its catalogue\<close>

text \<open>
  A table as it was created: columns with type, whether they may be NULL and count by themselves; the
  primary key in its order; the other indexes in the order of their names; foreign keys with the columns
  on both sides.
\<close>

record table_def =
  td_name :: string
  td_columns :: "(string \<times> string \<times> bool \<times> bool) list"
  td_key :: "string list"
  td_indexes :: "mysql_idx list"
  td_refs :: "(string \<times> string list \<times> string \<times> string list) list"

definition column_of :: "string \<times> string \<times> bool \<times> bool \<Rightarrow> string \<times> string \<times> string \<times> string" where
  "column_of c = (case c of (n, ty, null, auto) \<Rightarrow>
     (n, ty, if null then ''YES'' else ''NO'', if auto then ''auto_increment'' else []))"

definition key_columns :: "table_def \<Rightarrow> string list" where
  "key_columns t = filter (\<lambda>c. c \<in> set (td_key t)) (map fst (td_columns t))"

definition index_entries :: "table_def \<Rightarrow> (string \<times> string \<times> int) list" where
  "index_entries t =
     concat (map (\<lambda>i. map (\<lambda>c. (ix_name i, c, if ix_unique i then 0 else 1)) (ix_columns i)) (td_indexes t))"

definition ref_entries :: "table_def \<Rightarrow> mysql_fk list" where
  "ref_entries t =
     concat (map (\<lambda>(f, cs, u, rs). map (\<lambda>(c, r). \<lparr>fk_name = f, fk_column = c, fk_table = u, fk_ref = r\<rparr>) (zip cs rs)) (td_refs t))"

text \<open>
  The documented contents of the INFORMATION_SCHEMA: one row for each table, column, column of the key,
  column of an index and column of a foreign key.
\<close>

definition describes :: "(8 word list \<Rightarrow> string) \<Rightarrow> fetch \<Rightarrow> string \<Rightarrow> table_def list \<Rightarrow> bool" where
  "describes lossy fetch db d \<longleftrightarrow>
     mysql_get_tables lossy fetch db = Inr (map td_name d)
     \<and> (\<forall>t\<in>set d.
          mysql_get_columns lossy fetch db (td_name t) = Inr (map column_of (td_columns t))
          \<and> mysql_get_pk lossy fetch db (td_name t) = Inr (key_columns t)
          \<and> mysql_index_rows lossy fetch db (td_name t) = Inr (index_entries t)
          \<and> mysql_get_fks lossy fetch db (td_name t) = Inr (ref_entries t))"

text \<open>A driver with such a catalogue: every value comes as a text.\<close>

definition text_value :: "string \<Rightarrow> sql_value" where
  "text_value s = \<lparr>as_text = Some s, as_bytes = None, as_int = None\<rparr>"

definition int_value :: "int \<Rightarrow> sql_value" where
  "int_value n = \<lparr>as_text = None, as_bytes = None, as_int = Some n\<rparr>"

definition information_schema :: "string \<Rightarrow> table_def list \<Rightarrow> fetch" where
  "information_schema db d q args =
     (let t = find (\<lambda>t. args = [db, td_name t]) d;
          of_table = (\<lambda>f. case t of Some t \<Rightarrow> Inr (f t) | None \<Rightarrow> Inr [])
      in if q = tables_query then Inr (map (\<lambda>t. [(''TABLE_NAME'', text_value (td_name t))]) d)
         else if q = columns_query then
           of_table (\<lambda>t. map (\<lambda>c. case column_of c of (n, ty, nu, ex) \<Rightarrow>
             [(''COLUMN_NAME'', text_value n), (''COLUMN_TYPE'', text_value ty), (''IS_NULLABLE'', text_value nu), (''EXTRA'', text_value ex)])
             (td_columns t))
         else if q = pk_query then of_table (\<lambda>t. map (\<lambda>c. [(''COLUMN_NAME'', text_value c)]) (key_columns t))
         else if q = indexes_query then
           of_table (\<lambda>t. map (\<lambda>(n, c, nu). [(''INDEX_NAME'', text_value n), (''COLUMN_NAME'', text_value c), (''NON_UNIQUE'', int_value nu)])
             (index_entries t))
         else if q = fks_query then
           of_table (\<lambda>t. map (\<lambda>f. [(''CONSTRAINT_NAME'', text_value (fk_name f)), (''COLUMN_NAME'', text_value (fk_column f)),
             (''REFERENCED_TABLE_NAME'', text_value (fk_table f)), (''REFERENCED_COLUMN_NAME'', text_value (fk_ref f))]) (ref_entries t))
         else Inl ''unknown query'')"

section \<open>What the statements make of an empty database\<close>

text \<open>
  PostgreSQL, as documented: tables and indexes of a schema share their names, and IF NOT EXISTS skips a
  name that is taken; the names of constraints are those of their table; a foreign key needs the other
  table and a unique column there (\<open>unique\<close>).
\<close>

record pg_catalog =
  pt_tables :: "string list"
  pt_indexes :: "(string \<times> string \<times> string list \<times> bool) list"
  pt_refs :: "(string \<times> string \<times> string \<times> string \<times> string) list"

definition empty_catalog :: pg_catalog where
  "empty_catalog = \<lparr>pt_tables = [], pt_indexes = [], pt_refs = []\<rparr>"

definition relations :: "pg_catalog \<Rightarrow> string list" where
  "relations c = pt_tables c @ map fst (pt_indexes c)"

fun pg_define :: "(string \<Rightarrow> string \<Rightarrow> bool) \<Rightarrow> stmt \<Rightarrow> pg_catalog \<Rightarrow> pg_catalog" where
  "pg_define unique (Create t sql) c =
     (if t \<in> set (relations c) then c else c\<lparr>pt_tables := pt_tables c @ [t]\<rparr>)"
| "pg_define unique (Index t i) c =
     (if ix_name i \<in> set (relations c) \<or> t \<notin> set (pt_tables c) then c
      else c\<lparr>pt_indexes := pt_indexes c @ [(ix_name i, t, ix_columns i, ix_unique i)]\<rparr>)"
| "pg_define unique (Add_fk t fk) c =
     (if (t, fk_name fk) \<in> (\<lambda>(t, n, _). (t, n)) ` set (pt_refs c)
         \<or> t \<notin> set (pt_tables c) \<or> fk_table fk \<notin> set (pt_tables c) \<or> \<not> unique (fk_table fk) (fk_ref fk) then c
      else c\<lparr>pt_refs := pt_refs c @ [(t, fk_name fk, fk_column fk, fk_table fk, fk_ref fk)]\<rparr>)"
| "pg_define unique _ c = c"

section \<open>Reading the catalogue\<close>

lemma add_index_new: "n \<notin> ix_name ` set is \<Longrightarrow> add_index_row (n, c, u) is = is @ [\<lparr>ix_name = n, ix_columns = [c], ix_unique = (u = 0)\<rparr>]"
  by (induction "is") auto

lemma add_index_last:
  "n \<notin> ix_name ` set is \<Longrightarrow> add_index_row (n, c, u) (is @ [\<lparr>ix_name = n, ix_columns = cs, ix_unique = b\<rparr>])
    = is @ [\<lparr>ix_name = n, ix_columns = cs @ [c], ix_unique = b\<rparr>]"
  by (induction "is") auto

lemma add_index_more:
  "n \<notin> ix_name ` set is \<Longrightarrow> fold add_index_row (map (\<lambda>c. (n, c, u)) cs) (is @ [\<lparr>ix_name = n, ix_columns = ds, ix_unique = b\<rparr>])
    = is @ [\<lparr>ix_name = n, ix_columns = ds @ cs, ix_unique = b\<rparr>]"
  by (induction cs arbitrary: ds) (simp_all add: add_index_last)

definition index_rows :: "mysql_idx \<Rightarrow> (string \<times> string \<times> int) list" where
  "index_rows i = map (\<lambda>c. (ix_name i, c, if ix_unique i then 0 else 1)) (ix_columns i)"

lemma add_whole_index:
  assumes "ix_name i \<notin> ix_name ` set is" "ix_columns i \<noteq> []"
  shows "fold add_index_row (index_rows i) is = is @ [i]"
proof -
  obtain c cs where cs: "ix_columns i = c # cs" using assms(2) by (cases "ix_columns i") auto
  have i: "i = \<lparr>ix_name = ix_name i, ix_columns = [c] @ cs, ix_unique = ix_unique i\<rparr>" by (simp flip: cs)
  have first: "add_index_row (ix_name i, c, if ix_unique i then 0 else 1) is
      = is @ [\<lparr>ix_name = ix_name i, ix_columns = [c], ix_unique = ix_unique i\<rparr>]"
    using add_index_new[OF assms(1)] by simp
  show ?thesis
    unfolding index_rows_def cs list.map fold.simps o_apply first
    using add_index_more[OF assms(1), of "if ix_unique i then 0 else 1" cs "[c]" "ix_unique i"] i by metis
qed

lemma indexes_read_back:
  assumes "distinct (map ix_name (is @ js))" "\<And>i. i \<in> set js \<Longrightarrow> ix_columns i \<noteq> []"
  shows "fold add_index_row (concat (map index_rows js)) is = is @ js"
  using assms
proof (induction js arbitrary: "is")
  case (Cons j js)
  have "fold add_index_row (index_rows j) is = is @ [j]" using Cons.prems by (intro add_whole_index) auto
  then show ?case using Cons.IH[of "is @ [j]"] Cons.prems by simp
qed simp

definition columns_of :: "table_def \<Rightarrow> mysql_col list" where
  "columns_of t = map (\<lambda>(n, ty, null, auto). \<lparr>mc_name = n, mc_type = ty, mc_nullable = null, mc_auto = auto\<rparr>) (td_columns t)"

definition schema_of :: "table_def \<Rightarrow> mysql_schema" where
  "schema_of t = \<lparr>ms_table = td_name t, ms_cols = columns_of t, ms_pk = key_columns t, ms_idxs = td_indexes t, ms_fks = ref_entries t\<rparr>"

text \<open>Names are not empty, the indexes of a table have different names and some columns.\<close>

definition proper_table :: "table_def \<Rightarrow> bool" where
  "proper_table t \<longleftrightarrow> td_name t \<noteq> [] \<and> [] \<notin> set (map fst (td_columns t)) \<and> distinct (map ix_name (td_indexes t))
     \<and> (\<forall>i\<in>set (td_indexes t). ix_columns i \<noteq> [])"

lemma yes_no: "eq_ignore_case ''YES'' ''YES''" "\<not> eq_ignore_case ''NO'' ''YES''"
    "contains_sub ''auto_increment'' (to_lower ''auto_increment'')" "\<not> contains_sub ''auto_increment'' (to_lower [])"
  by code_simp+

lemma column_read_back:
  "(case column_of (n, ty, null, auto) of (n, ty, nu, ex) \<Rightarrow> mysql_column n ty nu ex)
    = \<lparr>mc_name = n, mc_type = ty, mc_nullable = null, mc_auto = auto\<rparr>"
  using yes_no by (cases null; cases auto) (simp_all add: column_of_def mysql_column_def)

lemma schema_read_back:
  assumes "describes lossy fetch db d" "t \<in> set d" "proper_table t"
  shows "read_mysql_schema (mysql_source_of lossy fetch db streams) (td_name t) = Inr (schema_of t)"
proof -
  have r: "mysql_get_columns lossy fetch db (td_name t) = Inr (map column_of (td_columns t))"
    "mysql_get_pk lossy fetch db (td_name t) = Inr (key_columns t)"
    "mysql_index_rows lossy fetch db (td_name t) = Inr (index_entries t)"
    "mysql_get_fks lossy fetch db (td_name t) = Inr (ref_entries t)"
    using assms(1,2) by (simp_all add: describes_def)
  have c: "map ((\<lambda>(n, ty, nu, ex). mysql_column n ty nu ex) \<circ> column_of) (td_columns t) = columns_of t"
    unfolding columns_of_def by (intro map_cong refl) (use column_read_back in auto)
  have k: "filter (\<lambda>c. c \<noteq> []) (key_columns t) = key_columns t"
    using assms(3) by (intro filter_True) (auto simp: proper_table_def key_columns_def image_iff)
  have "mysql_get_indexes (index_entries t) = td_indexes t"
    using indexes_read_back[of "[]" "td_indexes t"] assms(3)
    by (simp add: mysql_get_indexes_def index_entries_def proper_table_def index_rows_def[abs_def])
  then show ?thesis
    by (simp add: read_mysql_schema_def mysql_source_of_def r and_then_def c k schema_of_def)
qed

lemma traverse_map: "(\<And>x. x \<in> set xs \<Longrightarrow> f (g x) = Inr (h x)) \<Longrightarrow> traverse f (map g xs) = Inr (map h xs)"
  by (induction xs) (simp_all add: and_then_def)

lemma schemas_read_back:
  assumes "describes lossy fetch db d" "\<And>t. t \<in> set d \<Longrightarrow> proper_table t"
  shows "mysql_schemas None (mysql_source_of lossy fetch db streams) = Inr (map schema_of d)"
proof -
  have "filter (table_wanted None) (map td_name d) = map td_name d"
    using assms(2) by (auto simp: filter_id_conv table_wanted_def proper_table_def)
  moreover have "traverse (read_mysql_schema (mysql_source_of lossy fetch db streams)) (map td_name d) = Inr (map schema_of d)"
    using schema_read_back[OF assms(1)] assms(2) by (intro traverse_map) blast
  ultimately show ?thesis using assms(1)
    by (simp add: mysql_schemas_def get_tables_def and_then_def) (simp add: mysql_source_of_def describes_def)
qed

section \<open>The statements on the schema\<close>

definition schema_stmts :: "stmt list \<Rightarrow> stmt \<Rightarrow> stmt list" where
  "schema_stmts h s = (case s of Create _ _ \<Rightarrow> [s] | Index _ _ \<Rightarrow> [s] | Add_fk _ _ \<Rightarrow> [s] | _ \<Rightarrow> [])"

lemma events_schema: "events schema_stmts h t = filter (\<lambda>s. schema_stmts [] s \<noteq> []) t"
  by (induction t arbitrary: h) (auto simp: schema_stmts_def split: stmt.splits)

lemma causes_run: "causes schema_stmts (run_sql render srv s) (schema_stmts [] s)"
  by (auto simp: causes_def run_sql_def schema_stmts_def)

lemma emits_try: "emits schema_stmts (try_sql render srv s) (schema_stmts [] s)"
  unfolding try_sql_def
  by (rule causes_emits) (intro causes_bind causes_attempt causes_run causes_ret)

lemma emits_stmt: "emits schema_stmts (run_sql render srv s) (schema_stmts [] s)"
  by (rule causes_emits[OF causes_run])

text \<open>The text of a table; a panic while it is built ends the migration.\<close>

definition ddl_of :: "mysql_schema \<Rightarrow> string" where
  "ddl_of s = (case build_pg_create_table (ms_table s) (ms_cols s) (ms_pk s) of Returns d \<Rightarrow> d | Panics \<Rightarrow> [])"

lemma emits_create: "emits schema_stmts (create_pg_table sj srv s) [Create (ms_table s) (ddl_of s)]"
proof (cases "build_pg_create_table (ms_table s) (ms_cols s) (ms_pk s)")
  case Panics
  show ?thesis unfolding create_pg_table_def of_exec_def Panics exec.case by (simp only: bind_bail emits_bail)
next
  case (Returns ddl)
  have d: "ddl = ddl_of s" by (simp add: ddl_of_def Returns)
  show ?thesis
    unfolding create_pg_table_def of_exec_def Returns exec.case bind_ret d
    using emits_stmt[of "pg_text sj" srv "Create (ms_table s) (ddl_of s)"] by (simp add: schema_stmts_def)
qed

lemma emits_batch: "emits schema_stmts (insert_batch render srv t cols b) []"
  using emits_stmt[of render srv "Insert t cols b"] by (simp add: insert_batch_def schema_stmts_def emits_ret)

lemma emits_copying: "emits schema_stmts (copy_rows (insert_batch render srv t cols) items batch n) []"
proof (induction items arbitrary: batch n)
  case Nil
  show ?case unfolding copy_rows.simps by (auto intro!: emits_silent_bind emits_batch emits_ret)
next
  case (Cons i items)
  show ?case
    by (cases i) (auto simp: Let_def intro!: emits_bail emits_silent_bind emits_batch Cons.IH simp del: bail_apply)
qed

lemma emits_transfer: "emits schema_stmts (transfer_table lossy sj srv src s) []"
proof -
  have "emits schema_stmts (try_sql render srv (Truncate t)) []" for render t
    using emits_try[of render srv "Truncate t"] by (simp add: schema_stmts_def)
  then show ?thesis
    unfolding transfer_table_def transfer_mysql_to_pg_def by (intro emits_silent_seq emits_copying)
qed

lemma emits_index_stmts:
  "emits schema_stmts (add_indexes sj srv s) (map (Index (ms_table s)) (ms_idxs s))"
proof -
  have "emits schema_stmts (add_indexes sj srv s) (concat (map (\<lambda>i. schema_stmts [] (Index (ms_table s) i)) (ms_idxs s)))"
    unfolding add_indexes_def by (intro emits_each emits_try)
  then show ?thesis by (simp add: schema_stmts_def)
qed

lemma emits_fk_stmts:
  "emits schema_stmts (add_fks sj srv s) (map (Add_fk (ms_table s)) (ms_fks s))"
proof -
  have "emits schema_stmts (add_fks sj srv s) (concat (map (\<lambda>i. schema_stmts [] (Add_fk (ms_table s) i)) (ms_fks s)))"
    unfolding add_fks_def by (intro emits_each emits_try)
  then show ?thesis by (simp add: schema_stmts_def)
qed

lemma emits_sequences: "emits schema_stmts (reset_sequences sj srv s) []"
proof -
  have "emits schema_stmts (try_sql (pg_text sj) srv (Set_sequence t c)) []" for t c
    using emits_try[of "pg_text sj" srv "Set_sequence t c"] by (simp add: schema_stmts_def)
  then show ?thesis unfolding reset_sequences_def by (intro emits_silent_each) (simp add: emits_ret)
qed

definition schema_plan :: "mysql_schema list \<Rightarrow> stmt list" where
  "schema_plan ss =
     map (\<lambda>s. Create (ms_table s) (ddl_of s)) ss
     @ concat (map (\<lambda>s. map (Index (ms_table s)) (ms_idxs s)) ss)
     @ concat (map (\<lambda>s. map (Add_fk (ms_table s)) (ms_fks s)) ss)"

lemma emits_schema:
  assumes "mysql_schemas flt src = Inr ss"
  shows "emits schema_stmts (migrate_mysql_to_pg lossy sj srv src flt) (schema_plan ss)"
proof (cases "ss = []")
  case True
  show ?thesis unfolding migrate_mysql_to_pg_def assms bind_result True schema_plan_def
    by (simp only: if_True list.map concat.simps append_Nil emits_ret simp_thms)
next
  case False
  have create: "emits schema_stmts (io_each (create_pg_table sj srv) ss) (map (\<lambda>s. Create (ms_table s) (ddl_of s)) ss)"
    using emits_each[of ss schema_stmts "create_pg_table sj srv" "\<lambda>s. [Create (ms_table s) (ddl_of s)]"] emits_create by simp
  have data: "emits schema_stmts (io_map (transfer_table lossy sj srv src) ss) []"
  proof -
    have e: "concat (map (\<lambda>_. []) ss) = ([] :: stmt list)" by (induction ss) simp_all
    show ?thesis
      using emits_maps[of ss schema_stmts "transfer_table lossy sj srv src" "\<lambda>_. []"] emits_transfer unfolding e by blast
  qed
  have idx: "emits schema_stmts (io_each (add_indexes sj srv) ss) (concat (map (\<lambda>s. map (Index (ms_table s)) (ms_idxs s)) ss))"
    by (intro emits_each emits_index_stmts)
  have fks: "emits schema_stmts (io_each (add_fks sj srv) ss) (concat (map (\<lambda>s. map (Add_fk (ms_table s)) (ms_fks s)) ss))"
    by (intro emits_each emits_fk_stmts)
  have rest: "emits schema_stmts (io_seq (io_each (add_indexes sj srv) ss)
      (io_seq (io_each (reset_sequences sj srv) ss) (io_seq (io_each (add_fks sj srv) ss) (ret n))))
      (concat (map (\<lambda>s. map (Index (ms_table s)) (ms_idxs s)) ss) @ [] @
       concat (map (\<lambda>s. map (Add_fk (ms_table s)) (ms_fks s)) ss) @ [])" for n :: nat
    by (intro emits_seq idx fks emits_silent_each emits_sequences emits_ret)
  have "emits schema_stmts (migrate_mysql_to_pg lossy sj srv src flt)
      (map (\<lambda>s. Create (ms_table s) (ddl_of s)) ss @ [] @
       (concat (map (\<lambda>s. map (Index (ms_table s)) (ms_idxs s)) ss) @ [] @
        concat (map (\<lambda>s. map (Add_fk (ms_table s)) (ms_fks s)) ss) @ []))"
    unfolding migrate_mysql_to_pg_def assms bind_result if_not_P[OF False]
    by (intro emits_seq emits_bind create data rest)
  then show ?thesis by (simp add: schema_plan_def)
qed

section \<open>What arrives\<close>

lemma create_all:
  assumes "distinct (relations c @ map fst ts)"
  shows "fold (pg_define unique) (map (\<lambda>(t, sql). Create t sql) ts) c = c\<lparr>pt_tables := pt_tables c @ map fst ts\<rparr>"
  using assms
proof (induction ts arbitrary: c)
  case (Cons x ts)
  obtain t sql where x: "x = (t, sql)" by force
  have "t \<notin> set (relations c)" using Cons.prems x by auto
  moreover have "distinct (relations (c\<lparr>pt_tables := pt_tables c @ [t]\<rparr>) @ map fst ts)"
    using Cons.prems x by (auto simp: relations_def)
  ultimately show ?case using Cons.IH[of "c\<lparr>pt_tables := pt_tables c @ [t]\<rparr>"] x by simp
qed simp

lemma index_all:
  assumes "distinct (relations c @ map (\<lambda>(t, i). ix_name i) is)" "fst ` set is \<subseteq> set (pt_tables c)"
  shows "fold (pg_define unique) (map (\<lambda>(t, i). Index t i) is) c
    = c\<lparr>pt_indexes := pt_indexes c @ map (\<lambda>(t, i). (ix_name i, t, ix_columns i, ix_unique i)) is\<rparr>"
  using assms
proof (induction "is" arbitrary: c)
  case (Cons x "is")
  obtain t i where x: "x = (t, i)" by force
  let ?c = "c\<lparr>pt_indexes := pt_indexes c @ [(ix_name i, t, ix_columns i, ix_unique i)]\<rparr>"
  have "ix_name i \<notin> set (relations c)" "t \<in> set (pt_tables c)" using Cons.prems x by auto
  moreover have "distinct (relations ?c @ map (\<lambda>(t, i). ix_name i) is)" "fst ` set is \<subseteq> set (pt_tables ?c)"
    using Cons.prems x by (auto simp: relations_def)
  ultimately show ?case using Cons.IH[of ?c] x by simp
qed simp

lemma fk_all:
  assumes "distinct (map (\<lambda>(t, n, _). (t, n)) (pt_refs c) @ map (\<lambda>(t, f). (t, fk_name f)) fs)"
    and "\<And>t f. (t, f) \<in> set fs \<Longrightarrow> t \<in> set (pt_tables c) \<and> fk_table f \<in> set (pt_tables c) \<and> unique (fk_table f) (fk_ref f)"
  shows "fold (pg_define unique) (map (\<lambda>(t, f). Add_fk t f) fs) c
    = c\<lparr>pt_refs := pt_refs c @ map (\<lambda>(t, f). (t, fk_name f, fk_column f, fk_table f, fk_ref f)) fs\<rparr>"
  using assms
proof (induction fs arbitrary: c)
  case (Cons x fs)
  obtain t f where x: "x = (t, f)" by force
  let ?c = "c\<lparr>pt_refs := pt_refs c @ [(t, fk_name f, fk_column f, fk_table f, fk_ref f)]\<rparr>"
  have "(t, fk_name f) \<notin> (\<lambda>(t, n, _). (t, n)) ` set (pt_refs c)" using Cons.prems(1) x by auto
  moreover have "t \<in> set (pt_tables c)" "fk_table f \<in> set (pt_tables c)" "unique (fk_table f) (fk_ref f)"
    using Cons.prems(2)[of t f] x by auto
  moreover have "distinct (map (\<lambda>(t, n, _). (t, n)) (pt_refs ?c) @ map (\<lambda>(t, f). (t, fk_name f)) fs)"
    using Cons.prems(1) x by auto
  moreover have "t' \<in> set (pt_tables ?c) \<and> fk_table f' \<in> set (pt_tables ?c) \<and> unique (fk_table f') (fk_ref f')"
    if "(t', f') \<in> set fs" for t' f'
    using Cons.prems(2)[of t' f'] that by simp
  ultimately show ?case using Cons.IH[of ?c] x by simp
qed simp

definition all_indexes :: "table_def list \<Rightarrow> (string \<times> mysql_idx) list" where
  "all_indexes d = concat (map (\<lambda>t. map (Pair (td_name t)) (td_indexes t)) d)"

definition all_refs :: "table_def list \<Rightarrow> (string \<times> mysql_fk) list" where
  "all_refs d = concat (map (\<lambda>t. map (Pair (td_name t)) (ref_entries t)) d)"

text \<open>
  Databases whose schema can arrive: the names of tables and indexes are different over the whole
  database, foreign keys have one column, different names in a table, and refer to a unique column of a
  table that is migrated.
\<close>

definition portable :: "(string \<Rightarrow> string \<Rightarrow> bool) \<Rightarrow> table_def list \<Rightarrow> bool" where
  "portable unique d \<longleftrightarrow>
     list_all proper_table d
     \<and> distinct (map td_name d @ concat (map (\<lambda>t. map ix_name (td_indexes t)) d))
     \<and> list_all (\<lambda>t. distinct (map fst (td_refs t))
         \<and> list_all (\<lambda>(f, cs, u, rs). length cs = 1 \<and> length rs = 1 \<and> u \<in> td_name ` set d \<and> unique u (hd rs)) (td_refs t)) d"

lemma single_refs:
  assumes "list_all (\<lambda>(f, cs, u, rs). length cs = 1 \<and> length rs = 1 \<and> P u \<and> unique u (hd rs)) (td_refs t)"
  shows "ref_entries t = map (\<lambda>(f, cs, u, rs). \<lparr>fk_name = f, fk_column = hd cs, fk_table = u, fk_ref = hd rs\<rparr>) (td_refs t)"
proof -
  have "concat (map (\<lambda>(f, cs, u, rs). map (\<lambda>(c, r). \<lparr>fk_name = f, fk_column = c, fk_table = u, fk_ref = r\<rparr>) (zip cs rs)) ts)
      = map (\<lambda>(f, cs, u, rs). \<lparr>fk_name = f, fk_column = hd cs, fk_table = u, fk_ref = hd rs\<rparr>) ts"
    if "list_all (\<lambda>(f, cs, u, rs). length cs = 1 \<and> length rs = 1 \<and> P u \<and> unique u (hd rs)) ts" for ts
    using that by (induction ts) (auto simp: length_Suc_conv)
  then show ?thesis using assms unfolding ref_entries_def by blast
qed

lemma refs_allowed:
  assumes "\<forall>(f, cs, u, rs)\<in>set (td_refs t). length cs = 1 \<and> length rs = 1 \<and> u \<in> U \<and> unique u (hd rs)"
    and "f \<in> set (ref_entries t)"
  shows "fk_table f \<in> U \<and> unique (fk_table f) (fk_ref f)"
proof -
  have l: "list_all (\<lambda>(f, cs, u, rs). length cs = 1 \<and> length rs = 1 \<and> u \<in> U \<and> unique u (hd rs)) (td_refs t)"
    using assms(1) by (simp add: list_all_iff)
  have "f \<in> set (map (\<lambda>(f, cs, u, rs). \<lparr>fk_name = f, fk_column = hd cs, fk_table = u, fk_ref = hd rs\<rparr>) (td_refs t))"
    using assms(2) unfolding single_refs[OF l] .
  then show ?thesis using assms(1) by (auto split: prod.splits)
qed

lemma refs_distinct:
  assumes "distinct (map td_name d)"
    and "\<And>t. t \<in> set d \<Longrightarrow> distinct (map fk_name (ref_entries t))"
  shows "distinct (map (\<lambda>(t, f). (t, fk_name f)) (all_refs d))"
  using assms
proof (induction d)
  case (Cons t d)
  have "distinct (map (\<lambda>f. (td_name t, fk_name f)) (ref_entries t))"
    using Cons.prems(2)[of t] by (auto simp: distinct_map inj_on_def)
  moreover have "u \<in> td_name ` set d" if "(u, f) \<in> set (all_refs d)" for u f
    using that by (auto simp: all_refs_def)
  ultimately show ?case using Cons by (fastforce simp: all_refs_def comp_def)
qed (simp add: all_refs_def)

lemma plan_arrives:
  assumes "portable unique d"
  shows "fold (pg_define unique) (schema_plan (map schema_of d)) empty_catalog
    = \<lparr>pt_tables = map td_name d,
       pt_indexes = map (\<lambda>(t, i). (ix_name i, t, ix_columns i, ix_unique i)) (all_indexes d),
       pt_refs = map (\<lambda>(t, f). (t, fk_name f, fk_column f, fk_table f, fk_ref f)) (all_refs d)\<rparr>"
proof -
  have names: "distinct (map td_name d @ concat (map (\<lambda>t. map ix_name (td_indexes t)) d))"
    using assms by (simp add: portable_def)
  let ?c1 = "\<lparr>pt_tables = map td_name d, pt_indexes = [], pt_refs = []\<rparr>"
  let ?ix = "map (\<lambda>(t, i). (ix_name i, t, ix_columns i, ix_unique i)) (all_indexes d)"
  have c: "map (\<lambda>s. Create (ms_table s) (ddl_of s)) (map schema_of d)
      = map (\<lambda>(t, sql). Create t sql) (map (\<lambda>t. (td_name t, ddl_of (schema_of t))) d)"
    by (simp add: schema_of_def comp_def)
  have i: "concat (map (\<lambda>s. map (Index (ms_table s)) (ms_idxs s)) (map schema_of d))
      = map (\<lambda>(t, i). Index t i) (all_indexes d)"
    by (simp add: all_indexes_def schema_of_def map_concat comp_def)
  have f: "concat (map (\<lambda>s. map (Add_fk (ms_table s)) (ms_fks s)) (map schema_of d))
      = map (\<lambda>(t, f). Add_fk t f) (all_refs d)"
    by (simp add: all_refs_def schema_of_def map_concat comp_def)
  have s1: "fold (pg_define unique) (map (\<lambda>(t, sql). Create t sql) (map (\<lambda>t. (td_name t, ddl_of (schema_of t))) d)) empty_catalog = ?c1"
    using names by (subst create_all) (simp_all add: empty_catalog_def relations_def comp_def)
  have nx: "map (\<lambda>(t, i). ix_name i) (all_indexes d) = concat (map (\<lambda>t. map ix_name (td_indexes t)) d)"
    by (simp add: all_indexes_def map_concat comp_def)
  have s2: "fold (pg_define unique) (map (\<lambda>(t, i). Index t i) (all_indexes d)) ?c1 = ?c1\<lparr>pt_indexes := ?ix\<rparr>"
    using names by (subst index_all) (auto simp: relations_def nx, auto simp: all_indexes_def)
  have single: "ref_entries t = map (\<lambda>(f, cs, u, rs). \<lparr>fk_name = f, fk_column = hd cs, fk_table = u, fk_ref = hd rs\<rparr>) (td_refs t)"
    if "t \<in> set d" for t
    using assms that single_refs[of "\<lambda>u. u \<in> td_name ` set d" unique t] by (auto simp: portable_def list_all_iff)
  have "map fk_name (ref_entries t) = map fst (td_refs t)" if "t \<in> set d" for t
    unfolding single[OF that] by (auto simp: comp_def)
  then have "distinct (map fk_name (ref_entries t))" if "t \<in> set d" for t
    using assms that by (simp add: portable_def list_all_iff)
  then have d: "distinct (map (\<lambda>(t, f). (t, fk_name f)) (all_refs d))"
    using names by (intro refs_distinct) auto
  have ok: "t \<in> set (pt_tables (?c1\<lparr>pt_indexes := ?ix\<rparr>)) \<and> fk_table f \<in> set (pt_tables (?c1\<lparr>pt_indexes := ?ix\<rparr>)) \<and> unique (fk_table f) (fk_ref f)"
    if tf: "(t, f) \<in> set (all_refs d)" for t f
  proof -
    obtain x where x: "x \<in> set d" "t = td_name x" "f \<in> set (ref_entries x)" using tf by (auto simp: all_refs_def)
    have "\<forall>(f, cs, u, rs)\<in>set (td_refs x). length cs = 1 \<and> length rs = 1 \<and> u \<in> td_name ` set d \<and> unique u (hd rs)"
      using assms x(1) by (simp add: portable_def list_all_iff)
    from refs_allowed[OF this x(3)] show ?thesis using x(1,2) by simp
  qed
  have "distinct (map (\<lambda>(t, n, _). (t, n)) (pt_refs (?c1\<lparr>pt_indexes := ?ix\<rparr>)) @ map (\<lambda>(t, f). (t, fk_name f)) (all_refs d))"
    using d by simp
  from fk_all[OF this ok] show ?thesis
    unfolding schema_plan_def c i f fold_append o_apply s1 s2 by simp
qed

lemma define_other: "schema_stmts [] s = [] \<Longrightarrow> pg_define unique s c = c"
  by (cases s) (simp_all add: schema_stmts_def)

lemma fold_schema: "fold (pg_define unique) (filter (\<lambda>s. schema_stmts [] s \<noteq> []) t) c = fold (pg_define unique) t c"
  by (induction t arbitrary: c) (simp_all add: define_other)

section \<open>Properties\<close>


text \<open>Users and their orders.\<close>

definition users_table :: table_def where
  "users_table = \<lparr>td_name = ''users'', td_columns = [(''id'', ''int'', False, True), (''mail'', ''varchar(80)'', False, False)],
     td_key = [''id''], td_indexes = [\<lparr>ix_name = ''by_mail'', ix_columns = [''mail''], ix_unique = True\<rparr>], td_refs = []\<rparr>"

definition orders_table :: "string \<Rightarrow> table_def" where
  "orders_table index = \<lparr>td_name = ''orders'', td_columns = [(''id'', ''int'', False, True), (''user'', ''int'', False, False)],
     td_key = [''id''], td_indexes = [\<lparr>ix_name = index, ix_columns = [''user'', ''id''], ix_unique = False\<rparr>],
     td_refs = [(''owner'', [''user''], ''users'', [''id''])]\<rparr>"

abbreviation arrived :: "(string \<Rightarrow> string \<Rightarrow> bool) \<Rightarrow> table_def list \<Rightarrow> pg_catalog" where
  "arrived unique d \<equiv> fold (pg_define unique)
     (snd (migrate_mysql_to_pg (\<lambda>_. []) (\<lambda>_. []) (\<lambda>_ _. Inr ())
        (mysql_source_of (\<lambda>_. []) (information_schema ''shop'' d) ''shop'' (\<lambda>_. [])) None [])) empty_catalog"


section \<open>What does not arrive\<close>

text \<open>
  The names of indexes are those of a table in MySQL and those of the schema in PostgreSQL: of two tables
  with an index of the same name the second one loses it, without a message.
\<close>

theorem same_index_name_lost:
  "pt_indexes (arrived (\<lambda>t c. c = ''id'') [users_table, orders_table ''by_mail'']) = [(''by_mail'', ''users'', [''mail''], True)]"
  by code_simp

text \<open>
  A foreign key of two columns becomes two constraints of the same name with one column each: PostgreSQL
  takes none, or one that says something else.
\<close>

definition lines_table :: table_def where
  "lines_table = \<lparr>td_name = ''lines'', td_columns = [(''shop'', ''int'', False, False), (''nr'', ''int'', False, False)],
     td_key = [''nr'', ''shop''], td_indexes = [], td_refs = [(''line_of'', [''shop'', ''nr''], ''bills'', [''shop'', ''nr''])]\<rparr>"

definition bills_table :: table_def where
  "bills_table = \<lparr>td_name = ''bills'', td_columns = [(''shop'', ''int'', False, False), (''nr'', ''int'', False, False)],
     td_key = [''shop'', ''nr''], td_indexes = [], td_refs = []\<rparr>"

theorem composite_key_split:
  "pt_refs (arrived (\<lambda>t c. False) [bills_table, lines_table]) = []"
  "pt_refs (arrived (\<lambda>t c. c = ''nr'') [bills_table, lines_table]) = [(''lines'', ''line_of'', ''nr'', ''bills'', ''nr'')]"
  by code_simp+

text \<open>A primary key is created with its columns in the order of the table, not in that of the key.\<close>

theorem key_order_lost:
  "td_key lines_table = [''nr'', ''shop''] \<and> key_columns lines_table = [''shop'', ''nr'']"
  by code_simp

end
