(* ===== verification/Dip_Listing.thy ===== *)
theory Dip_Listing
  imports Dip_Bench Dip_Db Dip_Report Dip_Tools
begin

text \<open>
  The commands that list what there is: \<open>dip proxy routes\<close> and \<open>status\<close> (\<open>commands/proxy/\<close>), \<open>dip env\<close> and
  \<open>env diff\<close> (\<open>commands/env.rs\<close>), \<open>dip db list\<close> (\<open>commands/db.rs\<close>), \<open>dip sysinfo\<close> and \<open>root\<close>, the tree
  \<open>dip init\<close> shows; and the desktop
  notifications (\<open>utils/notify.rs\<close>). A command yields the lines it prints. \<open>on\<close> says whether colours are
  written, \<open>width\<close> is the width of the terminal.
\<close>

section \<open>Routes and status of the proxy\<close>

definition route_line :: "bool \<Rightarrow> route \<Rightarrow> string" where
  "route_line on r =
     ''  '' @ paint on (dimmed (plain (if CHR ''*'' \<in> set (domain r) then ''wildcard'' else ''exact   ''))) @ '' ''
     @ paint_right on 38 (in_color Cyan (plain (domain r))) @ '' '' @ arrow @ '' '' @ paint on (in_color Green (plain (upstream r)))"

definition run_routes :: "bool \<Rightarrow> nat \<Rightarrow> string + proxy_config \<Rightarrow> string + string list" where
  "run_routes on width loaded =
     and_then loaded (\<lambda>cfg.
       Inr (section_lines on width ''proxy routes''
         (if routes cfg = [] then
            [''  '' @ paint on (dimmed (plain (''no routes '' @ dash @ '' run `dip start` inside a project to populate'')))]
          else map (route_line on) (routes cfg))))"

definition warning_line :: "bool \<Rightarrow> string \<Rightarrow> string" where
  "warning_line on msg = paint on (in_color Yellow (plain warn_mark)) @ '' '' @ paint on (in_color Yellow (plain msg))"

definition info_line :: "bool \<Rightarrow> string \<Rightarrow> string" where
  "info_line on msg = paint on (in_color Blue (plain [CHR 0xC2, CHR 0xB7])) @ '' '' @ paint on (dimmed (plain msg))"

definition run_status :: "bool \<Rightarrow> nat \<Rightarrow> string \<Rightarrow> nat option \<Rightarrow> string + proxy_config \<Rightarrow> string + string list" where
  "run_status on width log_path daemon loaded =
     (case daemon of
        None \<Rightarrow> Inr [warning_line on ''Proxy is not running'']
      | Some pid \<Rightarrow>
          and_then loaded (\<lambda>cfg.
            Inr (section_lines on width ''proxy''
              [''  '' @ paint_right on 18 (dimmed (plain ''Status:'')) @ '' '' @ paint on (bold (in_color Green (plain ''running'')))
                 @ '' (PID '' @ show_nat pid @ '')'',
               ''  '' @ paint_right on 18 (dimmed (plain ''Ports:'')) @ '' :'' @ show_nat (unat (http_port cfg)) @ '' '' @ arrow
                 @ '' :'' @ show_nat (unat (https_port cfg)),
               ''  '' @ paint_right on 18 (dimmed (plain ''Routes:'')) @ '' '' @ show_nat (length (routes cfg)) @ '' route(s)'',
               ''  '' @ paint_right on 18 (dimmed (plain ''Logs:'')) @ '' '' @ log_path])))"

section \<open>The environment\<close>

definition shown_keys :: "string list" where
  "shown_keys = [''PROJECT_NAME'', ''PROJECT_ROOT'', ''DIP_DIR'', ''ENV_FILE'', ''HOST_UID'', ''HOST_GID'', ''COMPOSE_PROJECT_NAME'']"

text \<open>The keys of the file as \<open>read_env_keys\<close> sees them, and those of dip; sorted, once each.\<close>

definition listed_keys :: "string \<Rightarrow> string list" where
  "listed_keys content = sextend [] (read_env_keys content @ shown_keys)"

definition env_line :: "bool \<Rightarrow> string \<Rightarrow> string \<Rightarrow> string" where
  "env_line on k v =
     ''  '' @ paint_right on 30 (in_color Cyan (plain k)) @ '' ''
     @ paint on (dimmed (plain (trim_matches squote (trim_matches dquote v))))"

definition env_pairs :: "project_config \<Rightarrow> string \<Rightarrow> (string \<times> string) list" where
  "env_pairs p content = filter_map (\<lambda>k. map_option (Pair k) (penv p k)) (listed_keys content)"

text \<open>\<open>content\<close> is the text of the environment file, empty if it cannot be read.\<close>

definition run_env :: "bool \<Rightarrow> nat \<Rightarrow> string + project_config \<Rightarrow> string \<Rightarrow> string + string list" where
  "run_env on width found content =
     and_then found (\<lambda>p.
       Inr (section_lines on width (''env  '' @ env_path p) (map (\<lambda>(k, v). env_line on k v) (env_pairs p content))))"

definition print_key_list :: "bool \<Rightarrow> string \<Rightarrow> string list \<Rightarrow> string \<Rightarrow> string list" where
  "print_key_list on title ks about =
     (if ks = [] then [''  '' @ paint on (dimmed (plain title)) @ '' '' @ paint on (dimmed (plain ''none''))]
      else (''  '' @ paint on (dimmed (plain title)) @ '' ''
             @ paint on (in_color Yellow (plain (show_nat (length ks) @ '' key(s) '' @ dash @ '' '' @ about))))
           # map (\<lambda>k. ''    '' @ paint on (in_color Cyan (plain k))) ks)"

definition sanitize_value :: "string \<Rightarrow> string" where
  "sanitize_value v = (if v = [] then ''<empty>'' else v)"

definition value_of :: "string \<Rightarrow> string \<Rightarrow> string" where
  "value_of content k = (case parse_env_str content k of Some v \<Rightarrow> v | None \<Rightarrow> [])"

definition changed_lines :: "bool \<Rightarrow> bool \<Rightarrow> string \<Rightarrow> string \<Rightarrow> string list \<Rightarrow> string list" where
  "changed_lines on show_values dflt local ks =
     (if ks = [] then [''  '' @ paint on (dimmed (plain ''changed'')) @ '' '' @ paint on (dimmed (plain ''none''))]
      else [''  '' @ paint on (dimmed (plain ''changed'')) @ '' ''
             @ paint on (in_color Yellow (plain (show_nat (length ks) @ '' key(s)'')))]
           @ map (\<lambda>k. ''    '' @ paint on (in_color Cyan (plain k))
               @ (if show_values then
                    '' '' @ paint on (dimmed (plain (sanitize_value (value_of dflt k)))) @ '' ''
                    @ paint on (in_color Yellow (plain (arrow @ '' '' @ sanitize_value (value_of local k))))
                  else [])) ks
           @ (if show_values then [] else [''    '' @ paint on (dimmed (plain ''use --show-values to print changed values''))]))"

definition drift_verdict :: "bool \<Rightarrow> env_diff \<Rightarrow> string" where
  "drift_verdict on d =
     (if missing d = [] \<and> extra d = [] \<and> empty_overrides d = [] then
        ''  '' @ paint on (bold (in_color Green (plain tick_mark))) @ '' env files are in sync structurally''
      else ''  '' @ paint on (in_color Yellow (plain warn_mark)) @ '' review env drift before sharing this project'')"

definition diff_lines :: "bool \<Rightarrow> bool \<Rightarrow> string \<Rightarrow> string \<Rightarrow> string \<Rightarrow> string \<Rightarrow> string list" where
  "diff_lines on show_values dflt_path local_path dflt local =
     (let d = diff_env dflt local in
      [''  '' @ paint_right on 16 (dimmed (plain ''default:'')) @ '' '' @ dflt_path,
       ''  '' @ paint_right on 16 (dimmed (plain ''local:'')) @ '' '' @ local_path, []]
      @ print_key_list on ''missing'' (missing d) ''present in default.env only''
      @ print_key_list on ''extra'' (extra d) ''present in .env only''
      @ print_key_list on ''empty'' (empty_overrides d) ''empty in .env but non-empty in default.env''
      @ changed_lines on show_values dflt local (changed d)
      @ [[], drift_verdict on d])"

text \<open>Both files must be readable.\<close>

definition run_env_diff :: "bool \<Rightarrow> nat \<Rightarrow> bool \<Rightarrow> string + project_config \<Rightarrow> string + string \<Rightarrow> string + string \<Rightarrow> string + string list" where
  "run_env_diff on width show_values found dflt local =
     and_then found (\<lambda>p. and_then dflt (\<lambda>d. and_then local (\<lambda>l.
       Inr (section_lines on width ''env diff'' (diff_lines on show_values (dip_dir p @ ''/default.env'') (env_path p) d l)))))"

section \<open>Databases\<close>

definition db_line :: "bool \<Rightarrow> string \<Rightarrow> string \<Rightarrow> string \<Rightarrow> string \<Rightarrow> string" where
  "db_line on name kind db who =
     ''  '' @ paint_right on 20 (in_color Cyan (plain name)) @ '' '' @ paint_right on 10 (in_color Yellow (plain kind))
     @ '' db: '' @ paint on (dimmed (plain db)) @ ''  user: '' @ paint on (dimmed (plain who))"

definition db_row :: "string \<Rightarrow> string \<Rightarrow> string \<Rightarrow> string \<Rightarrow> bool \<Rightarrow> json" where
  "db_row name kind db who legacy =
     JObj [(''backend'', JStr kind), (''database'', JStr db), (''legacy'', JBool legacy), (''service'', JStr name), (''user'', JStr who)]"

text \<open>The services with a label, else the database of the environment, if there is one.\<close>

definition db_entries :: "db_service list \<Rightarrow> (string \<Rightarrow> string option) \<Rightarrow> (string \<times> db_kind \<times> db_config \<times> bool) list" where
  "db_entries services env =
     (if services = [] then
        (case detect_legacy env of Inr (k, c) \<Rightarrow> [(''db'', k, c, True)] | Inl _ \<Rightarrow> [])
      else map (\<lambda>s. (svc_name s, backend s, service_config_of s, False)) services)"

definition db_rows :: "db_service list \<Rightarrow> (string \<Rightarrow> string option) \<Rightarrow> json list" where
  "db_rows services env =
     map (\<lambda>(n, k, c, l). db_row n (backend_name k) (cfg_name c) (cfg_user c) l) (db_entries services env)"

definition db_lines :: "bool \<Rightarrow> db_service list \<Rightarrow> (string \<Rightarrow> string option) \<Rightarrow> string list" where
  "db_lines on services env =
     (if services = [] then
        [''  '' @ paint on (dimmed (plain (''No dip.db labels found '' @ dash @ '' checking legacy mode'' @ ellipsis)))]
        @ (case db_entries services env of
             [] \<Rightarrow> [''  '' @ paint on (in_color Yellow (plain ''No database configuration found''))]
           | es \<Rightarrow> map (\<lambda>(_, k, c, _). db_line on ''db (legacy)'' (backend_name k) (cfg_name c) (cfg_user c)) es)
      else map (\<lambda>(n, k, c, _). db_line on n (backend_name k) (cfg_name c) (cfg_user c)) (db_entries services env))"

text \<open>\<open>pretty\<close> is \<open>serde_json::to_string_pretty\<close>.\<close>

definition run_list ::
    "bool \<Rightarrow> nat \<Rightarrow> (json list \<Rightarrow> string) \<Rightarrow> container_runtime \<Rightarrow> (project_config \<Rightarrow> container_runtime) \<Rightarrow> string + project_config
      \<Rightarrow> string option \<Rightarrow> string list io" where
  "run_list on width pretty current rt found format =
     io_seq (rt_check current)
     (io_bind (of_result found) (\<lambda>p.
      io_bind (rt_db_services (rt p) p) (\<lambda>services.
        ret (if format = Some ''json'' then [pretty (db_rows services (penv p))]
             else section_lines on width ''db services'' (db_lines on services (penv p))))))"

section \<open>The system\<close>

definition info_lines :: "bool \<Rightarrow> system_info \<Rightarrow> string list" where
  "info_lines on i =
     (if version i = [] then []
      else [''  '' @ paint_right on 20 (in_color Cyan (plain (version_label i))) @ '' '' @ version i])
     @ (case images i of
          Some n \<Rightarrow> [''  '' @ paint_right on 20 (in_color Cyan (plain ''Images:'')) @ '' '' @ n]
        | None \<Rightarrow> [])
     @ (case containers i of
          Some (n_all, n_running, n_paused, n_stopped) \<Rightarrow>
            [''  '' @ paint_right on 20 (in_color Cyan (plain ''Containers:'')),
             ''    '' @ pad_right 18 ''Total:'' @ '' '' @ n_all,
             ''    '' @ pad_right 18 ''Running:'' @ '' '' @ paint on (in_color Green (plain n_running)),
             ''    '' @ pad_right 18 ''Paused:'' @ '' '' @ paint on (in_color Yellow (plain n_paused)),
             ''    '' @ pad_right 18 ''Stopped:'' @ '' '' @ paint on (in_color Red (plain n_stopped))]
        | None \<Rightarrow> [])"

definition service_lines :: "bool \<Rightarrow> string + string \<Rightarrow> string list" where
  "service_lines on answer =
     (case answer of
        Inl _ \<Rightarrow> []
      | Inr raw \<Rightarrow>
          (case filter (\<lambda>l. l \<noteq> []) (map trim (str_lines raw)) of
             [] \<Rightarrow> []
           | ss \<Rightarrow>
               (''  '' @ paint_right on 20 (in_color Cyan (plain ''Services:'')))
               # map (\<lambda>s. ''    '' @ paint on (in_color Green (plain [CHR 0xE2, CHR 0x97, CHR 0xA6])) @ '' '' @ s) ss))"

definition project_lines :: "bool \<Rightarrow> string + project_config \<Rightarrow> string + string \<Rightarrow> string list" where
  "project_lines on found services =
     (case found of
        Inl _ \<Rightarrow> [rule 60, info_line on ''Not inside a dip project (no .dip directory found)'']
      | Inr p \<Rightarrow>
          [rule 60,
           ''  '' @ paint on (in_color Cyan (plain ''Project:'')) @ '' '' @ paint on (in_color Blue (bold (plain (project_name p)))),
           ''  '' @ pad_right 20 ''Root:'' @ '' '' @ root_dir p,
           ''  '' @ pad_right 20 ''Compose file:'' @ '' '' @ compose_path p]
          @ service_lines on services)"

definition run_sysinfo ::
    "bool \<Rightarrow> string \<Rightarrow> container_runtime \<Rightarrow> system_info io \<Rightarrow> (project_config \<Rightarrow> container_runtime) \<Rightarrow> string + project_config \<Rightarrow> string list io" where
  "run_sysinfo on dip_version current info rt found =
     io_seq (rt_check current)
     (io_bind (attempt info) (\<lambda>i.
      io_bind (case found of
                 Inl _ \<Rightarrow> ret (Inl [])
               | Inr p \<Rightarrow> attempt (rt_compose_capture (rt p) p [''config'', ''--services''])) (\<lambda>services.
        ret ([rule 60, ''  '' @ paint on (in_color Blue (bold (plain ''System Overview''))), rule 60,
              ''  '' @ paint_right on 20 (in_color Cyan (plain ''dip version:'')) @ '' '' @ dip_version,
              ''  '' @ paint_right on 20 (in_color Cyan (plain ''Runtime:'')) @ '' '' @ rt_name current]
             @ (case i of Inr i \<Rightarrow> info_lines on i | Inl _ \<Rightarrow> [])
             @ project_lines on found services @ [rule 60]))))"

definition apple_system_info :: "cli \<Rightarrow> system_info io" where
  "apple_system_info cli =
     io_bind (call cli [''container'', ''system'', ''version'']) (\<lambda>out.
       (case out of
          Spawn_error e \<Rightarrow> bail e
        | Exited _ _ so _ \<Rightarrow>
            ret \<lparr>version_label = ''Apple Container:'', version = apple_container_version so, images = None, containers = None\<rparr>))"

definition run_root :: "string + project_config \<Rightarrow> string + string list" where
  "run_root found = and_then found (\<lambda>p. Inr [root_dir p])"

section \<open>The tree of a new project\<close>

text \<open>
  What \<open>dip init\<close> shows at its end (\<open>commands/init.rs\<close>). A directory is what it has when it is read, one that
  cannot be read is empty; directories come first, then files, each by name.
\<close>

datatype node = Leaf | Folder "(string \<times> node) list"

definition is_folder :: "node \<Rightarrow> bool" where
  "is_folder t = (case t of Leaf \<Rightarrow> False | Folder _ \<Rightarrow> True)"

definition in_tree_order :: "(string \<times> node) list \<Rightarrow> (string \<times> node) list" where
  "in_tree_order es = sort_key (\<lambda>e. if is_folder (snd e) then (0::nat) else 1) (sort_key fst es)"

fun sort_node :: "node \<Rightarrow> node" where
  "sort_node Leaf = Leaf"
| "sort_node (Folder es) = Folder (in_tree_order (map (\<lambda>e. (fst e, sort_node (snd e))) es))"

definition annotation :: "string \<Rightarrow> string" where
  "annotation name =
     (if name = ''default.env'' then ''  '' @ [CHR 0xE2, CHR 0x86, CHR 0x90] @ '' commit this''
      else if name = ''.env'' then ''  '' @ [CHR 0xE2, CHR 0x86, CHR 0x90] @ '' gitignored, local overrides''
      else [])"

definition rail :: string where "rail = [CHR 0xE2, CHR 0x94, CHR 0x82]"

definition branch :: "bool \<Rightarrow> string" where
  "branch last_one = [CHR 0xE2, CHR 0x94, if last_one then CHR 0x94 else CHR 0x9C] @ concat (replicate 2 [CHR 0xE2, CHR 0x94, CHR 0x80])"

fun dir_lines :: "string \<Rightarrow> (string \<times> node) list \<Rightarrow> string list" where
  "dir_lines prefix [] = []"
| "dir_lines prefix ((name, Leaf) # es) = (prefix @ branch (es = []) @ '' '' @ name @ annotation name) # dir_lines prefix es"
| "dir_lines prefix ((name, Folder sub) # es) =
     (prefix @ branch (es = []) @ '' '' @ name @ ''/'')
     # dir_lines (prefix @ (if es = [] then '' '' else rail) @ ''   '') sub @ dir_lines prefix es"

definition print_dir_tree :: "string \<Rightarrow> node \<Rightarrow> string list" where
  "print_dir_tree prefix t = (case sort_node t of Folder es \<Rightarrow> dir_lines prefix es | Leaf \<Rightarrow> [])"

definition print_tree :: "string \<Rightarrow> (string \<Rightarrow> bool) \<Rightarrow> node \<Rightarrow> string list" where
  "print_tree proj_dir exists dip =
     (''  '' @ value_or ''.'' (file_name proj_dir) @ ''/'')
     # map (\<lambda>n. ''  '' @ branch False @ '' '' @ n) (filter (\<lambda>n. exists (path_join proj_dir n)) [''Dockerfile'', ''.dockerignore''])
     @ [''  '' @ branch True @ '' .dip/''] @ print_dir_tree ''      '' dip"

section \<open>Notifications\<close>

definition notification_argv :: "platform \<Rightarrow> string \<Rightarrow> string \<Rightarrow> string list option" where
  "notification_argv os title body =
     (case os of
        Macos \<Rightarrow> Some [''osascript'', ''-e'', ''display notification '' @ debug_text body @ '' with title '' @ debug_text title]
      | Linux \<Rightarrow> Some [''notify-send'', title, body]
      | Other_os \<Rightarrow> None)"

text \<open>The result is handed on unchanged, whatever becomes of the notification.\<close>

definition notify_result :: "cli \<Rightarrow> platform \<Rightarrow> string + unit \<Rightarrow> string \<Rightarrow> string \<Rightarrow> unit io" where
  "notify_result cli os result project operation =
     (case notification_argv os ''dip''
         (project @ '' '' @ dash @ '' '' @ operation @ (case result of Inr _ \<Rightarrow> '' complete'' | Inl _ \<Rightarrow> '' failed'')) of
        Some argv \<Rightarrow> io_bind (call cli argv) (\<lambda>_. of_result result)
      | None \<Rightarrow> of_result result)"

section \<open>What can be read off the lines\<close>

lemma visible_paint_right:
  assumes "esc \<notin> set (plain_part s)"
  obtains k where "\<And>t. visible (paint_right on w s @ t) = plain_part s @ replicate k spc @ visible t"
proof (cases "is_plain s \<or> \<not> on")
  case True
  have "visible (replicate n spc @ t) = replicate n spc @ visible t" for n t
    by (rule visible_plain) simp
  then show ?thesis
    using True assms by (intro that[of "w - length (plain_part s)"]) (simp add: paint_right_def pad_right_def visible_plain)
next
  case False
  then show ?thesis using that[of 0] visible_paint[OF assms, of on] by (simp add: paint_right_def)
qed

lemma split_ws_blanks: "split_ws (replicate n spc @ s) = split_ws s"
  by (induction n) (simp_all add: split_ws_skip is_ws_def)

definition one_word :: "string \<Rightarrow> bool" where
  "one_word s \<longleftrightarrow> s \<noteq> [] \<and> list_all (\<lambda>c. \<not> is_ws c \<and> c \<noteq> esc) s"

lemma one_wordD: "one_word s \<Longrightarrow> s \<noteq> [] \<and> esc \<notin> set s \<and> (\<forall>c\<in>set s. \<not> is_ws c)"
  by (auto simp: one_word_def list_all_iff)

lemma word_then: "one_word s \<Longrightarrow> split_ws (s @ spc # t) = s # split_ws t"
  using one_wordD[of s] by (simp add: split_ws_append is_ws_def split_ws_word)

lemma one_word_arrow: "one_word arrow"
  by code_simp

text \<open>
  The list of routes can be read back: with or without colours, a line is the kind, the domain, an arrow
  and the upstream.
\<close>

theorem route_line_read_back:
  assumes "one_word (domain r)" "one_word (upstream r)"
  shows "split_ws (visible (route_line on r))
    = [if CHR ''*'' \<in> set (domain r) then ''wildcard'' else ''exact'', domain r, arrow, upstream r]"
proof -
  define k where "k = (if CHR ''*'' \<in> set (domain r) then ''wildcard'' else ''exact   '')"
  let ?d = "in_color Cyan (plain (domain r))"
  have e: "esc \<notin> set (domain r)" "esc \<notin> set (upstream r)" "esc \<notin> set arrow"
    using one_wordD[OF assms(1)] one_wordD[OF assms(2)] one_wordD[OF one_word_arrow] by auto
  have k: "esc \<notin> set k" by (simp add: k_def esc_def)
  have "esc \<notin> set (plain_part ?d)" using e(1) by simp
  from visible_paint_right[OF this, of on 38] obtain n where
    n: "\<And>t. visible (paint_right on 38 ?d @ t) = domain r @ replicate n spc @ visible t" by auto
  have "visible (route_line on r) = ''  '' @ k @ spc # domain r @ replicate n spc @ spc # arrow @ spc # upstream r"
    unfolding route_line_def k_def[symmetric]
    using e k n by (simp add: visible_paint visible_paint_end visible_plain[OF e(3)])
  moreover have "split_ws (''  '' @ k @ spc # t) = (if CHR ''*'' \<in> set (domain r) then ''wildcard'' else ''exact'') # split_ws t" for t
  proof (cases "CHR ''*'' \<in> set (domain r)")
    case True
    have "one_word ''wildcard''" by code_simp
    then show ?thesis using True split_ws_blanks[of 2] by (simp add: k_def numeral_2_eq_2 word_then[of "''wildcard''", simplified])
  next
    case False
    have "one_word ''exact''" by code_simp
    then show ?thesis using False split_ws_blanks[of 2 "''exact'' @ spc # replicate 3 spc @ t"] split_ws_blanks[of 3 t]
      by (simp add: k_def numeral_2_eq_2 numeral_3_eq_3 word_then[of "''exact''", simplified])
  qed
  moreover have "split_ws (upstream r) = [upstream r]"
    using one_wordD[OF assms(2)] by (simp add: split_ws_word)
  moreover have "replicate n spc @ spc # t = spc # replicate n spc @ t" for t by (induction n) simp_all
  ultimately show ?thesis
    using assms one_word_arrow by (simp add: word_then split_ws_blanks split_ws_skip is_ws_def)
qed

theorem route_line_read_back_witness:
  "split_ws (visible (route_line True \<lparr>domain = ''*.shop.test'', upstream = ''10.0.0.2:80''\<rparr>))
    = [''wildcard'', ''*.shop.test'', arrow, ''10.0.0.2:80'']"
proof -
  have "one_word ''*.shop.test''" "one_word ''10.0.0.2:80''" by code_simp+
  then show ?thesis
    using route_line_read_back[of "\<lparr>domain = ''*.shop.test'', upstream = ''10.0.0.2:80''\<rparr>" True] by simp
qed

text \<open>
  \<open>dip env\<close> lists, sorted and once each, exactly the variables of the project that are written in the file
  or made by dip, with their values.
\<close>

lemma keys_of_pairs:
  "map fst (filter_map (\<lambda>k. map_option (Pair k) (f k)) ks) = filter (\<lambda>k. f k \<noteq> None) ks"
  "set (filter_map (\<lambda>k. map_option (Pair k) (f k)) ks) = {(k, v). k \<in> set ks \<and> f k = Some v}"
  by (induction ks) (auto split: option.splits)

theorem env_lists_exactly:
  "sorted_wrt (<) (map fst (env_pairs p content))
   \<and> set (env_pairs p content) = {(k, v). (k \<in> set (read_env_keys content) \<or> k \<in> set shown_keys) \<and> penv p k = Some v}"
proof -
  have "sorted_wrt (<) (listed_keys content)" unfolding listed_keys_def by (rule sorted_sextend) simp
  then show ?thesis
    unfolding env_pairs_def keys_of_pairs by (auto simp: listed_keys_def intro: sorted_wrt_filter)
qed

text \<open>A variable behind \<open>export\<close>, which the project has, is not found by \<open>read_env_keys\<close>.\<close>

theorem exported_not_listed:
  "let content = ''PROJECT_NAME=shop'' @ [nl] @ ''export TOKEN=abc'' in
     case project_of [''p''] content Map.empty ''1'' ''1'' of
       Inr p \<Rightarrow> penv p ''TOKEN'' = Some ''abc'' \<and> ''TOKEN'' \<notin> set (map fst (env_pairs p content))
         \<and> ''PROJECT_NAME'' \<in> set (map fst (env_pairs p content))
     | Inl _ \<Rightarrow> False"
  by code_simp

text \<open>The verdict of \<open>dip env diff\<close>: the same variables on both sides, and none emptied.\<close>

theorem env_in_sync:
  "drift_verdict on (diff_env dflt local) = ''  '' @ paint on (bold (in_color Green (plain tick_mark))) @ '' env files are in sync structurally''
    \<longleftrightarrow> set (env_keys dflt) = set (env_keys local)
      \<and> (\<forall>k\<in>set (env_keys local). trim (value_of local k) = [] \<longrightarrow> trim (value_of dflt k) = [])"
proof -
  have apart: "''  '' @ paint on (in_color Yellow (plain warn_mark)) @ '' review env drift before sharing this project''
      \<noteq> ''  '' @ paint on (bold (in_color Green (plain tick_mark))) @ '' env files are in sync structurally''"
  proof (cases on)
    case True
    show ?thesis unfolding eqTrueI[OF True] by code_simp
  next
    case False
    then have "on = False" by simp
    show ?thesis unfolding \<open>on = False\<close> by code_simp
  qed
  have e: "value_of c k = (case parse_env_str c k of Some s \<Rightarrow> s | None \<Rightarrow> [])" for c k by (simp add: value_of_def)
  have "missing (diff_env dflt local) = [] \<and> extra (diff_env dflt local) = [] \<longleftrightarrow> set (env_keys dflt) = set (env_keys local)"
    by (auto simp: diff_env_def Let_def filter_empty_conv)
  moreover have "empty_overrides (diff_env dflt local) = [] \<longleftrightarrow>
      (\<forall>k\<in>set (env_keys dflt) \<inter> set (env_keys local). trim (value_of local k) = [] \<longrightarrow> trim (value_of dflt k) = [])"
    unfolding e by (auto simp: diff_env_def Let_def filter_empty_conv)
  ultimately show ?thesis using apart by (auto simp: drift_verdict_def)
qed

text \<open>The listing of the databases, in either format, does not depend on their passwords.\<close>

definition without_password :: "db_service \<Rightarrow> db_service" where
  "without_password s = s\<lparr>db_password := []\<rparr>"

theorem db_list_hides_passwords:
  "db_rows (map without_password services) env = db_rows services env
   \<and> db_lines on (map without_password services) env = db_lines on services env"
  by (simp add: db_rows_def db_lines_def db_entries_def without_password_def service_config_of_def comp_def)

text \<open>
  AppleScript reads a string literal up to its closing quote, a backslash before a quote or a backslash, or
  before n, r and t, standing for the character. What the script of a notification says is the text and
  the title, whatever characters they have: no project name ends the literal.
\<close>

fun script_literal :: "string \<Rightarrow> (string \<times> string) option" where
  "script_literal [] = None"
| "script_literal (c # s) =
     (if c = dquote then Some ([], s)
      else if c = bslash then
        (case s of
           [] \<Rightarrow> None
         | e # s' \<Rightarrow> map_option (\<lambda>(t, r). ((if e = CHR ''n'' then nl else if e = CHR ''r'' then cr
              else if e = CHR ''t'' then CHR 0x09 else e) # t, r)) (script_literal s'))
      else map_option (\<lambda>(t, r). (c # t, r)) (script_literal s))"

lemma debug_read_back: "script_literal (concat (map debug_char s) @ dquote # r) = Some (s, r)"
proof (induction s)
  case (Cons c s)
  then show ?case by (cases "c = dquote"; cases "c = bslash"; cases "c = nl"; cases "c = cr"; cases "c = CHR 0x09")
      (simp_all add: debug_char_def)
qed simp

theorem notification_says_text:
  assumes "notification_argv Macos title body = Some [osa, e, script]"
  shows "\<exists>rest. script = ''display notification '' @ dquote # rest
    \<and> script_literal rest = Some (body, '' with title '' @ debug_text title)
    \<and> script_literal (tl (debug_text title)) = Some (title, [])"
proof -
  have "script = ''display notification '' @ debug_text body @ '' with title '' @ debug_text title"
    using assms by (simp add: notification_argv_def)
  then show ?thesis
    using debug_read_back[of body "'' with title '' @ debug_text title"] debug_read_back[of title "[]"]
    by (intro exI[of _ "concat (map debug_char body) @ dquote # '' with title '' @ debug_text title"])
      (simp add: debug_text_def)
qed

lemma notify_keeps_result: "fst (notify_result cli os result project operation h) = result"
  by (cases os) (simp_all add: notify_result_def notification_argv_def of_result_def)


text \<open>The tree has a line for everything in it, and the order of reading does not matter.\<close>

fun entries_in :: "node \<Rightarrow> nat" where
  "entries_in Leaf = 0"
| "entries_in (Folder es) = sum_list (map (\<lambda>e. Suc (entries_in (snd e))) es)"

lemma in_tree_order_mset: "mset (in_tree_order es) = mset es"
  by (simp add: in_tree_order_def)

lemma entries_sorted: "entries_in (sort_node t) = entries_in t"
proof (induction t rule: sort_node.induct)
  case (2 es)
  have "entries_in (sort_node (Folder es)) = sum_mset (image_mset (\<lambda>e. Suc (entries_in (snd e))) (mset (in_tree_order (map (\<lambda>e. (fst e, sort_node (snd e))) es))))"
    by (simp flip: sum_mset_sum_list)
  also have "\<dots> = sum_list (map (\<lambda>e. Suc (entries_in (sort_node (snd e)))) es)"
    unfolding in_tree_order_mset by (simp add: image_mset.compositionality comp_def flip: sum_mset_sum_list)
  also have "\<dots> = sum_list (map (\<lambda>e. Suc (entries_in (snd e))) es)"
    using 2 by (intro arg_cong[where f = sum_list] map_cong) auto
  finally show ?case by simp
qed simp

lemma dir_lines_length: "length (dir_lines prefix es) = entries_in (Folder es)"
  by (induction prefix es rule: dir_lines.induct) simp_all

theorem tree_shows_all: "length (print_dir_tree prefix t) = entries_in t"
  using entries_sorted[of t] by (cases "sort_node t") (simp_all add: print_dir_tree_def dir_lines_length)

lemma tree_example:
  "print_dir_tree [] (Folder [(''.env'', Leaf), (''hooks'', Folder [(''pre-start'', Leaf)]), (''Dockerfile'', Leaf)])
    = [branch False @ '' hooks/'', rail @ ''   '' @ branch True @ '' pre-start'', branch False @ '' .env'' @ annotation ''.env'',
       branch True @ '' Dockerfile'']"
  by code_simp

end
