(* ===== verification/Dip_Logs.thy ===== *)
theory Dip_Logs
  imports Dip_Apple Dip_Style "HOL-Library.Multiset"
begin

text \<open>
  Following the logs of several containers (\<open>runtime/apple.rs\<close>): for each container two threads read its
  standard output and its standard error and print the lines that match the filter. The order in which
  the threads get their turns is open; a line is printed as a whole.
\<close>

section \<open>The readers\<close>

text \<open>A reader has the name of its service and the lines still to be read, up to the first that cannot be.\<close>

type_synonym reader = "string \<times> string list"

definition spawn_log_reader :: "string \<Rightarrow> string \<Rightarrow> reader" where
  "spawn_log_reader service output = (service, str_lines output)"

definition printed_line :: "bool \<Rightarrow> bool \<Rightarrow> string \<Rightarrow> string \<Rightarrow> string" where
  "printed_line on no_color service line =
     ''  '' @ (if no_color then pad_right 12 service
               else paint on (bold (in_color (service_color service) (plain (pad_right 12 service)))))
     @ '' '' @ colorize_compose_line on no_color line"

text \<open>The two readers of each container, in the order in which they are started.\<close>

definition readers_of :: "(string \<times> cli_out) list \<Rightarrow> reader list" where
  "readers_of outs =
     concat (map (\<lambda>(t, out). [spawn_log_reader t (stdout out), spawn_log_reader t (stderr out)]) outs)"

text \<open>One turn of the reader \<open>i\<close>. What is printed carries the number of its reader.\<close>

inductive log_step ::
    "string list \<Rightarrow> reader list \<times> (nat \<times> string) list \<Rightarrow> reader list \<times> (nat \<times> string) list \<Rightarrow> bool"
  for kws where
  turn: "i < length rs \<Longrightarrow> rs ! i = (service, l # ls) \<Longrightarrow>
    log_step kws (rs, printed)
      (rs[i := (service, ls)], if log_line_shown kws l then printed @ [(i, l)] else printed)"

inductive_cases log_stepE: "log_step kws a b"

abbreviation done_reading :: "reader list \<Rightarrow> bool" where
  "done_reading rs \<equiv> list_all (\<lambda>r. snd r = []) rs"

section \<open>Facts\<close>

definition of_reader :: "nat \<Rightarrow> (nat \<times> string) list \<Rightarrow> string list" where
  "of_reader i printed = map snd (filter (\<lambda>(j, _). j = i) printed)"

lemma of_reader_append: "of_reader i (xs @ ys) = of_reader i xs @ of_reader i ys"
  by (simp add: of_reader_def)

lemma of_reader_one: "of_reader i [(j, l)] = (if j = i then [l] else [])"
  by (simp add: of_reader_def)

text \<open>What a reader has printed and what it will print is what it has to print.\<close>

definition accounts :: "string list \<Rightarrow> reader list \<Rightarrow> reader list \<times> (nat \<times> string) list \<Rightarrow> bool" where
  "accounts kws rs0 st \<longleftrightarrow>
     length (fst st) = length rs0
     \<and> (\<forall>i<length rs0. fst (fst st ! i) = fst (rs0 ! i)
          \<and> of_reader i (snd st) @ filter (log_line_shown kws) (snd (fst st ! i)) = filter (log_line_shown kws) (snd (rs0 ! i)))
     \<and> (\<forall>p\<in>set (snd st). fst p < length rs0)"

lemma accounts_step:
  assumes "log_step kws a b" "accounts kws rs0 a"
  shows "accounts kws rs0 b"
  using assms(1)
proof (cases rule: log_step.cases)
  case (turn i rs service l ls printed)
  then show ?thesis
    using assms(2) unfolding accounts_def
    by (auto simp: nth_list_update of_reader_append of_reader_one)
qed

lemma accounts_steps:
  "(log_step kws)\<^sup>*\<^sup>* a b \<Longrightarrow> accounts kws rs0 a \<Longrightarrow> accounts kws rs0 b"
  by (induction rule: rtranclp_induct) (auto intro: accounts_step)

definition lines_left :: "reader list \<Rightarrow> nat" where
  "lines_left rs = sum_list (map (\<lambda>r. length (snd r)) rs)"

lemma step_reads: "log_step kws (rs, p) (rs', p') \<Longrightarrow> lines_left rs = Suc (lines_left rs')"
proof -
  assume "log_step kws (rs, p) (rs', p')"
  then obtain i service l ls where i: "i < length rs" "rs ! i = (service, l # ls)" "rs' = rs[i := (service, ls)]"
    by (auto elim: log_stepE)
  have "length (snd (rs ! i)) \<le> lines_left rs"
    unfolding lines_left_def using i(1) elem_le_sum_list[of i "map (\<lambda>r. length (snd r)) rs"] by simp
  then show ?thesis using i by (simp add: lines_left_def map_update sum_list_update)
qed

lemma step_possible: "\<not> done_reading rs \<Longrightarrow> \<exists>st. log_step kws (rs, p) st"
proof -
  assume "\<not> done_reading rs"
  then obtain i where i: "i < length rs" "snd (rs ! i) \<noteq> []" by (auto simp: list_all_length)
  then obtain service l ls where "rs ! i = (service, l # ls)" by (cases "rs ! i"; cases "snd (rs ! i)") auto
  then show ?thesis using log_step.turn[OF i(1)] by blast
qed

text \<open>Lines by reader, and all of them.\<close>

lemma mset_readers:
  assumes "\<forall>p\<in>set printed. fst p < n"
  shows "mset (map snd printed) = (\<Sum>i<n. mset (of_reader i printed))"
  using assms
proof (induction printed rule: rev_induct)
  case Nil
  then show ?case by (simp add: of_reader_def)
next
  case (snoc p printed)
  obtain j l where p: "p = (j, l)" by force
  have "(\<Sum>i<n. mset (of_reader i [p])) = {#l#}"
    using snoc.prems by (simp add: p of_reader_one if_distrib[of mset] sum.delta cong: if_cong)
  then show ?case using snoc by (simp add: of_reader_append sum.distrib p)
qed

lemma steps_read: "(log_step kws ^^ n) (rs, p) (rs', p') \<Longrightarrow> lines_left rs = n + lines_left rs'"
proof (induction n arbitrary: rs' p')
  case (Suc n)
  then obtain rs1 p1 where "(log_step kws ^^ n) (rs, p) (rs1, p1)" "log_step kws (rs1, p1) (rs', p')" by auto
  then show ?case using Suc.IH step_reads by fastforce
qed simp

lemma none_left: "lines_left rs = 0 \<longleftrightarrow> done_reading rs"
  by (simp add: lines_left_def list_all_iff)

lemma accounts_start: "accounts kws rs (rs, [])"
  by (simp add: accounts_def of_reader_def)

section \<open>Properties\<close>



text \<open>
  The readers of \<open>stream_multi_logs\<close> print what it returns, in some order: it lists the lines container by
  container.
\<close>

lemma readers_lines:
  "concat (map (\<lambda>r. filter (log_line_shown kws) (snd r)) (readers_of outs))
    = concat (map (\<lambda>(t, out). filter (log_line_shown kws) (str_lines (stdout out) @ str_lines (stderr out))) outs)"
  by (induction outs) (auto simp: readers_of_def spawn_log_reader_def)

end
