(* ===== verification/Dip_Config.thy ===== *)
theory Dip_Config
  imports Dip_Routes Dip_Compose
begin

text \<open>
  The configuration of the proxy as a file (\<open>proxy/config.rs\<close>, \<open>dirs.rs\<close>): where it and its neighbours lie, its
  JSON as \<open>serde\<close> derives writer and reader from the record, and what several processes that change it do to
  each other. \<open>load_config\<close> of \<open>Dip_Router\<close> and \<open>save_config\<close> of \<open>Dip_Routes\<close> are the view of one process.
\<close>

section \<open>Paths\<close>

definition config_dir :: "string option \<Rightarrow> string option \<Rightarrow> string" where
  "config_dir xdg_config_home home_var =
     path_join (case xdg_config_home of
         Some d \<Rightarrow> d
       | None \<Rightarrow> (case home_var of Some h \<Rightarrow> path_join h ''.config'' | None \<Rightarrow> ''/tmp'')) ''dip''"

definition proxy_dir :: "string option \<Rightarrow> string option \<Rightarrow> string" where
  "proxy_dir xdg_config_home home_var = path_join (config_dir xdg_config_home home_var) ''proxy''"

text \<open>The files below the directory \<open>d\<close> of the proxy.\<close>

definition config_path :: "string \<Rightarrow> string" where "config_path d = path_join d ''config.json''"
definition ca_cert_path :: "string \<Rightarrow> string" where "ca_cert_path d = path_join d ''ca.pem''"
definition ca_key_path :: "string \<Rightarrow> string" where "ca_key_path d = path_join d ''ca.key''"
definition srv_cert_path :: "string \<Rightarrow> string" where "srv_cert_path d = path_join d ''server.pem''"
definition srv_key_path :: "string \<Rightarrow> string" where "srv_key_path d = path_join d ''server.key''"
definition sans_file :: "string \<Rightarrow> string" where "sans_file d = path_join d ''server.sans''"
definition pid_path :: "string \<Rightarrow> string" where "pid_path d = path_join d ''proxy.pid''"
definition daemon_log_path :: "string \<Rightarrow> string" where "daemon_log_path d = path_join d ''proxy.log''"

definition global_runtime_path :: "string option \<Rightarrow> string option \<Rightarrow> string" where
  "global_runtime_path xdg_config_home home_var = path_join (config_dir xdg_config_home home_var) ''runtime''"

section \<open>JSON\<close>

text \<open>
  The derived writer: the fields in the order of the record. The derived reader takes an object with the
  fields in any order, others ignored, or an array of them in order; a field given twice is an error, one
  left out has its default, if there is one. Which of several errors is reported is left open.
\<close>

definition u16_json :: "16 word \<Rightarrow> json" where
  "u16_json w = JNum (JInt (int (unat w)))"

definition route_json :: "route \<Rightarrow> json" where
  "route_json r = JObj [(''domain'', JStr (domain r)), (''upstream'', JStr (upstream r))]"

definition config_json :: "proxy_config \<Rightarrow> json" where
  "config_json c =
     JObj [(''http_port'', u16_json (http_port c)), (''https_port'', u16_json (https_port c)), (''dns_port'', u16_json (dns_port c)),
           (''tlds'', JArr (map JStr (tlds c))), (''upstream_dns'', JArr (map JStr (upstream_dns c))),
           (''routes'', JArr (map route_json (routes c)))]"

definition read_string :: "json \<Rightarrow> string + string" where
  "read_string v = (case v of JStr s \<Rightarrow> Inr s | _ \<Rightarrow> Inl ''invalid type: expected a string'')"

definition read_u16 :: "json \<Rightarrow> string + 16 word" where
  "read_u16 v =
     (case v of
        JNum (JInt i) \<Rightarrow> (if 0 \<le> i \<and> i < 65536 then Inr (word_of_int i) else Inl ''invalid value: expected u16'')
      | _ \<Rightarrow> Inl ''invalid type: expected u16'')"

definition read_list :: "(json \<Rightarrow> string + 'a) \<Rightarrow> json \<Rightarrow> string + 'a list" where
  "read_list rd v = (case v of JArr xs \<Rightarrow> traverse rd xs | _ \<Rightarrow> Inl ''invalid type: expected a sequence'')"

definition struct_fields :: "string list \<Rightarrow> json \<Rightarrow> string + (string \<times> json) list" where
  "struct_fields names v =
     (case v of
        JObj m \<Rightarrow> Inr m
      | JArr xs \<Rightarrow> (if length xs \<le> length names then Inr (zip names xs) else Inl ''trailing characters'')
      | _ \<Rightarrow> Inl ''invalid type: expected a struct'')"

definition read_field :: "(string \<times> json) list \<Rightarrow> string \<Rightarrow> (json \<Rightarrow> string + 'a) \<Rightarrow> 'a option \<Rightarrow> string + 'a" where
  "read_field m name rd dflt =
     (case filter (\<lambda>kv. fst kv = name) m of
        [] \<Rightarrow> (case dflt of Some d \<Rightarrow> Inr d | None \<Rightarrow> Inl (''missing field '' @ name))
      | [kv] \<Rightarrow> rd (snd kv)
      | _ \<Rightarrow> Inl (''duplicate field '' @ name))"

definition route_of_json :: "json \<Rightarrow> string + route" where
  "route_of_json v =
     and_then (struct_fields [''domain'', ''upstream''] v) (\<lambda>m.
     and_then (read_field m ''domain'' read_string None) (\<lambda>d.
     and_then (read_field m ''upstream'' read_string None) (\<lambda>u.
       Inr \<lparr>domain = d, upstream = u\<rparr>)))"

definition config_of_json :: "json \<Rightarrow> string + proxy_config" where
  "config_of_json v =
     and_then (struct_fields [''http_port'', ''https_port'', ''dns_port'', ''tlds'', ''upstream_dns'', ''routes''] v) (\<lambda>m.
     and_then (read_field m ''http_port'' read_u16 (Some (http_port default_config))) (\<lambda>h.
     and_then (read_field m ''https_port'' read_u16 (Some (https_port default_config))) (\<lambda>s.
     and_then (read_field m ''dns_port'' read_u16 (Some (dns_port default_config))) (\<lambda>d.
     and_then (read_field m ''tlds'' (read_list read_string) (Some default_tlds)) (\<lambda>t.
     and_then (read_field m ''upstream_dns'' (read_list read_string) (Some default_upstream_dns)) (\<lambda>u.
     and_then (read_field m ''routes'' (read_list route_of_json) (Some [])) (\<lambda>r.
       Inr \<lparr>http_port = h, https_port = s, dns_port = d, tlds = t, upstream_dns = u, routes = r\<rparr>)))))))"

text \<open>\<open>from_json\<close> and \<open>pretty\<close> are the reader and the writer of JSON text of \<open>serde_json\<close>.\<close>

definition load_file :: "(string \<Rightarrow> string + json) \<Rightarrow> string option \<Rightarrow> string + proxy_config" where
  "load_file from_json file = load_config (\<lambda>s. and_then (from_json s) config_of_json) file"

definition saved_text :: "(json \<Rightarrow> string) \<Rightarrow> proxy_config \<Rightarrow> string" where
  "saved_text pretty c = pretty (config_json c)"

section \<open>Several processes\<close>

text \<open>
  Every \<open>dip start\<close> looks for its routes, loads the configuration, puts them in and saves it. The saving empties
  the file when it is opened and writes the text from the start of the file, and nothing keeps the processes
  apart. The text is small enough for one write. A process may stop at any time.
\<close>

datatype sync_phase = Ready | Holding proxy_config | Writing string | Synced | Load_failed

definition with_routes :: "route list \<Rightarrow> proxy_config \<Rightarrow> proxy_config" where
  "with_routes found c = c\<lparr>routes := sync_routes found (routes c)\<rparr>"

text \<open>\<open>jobs ! i\<close> are the routes that the process \<open>i\<close> has found.\<close>

inductive sync_step ::
    "(string \<Rightarrow> string + json) \<Rightarrow> (json \<Rightarrow> string) \<Rightarrow> route list list \<Rightarrow> string \<times> sync_phase list \<Rightarrow> string \<times> sync_phase list \<Rightarrow> bool"
  for from_json pretty jobs where
  load: "i < length ps \<Longrightarrow> ps ! i = Ready \<Longrightarrow> load_file from_json (Some f) = Inr c \<Longrightarrow>
    sync_step from_json pretty jobs (f, ps) (f, ps[i := Holding c])"
| load_error: "i < length ps \<Longrightarrow> ps ! i = Ready \<Longrightarrow> load_file from_json (Some f) = Inl e \<Longrightarrow>
    sync_step from_json pretty jobs (f, ps) (f, ps[i := Load_failed])"
| open_file: "i < length ps \<Longrightarrow> ps ! i = Holding c \<Longrightarrow>
    sync_step from_json pretty jobs (f, ps) ([], ps[i := Writing (saved_text pretty (with_routes (jobs ! i) c))])"
| write_text: "i < length ps \<Longrightarrow> ps ! i = Writing t \<Longrightarrow>
    sync_step from_json pretty jobs (f, ps) (t @ drop (length t) f, ps[i := Synced])"

section \<open>Facts\<close>

lemma read_u16_json: "read_u16 (u16_json w) = Inr w"
proof -
  have "uint w < 2 ^ LENGTH(16)" by (rule unsigned_less)
  then show ?thesis by (simp add: read_u16_def u16_json_def)
qed

lemma read_strings: "read_list read_string (JArr (map JStr xs)) = Inr xs"
  by (simp add: read_list_def traverse_Inr read_string_def)

lemma route_of_route_json: "route_of_json (route_json r) = Inr r"
  by (simp add: route_of_json_def route_json_def struct_fields_def read_field_def read_string_def)

lemma read_routes: "read_list route_of_json (JArr (map route_json rs)) = Inr rs"
  by (simp add: read_list_def traverse_Inr route_of_route_json)

lemma config_of_config_json: "config_of_json (config_json c) = Inr c"
  by (simp add: config_of_json_def config_json_def struct_fields_def read_field_def read_u16_json read_strings read_routes)

lemma route_kept: "r \<in> set (routes c) \<Longrightarrow> domain r \<notin> domain ` set found \<Longrightarrow> r \<in> set (routes (with_routes found c))"
  by (simp add: with_routes_def sync_routes_def)

lemma route_put: "r \<in> set found \<Longrightarrow> r \<in> set (routes (with_routes found c))"
  by (simp add: with_routes_def sync_routes_def)

section \<open>Properties\<close>

text \<open>
  A configuration that has been saved is loaded as it was, all its ports, names and routes, provided the
  JSON text of \<open>serde_json\<close> is read back as what it was written from.
\<close>

theorem saved_config_loads:
  assumes "from_json (saved_text pretty c) = Inr (config_json c)"
  shows "load_file from_json (Some (saved_text pretty c)) = Inr c"
  using assms by (simp add: load_file_def load_config_def config_of_config_json)

theorem saved_config_loads_witness:
  "let c = default_config\<lparr>http_port := 65535, routes := [\<lparr>domain = ''*.shop.test'', upstream = ''10.0.0.2:80''\<rparr>]\<rparr> in
     load_file (\<lambda>s. if s = ''text'' then Inr (config_json c) else Inl ''EOF'') (Some ''text'') = Inr c"
proof -
  let ?c = "default_config\<lparr>http_port := 65535, routes := [\<lparr>domain = ''*.shop.test'', upstream = ''10.0.0.2:80''\<rparr>]\<rparr>"
  let ?r = "\<lambda>s. if s = ''text'' then Inr (config_json ?c) else Inl ''EOF''"
  have "?r (saved_text (\<lambda>_. ''text'') ?c) = Inr (config_json ?c)" by (simp add: saved_text_def)
  from saved_config_loads[of ?r, OF this] show ?thesis by (simp add: saved_text_def Let_def)
qed

text \<open>A file of an older version, with fewer fields, is completed by the defaults; an empty object is all defaults.\<close>

lemma missing_fields_default:
  "config_of_json (JObj []) = Inr default_config"
  "config_of_json (JObj [(''https_port'', u16_json p), (''comment'', v)]) = Inr (default_config\<lparr>https_port := p\<rparr>)"
  by (simp_all add: config_of_json_def struct_fields_def read_field_def read_u16_json default_config_def)

text \<open>Processes one after the other: each finds and keeps the routes of those before it.\<close>

definition one_by_one :: "route list list \<Rightarrow> proxy_config \<Rightarrow> proxy_config" where
  "one_by_one jobs c = fold with_routes jobs c"

lemma one_sync:
  assumes "\<And>c. from_json (saved_text pretty c) = Inr (config_json c)" "i < length ps" "ps ! i = Ready"
  shows "(sync_step from_json pretty jobs)\<^sup>*\<^sup>* (saved_text pretty c, ps) (saved_text pretty (with_routes (jobs ! i) c), ps[i := Synced])"
proof -
  let ?s = "sync_step from_json pretty jobs" and ?t = "saved_text pretty (with_routes (jobs ! i) c)"
  have s1: "?s (saved_text pretty c, ps) (saved_text pretty c, ps[i := Holding c])"
    using assms by (intro load) (simp_all add: load_file_def load_config_def config_of_config_json)
  have s2: "?s (saved_text pretty c, ps[i := Holding c]) ([], (ps[i := Holding c])[i := Writing ?t])"
    using assms by (intro open_file) simp_all
  have "?s ([], (ps[i := Holding c])[i := Writing ?t]) (?t @ drop (length ?t) [], ((ps[i := Holding c])[i := Writing ?t])[i := Synced])"
    using assms by (intro write_text) simp_all
  then have s3: "?s ([], (ps[i := Holding c])[i := Writing ?t]) (?t, ps[i := Synced])" by simp
  show ?thesis by (rule converse_rtranclp_into_rtranclp[of ?s, OF s1 converse_rtranclp_into_rtranclp[of ?s, OF s2 r_into_rtranclp[of ?s, OF s3]]])
qed

lemma serial_prefix:
  assumes "\<And>c. from_json (saved_text pretty c) = Inr (config_json c)"
  shows "k \<le> length jobs \<Longrightarrow> (sync_step from_json pretty jobs)\<^sup>*\<^sup>* (saved_text pretty c, replicate (length jobs) Ready)
      (saved_text pretty (fold with_routes (take k jobs) c), replicate k Synced @ replicate (length jobs - k) Ready)"
proof (induction k)
  case (Suc k)
  let ?ps = "replicate k Synced @ replicate (length jobs - k) Ready"
  have n: "length jobs - k = Suc (length jobs - Suc k)" using Suc.prems by simp
  have "(sync_step from_json pretty jobs)\<^sup>*\<^sup>* (saved_text pretty (fold with_routes (take k jobs) c), ?ps)
      (saved_text pretty (with_routes (jobs ! k) (fold with_routes (take k jobs) c)), ?ps[k := Synced])"
    using Suc.prems by (intro one_sync assms) (simp_all add: nth_append)
  moreover have "?ps[k := Synced] = replicate (Suc k) Synced @ replicate (length jobs - Suc k) Ready"
    unfolding n by (simp add: list_update_append replicate_append_same)
  moreover have "with_routes (jobs ! k) (fold with_routes (take k jobs) c) = fold with_routes (take (Suc k) jobs) c"
    using Suc.prems by (simp add: take_Suc_conv_app_nth)
  ultimately show ?case using Suc.IH Suc.prems by (simp del: replicate.simps)
qed simp

lemma routes_stay:
  "r \<in> set (routes c) \<Longrightarrow> \<forall>found\<in>set jobs. domain r \<notin> domain ` set found \<Longrightarrow> r \<in> set (routes (fold with_routes jobs c))"
  by (induction jobs arbitrary: c) (simp_all add: route_kept)

lemma routes_arrive:
  assumes "k < length jobs" "r \<in> set (jobs ! k)" "\<forall>j<length jobs. j \<noteq> k \<longrightarrow> domain ` set (jobs ! k) \<inter> domain ` set (jobs ! j) = {}"
  shows "r \<in> set (routes (fold with_routes jobs c))"
proof -
  have "jobs = take k jobs @ jobs ! k # drop (Suc k) jobs" by (rule id_take_nth_drop[OF assms(1)])
  then have "fold with_routes jobs c = fold with_routes (drop (Suc k) jobs) (with_routes (jobs ! k) (fold with_routes (take k jobs) c))"
    by (metis fold_append fold_simps(2) comp_apply)
  moreover have "\<forall>found\<in>set (drop (Suc k) jobs). domain r \<notin> domain ` set found"
  proof
    fix found assume "found \<in> set (drop (Suc k) jobs)"
    then obtain i where "i < length jobs - Suc k" "found = jobs ! (Suc k + i)" by (auto simp: in_set_conv_nth)
    then have "domain ` set (jobs ! k) \<inter> domain ` set found = {}" using assms(3)[rule_format, of "Suc k + i"] by simp
    then show "domain r \<notin> domain ` set found" using assms(2) by auto
  qed
  ultimately show ?thesis using routes_stay[OF route_put[OF assms(2)]] by simp
qed

text \<open>
  If the starts of several projects follow one another, none loses the routes of another: all have
  synced, and every route that any of them has found is in the file.
\<close>

theorem serial_syncs_keep_all:
  assumes "\<And>c. from_json (saved_text pretty c) = Inr (config_json c)"
    and "\<forall>i<length jobs. \<forall>j<length jobs. i \<noteq> j \<longrightarrow> domain ` set (jobs ! i) \<inter> domain ` set (jobs ! j) = {}"
  shows "(sync_step from_json pretty jobs)\<^sup>*\<^sup>* (saved_text pretty c, replicate (length jobs) Ready)
      (saved_text pretty (one_by_one jobs c), replicate (length jobs) Synced)
    \<and> (\<forall>found\<in>set jobs. set found \<subseteq> set (routes (one_by_one jobs c)))"
proof
  show "(sync_step from_json pretty jobs)\<^sup>*\<^sup>* (saved_text pretty c, replicate (length jobs) Ready)
      (saved_text pretty (one_by_one jobs c), replicate (length jobs) Synced)"
    using serial_prefix[OF assms(1), of "length jobs" jobs c] by (simp add: one_by_one_def)
  show "\<forall>found\<in>set jobs. set found \<subseteq> set (routes (one_by_one jobs c))"
  proof (intro ballI subsetI)
    fix found r assume "found \<in> set jobs" "r \<in> set found"
    then obtain k where "k < length jobs" "r \<in> set (jobs ! k)" by (auto simp: in_set_conv_nth)
    then show "r \<in> set (routes (one_by_one jobs c))"
      unfolding one_by_one_def using assms(2) by (intro routes_arrive) auto
  qed
qed

section \<open>Divergences\<close>

text \<open>Of two starts at the same time the second to save has not seen the routes of the first, and both succeed.\<close>

theorem concurrent_sync_loses_routes:
  assumes rt: "\<And>c. from_json (saved_text pretty c) = Inr (config_json c)"
  shows "(sync_step from_json pretty [[r], [s]])\<^sup>*\<^sup>* (saved_text pretty default_config, [Ready, Ready])
      (saved_text pretty (with_routes [s] default_config), [Synced, Synced])"
    and "r \<noteq> s \<Longrightarrow> r \<notin> set (routes (with_routes [s] default_config))"
proof -
  let ?st = "sync_step from_json pretty [[r], [s]]" and ?c = default_config
  let ?f = "saved_text pretty ?c" and ?t = "saved_text pretty (with_routes [s] ?c)"
  have "?st (?f, [Ready, Ready]) (?f, [Ready, Holding ?c])"
    using load[of 1 "[Ready, Ready]" from_json ?f ?c pretty "[[r], [s]]"] rt
    by (simp add: load_file_def load_config_def config_of_config_json)
  moreover have "?st\<^sup>*\<^sup>* (?f, [Ready, Holding ?c]) (saved_text pretty (with_routes [r] ?c), [Synced, Holding ?c])"
    using one_sync[OF rt, of 0 "[Ready, Holding ?c]" "[[r], [s]]" ?c] by simp
  moreover have "?st (saved_text pretty (with_routes [r] ?c), [Synced, Holding ?c]) ([], [Synced, Writing ?t])"
    using open_file[of 1 "[Synced, Holding ?c]" ?c from_json pretty "[[r], [s]]"] by simp
  moreover have "?st ([], [Synced, Writing ?t]) (?t, [Synced, Synced])"
    using write_text[of 1 "[Synced, Writing ?t]" ?t from_json pretty "[[r], [s]]" "[]"] by simp
  ultimately show "?st\<^sup>*\<^sup>* (?f, [Ready, Ready]) (?t, [Synced, Synced])"
    by (meson converse_rtranclp_into_rtranclp rtranclp.rtrancl_into_rtrancl rtranclp_trans)
  show "r \<noteq> s \<Longrightarrow> r \<notin> set (routes (with_routes [s] default_config))"
    by (simp add: with_routes_def sync_routes_def default_config_def)
qed

text \<open>
  A process that is interrupted between opening and writing leaves an empty file, and every later one fails to
  load it; the certificates beside it are replaced atomically.
\<close>

theorem interrupted_save_breaks_config:
  assumes rt: "\<And>c. from_json (saved_text pretty c) = Inr (config_json c)" and eof: "from_json [] = Inl e"
  shows "(sync_step from_json pretty [[r], [s]])\<^sup>*\<^sup>* (saved_text pretty default_config, [Ready, Ready])
      ([], [Writing (saved_text pretty (with_routes [r] default_config)), Load_failed])"
proof -
  let ?st = "sync_step from_json pretty [[r], [s]]" and ?c = default_config
  let ?f = "saved_text pretty ?c" and ?t = "saved_text pretty (with_routes [r] ?c)"
  have "?st (?f, [Ready, Ready]) (?f, [Holding ?c, Ready])"
    using load[of 0 "[Ready, Ready]" from_json ?f ?c pretty "[[r], [s]]"] rt
    by (simp add: load_file_def load_config_def config_of_config_json)
  moreover have "?st (?f, [Holding ?c, Ready]) ([], [Writing ?t, Ready])"
    using open_file[of 0 "[Holding ?c, Ready]" ?c from_json pretty "[[r], [s]]"] by simp
  moreover have "?st ([], [Writing ?t, Ready]) ([], [Writing ?t, Load_failed])"
    using load_error[of 1 "[Writing ?t, Ready]" from_json "[]" "''Invalid proxy config: '' @ e" pretty "[[r], [s]]"] eof
    by (simp add: load_file_def load_config_def)
  ultimately show ?thesis
    by (meson converse_rtranclp_into_rtranclp r_into_rtranclp)
qed

text \<open>
  An empty \<open>XDG_CONFIG_HOME\<close>, which is to count as unset, makes the configuration a directory of wherever the
  command is started.
\<close>

theorem empty_xdg_is_relative: "\<not> is_absolute (config_dir (Some []) h)" "config_dir (Some []) h = ''dip''"
  by (simp_all add: config_dir_def path_join_def is_absolute_def)

end
