(* ===== verification/Dip_Cli.thy ===== *)
theory Dip_Cli
  imports Dip_Tools Dip_Lifecycle
begin

text \<open>
  The command line (\<open>cli.rs\<close>, \<open>main.rs\<close>): the commands and their arguments as the derived parser gets them,
  and the dispatch of \<open>main\<close> on the parsed command with its exit code. The parser itself is \<open>clap\<close>; what it
  asks of the tables of a program, and what the documented lines need of them, is stated at the end.
\<close>

section \<open>Commands\<close>

datatype env_command = Env_diff bool

datatype explain_command = Explain_build "string option"

datatype bench_command =
    Bench_runtime nat nat string string nat bool
  | Bench_project_io nat nat string string nat bool
  | Bench_steady nat nat string "string option" bool nat bool

datatype db_command =
    Db_list "string option"
  | Db_dump string "string option"
  | Db_import string "string option"
  | Db_migrate string string "string option"
  | Db_console "string option"

datatype proxy_command =
    Proxy_init | Proxy_start | Proxy_stop | Proxy_restart | Proxy_status | Proxy_logs nat | Proxy_routes | Proxy_sync
  | Proxy_add string string
  | Proxy_remove string
  | Proxy_config "string option" "nat option"
  | Proxy_serve

text \<open>\<open>Use\<close> exists on macOS only.\<close>

datatype command_word =
    Init "string option"
  | Ls "string option"
  | Env "env_command option"
  | Validate bool
  | Explain explain_command
  | Bench bench_command
  | Use runtime_choice bool bool
  | Open "string option"
  | Completions shell
  | Root | Sysinfo | Cert | Doctor
  | Start "string option"
  | Stop "string option"
  | Restart "string option"
  | Build "string option"
  | Pull | Reset
  | Remove "string option"
  | Cleanup
  | Status "string option" bool nat
  | Ps "string option" bool nat
  | Logs "string option" "string option" "string option" bool bool bool bool bool
  | Stats "string option"
  | Top "string option"
  | Health
  | Shell string string
  | Bash_in string
  | Exec string "string option" "string list"
  | Run "string option" "string list"
  | Update_commands "string option" bool
  | Proxy proxy_command
  | Db db_command
  | Share "nat option" "string option"
  | Prune bool bool
  | Update bool

record cli_args =
  chosen :: command_word
  verbose_on :: bool
  no_color_on :: bool

section \<open>Dispatch\<close>

text \<open>A call of a function of \<open>commands\<close>, with its arguments in order.\<close>

datatype arg_value = Text string | Maybe "string option" | Number nat | Maybe_number "nat option" | Switch bool
  | Words "string list" | Choice runtime_choice | For_shell shell

type_synonym call = "string \<times> arg_value list"

text \<open>
  The calls \<open>main\<close> makes for a command, each only if those before it succeed; only \<open>dip proxy restart\<close> has
  two. \<open>v\<close> and \<open>nc\<close> are the global switches.
\<close>

fun bench_call :: "bool \<Rightarrow> bench_command \<Rightarrow> call" where
  "bench_call nc (Bench_runtime iters warm img path mb js) =
     (''bench::run_runtime'', [Number iters, Number warm, Text img, Text path, Number mb, Switch js, Switch nc])"
| "bench_call nc (Bench_project_io iters warm img path mb js) =
     (''bench::run_project_io'', [Number iters, Number warm, Text img, Text path, Number mb, Switch js, Switch nc])"
| "bench_call nc (Bench_steady iters warm img path project_io mb js) =
     (''bench::run_steady'', [Number iters, Number warm, Text img, Maybe path, Switch project_io, Number mb, Switch js, Switch nc])"

fun proxy_calls :: "bool \<Rightarrow> bool \<Rightarrow> proxy_command \<Rightarrow> call list" where
  "proxy_calls v nc Proxy_init = [(''proxy::run_init'', [Switch nc])]"
| "proxy_calls v nc Proxy_start = [(''proxy::run_start'', [Switch v, Switch nc])]"
| "proxy_calls v nc Proxy_stop = [(''proxy::run_stop'', [Switch nc])]"
| "proxy_calls v nc Proxy_restart = [(''proxy::run_stop'', [Switch nc]), (''proxy::run_start'', [Switch v, Switch nc])]"
| "proxy_calls v nc Proxy_status = [(''proxy::run_status'', [Switch nc])]"
| "proxy_calls v nc (Proxy_logs n) = [(''proxy::run_logs'', [Number n, Switch nc])]"
| "proxy_calls v nc Proxy_routes = [(''proxy::run_routes'', [Switch nc])]"
| "proxy_calls v nc Proxy_sync = [(''proxy::run_sync'', [Switch nc])]"
| "proxy_calls v nc (Proxy_add d u) = [(''proxy::run_add'', [Text d, Text u, Switch nc])]"
| "proxy_calls v nc (Proxy_remove d) = [(''proxy::run_remove'', [Text d, Switch nc])]"
| "proxy_calls v nc (Proxy_config tld port) = [(''proxy::run_config'', [Maybe tld, Maybe_number port, Switch nc])]"
| "proxy_calls v nc Proxy_serve = [(''proxy::run_serve'', [Switch nc])]"

fun db_call :: "bool \<Rightarrow> bool \<Rightarrow> db_command \<Rightarrow> call" where
  "db_call v nc (Db_list fmt) = (''db::run_list'', [Maybe fmt, Switch v, Switch nc])"
| "db_call v nc (Db_dump path service) = (''db::run_dump'', [Text path, Maybe service, Switch v, Switch nc])"
| "db_call v nc (Db_import path service) = (''db::run_import'', [Text path, Maybe service, Switch v, Switch nc])"
| "db_call v nc (Db_migrate src dst tables) = (''db::run_migrate'', [Text src, Text dst, Maybe tables, Switch v, Switch nc])"
| "db_call v nc (Db_console service) = (''db::run_console'', [Maybe service, Switch v, Switch nc])"

fun dispatch :: "bool \<Rightarrow> bool \<Rightarrow> command_word \<Rightarrow> call list" where
  "dispatch v nc (Init t) = [(''init::run'', [Maybe t, Switch nc])]"
| "dispatch v nc (Ls r) = [(''ls::run'', [Maybe r, Switch nc])]"
| "dispatch v nc (Env None) = [(''env::run'', [Switch nc])]"
| "dispatch v nc (Env (Some (Env_diff show_values))) = [(''env::run_diff'', [Switch show_values, Switch nc])]"
| "dispatch v nc (Validate fix_them) = [(''validate::run'', [Switch fix_them, Switch v, Switch nc])]"
| "dispatch v nc (Explain (Explain_build s)) = [(''explain::run_build'', [Maybe s, Switch v, Switch nc])]"
| "dispatch v nc (Bench b) = [bench_call nc b]"
| "dispatch v nc (Use r p g) = [(''use_runtime::run'', [Choice r, Switch p, Switch g, Switch nc])]"
| "dispatch v nc (Open s) = [(''open::run'', [Maybe s, Switch nc])]"
| "dispatch v nc (Completions sh) = [(''completions::run'', [For_shell sh])]"
| "dispatch v nc Root = [(''root::run'', [])]"
| "dispatch v nc Sysinfo = [(''sysinfo::run'', [Switch v, Switch nc])]"
| "dispatch v nc Cert = [(''cert::run'', [Switch nc])]"
| "dispatch v nc Doctor = [(''doctor::run'', [Switch nc])]"
| "dispatch v nc (Start s) = [(''start::run'', [Maybe s, Switch v, Switch nc])]"
| "dispatch v nc (Stop s) = [(''stop::run'', [Maybe s, Switch v, Switch nc])]"
| "dispatch v nc (Restart s) = [(''restart::run'', [Maybe s, Switch v, Switch nc])]"
| "dispatch v nc (Build s) = [(''build::run'', [Maybe s, Switch v, Switch nc])]"
| "dispatch v nc Pull = [(''pull::run'', [Switch v, Switch nc])]"
| "dispatch v nc Reset = [(''reset::run'', [Switch v, Switch nc])]"
| "dispatch v nc (Remove s) = [(''remove::run'', [Maybe s, Switch v, Switch nc])]"
| "dispatch v nc Cleanup = [(''cleanup::run'', [Switch v, Switch nc])]"
| "dispatch v nc (Status fmt watch secs) = [(''status::run'', [Maybe fmt, Switch watch, Number secs, Switch v, Switch nc])]"
| "dispatch v nc (Ps fmt watch secs) = [(''status::run'', [Maybe fmt, Switch watch, Number secs, Switch v, Switch nc])]"
| "dispatch v nc (Logs s dur pat e w q h l) =
     [(''logs::run'', [Maybe s, Maybe dur, Maybe pat, Switch e, Switch w, Switch q, Switch h, Switch l, Switch v, Switch nc])]"
| "dispatch v nc (Stats s) = [(''stats::run'', [Maybe s, Switch v, Switch nc])]"
| "dispatch v nc (Top s) = [(''top::run'', [Maybe s, Switch v, Switch nc])]"
| "dispatch v nc Health = [(''health::run'', [Switch v, Switch nc])]"
| "dispatch v nc (Shell s sh) = [(''shell::run_shell'', [Text s, Text sh, Switch v, Switch nc])]"
| "dispatch v nc (Bash_in s) = [(''shell::run_shell'', [Text s, Text ''bash'', Switch v, Switch nc])]"
| "dispatch v nc (Exec s w c) = [(''shell::run_exec'', [Text s, Maybe w, Words c, Switch v, Switch nc])]"
| "dispatch v nc (Run s as) = [(''run::run'', [Maybe s, Words as, Switch v, Switch nc])]"
| "dispatch v nc (Update_commands t dry) = [(''update_commands::run'', [Maybe t, Switch dry, Switch nc])]"
| "dispatch v nc (Proxy p) = proxy_calls v nc p"
| "dispatch v nc (Db d) = [db_call v nc d]"
| "dispatch v nc (Share p s) = [(''share::run'', [Maybe_number p, Maybe s, Switch v, Switch nc])]"
| "dispatch v nc (Prune vols every) = [(''prune::run'', [Switch vols, Switch every, Switch nc])]"
| "dispatch v nc (Update f) = [(''update::run'', [Switch f, Switch nc])]"

text \<open>The calls in order up to the first error.\<close>

fun run_calls :: "(call \<Rightarrow> string + int) \<Rightarrow> call list \<Rightarrow> string + int" where
  "run_calls run [] = Inr 0"
| "run_calls run [c] = run c"
| "run_calls run (c # cs) = (case run c of Inl e \<Rightarrow> Inl e | Inr _ \<Rightarrow> run_calls run cs)"

text \<open>
  \<open>run\<close> are the commands; the number is the exit status of the console and not looked at otherwise. The
  doctor cannot fail. \<open>on\<close>: colours are on when the error is written.
\<close>

definition run_main :: "bool \<Rightarrow> (call \<Rightarrow> string + int) \<Rightarrow> cli_args \<Rightarrow> int \<times> string list" where
  "run_main on run args =
     (let result = run_calls run (dispatch (verbose_on args) (no_color_on args) (chosen args)) in
      case chosen args of
        Db (Db_console _) \<Rightarrow> console_end on result
      | Doctor \<Rightarrow> main_end on (Inr ())
      | _ \<Rightarrow> main_end on (and_then result (\<lambda>_. Inr ())))"

section \<open>The tables of the parser\<close>

text \<open>
  The attributes of \<open>cli.rs\<close>: the name of a field, its long and short switch, what it takes and with which
  switches it conflicts. Names are in the spelling of the command line. \<open>Rest\<close> takes all words that follow its
  first one, and that one may begin with a hyphen; that of \<open>Needed_rest\<close>, of which there must be one, may not.
\<close>

datatype takes = Nothing | Value "string option" | Needed_value | Place | Needed_place | Rest | Needed_rest

record arg_spec =
  arg_id :: string
  arg_long :: "string option"
  arg_short :: "char option"
  arg_takes :: takes
  arg_conflicts :: "string list"

definition switch :: "string \<Rightarrow> arg_spec" where
  "switch name = \<lparr>arg_id = name, arg_long = Some name, arg_short = None, arg_takes = Nothing, arg_conflicts = []\<rparr>"

definition valued :: "string \<Rightarrow> string option \<Rightarrow> arg_spec" where
  "valued name dflt = (switch name)\<lparr>arg_takes := Value dflt\<rparr>"

definition at_place :: "takes \<Rightarrow> string \<Rightarrow> arg_spec" where
  "at_place t name = \<lparr>arg_id = name, arg_long = None, arg_short = None, arg_takes = t, arg_conflicts = []\<rparr>"

definition short :: "char \<Rightarrow> arg_spec \<Rightarrow> arg_spec" where
  "short c a = a\<lparr>arg_short := Some c\<rparr>"

text \<open>\<open>sub_optional\<close>: the command can be given without one of its subcommands.\<close>

datatype command_spec =
  Command (spec_name: string) (spec_aliases: "string list") (sub_optional: bool) (spec_args: "arg_spec list") (spec_subs: "command_spec list")

abbreviation leaf :: "string \<Rightarrow> arg_spec list \<Rightarrow> command_spec" where
  "leaf name as \<equiv> Command name [] False as []"

definition service_arg :: arg_spec where
  "service_arg = at_place Place ''service''"

definition bench_args :: "string \<Rightarrow> string \<Rightarrow> arg_spec list \<Rightarrow> arg_spec list" where
  "bench_args iters warm path =
     [short CHR ''n'' (valued ''iterations'' (Some iters)), valued ''warmup'' (Some warm), valued ''image'' (Some ''busybox:latest'')]
     @ path @ [valued ''size-mb'' (Some ''64''), switch ''json'']"

definition bench_specs :: "command_spec list" where
  "bench_specs =
     [leaf ''runtime'' (bench_args ''10'' ''2'' [valued ''path'' (Some ''/tmp/dip-bench.bin'')]),
      leaf ''project-io'' (bench_args ''10'' ''2'' [valued ''path'' (Some ''/workspace/.dip-bench.bin'')]),
      leaf ''steady'' (bench_args ''100'' ''5'' [valued ''path'' None, switch ''project-io''])]"

definition db_service_arg :: arg_spec where
  "db_service_arg = short CHR ''s'' (valued ''service'' None)"

definition db_specs :: "command_spec list" where
  "db_specs =
     [leaf ''list'' [valued ''format'' None],
      leaf ''dump'' [at_place Needed_place ''output-path'', db_service_arg],
      leaf ''import'' [at_place Needed_place ''input-path'', db_service_arg],
      leaf ''migrate'' [(switch ''from'')\<lparr>arg_takes := Needed_value\<rparr>, (switch ''to'')\<lparr>arg_takes := Needed_value\<rparr>, valued ''tables'' None],
      leaf ''console'' [db_service_arg]]"

definition proxy_specs :: "command_spec list" where
  "proxy_specs =
     map (\<lambda>n. leaf n []) [''init'', ''start'', ''stop'', ''restart'', ''status'']
     @ [leaf ''logs'' [short CHR ''n'' (valued ''lines'' (Some ''50''))]]
     @ map (\<lambda>n. leaf n []) [''routes'', ''sync'']
     @ [leaf ''add'' [at_place Needed_place ''domain'', at_place Needed_place ''upstream''],
        leaf ''remove'' [at_place Needed_place ''domain''],
        leaf ''config'' [valued ''tld'' None, valued ''dns-port'' None],
        leaf ''serve'' []]"

definition status_args :: "arg_spec list" where
  "status_args = [valued ''format'' None, switch ''watch'', valued ''interval'' (Some ''2'')]"

definition project_specs :: "bool \<Rightarrow> command_spec list" where
  "project_specs macos =
     [leaf ''init'' [short CHR ''t'' (valued ''template'' None)],
      leaf ''ls'' [valued ''root'' None],
      Command ''env'' [] True [] [leaf ''diff'' [switch ''show-values'']],
      leaf ''validate'' [switch ''fix''],
      Command ''explain'' [] False [] [leaf ''build'' [service_arg]],
      Command ''bench'' [] False [] bench_specs]
     @ (if macos then
          [leaf ''use'' [at_place Needed_place ''runtime'', (switch ''project'')\<lparr>arg_conflicts := [''global'']\<rparr>,
             (switch ''global'')\<lparr>arg_conflicts := [''project'']\<rparr>]]
        else [])
     @ [leaf ''open'' [service_arg],
        leaf ''completions'' [at_place Needed_place ''shell''],
        leaf ''root'' [], leaf ''sysinfo'' [], leaf ''cert'' [], leaf ''doctor'' []]"

definition lifecycle_specs :: "command_spec list" where
  "lifecycle_specs =
     [Command ''start'' [''up''] False [service_arg] [],
      Command ''stop'' [''down''] False [service_arg] [],
      Command ''restart'' [''reup''] False [service_arg] [],
      leaf ''build'' [service_arg], leaf ''pull'' [], leaf ''reset'' [], leaf ''remove'' [service_arg], leaf ''cleanup'' []]"

definition info_specs :: "command_spec list" where
  "info_specs =
     [leaf ''status'' status_args, leaf ''ps'' status_args,
      leaf ''logs'' ([service_arg, valued ''since'' None, short CHR ''g'' (valued ''grep'' None)]
        @ map switch [''errors'', ''warn'', ''sql'', ''http'', ''slow'']),
      leaf ''stats'' [service_arg], leaf ''top'' [service_arg], leaf ''health'' []]"

definition shell_specs :: "command_spec list" where
  "shell_specs =
     [leaf ''shell'' [at_place Needed_place ''service'', short CHR ''t'' (valued ''type'' (Some ''bash''))\<lparr>arg_id := ''shell-type''\<rparr>],
      leaf ''bash'' [at_place Needed_place ''service''],
      leaf ''exec'' [at_place Needed_place ''service'', short CHR ''w'' (valued ''workdir'' None), at_place Needed_rest ''command''],
      leaf ''run'' [at_place Place ''script'', at_place Rest ''args''],
      leaf ''update-commands'' [at_place Place ''template'', switch ''dry-run'']]"

definition system_specs :: "command_spec list" where
  "system_specs =
     [Command ''proxy'' [] False [] proxy_specs,
      Command ''db'' [] False [] db_specs,
      leaf ''share'' [short CHR ''p'' (valued ''port'' None), short CHR ''s'' (valued ''service'' None)],
      leaf ''prune'' [switch ''volumes'', short CHR ''a'' (switch ''all'')],
      leaf ''update'' [short CHR ''f'' (switch ''force'')]]"

text \<open>The switches of every command, and the whole program.\<close>

definition global_args :: "arg_spec list" where
  "global_args = [short CHR ''v'' (switch ''verbose''), switch ''no-color'']"

definition dip_cli :: "bool \<Rightarrow> command_spec" where
  "dip_cli macos = Command ''dip'' [] False [] (project_specs macos @ lifecycle_specs @ info_specs @ shell_specs @ system_specs)"


section \<open>What the parser asks of the tables\<close>

text \<open>
  The requirements of \<open>clap\<close> on the arguments of a command, which it checks when it is built for debugging:
  the names, the long and the short switches differ, also from those of help and version that it adds, a
  needed place stands before the optional ones, only the last place takes all the rest, and a conflict names
  another argument.
\<close>

definition is_place :: "takes \<Rightarrow> bool" where
  "is_place t \<longleftrightarrow> t = Place \<or> t = Needed_place \<or> t = Rest \<or> t = Needed_rest"

definition is_rest :: "takes \<Rightarrow> bool" where
  "is_rest t \<longleftrightarrow> t = Rest \<or> t = Needed_rest"

definition is_needed :: "takes \<Rightarrow> bool" where
  "is_needed t \<longleftrightarrow> t = Needed_place \<or> t = Needed_rest \<or> t = Needed_value"

definition places :: "arg_spec list \<Rightarrow> takes list" where
  "places as = filter is_place (map arg_takes as)"

fun places_fine :: "takes list \<Rightarrow> bool" where
  "places_fine [] = True"
| "places_fine (t # ts) \<longleftrightarrow> (is_needed t \<or> \<not> list_ex is_needed ts) \<and> (is_rest t \<longrightarrow> ts = []) \<and> places_fine ts"

definition longs :: "arg_spec list \<Rightarrow> string list" where
  "longs as = filter_map arg_long as"

definition shorts :: "arg_spec list \<Rightarrow> char list" where
  "shorts as = filter_map arg_short as"

definition args_fine :: "arg_spec list \<Rightarrow> bool" where
  "args_fine as \<longleftrightarrow>
     distinct (map arg_id as) \<and> distinct ([''help'', ''version''] @ longs as) \<and> distinct ([CHR ''h'', CHR ''V''] @ shorts as)
     \<and> places_fine (places as)
     \<and> list_all (\<lambda>a. list_all (\<lambda>c. c \<noteq> arg_id a \<and> c \<in> set (map arg_id as)) (arg_conflicts a)) as"

text \<open>The subcommands of a command have different names and aliases, and none is the \<open>help\<close> that is added.\<close>

fun spec_fine :: "command_spec \<Rightarrow> bool" where
  "spec_fine (Command _ _ _ as subs) \<longleftrightarrow>
     args_fine (as @ global_args)
     \<and> distinct (''help'' # concat (map (\<lambda>c. spec_name c # spec_aliases c) subs))
     \<and> list_all spec_fine subs"

theorem dip_cli_fine: "spec_fine (dip_cli macos)"
  proof (cases macos)
  case True
  have "spec_fine (dip_cli True)" by code_simp
  then show ?thesis using True by simp
next
  case False
  have "spec_fine (dip_cli False)" by code_simp
  then show ?thesis using False by simp
qed


section \<open>Documented lines\<close>

text \<open>
  The words of a line against a command: a switch that is known, given once and free of conflicts, with its
  value; a word at the next place; all words once the last place takes the rest. At the end nothing that is
  needed is missing.
\<close>

definition is_switch :: "string \<Rightarrow> arg_spec \<Rightarrow> bool" where
  "is_switch w a \<longleftrightarrow>
     (case arg_long a of Some l \<Rightarrow> w = ''--'' @ l | None \<Rightarrow> False) \<or> (case arg_short a of Some c \<Rightarrow> w = [CHR ''-'', c] | None \<Rightarrow> False)"

definition values_given :: "arg_spec list \<Rightarrow> string list \<Rightarrow> bool" where
  "values_given as given \<longleftrightarrow> list_all (\<lambda>a. arg_takes a = Needed_value \<longrightarrow> arg_id a \<in> set given) as"

fun words_fit :: "arg_spec list \<Rightarrow> string list \<Rightarrow> takes list \<Rightarrow> string list \<Rightarrow> bool" where
  "words_fit as given ps [] \<longleftrightarrow> values_given as given \<and> \<not> list_ex is_needed ps"
| "words_fit as given ps (w # ws) =
     (case find (is_switch w) as of
        Some a \<Rightarrow>
          arg_id a \<notin> set given \<and> \<not> list_ex (\<lambda>c. c \<in> set given) (arg_conflicts a)
          \<and> (if arg_takes a = Nothing then words_fit as (arg_id a # given) ps ws
             else (case ws of [] \<Rightarrow> False | _ # ws' \<Rightarrow> words_fit as (arg_id a # given) ps ws'))
      | None \<Rightarrow>
          (case ps of
             [] \<Rightarrow> False
           | p # ps' \<Rightarrow>
               (p = Rest \<or> \<not> starts_with ''-'' w)
               \<and> (if is_rest p then values_given as given else words_fit as given ps' ws)))"

fun understood :: "command_spec \<Rightarrow> string list \<Rightarrow> bool"
  and understood_by :: "command_spec list \<Rightarrow> string \<Rightarrow> string list \<Rightarrow> bool" where
  "understood (Command _ _ opt as subs) ws =
     (if subs = [] then words_fit (as @ global_args) [] (places as) ws
      else (case ws of [] \<Rightarrow> opt | w # ws' \<Rightarrow> understood_by subs w ws'))"
| "understood_by [] w ws = False"
| "understood_by (c # cs) w ws =
     (if w = spec_name c \<or> w \<in> set (spec_aliases c) then understood c ws else understood_by cs w ws)"

text \<open>The lines of \<open>README.md\<close>, and those the program and its shell hooks start themselves.\<close>

definition readme_lines :: "string list" where
  "readme_lines =
     [''update'', ''proxy init'', ''init --template nestjs'', ''start'', ''open'', ''start app'', ''stop'', ''stop app'', ''restart'',
      ''restart app'', ''build'', ''build app'', ''pull'', ''reset'', ''remove'', ''remove app'', ''cleanup'', ''status'',
      ''status --watch --interval 5'', ''status --format json'', ''ps'', ''logs'', ''logs app'', ''logs --since 1h'', ''logs --errors'',
      ''logs --warn'', ''logs --sql'', ''logs --http'', ''logs --slow'', ''logs --grep '' @ dquote # ''auth'' @ dquote # '''', ''stats'',
      ''stats app'', ''top'', ''top app'', ''health'', ''shell app'', ''shell app --type sh'', ''bash app'', ''exec app pnpm test'',
      ''exec db psql -U postgres -c '' @ dquote # ''SELECT count(*) FROM users WHERE id IN (1,2,3)'' @ dquote # '''',
      ''exec app sh -c '' @ dquote # ''ls | wc -l'' @ dquote # '''', ''exec app -w /var/www/theme sass scss:css'', ''run'',
      ''run migrate'', ''run pnpm install'', ''update-commands --dry-run'', ''update-commands'', ''env'', ''env diff'',
      ''env diff --show-values'', ''validate'', ''validate --fix'', ''explain build'', ''explain build app'', ''doctor'', ''sysinfo'',
      ''proxy start'', ''proxy stop'', ''proxy restart'', ''proxy status'', ''proxy logs -n 100'', ''proxy routes'', ''proxy sync'',
      ''proxy add api.my-app.test 127.0.0.1:3000'', ''proxy remove api.my-app.test'', ''proxy config'', ''proxy config --tld myapp'',
      ''proxy config --tld '' @ dquote # ''test,local'' @ dquote # '''', ''proxy config --dns-port 5381'', ''db list'', ''db console'',
      ''db console --service db'', ''db dump ./backup.sql'', ''db dump ./backup.sql.gz'', ''db import ./backup.sql'',
      ''db migrate --from mysql --to postgres'', ''db migrate --from mysql --to postgres --tables users,orders'', ''use apple'',
      ''use docker'', ''use auto'', ''use apple --project'', ''use auto --project'',
      ''bench runtime --iterations 10 --warmup 2 --size-mb 256'', ''bench project-io --iterations 10 --warmup 2 --size-mb 256'',
      ''bench steady --iterations 100 --warmup 5 --size-mb 256'', ''bench steady --project-io --iterations 100 --warmup 5 --size-mb 256'',
      ''bench runtime --image alpine:latest --path /tmp/dip-bench.bin --json'', ''completions zsh'', ''share'', ''share --port 3000'',
      ''share --service backend'', ''ls'', ''ls --root ~/work'', ''open app'', ''cert'', ''prune'', ''prune --volumes --all'',
      ''update --force'']"

definition own_lines :: "string list" where
  "own_lines = [''proxy serve'', ''root'', ''run'', ''start --verbose'', ''up'', ''down app'', ''reup'']"

theorem readme_lines_understood: "list_all (\<lambda>l. understood (dip_cli True) (split_ws l)) (readme_lines @ own_lines)"
  by code_simp

text \<open>On Linux all of them but \<open>dip use\<close>.\<close>

theorem readme_lines_understood_on_linux:
  "filter (\<lambda>l. \<not> understood (dip_cli False) (split_ws l)) (readme_lines @ own_lines) = filter (starts_with ''use '') readme_lines"
  by code_simp

section \<open>Facts about the dispatch\<close>

text \<open>\<open>ps\<close> is \<open>status\<close> and \<open>bash\<close> a \<open>shell\<close>.\<close>

fun canonical :: "command_word \<Rightarrow> command_word" where
  "canonical (Ps f w n) = Status f w n"
| "canonical (Bash_in s) = Shell s ''bash''"
| "canonical c = c"

lemma dispatch_canonical: "dispatch v nc (canonical c) = dispatch v nc c"
  by (cases c) simp_all

lemma group_names:
  "\<not> starts_with ''proxy::'' n \<Longrightarrow> proxy_calls v nc p \<noteq> [(n, as)]"
  "\<not> starts_with ''db::'' n \<Longrightarrow> db_call v nc d \<noteq> (n, as)"
  "\<not> starts_with ''bench::'' n \<Longrightarrow> bench_call nc b \<noteq> (n, as)"
proof -
  show "\<not> starts_with ''proxy::'' n \<Longrightarrow> proxy_calls v nc p \<noteq> [(n, as)]" by (cases p) (auto simp: starts_with_iff)
  show "\<not> starts_with ''db::'' n \<Longrightarrow> db_call v nc d \<noteq> (n, as)" by (cases d) (auto simp: starts_with_iff)
  show "\<not> starts_with ''bench::'' n \<Longrightarrow> bench_call nc b \<noteq> (n, as)" by (cases b) (auto simp: starts_with_iff)
qed

lemma groups_apart: "proxy_calls v nc p \<noteq> [db_call v nc d]" "proxy_calls v nc p \<noteq> [bench_call nc b]" "db_call v nc d \<noteq> bench_call nc b"
proof -
  show "proxy_calls v nc p \<noteq> [db_call v nc d]" by (cases p; cases d; simp)
  show "proxy_calls v nc p \<noteq> [bench_call nc b]" by (cases p; cases b; simp)
  show "db_call v nc d \<noteq> bench_call nc b" by (cases d; cases b; simp)
qed

lemma calls_inject:
  "proxy_calls v nc p = proxy_calls v nc q \<longleftrightarrow> p = q"
  "db_call v nc d = db_call v nc e \<longleftrightarrow> d = e"
  "bench_call nc a = bench_call nc b \<longleftrightarrow> a = b"
proof -
  show "proxy_calls v nc p = proxy_calls v nc q \<longleftrightarrow> p = q" by (cases p; cases q; simp)
  show "db_call v nc d = db_call v nc e \<longleftrightarrow> d = e" by (cases d; cases e; simp)
  show "bench_call nc a = bench_call nc b \<longleftrightarrow> a = b" by (cases a; cases b; simp)
qed

lemmas call_simps = group_names group_names[THEN not_sym] groups_apart groups_apart[THEN not_sym] calls_inject starts_with_def

lemma dispatch_inject: "dispatch v nc c = dispatch v nc d \<Longrightarrow> canonical c = canonical d"
  by (cases "(v, nc, c)" rule: dispatch.cases; cases "(v, nc, d)" rule: dispatch.cases; simp add: call_simps)

text \<open>No two commands are taken for one another: what is called and with what tells the command.\<close>

theorem dispatch_tells_command: "dispatch v nc c = dispatch v nc d \<longleftrightarrow> canonical c = canonical d"
  using dispatch_inject[of v nc c d] dispatch_canonical[of v nc c] dispatch_canonical[of v nc d] by metis

text \<open>
  A failing call is the last one, its message is printed, and the exit status is one; it is zero exactly if
  all calls have succeeded, and for the console its own.
\<close>

lemma run_calls_ok: "isl (run_calls run cs) \<longleftrightarrow> \<not> list_all (\<lambda>c. \<not> isl (run c)) cs"
  by (induction run cs rule: run_calls.induct) (auto split: sum.splits)

lemma run_calls_first_error:
  "run_calls run cs = Inl e \<Longrightarrow> \<exists>before c after. cs = before @ c # after \<and> list_all (\<lambda>c. \<not> isl (run c)) before \<and> run c = Inl e"
proof (induction run cs rule: run_calls.induct)
  case (2 run c)
  then show ?case by (intro exI[of _ "[]"]) auto
next
  case (3 run c d cs)
  show ?case
  proof (cases "run c")
    case (Inl x)
    then show ?thesis using 3 by (intro exI[of _ "[]"]) auto
  next
    case (Inr n)
    then obtain before b after where "d # cs = before @ b # after" "list_all (\<lambda>c. \<not> isl (run c)) before" "run b = Inl e"
      using 3 by auto
    then show ?thesis using Inr by (intro exI[of _ "c # before"]) auto
  qed
qed simp

theorem main_exit_status:
  assumes "chosen args \<noteq> Doctor" "calls = dispatch (verbose_on args) (no_color_on args) (chosen args)"
  shows "(fst (run_main on run args) = 0 \<longleftrightarrow> (\<forall>c\<in>set calls. \<not> isl (run c))
        \<and> (\<forall>s. chosen args = Db (Db_console s) \<longrightarrow> run (hd calls) = Inr 0))
     \<and> ((\<exists>c\<in>set calls. isl (run c)) \<longrightarrow>
         (\<exists>before c after e. calls = before @ c # after \<and> (\<forall>b\<in>set before. \<not> isl (run b)) \<and> run c = Inl e
           \<and> run_main on run args = main_end on (Inl e)))"
proof -
  define r where "r = run_calls run calls"
  have main: "run_main on run args =
      (case chosen args of Db (Db_console _) \<Rightarrow> console_end on r | _ \<Rightarrow> main_end on (and_then r (\<lambda>_. Inr ())))"
    unfolding run_main_def r_def assms(2) Let_def using assms(1) by (cases "chosen args") simp_all
  have ok: "isl r \<longleftrightarrow> (\<exists>c\<in>set calls. isl (run c))"
    unfolding r_def run_calls_ok by (auto simp: list_all_iff)
  show ?thesis
  proof (cases r)
    case (Inl e)
    have m: "run_main on run args = main_end on (Inl e)"
      unfolding main Inl by (simp add: console_end_def and_then_def split: command_word.split db_command.split)
    have "\<exists>before c after. calls = before @ c # after \<and> list_all (\<lambda>c. \<not> isl (run c)) before \<and> run c = Inl e"
      using run_calls_first_error[of run calls e] Inl by (simp add: r_def)
    then show ?thesis
      using ok Inl m by (auto simp: list_all_iff main_end_def)
  next
    case (Inr n)
    have none: "\<forall>c\<in>set calls. \<not> isl (run c)" using ok Inr by auto
    have "fst (run_main on run args) = 0 \<longleftrightarrow> (\<forall>s. chosen args = Db (Db_console s) \<longrightarrow> n = 0)"
      unfolding main Inr by (auto simp: console_end_def and_then_def main_end_def split: command_word.split db_command.split)
    moreover have "n = 0 \<longleftrightarrow> run (hd calls) = Inr 0" if "chosen args = Db (Db_console s)" for s
      using Inr assms(2) that by (simp add: r_def)
    ultimately show ?thesis using none by blast
  qed
qed

theorem main_exit_status_witness:
  "run_main False (\<lambda>c. if c = (''proxy::run_stop'', [Switch True]) then Inl ''no daemon'' else Inr 0)
     \<lparr>chosen = Proxy Proxy_restart, verbose_on = False, no_color_on = True\<rparr>
    = main_end False (Inl ''no daemon'')"
proof -
  let ?args = "\<lparr>chosen = Proxy Proxy_restart, verbose_on = False, no_color_on = True\<rparr>"
  let ?run = "\<lambda>c. if c = (''proxy::run_stop'', [Switch True]) then Inl ''no daemon'' else Inr (0::int)"
  let ?calls = "[(''proxy::run_stop'', [Switch True]), (''proxy::run_start'', [Switch False, Switch True])]"
  have a: "chosen ?args \<noteq> Doctor" "?calls = dispatch (verbose_on ?args) (no_color_on ?args) (chosen ?args)" by simp_all
  have "\<exists>before c after e. ?calls = before @ c # after \<and> (\<forall>b\<in>set before. \<not> isl (?run b)) \<and> ?run c = Inl e
           \<and> run_main False ?run ?args = main_end False (Inl e)"
    using main_exit_status[OF a, of False ?run] by simp
  then show ?thesis by (auto split: if_splits)
qed

end
