(* ===== verification/Dip_Tests.thy ===== *)
theory Dip_Tests
  imports Dip_Dns Dip_Watcher Dip_Db Dip_Proxy Dip_Socket Dip_Validate Dip_Tools Dip_Shell Dip_Columns Dip_Scaffold
begin

text \<open>
  The unit tests of the repository on the model: each lemma has the name and the inputs of a test function
  in a \<open>tests\<close> module and its assertions as the statement. They are evaluated, not proved, and tie the
  definitions to what the authors of the code have observed of it. Tests over sockets, files of the
  templates and random bytes have none; the last are covered by \<open>from_str_total\<close> and
  \<open>serve_packet_never_panics\<close>.
\<close>

definition file_text :: "string list \<Rightarrow> string" where
  "file_text ls = concat (map (\<lambda>l. l @ [nl]) ls)"

definition is_err :: "'e + 'a \<Rightarrow> bool" where
  "is_err r = (case r of Inl _ \<Rightarrow> True | Inr _ \<Rightarrow> False)"

section \<open>YAML (utils/yaml.rs)\<close>

lemma parses_nested_mappings_and_sequences:
  "from_str (file_text [''services:'', ''  app:'', ''    image: nginx'', ''    ports:'',
      ''      - '' @ dquote # ''8080:80'' @ [dquote], ''      - 3000:3000''])
    = Inr (JObj [(''services'', JObj [(''app'', JObj [(''image'', JStr ''nginx''),
        (''ports'', JArr [JStr ''8080:80'', JStr ''3000:3000''])])])])"
  by code_simp

lemma infers_core_schema_scalars:
  "from_str (file_text [''a: true'', ''b: null'', ''c: 42'', ''e: hello'', ''f: ~'', ''g: unless-stopped''])
    = Inr (JObj [(''a'', JBool True), (''b'', JNull), (''c'', JNum (JInt 42)),
        (''e'', JStr ''hello''), (''f'', JNull), (''g'', JStr ''unless-stopped'')])"
  by code_simp

lemma infers_a_float: "plain_scalar ''3.5'' = JNum (JDec False 35 (- 1))"
proof -
  have "parse_i64 ''3.5'' = None" "parse_decimal ''3.5'' = Some (JDec False 35 (- 1))" "list_ex is_digit ''3.5''" by code_simp+
  moreover have "finite_f64 35 (- 1)" by (simp add: finite_f64_def)
  ultimately show ?thesis by (simp add: plain_scalar_def is_digit_def)
qed

lemma keeps_port_strings_with_colons_as_scalars:
  "from_str (file_text [''ports:'', ''  - 8080:80'']) = Inr (JObj [(''ports'', JArr [JStr ''8080:80''])])"
  by code_simp

lemma strips_comments_but_not_hashes_in_values:
  "from_str (file_text [''# top'', ''a: 1 # trailing'', ''b: '' @ dquote # ''x # y'' @ [dquote], ''c: pass#word''])
    = Inr (JObj [(''a'', JNum (JInt 1)), (''b'', JStr ''x # y''), (''c'', JStr ''pass#word'')])"
  by code_simp

lemma parses_flow_collections_across_lines:
  "from_str (file_text [''healthcheck:'', ''  test:'', ''    ['', ''      '' @ dquote # ''CMD-SHELL'' @ [dquote, CHR '',''],
      ''      '' @ dquote # ''redis-cli ping'' @ [dquote, CHR '',''], ''    ]'', ''  extra: {a: 1, b: [x, y]}''])
    = Inr (JObj [(''healthcheck'', JObj [(''extra'', JObj [(''a'', JNum (JInt 1)), (''b'', JArr [JStr ''x'', JStr ''y''])]),
        (''test'', JArr [JStr ''CMD-SHELL'', JStr ''redis-cli ping''])])])"
  by code_simp

lemma resolves_anchors_and_merge_keys:
  "from_str (file_text [''base: &app'', ''  restart: always'', ''  image: node'', ''services:'', ''  web:'',
      ''    <<: *app'', ''    image: web''])
    = Inr (JObj [(''base'', JObj [(''image'', JStr ''node''), (''restart'', JStr ''always'')]),
        (''services'', JObj [(''web'', JObj [(''image'', JStr ''web''), (''restart'', JStr ''always'')])])])"
  by code_simp

lemma sequence_items_can_open_mappings:
  "from_str (file_text [''volumes:'', ''  - type: bind'', ''    source: /a'', ''    target: /b''])
    = Inr (JObj [(''volumes'', JArr [JObj [(''source'', JStr ''/a''), (''target'', JStr ''/b''), (''type'', JStr ''bind'')]])])"
  by code_simp

lemma parses_literal_and_folded_block_scalars:
  "from_str (file_text [''lit: |'', ''  line1'', ''  line2'', ''fold: >-'', ''  a'', ''  b''])
    = Inr (JObj [(''fold'', JStr ''a b''), (''lit'', JStr (file_text [''line1'', ''line2'']))])"
  by code_simp

lemma quoted_strings_unescape:
  "from_str (file_text [''a: '' @ dquote # ''x'' @ bslash # ''n'' @ squote # ''y'' @ [squote, dquote],
      ''b: '' @ squote # ''it'' @ squote # squote # ''s'' @ [squote]])
    = Inr (JObj [(''a'', JStr (''x'' @ nl # squote # ''y'' @ [squote])), (''b'', JStr (''it'' @ squote # ''s''))])"
  by code_simp

definition says :: "string \<Rightarrow> yerror + json \<Rightarrow> bool" where
  "says part r = (case r of Inl (Yaml_error _ m) \<Rightarrow> contains_sub part m | _ \<Rightarrow> False)"

lemma rejects_tabs_tags_and_multi_documents:
  "says ''tabs'' (from_str (file_text [''a:'', CHR 0x09 # ''b: 1'']))"
  "says ''tags'' (from_str (file_text [''a: !!int 5'']))"
  "says ''multi-document'' (from_str (file_text [''---'', ''a: 1'', ''---'', ''b: 2'']))"
  by code_simp+

lemma reports_unknown_anchor_with_line_number:
  "case from_str (file_text [''a: 1'', ''b: *nope'']) of Inl (Yaml_error n m) \<Rightarrow> n = 2 \<and> contains_sub ''nope'' m | _ \<Rightarrow> False"
  by code_simp

section \<open>Environment files (utils/env.rs)\<close>

lemma plain_key_value:
  "map (parse_env_str (file_text [''FOO=bar'', ''BAZ=qux''])) [''FOO'', ''BAZ''] = [Some ''bar'', Some ''qux'']"
  by code_simp

lemma export_prefix_stripped:
  "parse_env_str (file_text [''export AWS_ACCESS_KEY_ID=AKIA123'', ''export AWS_SECRET=secret'']) ''AWS_SECRET'' = Some ''secret''"
  by code_simp

lemma quoted_values_stripped:
  "map (parse_env_str (file_text [''export TOKEN='' @ dquote # ''abc123'' @ [dquote], ''KEY='' @ squote # ''xyz'' @ [squote]])) [''TOKEN'', ''KEY'']
    = [Some ''abc123'', Some ''xyz'']"
  by code_simp

lemma only_one_quote_pair_stripped:
  "parse_env_str (file_text [''FOO='' @ [dquote, dquote, CHR ''x'', dquote, dquote]]) ''FOO'' = Some [dquote, CHR ''x'', dquote]"
  by code_simp

lemma unbalanced_quotes_kept:
  "parse_env_str (file_text [''FOO='' @ dquote # ''abc'' @ [squote]]) ''FOO'' = Some (dquote # ''abc'' @ [squote])"
  by code_simp

lemma single_quote_char_kept: "parse_env_str (file_text [''FOO='' @ [dquote]]) ''FOO'' = Some [dquote]"
  by code_simp

lemma empty_value: "parse_env_str (file_text [''FOO='']) ''FOO'' = Some []"
  by code_simp

lemma comments_and_blank_lines_ignored:
  "env_keys (file_text [''# comment'', [], ''FOO=bar'']) = [''FOO'']
   \<and> parse_env_str (file_text [''# comment'', [], ''FOO=bar'']) ''FOO'' = Some ''bar''"
  by code_simp

lemma value_with_equals_sign:
  "parse_env_str (file_text [''JDBC=jdbc:mysql://host/db?user=root'']) ''JDBC'' = Some ''jdbc:mysql://host/db?user=root''"
  by code_simp

lemma json_array_parsed:
  "map (parse_env_json_array (JArr [JStr ''FOO=bar'', JStr ''BAZ=qux'', JStr ''invalid''])) [''FOO'', ''BAZ'', ''invalid'']
    = [Some ''bar'', Some ''qux'', None]"
  by code_simp

section \<open>Routes and labels (proxy/router.rs, proxy/watcher.rs, commands/proxy/routes.rs)\<close>

definition upstream_for :: "string \<Rightarrow> (string \<times> string) list \<Rightarrow> string option" where
  "upstream_for host rs = map_option upstream (match_route host (map (\<lambda>(d, u). \<lparr>domain = d, upstream = u\<rparr>) rs))"

lemma exact_beats_wildcard:
  "upstream_for ''backend.newline.test'' [(''*.newline.test'', ''wildcard:8080''), (''backend.newline.test'', ''backend:3000'')]
    = Some ''backend:3000''"
  by code_simp

lemma wildcard_catches_other_subdomain:
  "upstream_for ''api.newline.test'' [(''*.newline.test'', ''wildcard:8080''), (''backend.newline.test'', ''backend:3000'')]
    = Some ''wildcard:8080''"
  by code_simp

lemma most_specific_wildcard_wins:
  "upstream_for ''api.newline.test'' [(''*.test'', ''generic:8080''), (''*.newline.test'', ''newline:9090'')] = Some ''newline:9090''"
  by code_simp

lemma no_match_returns_none:
  "upstream_for ''other.test'' [(''*.newline.test'', ''wildcard:8080'')] = None"
  "upstream_for ''foo.test'' [(''*.foo.test'', ''wildcard:8080'')] = None"
  by code_simp+

lemma parse_host_with_and_without_port:
  "parse_host_value ''backend.test:3000'' = (''backend.test'', ''3000'')"
  "parse_host_value ''backend.test'' = (''backend.test'', ''80'')"
  "parse_host_value (dquote # ''backend.test:80'' @ [dquote]) = (''backend.test'', ''80'')"
  by code_simp+

lemma dip_host_entries_picks_all_labels:
  "set (dip_host_entries [(''dip.host'', ''app.test:80''), (''dip.host.api'', ''api.test:3000''), (''com.docker.compose.project'', ''myapp'')])
    = {(''app.test'', ''80''), (''api.test'', ''3000'')}"
  "dip_host_entries [(''com.docker.compose.service'', ''redis'')] = []"
  by code_simp+

lemma parse_host_labels_tests:
  "parse_host_labels (JObj [(''dip.host'', JStr ''app.test:80'')]) = [(''app.test'', ''80'')]"
  "set (parse_host_labels (JObj [(''dip.host.api'', JStr ''api.test:3000''), (''dip.host.web'', JStr ''app.test:80'')]))
    = {(''app.test'', ''80''), (''api.test'', ''3000'')}"
  "parse_host_labels (JObj [(''dip.host'', JStr ''app.test'')]) = [(''app.test'', ''80'')]"
  "map fst (parse_host_labels (JObj [(''dip.host'', JStr (dquote # ''app.test:80'' @ [dquote]))])) = [''app.test'']"
  "length (parse_host_labels (JObj [(''com.docker.compose.service'', JStr ''app''), (''dip.host'', JStr ''app.test:80'')])) = 1"
  "parse_host_labels JNull = []"
  by code_simp+

section \<open>DNS (dns/server.rs)\<close>

lemma matches_test_tld: "matches_tld (make_a_query ''backend.test'') [''test''] = Returns True"
  by code_simp

lemma does_not_match_other_tlds: "matches_tld (make_a_query ''example.com'') [''test''] = Returns False"
  by code_simp

lemma response_has_correct_ip:
  "case make_response (make_a_query ''app.test'') of
     Returns (Some r) \<Rightarrow> drop (length r - 4) r = [127, 0, 0, 1]
   | _ \<Rightarrow> False"
  by code_simp

lemma aaaa_query_returns_empty_answer:
  "let q = make_a_query ''app.test''; n = length q - 4 in
     case make_response (q[n := 0x00, n + 1 := 0x1C]) of
       Returns (Some r) \<Rightarrow> take 2 (drop 6 r) = [0, 0]
     | _ \<Rightarrow> False"
  by code_simp

section \<open>Compose files (runtime/compose_file.rs, commands/validate.rs)\<close>

lemma dockerfile_stages_parse_named_stages:
  "dockerfile_stages (file_text [[], ''FROM node:22 AS deps'', ''FROM --platform=$BUILDPLATFORM rust:1 AS builder'', ''FROM alpine''])
    = [''builder'', ''deps'']"
  by code_simp

definition compose_of :: "string list \<Rightarrow> (string \<Rightarrow> string option) \<Rightarrow> string \<Rightarrow> (service_config \<Rightarrow> bool) \<Rightarrow> bool" where
  "compose_of ls env service holds =
     (case load_project_compose (Some (file_text ls)) env ''/project/.dip'' of
        Inr c \<Rightarrow> (case map_of c service of Some s \<Rightarrow> holds s | None \<Rightarrow> False)
      | Inl _ \<Rightarrow> False)"

lemma parses_build_string_and_env_defaults:
  "compose_of [[], ''services:'', ''  app:'', ''    build: .'', ''    labels:'',
       ''      dip.host: '' @ dquote # ''${DOMAIN:-app.test}:80'' @ [dquote], ''    volumes:'', ''      - ${PROJECT_ROOT}:/app:ro'']
     [''PROJECT_ROOT'' \<mapsto> ''/project''] ''app''
     (\<lambda>app. Option.bind (build app) context_dir = Some ''/project/.dip'' \<and> map snd (label_entries app) = [''app.test:80'']
        \<and> volumes app = [\<lparr>vkind = Some ''bind'', vsource = Some ''/project'', vtarget = Some ''/app'', read_only = Some True\<rparr>])"
  by code_simp

lemma parses_merge_key_for_service_defaults:
  "compose_of [[], ''x-app: &app'', ''  build:'', ''    context: .'', ''  env_file:'', ''    - ${DIP_DIR}/env/base.env'',
       ''services:'', ''  web:'', ''    <<: *app'', ''    image: app-web'']
     [''DIP_DIR'' \<mapsto> ''/project/.dip''] ''web''
     (\<lambda>web. Option.bind (build web) context_dir = Some ''/project/.dip'' \<and> env_file web = JArr [JStr ''/project/.dip/env/base.env''])"
  by code_simp

lemma compose_context_fix_rewrites_only_target_service_build_context:
  "apply_compose_context_fixes
     (file_text [''services:'', ''  app:'', ''    build:'', ''      context: ..'', ''      dockerfile: Dockerfile'', ''  db:'', ''    image: mysql''])
     [(''app'', ''.'')]
    = (file_text [''services:'', ''  app:'', ''    build:'', ''      context: .'', ''      dockerfile: Dockerfile'', ''  db:'', ''    image: mysql''], True)"
  by code_simp

lemma compose_context_fix_stays_inside_services_block:
  "let input = file_text [''services:'', ''  db:'', ''    environment:'', ''      app: nope'', ''app:'', ''  build:'', ''    context: ..'']
   in apply_compose_context_fixes input [(''app'', ''.'')] = (input, False)"
  by code_simp

lemma stage_alias_added_before_comment:
  "add_stage_alias_to_first_from (file_text [''FROM php:8.4-fpm # base image'', ''RUN true'']) ''dev''
    = Some (file_text [''FROM php:8.4-fpm AS dev # base image'', ''RUN true''])"
  by code_simp

lemma host_label_tests:
  "validate_host_label ''api.example.test'' = Inr (''api.example.test'', 80)"
  "is_err (validate_host_label ''api.example.test:nope'')"
  by code_simp+

section \<open>Backends (runtime/mod.rs, runtime/apple.rs, runtime/docker_api.rs, commands/shell.rs)\<close>

lemma runtime_names:
  "map wants_apple_runtime [''apple'', ''container'', ''apple-container'', ''docker''] = [True, True, True, False]"
  "normalize_runtime True ''container'' = Inr ''apple''" "normalize_runtime True ''docker'' = Inr ''docker''"
  "is_err (normalize_runtime True ''nope'')"
  "normalize_runtime False ''docker'' = Inr ''docker''" "normalize_runtime False ''auto'' = Inr ''auto''"
  "is_err (normalize_runtime False ''apple'')"
  by code_simp+

lemma exit_codes:
  "map (\<lambda>c. exit_code (Some c) None) [0, 1, 42] = [0, 1, 42]"
  "map (\<lambda>s. exit_code None (Some s)) [2, 9, 15] = [130, 137, 143]"
  by code_simp+

lemma names_are_stable_and_cli_safe:
  "sanitize_name ''Newline Backend'' = ''newline-backend''" "sanitize_name ''app_api'' = ''app_api''"
  by code_simp+

lemma command_string_runs_through_shell: "command_args (JStr ''pnpm dev:web'') = [''/bin/sh'', ''-lc'', ''pnpm dev:web'']"
  by code_simp

lemma volume_spec_preserves_read_only_flag:
  "volume_spec \<lparr>vkind = Some ''bind'', vsource = Some ''/host'', vtarget = Some ''/app'', read_only = Some True\<rparr> = Some ''/host:/app:ro''"
  by code_simp

lemma empty_inspect_array_is_not_an_existing_resource:
  "\<not> json_output_has_entries (\<lambda>_. Some (JArr [])) ''[]''"
  "json_output_has_entries (\<lambda>_. Some (JArr [JObj [(''id'', JStr ''default'')]])) out"
  by (simp_all add: json_output_has_entries_def)

lemma run_network_can_be_replaced_for_retry:
  "replace_run_network [''run'', ''--network'', ''dip-nextjs'', ''postgres:alpine''] ''default'' ! 2 = ''default''"
  by code_simp

lemma apple_container_id_reads_nested_configuration_id:
  "apple_container_id (JObj [(''configuration'', JObj [(''id'', JStr ''dip-nextjs-app'')]), (''status'', JStr ''running'')])
    = Some ''dip-nextjs-app''"
  by code_simp

lemma exec_parser_keeps_env_options_before_service:
  "parse_exec_service [''exec'', ''-e'', ''PGPASSWORD=secret'', ''-it'', ''db'', ''psql'']
    = Some (''db'', [''--env'', ''PGPASSWORD=secret'', ''--interactive'', ''--tty''], [''psql''])"
  by code_simp

lemma healthcheck_cmd_shell_is_translated_to_shell_exec:
  "healthcheck_command_args
     \<lparr>build = None, image = None, labels = JNull, volumes = [], ports = JNull, environment = JNull, env_file = JNull,
      command = JNull, entrypoint = JNull, working_dir = None, depends_on = [],
      healthcheck = JObj [(''test'', JArr [JStr ''CMD-SHELL'', JStr ''pg_isready -U nextjs -d nextjs''])]\<rparr>
    = Some [''sh'', ''-c'', ''pg_isready -U nextjs -d nextjs'']"
  by code_simp

lemma parses_apple_container_version_table:
  "apple_container_version (file_text [''COMPONENT VERSION BUILD COMMIT'', ''container 0.12.3 release unspecified'']) = ''0.12.3''"
  by code_simp

lemma recognizes_all_intercepted_ps_patterns:
  "map_option (\<lambda>q. (q_all q, q_output q)) (ps_query_of [''ps'', ''-a'', ''--format'', ''json'']) = Some (True, Json_rows)"
  "map_option (\<lambda>q. (q_all q, q_output q)) (ps_query_of [''ps'', ''-q'']) = Some (False, Ids)"
  "Option.bind (ps_query_of [''ps'', ''-q'', ''-a'', ''db'']) q_service = Some ''db''"
  "ps_query_of [''up'', ''-d''] = None" "ps_query_of [''ps'', ''--format'', ''table''] = None"
  by code_simp+

lemma docker_host_override_stops_candidate_guessing:
  "socket_candidates (Some ''unix:///tmp/custom.sock'') (Some ''/Users/x'') = [''/tmp/custom.sock'']"
  "hd (socket_candidates (Some ''tcp://1.2.3.4:2375'') (Some ''/Users/x'')) = ''/var/run/docker.sock''"
  "list_ex (ends_with ''.orbstack/run/docker.sock'') (socket_candidates (Some ''tcp://1.2.3.4:2375'') (Some ''/Users/x''))"
  by code_simp+

definition engine_port :: "string \<Rightarrow> json" where
  "engine_port ip = JObj [(''IP'', JStr ip), (''PrivatePort'', JNum (JInt 3306)), (''PublicPort'', JNum (JInt 3307)), (''Type'', JStr ''tcp'')]"

definition engine_fixture :: "json list" where
  "engine_fixture =
     [JObj [(''Id'', JStr ''aaa111''),
            (''Labels'', JObj [(''com.docker.compose.project'', JStr ''backend''), (''com.docker.compose.service'', JStr ''db'')]),
            (''Ports'', JArr [engine_port ''0.0.0.0'', engine_port ''::'']), (''State'', JStr ''running''),
            (''Status'', JStr ''Up 2 weeks (healthy)'')],
      JObj [(''Id'', JStr ''bbb222''),
            (''Labels'', JObj [(''com.docker.compose.project'', JStr ''backend''), (''com.docker.compose.service'', JStr ''app'')]),
            (''Ports'', JArr []), (''State'', JStr ''exited''), (''Status'', JStr ''Exited (1) 3 minutes ago'')],
      JObj [(''Id'', JStr ''ccc333''), (''Labels'', JObj [(''some.other.label'', JStr ''not-compose'')]), (''Ports'', JArr []),
            (''State'', JStr ''running''), (''Status'', JStr ''Up 5 days'')]]"

text \<open>The rows are printed with their service and their ports.\<close>

lemma renders_compose_ps_rows_sorted_and_filtered:
  "render_rows (\<lambda>r. join ''|'' (map (\<lambda>k. str_or_empty (jindex r k)) [''Service'', ''State'', ''Health'', ''Ports''])) engine_fixture
    = file_text [''app|exited||'', ''db|running|healthy|0.0.0.0:3307->3306/tcp'']"
  by code_simp

lemma renders_ids_one_per_line: "render_ids engine_fixture = file_text [''aaa111'', ''bbb222'']"
  by code_simp

lemma exec_arguments:
  "build_exec_args ''db'' None [''psql'', ''-U'', ''postgres''] = [''exec'', ''-i'', ''db'', ''psql'', ''-U'', ''postgres'']"
  "let l = ''/var/www/vendor/bin/phpunit -c docroot/core/phpunit.xml.dist docroot/modules/custom/*/tests/src/Unit''
   in build_exec_args ''app'' None [l] = [''exec'', ''-i'', ''app'', ''sh'', ''-c'', l]"
  "build_exec_args ''app'' None [''bash''] = [''exec'', ''-i'', ''app'', ''bash'']"
  "let q = ''SELECT count(*) FROM users WHERE id IN (1,2,3)''
   in build_exec_args ''db'' None [''psql'', ''-U'', ''postgres'', ''-c'', q] = [''exec'', ''-i'', ''db'', ''psql'', ''-U'', ''postgres'', ''-c'', q]"
  "build_exec_args ''app'' (Some ''/var/www/theme'') [''sass'', ''scss:css'']
    = [''exec'', ''-i'', ''-w'', ''/var/www/theme'', ''app'', ''sass'', ''scss:css'']"
  by code_simp+

section \<open>Proxy, tunnel and text (proxy/, tunnel/mod.rs, utils/style.rs, commands/init.rs)\<close>

text \<open>An address is accepted as a socket address if it has a colon.\<close>

definition addr :: "string \<Rightarrow> string option" where
  "addr s = (if CHR '':'' \<in> set s then Some s else None)"

lemma parses_agent_addr_from_status_output:
  "parse_agent_addr addr (file_text [''whalet: running (pid 44846), docker 29.7.1 ready'',
       ''docker socket: /Users/x/.local/state/whalet/run/docker.sock'', ''socks5 proxy: 127.0.0.1:1080 (reaches container addresses)''])
    = Some ''127.0.0.1:1080''"
  "parse_agent_addr addr ''socks5 proxy: 127.0.0.1:52341'' = Some ''127.0.0.1:52341''"
  "parse_agent_addr addr (file_text [''whalet: running (pid 41817), docker 29.7.1 ready'',
       ''docker socket: /Users/x/.local/state/whalet/run/docker.sock'']) = None"
  "parse_agent_addr addr (file_text [''socks5 proxy: starting...'']) = None" "parse_agent_addr addr (file_text [''socks5 proxy:'']) = None"
  by code_simp+

lemma format_error_chain_includes_sources:
  "format_error_chain [''client error (Connect)'', ''tcp connect error'', ''Connection refused (os error 61)'']
    = ''client error (Connect): tcp connect error: Connection refused (os error 61)''"
  by code_simp

lemma proxy_error_hint_explains_refused_connections:
  "case proxy_error_hint ''client error: Connection refused (os error 61)'' ''127.0.0.1:3000'' of
     Some hint \<Rightarrow> contains_sub ''upstream refused TCP connection'' hint \<and> contains_sub ''127.0.0.1:3000'' hint
   | None \<Rightarrow> False"
  by code_simp

lemma extracts_urls:
  "extract_url ''https://abc123.lhr.life'' = Some ''https://abc123.lhr.life''"
  "extract_url ''== ======= ===== == https://abc123def.lhr.life'' = Some ''https://abc123def.lhr.life''"
  "extract_url ''tunneled at http://abc.lhr.life'' = Some ''http://abc.lhr.life''"
  "extract_url ''https://first.lhr.life or https://second.lhr.life'' = Some ''https://first.lhr.life''"
  "map extract_url [''connecting to localhost.run...'', [], ''   '', ''abc.lhr.life''] = [None, None, None, None]"
  "extract_url ''visit https://abc.lhr.life.'' \<noteq> None"
  by code_simp+

lemma renders_escape_codes_when_colors_enabled:
  "paint True (in_color Red (plain ''err'')) = esc # ''[31merr'' @ esc # ''[0m''"
  "paint True (dimmed (plain ''note'')) = esc # ''[2mnote'' @ esc # ''[0m''"
  "paint True (bold (in_color Red (plain ''hi''))) = esc # ''[1;31mhi'' @ esc # ''[0m''"
  "paint True (bold (in_color BrightCyan (plain ''svc''))) = esc # ''[1;96msvc'' @ esc # ''[0m''"
  by code_simp+

lemma renders_plain_text:
  "paint False (bold (in_color Red (plain ''err''))) = ''err''" "paint True (plain ''plain'') = ''plain''"
  "paint_right True 6 (plain ''ab'') @ ''|'' = ''ab    |''"
  by code_simp+

lemma substitutes:
  "substitute ''Hello {NAME}!'' [(''{NAME}'', ''world'')] = ''Hello world!''"
  "substitute ''project={PROJECT_NAME} domain={DOMAIN}'' [(''{PROJECT_NAME}'', ''myapp''), (''{DOMAIN}'', ''myapp.test'')]
    = ''project=myapp domain=myapp.test''"
  "substitute ''nothing to replace here'' [(''{X}'', ''y'')] = ''nothing to replace here''"
  "substitute ''{A} and {A}'' [(''{A}'', ''foo'')] = ''foo and foo''"
  by code_simp+

section \<open>Databases (db/mod.rs, db/migrate.rs)\<close>

definition detected :: "(string \<Rightarrow> string option) \<Rightarrow> (string \<times> string \<times> string) option" where
  "detected env =
     (case detect_legacy env of Inr (k, c) \<Rightarrow> Some (backend_name k, cfg_name c, cfg_user c) | Inl _ \<Rightarrow> None)"

lemma detects_databases:
  "detected [''MYSQL_DATABASE'' \<mapsto> ''mydb'', ''MYSQL_ROOT_PASSWORD'' \<mapsto> ''secret''] = Some (''mysql'', ''mydb'', ''root'')"
  "detected [''POSTGRES_DB'' \<mapsto> ''pgdb'', ''POSTGRES_PASSWORD'' \<mapsto> ''pgpass'', ''POSTGRES_USER'' \<mapsto> ''pguser'']
    = Some (''postgres'', ''pgdb'', ''pguser'')"
  "detected [''PGDATABASE'' \<mapsto> ''pgdb'', ''PGPASSWORD'' \<mapsto> ''pgpass''] = Some (''postgres'', ''pgdb'', ''postgres'')"
  "detected [''MYSQL_DATABASE'' \<mapsto> ''mydb'', ''MYSQL_ROOT_PASSWORD'' \<mapsto> ''secret'', ''POSTGRES_DB'' \<mapsto> ''pgdb'',
      ''POSTGRES_PASSWORD'' \<mapsto> ''pgpass''] = Some (''mysql'', ''mydb'', ''root'')"
  "detected Map.empty = None"
  by code_simp+

lemma hex_encode_basic: "hex_encode [0xde, 0xad, 0xbe, 0xef] = ''deadbeef''" "hex_encode [0x00, 0xff] = ''00ff''" "hex_encode [] = []"
  by code_simp+

lemma mysql_escape_str_special_chars:
  "mysql_escape_str (''it'' @ squote # ''s'') = ''it'' @ bslash # squote # ''s''"
  "mysql_escape_str [CHR ''a'', bslash, CHR ''b''] = [CHR ''a'', bslash, bslash, CHR ''b'']"
  "mysql_escape_str (''line'' @ nl # ''next'') = ''line'' @ bslash # ''nnext''"
  "mysql_escape_str (''nul'' @ CHR 0x00 # ''byte'') = ''nul'' @ bslash # ''0byte''"
  "mysql_escape_str ''plain'' = ''plain''"
  by code_simp+

lemma dynamic_sql_helpers_escape_identifiers_and_literals:
  "pg_ident (''user'' @ dquote # ''data'') = dquote # ''user'' @ dquote # dquote # ''data'' @ [dquote]"
  "pg_string_literal (''it'' @ squote # ''s'') = squote # ''it'' @ squote # squote # ''s'' @ [squote]"
  "mysql_ident (''user'' @ btick # ''data'') = btick # ''user'' @ btick # btick # ''data'' @ [btick]"
  by code_simp+

definition to_pg :: "bool \<Rightarrow> string \<Rightarrow> string exec" where
  "to_pg auto_increment t = mysql_type_to_pg \<lparr>mc_name = ''col'', mc_type = t, mc_nullable = \<not> auto_increment, mc_auto = auto_increment\<rparr>"

lemma mysql_to_pg_types:
  "map (to_pg True) [''int(11)'', ''bigint(20)''] = map Returns [''SERIAL'', ''BIGSERIAL'']"
  "map (to_pg False) [''tinyint(1)'', ''tinyint'', ''smallint'', ''mediumint'', ''int'', ''bigint'']
    = map Returns [''BOOLEAN'', ''SMALLINT'', ''SMALLINT'', ''INTEGER'', ''INTEGER'', ''BIGINT'']"
  "map (to_pg False) [''int unsigned'', ''bigint unsigned'', ''float'', ''double'', ''decimal(10,2)'', ''decimal'', ''varchar(255)'', ''char(10)'']
    = map Returns [''BIGINT'', ''NUMERIC(20,0)'', ''REAL'', ''DOUBLE PRECISION'', ''NUMERIC(10,2)'', ''NUMERIC'', ''VARCHAR(255)'', ''CHAR(10)'']"
  by code_simp+

lemma mysql_to_pg_more_types:
  "map (to_pg False) [''tinytext'', ''text'', ''mediumtext'', ''longtext'', ''geometry''] = replicate 5 (Returns ''TEXT'')"
  "map (to_pg False) [''blob'', ''tinyblob'', ''mediumblob'', ''longblob'', ''binary'', ''varbinary''] = replicate 6 (Returns ''BYTEA'')"
  "map (to_pg False) [''date'', ''time'', ''datetime'', ''timestamp'', ''year'', ''json'']
    = map Returns [''DATE'', ''TIME'', ''TIMESTAMP'', ''TIMESTAMPTZ'', ''SMALLINT'', ''JSONB'']"
  by code_simp+

definition pg_test_col :: "string \<Rightarrow> pg_col" where
  "pg_test_col t = \<lparr>pc_name = ''col'', pc_type = t, pc_max_len = None, pc_precision = None, pc_scale = None, pc_nullable = True, pc_serial = False\<rparr>"

lemma pg_to_mysql_types:
  "map (\<lambda>t. pg_type_to_mysql (pg_test_col t\<lparr>pc_serial := True\<rparr>)) [''integer'', ''bigint''] = [''INT AUTO_INCREMENT'', ''BIGINT AUTO_INCREMENT'']"
  "map (\<lambda>t. pg_type_to_mysql (pg_test_col t)) [''boolean'', ''smallint'', ''integer'', ''bigint'', ''real'', ''double precision'', ''numeric'', ''text'']
    = [''TINYINT(1)'', ''SMALLINT'', ''INT'', ''BIGINT'', ''FLOAT'', ''DOUBLE'', ''DECIMAL'', ''LONGTEXT'']"
  "pg_type_to_mysql (pg_test_col ''numeric''\<lparr>pc_precision := Some 10, pc_scale := Some 2\<rparr>) = ''DECIMAL(10,2)''"
  "pg_type_to_mysql (pg_test_col ''character varying''\<lparr>pc_max_len := Some 100\<rparr>) = ''VARCHAR(100)''"
  "map (\<lambda>t. pg_type_to_mysql (pg_test_col t)) [''date'', ''time without time zone'', ''timestamp without time zone'', ''timestamp with time zone'',
      ''jsonb'', ''json'', ''uuid'', ''bytea''] = [''DATE'', ''TIME'', ''DATETIME'', ''DATETIME'', ''JSON'', ''JSON'', ''CHAR(36)'', ''LONGBLOB'']"
  by code_simp+

lemma build_pg_create_table_no_pk:
  "build_pg_create_table ''users''
     [\<lparr>mc_name = ''id'', mc_type = ''int'', mc_nullable = False, mc_auto = True\<rparr>,
      \<lparr>mc_name = ''name'', mc_type = ''varchar(100)'', mc_nullable = True, mc_auto = False\<rparr>] []
    = Returns (''CREATE TABLE IF NOT EXISTS '' @ pg_ident ''users'' @ '' ('' @ nl # ''  '' @ pg_ident ''id'' @ '' SERIAL NOT NULL,'' @ nl # ''  ''
        @ pg_ident ''name'' @ '' VARCHAR(100)'' @ nl # '')'')"
  by code_simp

lemma build_create_table_with_pk:
  "case build_pg_create_table ''items'' [\<lparr>mc_name = ''id'', mc_type = ''int'', mc_nullable = False, mc_auto = False\<rparr>] [''id''] of
     Returns ddl \<Rightarrow> contains_sub (''PRIMARY KEY ('' @ pg_ident ''id'' @ '')'') ddl
   | Panics \<Rightarrow> False"
  "let ddl = build_mysql_create_table ''orders'' [pg_test_col ''integer''\<lparr>pc_name := ''id'', pc_nullable := False, pc_serial := True\<rparr>] [''id'']
   in starts_with (''CREATE TABLE IF NOT EXISTS '' @ mysql_ident ''orders'') ddl
     \<and> contains_sub (mysql_ident ''id'' @ '' INT AUTO_INCREMENT NOT NULL'') ddl
     \<and> contains_sub (''PRIMARY KEY ('' @ mysql_ident ''id'' @ '')'') ddl \<and> contains_sub ''ENGINE=InnoDB'' ddl"
  by code_simp+

lemma build_pg_index_and_fk:
  "build_pg_index ''users'' \<lparr>ix_name = ''uq_email'', ix_columns = [''email''], ix_unique = True\<rparr>
    = ''CREATE UNIQUE INDEX IF NOT EXISTS '' @ pg_ident ''uq_email'' @ '' ON '' @ pg_ident ''users'' @ '' ('' @ pg_ident ''email'' @ '')''"
  "build_pg_index ''users'' \<lparr>ix_name = ''idx_name_age'', ix_columns = [''last_name'', ''age''], ix_unique = False\<rparr>
    = ''CREATE INDEX IF NOT EXISTS '' @ pg_ident ''idx_name_age'' @ '' ON '' @ pg_ident ''users'' @ '' ('' @ pg_ident ''last_name'' @ '', ''
      @ pg_ident ''age'' @ '')''"
  "build_pg_fk ''orders'' \<lparr>fk_name = ''fk_order_user'', fk_column = ''user_id'', fk_table = ''users'', fk_ref = ''id''\<rparr>
    = ''ALTER TABLE '' @ pg_ident ''orders'' @ '' ADD CONSTRAINT '' @ pg_ident ''fk_order_user'' @ '' FOREIGN KEY ('' @ pg_ident ''user_id''
      @ '') REFERENCES '' @ pg_ident ''users'' @ '' ('' @ pg_ident ''id'' @ '')''"
  by code_simp+

definition june_15 :: date where
  "june_15 = \<lparr>d_year = 2024, d_month = 6, d_day = 15\<rparr>"

definition clock :: "nat \<Rightarrow> time_of_day" where
  "clock nanos = \<lparr>t_hour = 13, t_minute = 5, t_second = 7, t_nanos = nanos\<rparr>"

lemma pg_literals:
  "map (cell_to_pg_literal (\<lambda>_. [])) [CNull, CBool True, CBool False, CInt 42, CInt (- 1), CFloat Nan, CFloat (Infinite False)]
    = [''NULL'', ''TRUE'', ''FALSE'', ''42'', ''-1'', ''NULL'', ''NULL'']"
  "cell_to_pg_literal (\<lambda>_. []) (CBytes [0xca, 0xfe]) = in_quotes (bslash # ''xcafe'')"
  "cell_to_pg_literal (\<lambda>_. []) (CText (''it'' @ squote # ''s'')) = in_quotes (''it'' @ squote # squote # ''s'')"
  by code_simp+

lemma pg_literal_dates:
  "cell_to_pg_literal (\<lambda>_. []) (CDate june_15) = in_quotes ''2024-06-15''"
  "cell_to_pg_literal (\<lambda>_. []) (CTime (clock 0)) = in_quotes ''13:05:07''"
  "cell_to_pg_literal (\<lambda>_. []) (CDateTime june_15 (clock 0)) = in_quotes ''2024-06-15 13:05:07''"
  by code_simp+

lemma pg_literal_time_fraction_only_when_nonzero:
  "push_subsecond ''13:05:07'' 500000000 = ''13:05:07.500''"
  "push_subsecond ''13:05:07'' 123000 = ''13:05:07.000123''"
  "push_subsecond ''2024-06-15 13:05:07'' 250000000 = ''2024-06-15 13:05:07.250''"
proof -
  have "pad 3 500 = ''500''" "pad 6 123 = ''000123''" "pad 3 250 = ''250''" by code_simp+
  then show "push_subsecond ''13:05:07'' 500000000 = ''13:05:07.500''" "push_subsecond ''13:05:07'' 123000 = ''13:05:07.000123''"
      "push_subsecond ''2024-06-15 13:05:07'' 250000000 = ''2024-06-15 13:05:07.250''"
    by (simp_all add: push_subsecond_def)
qed

lemma mysql_literals:
  "map (cell_to_mysql_literal (\<lambda>_. [])) [CNull, CBool True, CBool False] = [''NULL'', ''1'', ''0'']"
  "cell_to_mysql_literal (\<lambda>_. []) (CText (''it'' @ squote # ''s'')) = in_quotes (''it'' @ bslash # squote # ''s'')"
  "cell_to_mysql_literal (\<lambda>_. []) (CBytes [0xde, 0xad]) = CHR ''X'' # in_quotes ''dead''"
  "cell_to_mysql_literal (\<lambda>_. []) (CDate \<lparr>d_year = 2024, d_month = 1, d_day = 1\<rparr>) = in_quotes ''2024-01-01''"
  by code_simp+

end
